(* ===== verification/TG_Prelude.thy ===== *)
theory TG_Prelude
  imports Complex_Main "HOL-Library.List_Lexorder" "HOL-Library.Char_ord"
    "HOL-Library.FSet" "HOL-Library.Multiset" "HOL-Library.Product_Lexorder"
    "HOL-Library.Option_ord" "HOL-Library.AList"
begin

text \<open>
  Shared vocabulary of the development: the exceptions of the Python code as values, the
  result type and its bind, Python dictionaries, sorting and string helpers, and the generic
  lemmas the component theories rely on.

  Conventions.  A Python \<open>str\<close> is an Isabelle \<open>string\<close>; the strings of the model are
  ASCII, so that \<open>len\<close>, ordering, \<open>strip\<close>, \<open>casefold\<close> agree with Python.  A
  \<open>datetime\<close> is the number of microseconds since the epoch in UTC, a \<open>date\<close> its
  ordinal day, both \<open>int\<close>.  \<open>None\<close> is \<open>option\<close>'s \<open>None\<close>.  A
  \<open>frozenset\<close> is an \<open>fset\<close>; a \<open>dict\<close> whose order matters is an association
  list in insertion order, and \<open>{key(x): x for x in xs}\<close>, where the last binding of a
  key wins, is \<open>dict_by\<close>.
\<close>

named_theorems result_simps \<open>rewriting of the result monad\<close>
named_theorems finding_simps \<open>fields of the findings an evaluator emits\<close>

subsection \<open>Exceptions as values\<close>

datatype error =
    ValueError string
  | InvalidOperation
  | DivisionByZero
  | TypeError string
  | KeyError string
  | LookupError string
  | RuntimeError string
  | OutboxLeaseLostError string
  | ProjectNotFoundError string
  | OptimisticLockError int int
  | HTTPException int string
  | IntegrityError string
  | IdempotencyConflictError string
  | IdempotencyInProgressError string
  | OSError string
  | ControlledVersionIntegrityError string

type_synonym 'a result = "error + 'a"

definition bindR :: "'a result \<Rightarrow> ('a \<Rightarrow> 'b result) \<Rightarrow> 'b result" where
  "bindR m f = (case m of Inl e \<Rightarrow> Inl e | Inr x \<Rightarrow> f x)"

lemma bindR_Inl [simp]: "bindR (Inl e) f = Inl e"
  by (simp add: bindR_def)

lemma bindR_Inr [simp]: "bindR (Inr x) f = f x"
  by (simp add: bindR_def)

lemma bindR_eq_Inr [result_simps]: "bindR m f = Inr y \<longleftrightarrow> (\<exists>x. m = Inr x \<and> f x = Inr y)"
  by (cases m) (auto simp: bindR_def)

lemma bindR_eq_Inl [result_simps]:
  "bindR m f = Inl e \<longleftrightarrow> m = Inl e \<or> (\<exists>x. m = Inr x \<and> f x = Inl e)"
  by (cases m) (auto simp: bindR_def)

lemma bindR_weak_cong: "m = m' \<Longrightarrow> bindR m f = bindR m' f"
  by simp

definition is_ok :: "'a result \<Rightarrow> bool" where
  "is_ok r = (case r of Inl _ \<Rightarrow> False | Inr _ \<Rightarrow> True)"

lemma is_ok_simps [simp]: "is_ok (Inr x)" "\<not> is_ok (Inl e)"
  by (simp_all add: is_ok_def)

lemma is_ok_iff: "is_ok r \<longleftrightarrow> (\<exists>x. r = Inr x)"
  by (cases r) (auto simp: is_ok_def)

text \<open>A Python loop that raises at the first failing element and collects the others.\<close>

fun mapR :: "('a \<Rightarrow> 'b result) \<Rightarrow> 'a list \<Rightarrow> 'b list result" where
  "mapR f [] = Inr []"
| "mapR f (x # xs) = bindR (f x) (\<lambda>y. bindR (mapR f xs) (\<lambda>ys. Inr (y # ys)))"

fun foldR :: "('s \<Rightarrow> 'a \<Rightarrow> 's result) \<Rightarrow> 's \<Rightarrow> 'a list \<Rightarrow> 's result" where
  "foldR f s [] = Inr s"
| "foldR f s (x # xs) = bindR (f s x) (\<lambda>s'. foldR f s' xs)"

lemma mapR_Inr_iff: "mapR f xs = Inr ys \<longleftrightarrow> list_all2 (\<lambda>x y. f x = Inr y) xs ys"
  by (induction xs arbitrary: ys) (auto simp: result_simps list_all2_Cons1)

lemma mapR_cong_Inr: "(\<And>x. x \<in> set xs \<Longrightarrow> f x = Inr (g x)) \<Longrightarrow> mapR f xs = Inr (map g xs)"
  by (induction xs) auto

lemma mapR_length: "mapR f xs = Inr ys \<Longrightarrow> length ys = length xs"
  by (auto simp: mapR_Inr_iff dest: list_all2_lengthD)

lemma mapR_ok: "mapR f xs = Inr ys \<Longrightarrow> x \<in> set xs \<Longrightarrow> \<exists>y \<in> set ys. f x = Inr y"
  by (induction xs arbitrary: ys) (auto simp: result_simps)

lemma mapR_fun: "mapR f xs = Inr ys \<Longrightarrow> ys = map (\<lambda>x. projr (f x)) xs"
  by (induction xs arbitrary: ys) (auto simp: result_simps)

lemma mapR_error: "x \<in> set xs \<Longrightarrow> f x = Inl e \<Longrightarrow> \<exists>e'. mapR f xs = Inl e'"
proof (induction xs)
  case (Cons a xs)
  then show ?case by (cases "f a"; cases "mapR f xs") auto
qed simp

lemma mapR_cong [fundef_cong]:
  "xs = ys \<Longrightarrow> (\<And>x. x \<in> set ys \<Longrightarrow> f x = g x) \<Longrightarrow> mapR f xs = mapR g ys"
  by (induction xs arbitrary: ys) auto

lemma is_ok_bindR: "is_ok (bindR m f) \<longleftrightarrow> is_ok m \<and> is_ok (f (projr m))"
  by (cases m) simp_all

lemma is_ok_mapR: "is_ok (mapR f xs) \<longleftrightarrow> (\<forall>x \<in> set xs. is_ok (f x))"
  by (induction xs) (auto simp: is_ok_bindR)

lemma mapR_eq_map: "mapR (\<lambda>x. Inr (g x)) xs = Inr (map g xs)"
  by (induction xs) simp_all

subsection \<open>Optional values\<close>

text \<open>The truth value of an optional string: neither \<open>None\<close> nor empty.\<close>

definition str_true :: "string option \<Rightarrow> bool" where
  "str_true s = (case s of None \<Rightarrow> False | Some t \<Rightarrow> t \<noteq> [])"

lemma str_true_simps [simp]: "\<not> str_true None" "str_true (Some t) \<longleftrightarrow> t \<noteq> []"
  by (simp_all add: str_true_def)

subsection \<open>Dictionaries and duplicates\<close>

definition dict_by :: "('a \<Rightarrow> 'k) \<Rightarrow> 'a list \<Rightarrow> 'k \<Rightarrow> 'a option" where
  "dict_by key xs k = find (\<lambda>x. key x = k) (rev xs)"

lemma find_SomeD: "find P xs = Some x \<Longrightarrow> x \<in> set xs \<and> P x"
  by (induction xs) (auto split: if_splits)

lemma dict_by_Some: "dict_by key xs k = Some x \<Longrightarrow> x \<in> set xs \<and> key x = k"
  by (auto simp: dict_by_def dest: find_SomeD)

lemma dict_by_None: "dict_by key xs k = None \<longleftrightarrow> k \<notin> key ` set xs"
  by (auto simp: dict_by_def find_None_iff)

lemma dict_by_None_keys: "dict_by key xs k = None \<longleftrightarrow> (\<forall>x \<in> set xs. key x \<noteq> k)"
  by (auto simp: dict_by_None)

lemma dict_by_distinct:
  assumes "distinct (map key xs)" "x \<in> set xs"
  shows "dict_by key xs (key x) = Some x"
proof (cases "dict_by key xs (key x)")
  case None
  with assms(2) show ?thesis by (auto simp: dict_by_None)
next
  case (Some y)
  then have "y \<in> set xs" "key y = key x" by (auto dest: dict_by_Some)
  with assms have "y = x" by (auto simp: distinct_map inj_on_def)
  with Some show ?thesis by simp
qed

lemma dict_by_last_wins: "dict_by key (xs @ [x]) (key x) = Some x"
  by (simp add: dict_by_def)

text \<open>\<open>tuple(dict.fromkeys(xs))\<close>: the first occurrence of every element, in order.\<close>

definition from_keys :: "'a list \<Rightarrow> 'a list" where
  "from_keys xs = rev (remdups (rev xs))"

lemma set_from_keys [simp]: "set (from_keys xs) = set xs"
  by (simp add: from_keys_def)

lemma distinct_from_keys [simp]: "distinct (from_keys xs)"
  by (simp add: from_keys_def)

text \<open>\<open>sorted({x for x in xs if xs.count(x) > 1})\<close>.\<close>

definition repeated :: "'a::linorder list \<Rightarrow> 'a list" where
  "repeated xs = sort (remdups (filter (\<lambda>x. count_list xs x > 1) xs))"

lemma count_list_gt_1_distinct: "(\<exists>x \<in> set xs. count_list xs x > 1) \<longleftrightarrow> \<not> distinct xs"
proof (induction xs)
  case (Cons a xs)
  show ?case
  proof (cases "a \<in> set xs")
    case True
    then have "count_list xs a > 0" by (simp add: count_list_0_iff neq0_conv [symmetric] del: neq0_conv)
    with True show ?thesis by auto
  next
    case False
    then have "count_list xs a = 0" by (simp add: count_list_0_iff)
    moreover have "x \<in> set xs \<Longrightarrow> a \<noteq> x" for x using False by auto
    ultimately show ?thesis using Cons.IH False by auto
  qed
qed simp

lemma repeated_empty_iff: "repeated xs = [] \<longleftrightarrow> distinct xs"
proof -
  have "repeated xs = [] \<longleftrightarrow> set (sort (remdups (filter (\<lambda>x. count_list xs x > 1) xs))) = {}"
    unfolding repeated_def set_empty ..
  also have "\<dots> \<longleftrightarrow> distinct xs"
    using count_list_gt_1_distinct [of xs] by auto
  finally show ?thesis .
qed

subsection \<open>Sorting\<close>

lemma sort_key_perm_eq:
  assumes "mset xs = mset ys" "inj_on f (set xs)"
  shows "sort_key f xs = sort_key f ys"
proof (rule properties_for_sort_key)
  show "mset (sort_key f ys) = mset xs" using assms(1) by simp
  show "sorted (map f (sort_key f ys))" by simp
  fix k assume "k \<in> set (sort_key f ys)"
  then have k: "k \<in> set xs" using assms(1) by (metis set_mset_mset set_sort)
  have *: "filter (\<lambda>x. f k = f x) zs = replicate (count_list zs k) k"
    if "set zs \<subseteq> set xs" for zs
    using that
  proof (induction zs)
    case (Cons z zs)
    moreover have "f k = f z \<longleftrightarrow> z = k"
      using assms(2) k Cons.prems by (auto simp: inj_on_def)
    ultimately show ?case by auto
  qed simp
  have "count_list (sort_key f ys) k = count_list xs k"
    using assms(1) by (simp flip: count_mset)
  moreover have "set (sort_key f ys) \<subseteq> set xs"
    using assms(1) by (metis order_refl set_mset_mset set_sort)
  ultimately show "filter (\<lambda>x. f k = f x) (sort_key f ys) = filter (\<lambda>x. f k = f x) xs"
    using * [of "sort_key f ys"] * [of xs] by simp
qed

lemma fset_of_list_sort [simp]: "fset_of_list (sort xs) = fset_of_list xs"
  by (simp add: fset_eq_iff fset_of_list_elem)

lemma sort_Nil_iff [simp]: "sort xs = [] \<longleftrightarrow> xs = []"
  by (metis length_0_conv length_sort)

lemma sorted_list_of_fset_Nil: "sorted_list_of_fset S = [] \<longleftrightarrow> S = {||}"
  by (metis bot_fset.rep_eq fset_inject sorted_list_of_fset_simps(1) set_empty)

lemma concat_map_Nil: "concat (map f xs) = [] \<longleftrightarrow> (\<forall>x \<in> set xs. f x = [])"
  by auto

lemma sum_list_mset: "mset xs = mset ys \<Longrightarrow> sum_list (map f xs) = sum_list (map f ys)"
  for f :: "'a \<Rightarrow> 'b::comm_monoid_add"
  by (metis mset_map sum_mset_sum_list)

lemma sum_list_partition:
  fixes f :: "'a \<Rightarrow> 'b::comm_monoid_add"
  assumes "finite K" "key ` set xs \<subseteq> K"
  shows "(\<Sum>k\<in>K. sum_list (map f (filter (\<lambda>x. key x = k) xs))) = sum_list (map f xs)"
  using assms(2)
proof (induction xs)
  case (Cons x xs)
  have "(\<Sum>k\<in>K. sum_list (map f (filter (\<lambda>y. key y = k) (x # xs))))
      = (\<Sum>k\<in>K. (if k = key x then f x else 0) + sum_list (map f (filter (\<lambda>y. key y = k) xs)))"
    by (rule sum.cong) auto
  also have "\<dots> = f x + sum_list (map f xs)"
    using Cons assms(1) by (simp add: sum.distrib)
  finally show ?case by simp
qed simp

subsection \<open>Text\<close>

definition py_isspace :: "char \<Rightarrow> bool" where
  "py_isspace c = (let n = of_char c :: nat in (9 \<le> n \<and> n \<le> 13) \<or> (28 \<le> n \<and> n \<le> 32))"

definition strip :: "string \<Rightarrow> string" where
  "strip s = rev (dropWhile py_isspace (rev (dropWhile py_isspace s)))"

definition lower_char :: "char \<Rightarrow> char" where
  "lower_char c = (let n = of_char c :: nat in if 65 \<le> n \<and> n \<le> 90 then char_of (n + 32) else c)"

definition upper_char :: "char \<Rightarrow> char" where
  "upper_char c = (let n = of_char c :: nat in if 97 \<le> n \<and> n \<le> 122 then char_of (n - 32) else c)"

definition casefold :: "string \<Rightarrow> string" where
  "casefold = map lower_char"

definition upper :: "string \<Rightarrow> string" where
  "upper = map upper_char"

text \<open>\<open>str(n)\<close> of an integer.\<close>

fun nat_str :: "nat \<Rightarrow> string" where
  "nat_str n = (if n < 10 then [char_of (48 + n)] else nat_str (n div 10) @ [char_of (48 + n mod 10)])"

declare nat_str.simps [simp del]

definition int_str :: "int \<Rightarrow> string" where
  "int_str n = (if n < 0 then ''-'' @ nat_str (nat (- n)) else nat_str (nat n))"

text \<open>\<open>repr\<close> of a string and of a list of strings.\<close>

definition hex_digit :: "nat \<Rightarrow> char" where
  "hex_digit n = (if n < 10 then char_of (48 + n) else char_of (87 + n))"

definition repr_char :: "char \<Rightarrow> char \<Rightarrow> string" where
  "repr_char q c = (let n = of_char c :: nat in
     if c = q \<or> n = 92 then [char_of (92 :: nat), c]
     else if n = 9 then [char_of (92 :: nat), CHR ''t'']
     else if n = 10 then [char_of (92 :: nat), CHR ''n'']
     else if n = 13 then [char_of (92 :: nat), CHR ''r'']
     else if n < 32 \<or> n = 127 then [char_of (92 :: nat), CHR ''x'', hex_digit (n div 16), hex_digit (n mod 16)]
     else [c])"

definition py_repr :: "string \<Rightarrow> string" where
  "py_repr s = (let q = (if CHR 0x27 \<in> set s \<and> CHR 0x22 \<notin> set s then CHR 0x22 else CHR 0x27)
     in [q] @ concat (map (repr_char q) s) @ [q])"

definition join_with :: "string \<Rightarrow> string list \<Rightarrow> string" where
  "join_with sep ws = concat (case ws of [] \<Rightarrow> [] | v # vs \<Rightarrow> v # map (\<lambda>x. sep @ x) vs)"

definition py_repr_list :: "string list \<Rightarrow> string" where
  "py_repr_list xs = ''['' @ join_with '', '' (map py_repr xs) @ '']''"

text \<open>The text normalisation the services share: strip, then reject blank or over-long.\<close>

definition required_text :: "string \<Rightarrow> string \<Rightarrow> nat \<Rightarrow> string result" where
  "required_text value field max_length = (let normalized = strip value in
     if normalized = [] then Inl (ValueError (field @ '' is required''))
     else if length normalized > max_length then Inl (ValueError (field @ '' exceeds '' @ nat_str max_length @ '' characters''))
     else Inr normalized)"

lemma required_text_Inr:
  "required_text value field n = Inr t \<longleftrightarrow> t = strip value \<and> t \<noteq> [] \<and> length t \<le> n"
  by (auto simp: required_text_def Let_def)

text \<open>\<open>s.split()\<close>: the maximal runs of non-space characters.\<close>

function split_ws :: "string \<Rightarrow> string list" where
  "split_ws s = (case dropWhile py_isspace s of
     [] \<Rightarrow> []
   | t \<Rightarrow> takeWhile (\<lambda>c. \<not> py_isspace c) t # split_ws (dropWhile (\<lambda>c. \<not> py_isspace c) t))"
  by pat_completeness auto
termination
proof (relation "measure length", goal_cases)
  case (2 s c cs)
  have "length (dropWhile (\<lambda>c. \<not> py_isspace c) (c # cs)) \<le> length cs"
    using hd_dropWhile [of py_isspace s] 2
    by (auto simp: length_dropWhile_le)
  also have "length cs < length s"
    using length_dropWhile_le [of py_isspace s] 2 by (metis Suc_le_eq length_Cons)
  finally show ?case by simp
qed simp

declare split_ws.simps [simp del]

definition join_space :: "string list \<Rightarrow> string" where
  "join_space ws = concat (case ws of [] \<Rightarrow> [] | v # vs \<Rightarrow> v # map (\<lambda>x. CHR '' '' # x) vs)"

text \<open>\<open>" ".join(value.casefold().split())\<close>, the normalisation several modules share.\<close>

definition normal_text :: "string \<Rightarrow> string" where
  "normal_text s = join_space (split_ws (casefold s))"

lemma dropWhile_idem: "dropWhile P (dropWhile P xs) = dropWhile P xs"
  by (induction xs) auto

lemma dropWhile_suffix_hd: "dropWhile P xs = xs \<longleftrightarrow> xs = [] \<or> \<not> P (hd xs)"
proof
  assume "dropWhile P xs = xs"
  then show "xs = [] \<or> \<not> P (hd xs)" by (cases xs) (auto, metis hd_dropWhile list.sel(1) list.distinct(1))
next
  assume "xs = [] \<or> \<not> P (hd xs)"
  then show "dropWhile P xs = xs" by (cases xs) auto
qed

lemma length_dropWhile_eq: "length (dropWhile P xs) = length xs \<Longrightarrow> dropWhile P xs = xs"
  by (cases xs) (auto, metis Suc_n_not_le_n length_dropWhile_le)

lemma strip_eq_iff: "strip s = s \<longleftrightarrow> s = [] \<or> \<not> py_isspace (hd s) \<and> \<not> py_isspace (last s)"
proof (cases "s = []")
  case False
  let ?d = "dropWhile py_isspace"
  have "strip s = s \<longleftrightarrow> ?d s = s \<and> ?d (rev s) = rev s"
  proof
    assume *: "strip s = s"
    have "length (strip s) \<le> length (?d s)"
      unfolding strip_def by (metis length_dropWhile_le length_rev)
    with * have "?d s = s"
      by (metis length_dropWhile_eq length_dropWhile_le order_antisym)
    moreover from this * have "rev (?d (rev s)) = s" by (simp add: strip_def)
    ultimately show "?d s = s \<and> ?d (rev s) = rev s" by (metis rev_rev_ident)
  qed (simp add: strip_def)
  with False show ?thesis by (simp add: dropWhile_suffix_hd hd_rev)
qed (simp add: strip_def)

end
