(* ===== verification/TG_Enums.thy ===== *)
theory TG_Enums
  imports TG_Prelude
begin

text \<open>
  The string enumerations of \<open>domain/enums.py\<close>: one datatype per class with the class's
  members as constructors (written \<open>ApprovalState.DRAFT\<close> as in the source) and the
  \<open>.value\<close> of a member, which the code uses for sorting, keys and messages.  The
  enumerations the code sorts by value are instances of \<open>linorder\<close> with that order.
\<close>

named_theorems enum_values \<open>the values of enumeration members\<close>

datatype ApprovalState =
    DRAFT
  | DOCUMENTS_INCOMPLETE
  | EXTRACTION_IN_PROGRESS
  | EXTRACTION_REVIEW
  | BOQ_IN_PROGRESS
  | BOQ_REVIEW
  | PRICING_IN_PROGRESS
  | RFQ_REQUIRED
  | CALCULATION_IN_PROGRESS
  | INDEPENDENT_VALIDATION
  | EXPERT_REVIEW
  | BLOCKED
  | APPROVED_FOR_INTERNAL_USE
  | APPROVED_FOR_BID
  | SUPERSEDED
  | ARCHIVED

fun ApprovalState_value :: "ApprovalState \<Rightarrow> string" where
  "ApprovalState_value ApprovalState.DRAFT = ''DRAFT''"
| "ApprovalState_value ApprovalState.DOCUMENTS_INCOMPLETE = ''DOCUMENTS_INCOMPLETE''"
| "ApprovalState_value ApprovalState.EXTRACTION_IN_PROGRESS = ''EXTRACTION_IN_PROGRESS''"
| "ApprovalState_value ApprovalState.EXTRACTION_REVIEW = ''EXTRACTION_REVIEW''"
| "ApprovalState_value ApprovalState.BOQ_IN_PROGRESS = ''BOQ_IN_PROGRESS''"
| "ApprovalState_value ApprovalState.BOQ_REVIEW = ''BOQ_REVIEW''"
| "ApprovalState_value ApprovalState.PRICING_IN_PROGRESS = ''PRICING_IN_PROGRESS''"
| "ApprovalState_value ApprovalState.RFQ_REQUIRED = ''RFQ_REQUIRED''"
| "ApprovalState_value ApprovalState.CALCULATION_IN_PROGRESS = ''CALCULATION_IN_PROGRESS''"
| "ApprovalState_value ApprovalState.INDEPENDENT_VALIDATION = ''INDEPENDENT_VALIDATION''"
| "ApprovalState_value ApprovalState.EXPERT_REVIEW = ''EXPERT_REVIEW''"
| "ApprovalState_value ApprovalState.BLOCKED = ''BLOCKED''"
| "ApprovalState_value ApprovalState.APPROVED_FOR_INTERNAL_USE = ''APPROVED_FOR_INTERNAL_USE''"
| "ApprovalState_value ApprovalState.APPROVED_FOR_BID = ''APPROVED_FOR_BID''"
| "ApprovalState_value ApprovalState.SUPERSEDED = ''SUPERSEDED''"
| "ApprovalState_value ApprovalState.ARCHIVED = ''ARCHIVED''"

datatype Severity =
    INFO
  | WARNING
  | BLOCKER

fun Severity_value :: "Severity \<Rightarrow> string" where
  "Severity_value Severity.INFO = ''INFO''"
| "Severity_value Severity.WARNING = ''WARNING''"
| "Severity_value Severity.BLOCKER = ''BLOCKER''"

datatype VerificationStatus =
    UNVERIFIED
  | IN_REVIEW
  | VERIFIED
  | REJECTED
  | CONFLICT

fun VerificationStatus_value :: "VerificationStatus \<Rightarrow> string" where
  "VerificationStatus_value VerificationStatus.UNVERIFIED = ''UNVERIFIED''"
| "VerificationStatus_value VerificationStatus.IN_REVIEW = ''IN_REVIEW''"
| "VerificationStatus_value VerificationStatus.VERIFIED = ''VERIFIED''"
| "VerificationStatus_value VerificationStatus.REJECTED = ''REJECTED''"
| "VerificationStatus_value VerificationStatus.CONFLICT = ''CONFLICT''"

datatype VersionStatus =
    DRAFT
  | APPROVED
  | SUPERSEDED
  | REVOKED

fun VersionStatus_value :: "VersionStatus \<Rightarrow> string" where
  "VersionStatus_value VersionStatus.DRAFT = ''DRAFT''"
| "VersionStatus_value VersionStatus.APPROVED = ''APPROVED''"
| "VersionStatus_value VersionStatus.SUPERSEDED = ''SUPERSEDED''"
| "VersionStatus_value VersionStatus.REVOKED = ''REVOKED''"

datatype EvidenceMethod =
    FILE_METADATA
  | NATIVE_PARSER
  | FORMULA_EVALUATION
  | TABLE_PARSER
  | VISUAL_MODEL
  | OCR
  | RULE_ENGINE
  | EXTERNAL_SYSTEM
  | MANUAL

fun EvidenceMethod_value :: "EvidenceMethod \<Rightarrow> string" where
  "EvidenceMethod_value EvidenceMethod.FILE_METADATA = ''FILE_METADATA''"
| "EvidenceMethod_value EvidenceMethod.NATIVE_PARSER = ''NATIVE_PARSER''"
| "EvidenceMethod_value EvidenceMethod.FORMULA_EVALUATION = ''FORMULA_EVALUATION''"
| "EvidenceMethod_value EvidenceMethod.TABLE_PARSER = ''TABLE_PARSER''"
| "EvidenceMethod_value EvidenceMethod.VISUAL_MODEL = ''VISUAL_MODEL''"
| "EvidenceMethod_value EvidenceMethod.OCR = ''OCR''"
| "EvidenceMethod_value EvidenceMethod.RULE_ENGINE = ''RULE_ENGINE''"
| "EvidenceMethod_value EvidenceMethod.EXTERNAL_SYSTEM = ''EXTERNAL_SYSTEM''"
| "EvidenceMethod_value EvidenceMethod.MANUAL = ''MANUAL''"

datatype MatchClass =
    EXACT
  | FUNCTIONAL_ANALOGUE
  | CONDITIONALLY_ACCEPTABLE_ANALOGUE
  | TECHNICALLY_UNACCEPTABLE
  | INSUFFICIENT_DATA

fun MatchClass_value :: "MatchClass \<Rightarrow> string" where
  "MatchClass_value MatchClass.EXACT = ''EXACT''"
| "MatchClass_value MatchClass.FUNCTIONAL_ANALOGUE = ''FUNCTIONAL_ANALOGUE''"
| "MatchClass_value MatchClass.CONDITIONALLY_ACCEPTABLE_ANALOGUE = ''CONDITIONALLY_ACCEPTABLE_ANALOGUE''"
| "MatchClass_value MatchClass.TECHNICALLY_UNACCEPTABLE = ''TECHNICALLY_UNACCEPTABLE''"
| "MatchClass_value MatchClass.INSUFFICIENT_DATA = ''INSUFFICIENT_DATA''"

datatype PriceEvidenceClass =
    OFFICIAL_OR_PRIMARY
  | INDEPENDENT_MARKET
  | INTERNAL_HISTORY
  | COMMERCIAL_QUOTE

fun PriceEvidenceClass_value :: "PriceEvidenceClass \<Rightarrow> string" where
  "PriceEvidenceClass_value PriceEvidenceClass.OFFICIAL_OR_PRIMARY = ''OFFICIAL_OR_PRIMARY''"
| "PriceEvidenceClass_value PriceEvidenceClass.INDEPENDENT_MARKET = ''INDEPENDENT_MARKET''"
| "PriceEvidenceClass_value PriceEvidenceClass.INTERNAL_HISTORY = ''INTERNAL_HISTORY''"
| "PriceEvidenceClass_value PriceEvidenceClass.COMMERCIAL_QUOTE = ''COMMERCIAL_QUOTE''"

lemma PriceEvidenceClass_value_inj [simp]: "PriceEvidenceClass_value x = PriceEvidenceClass_value y \<longleftrightarrow> x = y"
  by (cases x; cases y; simp)

instantiation PriceEvidenceClass :: linorder
begin

definition less_eq_PriceEvidenceClass :: "PriceEvidenceClass \<Rightarrow> PriceEvidenceClass \<Rightarrow> bool" where
  "x \<le> y \<longleftrightarrow> PriceEvidenceClass_value x \<le> PriceEvidenceClass_value y"

definition less_PriceEvidenceClass :: "PriceEvidenceClass \<Rightarrow> PriceEvidenceClass \<Rightarrow> bool" where
  "x < y \<longleftrightarrow> PriceEvidenceClass_value x < PriceEvidenceClass_value y"

instance
  by standard (auto simp: less_eq_PriceEvidenceClass_def less_PriceEvidenceClass_def order_less_le)

end

definition all_PriceEvidenceClass :: "PriceEvidenceClass list" where
  "all_PriceEvidenceClass = [PriceEvidenceClass.OFFICIAL_OR_PRIMARY, PriceEvidenceClass.INDEPENDENT_MARKET, PriceEvidenceClass.INTERNAL_HISTORY, PriceEvidenceClass.COMMERCIAL_QUOTE]"

lemma set_all_PriceEvidenceClass [simp]: "set all_PriceEvidenceClass = UNIV"
proof -
  have "x \<in> set all_PriceEvidenceClass" for x by (cases x) (simp_all add: all_PriceEvidenceClass_def)
  then show ?thesis by auto
qed

lemma distinct_all_PriceEvidenceClass [simp]: "distinct all_PriceEvidenceClass"
  by (simp add: all_PriceEvidenceClass_def)

datatype PriceSourceType =
    FGIS_CS
  | WON_TENDER
  | MARKETPLACE
  | SUPPLIER_WEBSITE
  | SUPPLIER_QUOTE
  | OTHER_OFFICIAL

fun PriceSourceType_value :: "PriceSourceType \<Rightarrow> string" where
  "PriceSourceType_value PriceSourceType.FGIS_CS = ''FGIS_CS''"
| "PriceSourceType_value PriceSourceType.WON_TENDER = ''WON_TENDER''"
| "PriceSourceType_value PriceSourceType.MARKETPLACE = ''MARKETPLACE''"
| "PriceSourceType_value PriceSourceType.SUPPLIER_WEBSITE = ''SUPPLIER_WEBSITE''"
| "PriceSourceType_value PriceSourceType.SUPPLIER_QUOTE = ''SUPPLIER_QUOTE''"
| "PriceSourceType_value PriceSourceType.OTHER_OFFICIAL = ''OTHER_OFFICIAL''"

datatype PriceStatus =
    UNNORMALIZED
  | NORMALIZED
  | VERIFIED
  | RFQ_REQUIRED
  | EXPERT_REVIEW_REQUIRED
  | EXPIRED
  | REJECTED

fun PriceStatus_value :: "PriceStatus \<Rightarrow> string" where
  "PriceStatus_value PriceStatus.UNNORMALIZED = ''UNNORMALIZED''"
| "PriceStatus_value PriceStatus.NORMALIZED = ''NORMALIZED''"
| "PriceStatus_value PriceStatus.VERIFIED = ''VERIFIED''"
| "PriceStatus_value PriceStatus.RFQ_REQUIRED = ''RFQ_REQUIRED''"
| "PriceStatus_value PriceStatus.EXPERT_REVIEW_REQUIRED = ''EXPERT_REVIEW_REQUIRED''"
| "PriceStatus_value PriceStatus.EXPIRED = ''EXPIRED''"
| "PriceStatus_value PriceStatus.REJECTED = ''REJECTED''"

datatype VatBasis =
    EXCLUSIVE
  | INCLUSIVE
  | NOT_APPLICABLE

fun VatBasis_value :: "VatBasis \<Rightarrow> string" where
  "VatBasis_value VatBasis.EXCLUSIVE = ''EXCLUSIVE''"
| "VatBasis_value VatBasis.INCLUSIVE = ''INCLUSIVE''"
| "VatBasis_value VatBasis.NOT_APPLICABLE = ''NOT_APPLICABLE''"

datatype CostCategory =
    LABOUR
  | PLANT
  | MATERIAL
  | SUBCONTRACT
  | LOGISTICS
  | MOBILISATION
  | CONTRACT_FINANCE
  | RISK
  | OVERHEAD
  | PROFIT
  | TAX

fun CostCategory_value :: "CostCategory \<Rightarrow> string" where
  "CostCategory_value CostCategory.LABOUR = ''LABOUR''"
| "CostCategory_value CostCategory.PLANT = ''PLANT''"
| "CostCategory_value CostCategory.MATERIAL = ''MATERIAL''"
| "CostCategory_value CostCategory.SUBCONTRACT = ''SUBCONTRACT''"
| "CostCategory_value CostCategory.LOGISTICS = ''LOGISTICS''"
| "CostCategory_value CostCategory.MOBILISATION = ''MOBILISATION''"
| "CostCategory_value CostCategory.CONTRACT_FINANCE = ''CONTRACT_FINANCE''"
| "CostCategory_value CostCategory.RISK = ''RISK''"
| "CostCategory_value CostCategory.OVERHEAD = ''OVERHEAD''"
| "CostCategory_value CostCategory.PROFIT = ''PROFIT''"
| "CostCategory_value CostCategory.TAX = ''TAX''"

lemma CostCategory_value_inj [simp]: "CostCategory_value x = CostCategory_value y \<longleftrightarrow> x = y"
  by (cases x; cases y; simp)

instantiation CostCategory :: linorder
begin

definition less_eq_CostCategory :: "CostCategory \<Rightarrow> CostCategory \<Rightarrow> bool" where
  "x \<le> y \<longleftrightarrow> CostCategory_value x \<le> CostCategory_value y"

definition less_CostCategory :: "CostCategory \<Rightarrow> CostCategory \<Rightarrow> bool" where
  "x < y \<longleftrightarrow> CostCategory_value x < CostCategory_value y"

instance
  by standard (auto simp: less_eq_CostCategory_def less_CostCategory_def order_less_le)

end

definition all_CostCategory :: "CostCategory list" where
  "all_CostCategory = [CostCategory.LABOUR, CostCategory.PLANT, CostCategory.MATERIAL, CostCategory.SUBCONTRACT, CostCategory.LOGISTICS, CostCategory.MOBILISATION, CostCategory.CONTRACT_FINANCE, CostCategory.RISK, CostCategory.OVERHEAD, CostCategory.PROFIT, CostCategory.TAX]"

lemma set_all_CostCategory [simp]: "set all_CostCategory = UNIV"
proof -
  have "x \<in> set all_CostCategory" for x by (cases x) (simp_all add: all_CostCategory_def)
  then show ?thesis by auto
qed

lemma distinct_all_CostCategory [simp]: "distinct all_CostCategory"
  by (simp add: all_CostCategory_def)

datatype CostBasisKind =
    MARKET
  | NORMATIVE
  | APPROVED_ASSUMPTION
  | RISK_MODEL
  | DERIVED_MODEL

fun CostBasisKind_value :: "CostBasisKind \<Rightarrow> string" where
  "CostBasisKind_value CostBasisKind.MARKET = ''MARKET''"
| "CostBasisKind_value CostBasisKind.NORMATIVE = ''NORMATIVE''"
| "CostBasisKind_value CostBasisKind.APPROVED_ASSUMPTION = ''APPROVED_ASSUMPTION''"
| "CostBasisKind_value CostBasisKind.RISK_MODEL = ''RISK_MODEL''"
| "CostBasisKind_value CostBasisKind.DERIVED_MODEL = ''DERIVED_MODEL''"

datatype CommercialCostModelKind =
    LOGISTICS
  | MOBILISATION
  | CONTRACT_FINANCE

fun CommercialCostModelKind_value :: "CommercialCostModelKind \<Rightarrow> string" where
  "CommercialCostModelKind_value CommercialCostModelKind.LOGISTICS = ''LOGISTICS''"
| "CommercialCostModelKind_value CommercialCostModelKind.MOBILISATION = ''MOBILISATION''"
| "CommercialCostModelKind_value CommercialCostModelKind.CONTRACT_FINANCE = ''CONTRACT_FINANCE''"

datatype LogisticsHandlingKind =
    LOADING
  | UNLOADING
  | TRANSSHIPMENT
  | PACKAGING

fun LogisticsHandlingKind_value :: "LogisticsHandlingKind \<Rightarrow> string" where
  "LogisticsHandlingKind_value LogisticsHandlingKind.LOADING = ''LOADING''"
| "LogisticsHandlingKind_value LogisticsHandlingKind.UNLOADING = ''UNLOADING''"
| "LogisticsHandlingKind_value LogisticsHandlingKind.TRANSSHIPMENT = ''TRANSSHIPMENT''"
| "LogisticsHandlingKind_value LogisticsHandlingKind.PACKAGING = ''PACKAGING''"

datatype LogisticsAncillaryKind =
    CUSTOMS
  | PERMIT
  | ESCORT
  | INSURANCE
  | OTHER_VERIFIED

fun LogisticsAncillaryKind_value :: "LogisticsAncillaryKind \<Rightarrow> string" where
  "LogisticsAncillaryKind_value LogisticsAncillaryKind.CUSTOMS = ''CUSTOMS''"
| "LogisticsAncillaryKind_value LogisticsAncillaryKind.PERMIT = ''PERMIT''"
| "LogisticsAncillaryKind_value LogisticsAncillaryKind.ESCORT = ''ESCORT''"
| "LogisticsAncillaryKind_value LogisticsAncillaryKind.INSURANCE = ''INSURANCE''"
| "LogisticsAncillaryKind_value LogisticsAncillaryKind.OTHER_VERIFIED = ''OTHER_VERIFIED''"

datatype MobilisationComponentKind =
    PLANT_OUTBOUND
  | PLANT_RETURN
  | PERSONNEL_TRAVEL
  | ACCOMMODATION
  | TEMPORARY_FACILITIES
  | SETUP
  | DISMANTLING
  | TEMPORARY_UTILITIES
  | OTHER_VERIFIED

fun MobilisationComponentKind_value :: "MobilisationComponentKind \<Rightarrow> string" where
  "MobilisationComponentKind_value MobilisationComponentKind.PLANT_OUTBOUND = ''PLANT_OUTBOUND''"
| "MobilisationComponentKind_value MobilisationComponentKind.PLANT_RETURN = ''PLANT_RETURN''"
| "MobilisationComponentKind_value MobilisationComponentKind.PERSONNEL_TRAVEL = ''PERSONNEL_TRAVEL''"
| "MobilisationComponentKind_value MobilisationComponentKind.ACCOMMODATION = ''ACCOMMODATION''"
| "MobilisationComponentKind_value MobilisationComponentKind.TEMPORARY_FACILITIES = ''TEMPORARY_FACILITIES''"
| "MobilisationComponentKind_value MobilisationComponentKind.SETUP = ''SETUP''"
| "MobilisationComponentKind_value MobilisationComponentKind.DISMANTLING = ''DISMANTLING''"
| "MobilisationComponentKind_value MobilisationComponentKind.TEMPORARY_UTILITIES = ''TEMPORARY_UTILITIES''"
| "MobilisationComponentKind_value MobilisationComponentKind.OTHER_VERIFIED = ''OTHER_VERIFIED''"

lemma MobilisationComponentKind_value_inj [simp]: "MobilisationComponentKind_value x = MobilisationComponentKind_value y \<longleftrightarrow> x = y"
  by (cases x; cases y; simp)

instantiation MobilisationComponentKind :: linorder
begin

definition less_eq_MobilisationComponentKind :: "MobilisationComponentKind \<Rightarrow> MobilisationComponentKind \<Rightarrow> bool" where
  "x \<le> y \<longleftrightarrow> MobilisationComponentKind_value x \<le> MobilisationComponentKind_value y"

definition less_MobilisationComponentKind :: "MobilisationComponentKind \<Rightarrow> MobilisationComponentKind \<Rightarrow> bool" where
  "x < y \<longleftrightarrow> MobilisationComponentKind_value x < MobilisationComponentKind_value y"

instance
  by standard (auto simp: less_eq_MobilisationComponentKind_def less_MobilisationComponentKind_def order_less_le)

end

definition all_MobilisationComponentKind :: "MobilisationComponentKind list" where
  "all_MobilisationComponentKind = [MobilisationComponentKind.PLANT_OUTBOUND, MobilisationComponentKind.PLANT_RETURN, MobilisationComponentKind.PERSONNEL_TRAVEL, MobilisationComponentKind.ACCOMMODATION, MobilisationComponentKind.TEMPORARY_FACILITIES, MobilisationComponentKind.SETUP, MobilisationComponentKind.DISMANTLING, MobilisationComponentKind.TEMPORARY_UTILITIES, MobilisationComponentKind.OTHER_VERIFIED]"

lemma set_all_MobilisationComponentKind [simp]: "set all_MobilisationComponentKind = UNIV"
proof -
  have "x \<in> set all_MobilisationComponentKind" for x by (cases x) (simp_all add: all_MobilisationComponentKind_def)
  then show ?thesis by auto
qed

lemma distinct_all_MobilisationComponentKind [simp]: "distinct all_MobilisationComponentKind"
  by (simp add: all_MobilisationComponentKind_def)

datatype ContractCashFlowKind =
    ADVANCE_RECEIPT
  | CUSTOMER_PAYMENT
  | RETENTION_RELEASE
  | DIRECT_COST
  | SUBCONTRACT_PAYMENT
  | TAX_PAYMENT
  | OTHER_VERIFIED

fun ContractCashFlowKind_value :: "ContractCashFlowKind \<Rightarrow> string" where
  "ContractCashFlowKind_value ContractCashFlowKind.ADVANCE_RECEIPT = ''ADVANCE_RECEIPT''"
| "ContractCashFlowKind_value ContractCashFlowKind.CUSTOMER_PAYMENT = ''CUSTOMER_PAYMENT''"
| "ContractCashFlowKind_value ContractCashFlowKind.RETENTION_RELEASE = ''RETENTION_RELEASE''"
| "ContractCashFlowKind_value ContractCashFlowKind.DIRECT_COST = ''DIRECT_COST''"
| "ContractCashFlowKind_value ContractCashFlowKind.SUBCONTRACT_PAYMENT = ''SUBCONTRACT_PAYMENT''"
| "ContractCashFlowKind_value ContractCashFlowKind.TAX_PAYMENT = ''TAX_PAYMENT''"
| "ContractCashFlowKind_value ContractCashFlowKind.OTHER_VERIFIED = ''OTHER_VERIFIED''"

lemma ContractCashFlowKind_value_inj [simp]: "ContractCashFlowKind_value x = ContractCashFlowKind_value y \<longleftrightarrow> x = y"
  by (cases x; cases y; simp)

instantiation ContractCashFlowKind :: linorder
begin

definition less_eq_ContractCashFlowKind :: "ContractCashFlowKind \<Rightarrow> ContractCashFlowKind \<Rightarrow> bool" where
  "x \<le> y \<longleftrightarrow> ContractCashFlowKind_value x \<le> ContractCashFlowKind_value y"

definition less_ContractCashFlowKind :: "ContractCashFlowKind \<Rightarrow> ContractCashFlowKind \<Rightarrow> bool" where
  "x < y \<longleftrightarrow> ContractCashFlowKind_value x < ContractCashFlowKind_value y"

instance
  by standard (auto simp: less_eq_ContractCashFlowKind_def less_ContractCashFlowKind_def order_less_le)

end

definition all_ContractCashFlowKind :: "ContractCashFlowKind list" where
  "all_ContractCashFlowKind = [ContractCashFlowKind.ADVANCE_RECEIPT, ContractCashFlowKind.CUSTOMER_PAYMENT, ContractCashFlowKind.RETENTION_RELEASE, ContractCashFlowKind.DIRECT_COST, ContractCashFlowKind.SUBCONTRACT_PAYMENT, ContractCashFlowKind.TAX_PAYMENT, ContractCashFlowKind.OTHER_VERIFIED]"

lemma set_all_ContractCashFlowKind [simp]: "set all_ContractCashFlowKind = UNIV"
proof -
  have "x \<in> set all_ContractCashFlowKind" for x by (cases x) (simp_all add: all_ContractCashFlowKind_def)
  then show ?thesis by auto
qed

lemma distinct_all_ContractCashFlowKind [simp]: "distinct all_ContractCashFlowKind"
  by (simp add: all_ContractCashFlowKind_def)

datatype GuaranteeKind =
    BID_SECURITY
  | PERFORMANCE_SECURITY
  | ADVANCE_PAYMENT_GUARANTEE
  | WARRANTY_GUARANTEE
  | OTHER_VERIFIED

fun GuaranteeKind_value :: "GuaranteeKind \<Rightarrow> string" where
  "GuaranteeKind_value GuaranteeKind.BID_SECURITY = ''BID_SECURITY''"
| "GuaranteeKind_value GuaranteeKind.PERFORMANCE_SECURITY = ''PERFORMANCE_SECURITY''"
| "GuaranteeKind_value GuaranteeKind.ADVANCE_PAYMENT_GUARANTEE = ''ADVANCE_PAYMENT_GUARANTEE''"
| "GuaranteeKind_value GuaranteeKind.WARRANTY_GUARANTEE = ''WARRANTY_GUARANTEE''"
| "GuaranteeKind_value GuaranteeKind.OTHER_VERIFIED = ''OTHER_VERIFIED''"

datatype ActorRole =
    ESTIMATOR
  | PROCUREMENT
  | TECHNICAL_EXPERT
  | REVIEWER
  | APPROVER
  | METHODOLOGY_OWNER
  | CATALOG_OWNER
  | AUDITOR
  | ADMIN
  | SYSTEM

fun ActorRole_value :: "ActorRole \<Rightarrow> string" where
  "ActorRole_value ActorRole.ESTIMATOR = ''ESTIMATOR''"
| "ActorRole_value ActorRole.PROCUREMENT = ''PROCUREMENT''"
| "ActorRole_value ActorRole.TECHNICAL_EXPERT = ''TECHNICAL_EXPERT''"
| "ActorRole_value ActorRole.REVIEWER = ''REVIEWER''"
| "ActorRole_value ActorRole.APPROVER = ''APPROVER''"
| "ActorRole_value ActorRole.METHODOLOGY_OWNER = ''METHODOLOGY_OWNER''"
| "ActorRole_value ActorRole.CATALOG_OWNER = ''CATALOG_OWNER''"
| "ActorRole_value ActorRole.AUDITOR = ''AUDITOR''"
| "ActorRole_value ActorRole.ADMIN = ''ADMIN''"
| "ActorRole_value ActorRole.SYSTEM = ''SYSTEM''"

lemma ActorRole_value_inj [simp]: "ActorRole_value x = ActorRole_value y \<longleftrightarrow> x = y"
  by (cases x; cases y; simp)

instantiation ActorRole :: linorder
begin

definition less_eq_ActorRole :: "ActorRole \<Rightarrow> ActorRole \<Rightarrow> bool" where
  "x \<le> y \<longleftrightarrow> ActorRole_value x \<le> ActorRole_value y"

definition less_ActorRole :: "ActorRole \<Rightarrow> ActorRole \<Rightarrow> bool" where
  "x < y \<longleftrightarrow> ActorRole_value x < ActorRole_value y"

instance
  by standard (auto simp: less_eq_ActorRole_def less_ActorRole_def order_less_le)

end

definition all_ActorRole :: "ActorRole list" where
  "all_ActorRole = [ActorRole.ESTIMATOR, ActorRole.PROCUREMENT, ActorRole.TECHNICAL_EXPERT, ActorRole.REVIEWER, ActorRole.APPROVER, ActorRole.METHODOLOGY_OWNER, ActorRole.CATALOG_OWNER, ActorRole.AUDITOR, ActorRole.ADMIN, ActorRole.SYSTEM]"

lemma set_all_ActorRole [simp]: "set all_ActorRole = UNIV"
proof -
  have "x \<in> set all_ActorRole" for x by (cases x) (simp_all add: all_ActorRole_def)
  then show ?thesis by auto
qed

lemma distinct_all_ActorRole [simp]: "distinct all_ActorRole"
  by (simp add: all_ActorRole_def)

datatype ProjectAccessLevel =
    MEMBER
  | OWNER

fun ProjectAccessLevel_value :: "ProjectAccessLevel \<Rightarrow> string" where
  "ProjectAccessLevel_value ProjectAccessLevel.MEMBER = ''MEMBER''"
| "ProjectAccessLevel_value ProjectAccessLevel.OWNER = ''OWNER''"

datatype ProjectMembershipStatus =
    ACTIVE
  | REVOKED

fun ProjectMembershipStatus_value :: "ProjectMembershipStatus \<Rightarrow> string" where
  "ProjectMembershipStatus_value ProjectMembershipStatus.ACTIVE = ''ACTIVE''"
| "ProjectMembershipStatus_value ProjectMembershipStatus.REVOKED = ''REVOKED''"

datatype ApprovalDecision =
    APPROVED
  | REJECTED
  | CHANGES_REQUESTED

fun ApprovalDecision_value :: "ApprovalDecision \<Rightarrow> string" where
  "ApprovalDecision_value ApprovalDecision.APPROVED = ''APPROVED''"
| "ApprovalDecision_value ApprovalDecision.REJECTED = ''REJECTED''"
| "ApprovalDecision_value ApprovalDecision.CHANGES_REQUESTED = ''CHANGES_REQUESTED''"

datatype FindingCode =
    CURRENT_DOCUMENT_SET_NOT_CONFIRMED
  | CRITICAL_DOCUMENT_MISSING
  | KEY_QUANTITY_UNVERIFIED
  | UNRESOLVED_CONFLICT
  | COST_WITHOUT_BASIS
  | TECHNICAL_ANALOGUE_UNVERIFIED
  | PRICE_NORMALIZATION_FAILED
  | INDEPENDENT_VALIDATION_MISSING
  | INDEPENDENT_RECALCULATION_MISMATCH
  | UNVERIFIED_COST_THRESHOLD_UNCONFIGURED
  | UNVERIFIED_COST_SHARE_EXCEEDED
  | REQUIRED_APPROVAL_MISSING
  | CONTROLLED_VERSION_MISSING
  | CONTROLLED_VERSION_NOT_APPROVED
  | CONTROLLED_VERSION_INTEGRITY_FAILED
  | CALCULATION_SNAPSHOT_MISSING
  | CALCULATION_SNAPSHOT_STALE
  | CALCULATION_SNAPSHOT_INTEGRITY_FAILED
  | CRITICAL_MANUAL_CHANGE_NOT_APPROVED
  | FOUR_EYES_VIOLATION
  | CONTRACT_RISK_UNRESOLVED
  | BLOCKING_CONTOUR_FINDING
  | NORMATIVE_ENGINE_UNAVAILABLE
  | NORMATIVE_CALCULATION_MISSING
  | PRODUCTION_QUALIFICATION_INCOMPLETE
  | OPERATIONAL_INTEGRITY_UNAVAILABLE
  | QUANTITY_FORMULA_MISMATCH
  | QUANTITY_UNIT_MISMATCH
  | QUANTITY_BALANCE_MISMATCH
  | QUANTITY_HISTORICAL_OUTLIER
  | QUANTITY_THRESHOLD_UNCONFIGURED
  | QUANTITY_SIGN_INVALID
  | PROJECT_PASSPORT_INCOMPLETE
  | CONTRACT_TERM_MISSING
  | CONTRACT_COST_IMPACT_UNRESOLVED
  | ACTUAL_NOT_VERIFIED
  | DOCUMENT_REFERENCE_MISSING
  | DOCUMENT_REVISION_AMBIGUOUS
  | DOCUMENT_GRAPH_CYCLE
  | DOCUMENT_IDENTITY_MISMATCH
  | APPROVAL_THRESHOLD_UNCONFIGURED
  | RISK_MODEL_INCOMPLETE

fun FindingCode_value :: "FindingCode \<Rightarrow> string" where
  "FindingCode_value FindingCode.CURRENT_DOCUMENT_SET_NOT_CONFIRMED = ''CURRENT_DOCUMENT_SET_NOT_CONFIRMED''"
| "FindingCode_value FindingCode.CRITICAL_DOCUMENT_MISSING = ''CRITICAL_DOCUMENT_MISSING''"
| "FindingCode_value FindingCode.KEY_QUANTITY_UNVERIFIED = ''KEY_QUANTITY_UNVERIFIED''"
| "FindingCode_value FindingCode.UNRESOLVED_CONFLICT = ''UNRESOLVED_CONFLICT''"
| "FindingCode_value FindingCode.COST_WITHOUT_BASIS = ''COST_WITHOUT_BASIS''"
| "FindingCode_value FindingCode.TECHNICAL_ANALOGUE_UNVERIFIED = ''TECHNICAL_ANALOGUE_UNVERIFIED''"
| "FindingCode_value FindingCode.PRICE_NORMALIZATION_FAILED = ''PRICE_NORMALIZATION_FAILED''"
| "FindingCode_value FindingCode.INDEPENDENT_VALIDATION_MISSING = ''INDEPENDENT_VALIDATION_MISSING''"
| "FindingCode_value FindingCode.INDEPENDENT_RECALCULATION_MISMATCH = ''INDEPENDENT_RECALCULATION_MISMATCH''"
| "FindingCode_value FindingCode.UNVERIFIED_COST_THRESHOLD_UNCONFIGURED = ''UNVERIFIED_COST_THRESHOLD_UNCONFIGURED''"
| "FindingCode_value FindingCode.UNVERIFIED_COST_SHARE_EXCEEDED = ''UNVERIFIED_COST_SHARE_EXCEEDED''"
| "FindingCode_value FindingCode.REQUIRED_APPROVAL_MISSING = ''REQUIRED_APPROVAL_MISSING''"
| "FindingCode_value FindingCode.CONTROLLED_VERSION_MISSING = ''CONTROLLED_VERSION_MISSING''"
| "FindingCode_value FindingCode.CONTROLLED_VERSION_NOT_APPROVED = ''CONTROLLED_VERSION_NOT_APPROVED''"
| "FindingCode_value FindingCode.CONTROLLED_VERSION_INTEGRITY_FAILED = ''CONTROLLED_VERSION_INTEGRITY_FAILED''"
| "FindingCode_value FindingCode.CALCULATION_SNAPSHOT_MISSING = ''CALCULATION_SNAPSHOT_MISSING''"
| "FindingCode_value FindingCode.CALCULATION_SNAPSHOT_STALE = ''CALCULATION_SNAPSHOT_STALE''"
| "FindingCode_value FindingCode.CALCULATION_SNAPSHOT_INTEGRITY_FAILED = ''CALCULATION_SNAPSHOT_INTEGRITY_FAILED''"
| "FindingCode_value FindingCode.CRITICAL_MANUAL_CHANGE_NOT_APPROVED = ''CRITICAL_MANUAL_CHANGE_NOT_APPROVED''"
| "FindingCode_value FindingCode.FOUR_EYES_VIOLATION = ''FOUR_EYES_VIOLATION''"
| "FindingCode_value FindingCode.CONTRACT_RISK_UNRESOLVED = ''CONTRACT_RISK_UNRESOLVED''"
| "FindingCode_value FindingCode.BLOCKING_CONTOUR_FINDING = ''BLOCKING_CONTOUR_FINDING''"
| "FindingCode_value FindingCode.NORMATIVE_ENGINE_UNAVAILABLE = ''NORMATIVE_ENGINE_UNAVAILABLE''"
| "FindingCode_value FindingCode.NORMATIVE_CALCULATION_MISSING = ''NORMATIVE_CALCULATION_MISSING''"
| "FindingCode_value FindingCode.PRODUCTION_QUALIFICATION_INCOMPLETE = ''PRODUCTION_QUALIFICATION_INCOMPLETE''"
| "FindingCode_value FindingCode.OPERATIONAL_INTEGRITY_UNAVAILABLE = ''OPERATIONAL_INTEGRITY_UNAVAILABLE''"
| "FindingCode_value FindingCode.QUANTITY_FORMULA_MISMATCH = ''QUANTITY_FORMULA_MISMATCH''"
| "FindingCode_value FindingCode.QUANTITY_UNIT_MISMATCH = ''QUANTITY_UNIT_MISMATCH''"
| "FindingCode_value FindingCode.QUANTITY_BALANCE_MISMATCH = ''QUANTITY_BALANCE_MISMATCH''"
| "FindingCode_value FindingCode.QUANTITY_HISTORICAL_OUTLIER = ''QUANTITY_HISTORICAL_OUTLIER''"
| "FindingCode_value FindingCode.QUANTITY_THRESHOLD_UNCONFIGURED = ''QUANTITY_THRESHOLD_UNCONFIGURED''"
| "FindingCode_value FindingCode.QUANTITY_SIGN_INVALID = ''QUANTITY_SIGN_INVALID''"
| "FindingCode_value FindingCode.PROJECT_PASSPORT_INCOMPLETE = ''PROJECT_PASSPORT_INCOMPLETE''"
| "FindingCode_value FindingCode.CONTRACT_TERM_MISSING = ''CONTRACT_TERM_MISSING''"
| "FindingCode_value FindingCode.CONTRACT_COST_IMPACT_UNRESOLVED = ''CONTRACT_COST_IMPACT_UNRESOLVED''"
| "FindingCode_value FindingCode.ACTUAL_NOT_VERIFIED = ''ACTUAL_NOT_VERIFIED''"
| "FindingCode_value FindingCode.DOCUMENT_REFERENCE_MISSING = ''DOCUMENT_REFERENCE_MISSING''"
| "FindingCode_value FindingCode.DOCUMENT_REVISION_AMBIGUOUS = ''DOCUMENT_REVISION_AMBIGUOUS''"
| "FindingCode_value FindingCode.DOCUMENT_GRAPH_CYCLE = ''DOCUMENT_GRAPH_CYCLE''"
| "FindingCode_value FindingCode.DOCUMENT_IDENTITY_MISMATCH = ''DOCUMENT_IDENTITY_MISMATCH''"
| "FindingCode_value FindingCode.APPROVAL_THRESHOLD_UNCONFIGURED = ''APPROVAL_THRESHOLD_UNCONFIGURED''"
| "FindingCode_value FindingCode.RISK_MODEL_INCOMPLETE = ''RISK_MODEL_INCOMPLETE''"

datatype QuantityOperation =
    SUM
  | PRODUCT
  | RECTANGULAR_VOLUME
  | CYLINDER_VOLUME

fun QuantityOperation_value :: "QuantityOperation \<Rightarrow> string" where
  "QuantityOperation_value QuantityOperation.SUM = ''SUM''"
| "QuantityOperation_value QuantityOperation.PRODUCT = ''PRODUCT''"
| "QuantityOperation_value QuantityOperation.RECTANGULAR_VOLUME = ''RECTANGULAR_VOLUME''"
| "QuantityOperation_value QuantityOperation.CYLINDER_VOLUME = ''CYLINDER_VOLUME''"

datatype ContractTermKind =
    COMPLETION_DATES
  | PHASING
  | PENALTIES
  | RETENTION
  | BID_OR_PERFORMANCE_SECURITY
  | BANK_GUARANTEE
  | ADVANCE
  | PAYMENT_DEFERRAL
  | WARRANTY
  | FIXED_PRICE
  | CURRENCY_RISK
  | DESIGN_ERROR_LIABILITY
  | MOBILISATION
  | DOCUMENTATION
  | INDEXATION_LIMITS
  | ACCEPTANCE_PROCEDURE

fun ContractTermKind_value :: "ContractTermKind \<Rightarrow> string" where
  "ContractTermKind_value ContractTermKind.COMPLETION_DATES = ''COMPLETION_DATES''"
| "ContractTermKind_value ContractTermKind.PHASING = ''PHASING''"
| "ContractTermKind_value ContractTermKind.PENALTIES = ''PENALTIES''"
| "ContractTermKind_value ContractTermKind.RETENTION = ''RETENTION''"
| "ContractTermKind_value ContractTermKind.BID_OR_PERFORMANCE_SECURITY = ''BID_OR_PERFORMANCE_SECURITY''"
| "ContractTermKind_value ContractTermKind.BANK_GUARANTEE = ''BANK_GUARANTEE''"
| "ContractTermKind_value ContractTermKind.ADVANCE = ''ADVANCE''"
| "ContractTermKind_value ContractTermKind.PAYMENT_DEFERRAL = ''PAYMENT_DEFERRAL''"
| "ContractTermKind_value ContractTermKind.WARRANTY = ''WARRANTY''"
| "ContractTermKind_value ContractTermKind.FIXED_PRICE = ''FIXED_PRICE''"
| "ContractTermKind_value ContractTermKind.CURRENCY_RISK = ''CURRENCY_RISK''"
| "ContractTermKind_value ContractTermKind.DESIGN_ERROR_LIABILITY = ''DESIGN_ERROR_LIABILITY''"
| "ContractTermKind_value ContractTermKind.MOBILISATION = ''MOBILISATION''"
| "ContractTermKind_value ContractTermKind.DOCUMENTATION = ''DOCUMENTATION''"
| "ContractTermKind_value ContractTermKind.INDEXATION_LIMITS = ''INDEXATION_LIMITS''"
| "ContractTermKind_value ContractTermKind.ACCEPTANCE_PROCEDURE = ''ACCEPTANCE_PROCEDURE''"

lemma ContractTermKind_value_inj [simp]: "ContractTermKind_value x = ContractTermKind_value y \<longleftrightarrow> x = y"
  by (cases x; cases y; simp)

instantiation ContractTermKind :: linorder
begin

definition less_eq_ContractTermKind :: "ContractTermKind \<Rightarrow> ContractTermKind \<Rightarrow> bool" where
  "x \<le> y \<longleftrightarrow> ContractTermKind_value x \<le> ContractTermKind_value y"

definition less_ContractTermKind :: "ContractTermKind \<Rightarrow> ContractTermKind \<Rightarrow> bool" where
  "x < y \<longleftrightarrow> ContractTermKind_value x < ContractTermKind_value y"

instance
  by standard (auto simp: less_eq_ContractTermKind_def less_ContractTermKind_def order_less_le)

end

definition all_ContractTermKind :: "ContractTermKind list" where
  "all_ContractTermKind = [ContractTermKind.COMPLETION_DATES, ContractTermKind.PHASING, ContractTermKind.PENALTIES, ContractTermKind.RETENTION, ContractTermKind.BID_OR_PERFORMANCE_SECURITY, ContractTermKind.BANK_GUARANTEE, ContractTermKind.ADVANCE, ContractTermKind.PAYMENT_DEFERRAL, ContractTermKind.WARRANTY, ContractTermKind.FIXED_PRICE, ContractTermKind.CURRENCY_RISK, ContractTermKind.DESIGN_ERROR_LIABILITY, ContractTermKind.MOBILISATION, ContractTermKind.DOCUMENTATION, ContractTermKind.INDEXATION_LIMITS, ContractTermKind.ACCEPTANCE_PROCEDURE]"

lemma set_all_ContractTermKind [simp]: "set all_ContractTermKind = UNIV"
proof -
  have "x \<in> set all_ContractTermKind" for x by (cases x) (simp_all add: all_ContractTermKind_def)
  then show ?thesis by auto
qed

lemma distinct_all_ContractTermKind [simp]: "distinct all_ContractTermKind"
  by (simp add: all_ContractTermKind_def)

datatype VarianceReason =
    SCOPE_CHANGE
  | QUANTITY_ERROR
  | PRICE_CHANGE
  | SUPPLIER_CHANGE
  | PRODUCTIVITY_VARIANCE
  | LOGISTICS_VARIANCE
  | SCHEDULE_VARIANCE
  | RISK_REALISED
  | DATA_QUALITY
  | METHODOLOGY_ERROR
  | OTHER_APPROVED

fun VarianceReason_value :: "VarianceReason \<Rightarrow> string" where
  "VarianceReason_value VarianceReason.SCOPE_CHANGE = ''SCOPE_CHANGE''"
| "VarianceReason_value VarianceReason.QUANTITY_ERROR = ''QUANTITY_ERROR''"
| "VarianceReason_value VarianceReason.PRICE_CHANGE = ''PRICE_CHANGE''"
| "VarianceReason_value VarianceReason.SUPPLIER_CHANGE = ''SUPPLIER_CHANGE''"
| "VarianceReason_value VarianceReason.PRODUCTIVITY_VARIANCE = ''PRODUCTIVITY_VARIANCE''"
| "VarianceReason_value VarianceReason.LOGISTICS_VARIANCE = ''LOGISTICS_VARIANCE''"
| "VarianceReason_value VarianceReason.SCHEDULE_VARIANCE = ''SCHEDULE_VARIANCE''"
| "VarianceReason_value VarianceReason.RISK_REALISED = ''RISK_REALISED''"
| "VarianceReason_value VarianceReason.DATA_QUALITY = ''DATA_QUALITY''"
| "VarianceReason_value VarianceReason.METHODOLOGY_ERROR = ''METHODOLOGY_ERROR''"
| "VarianceReason_value VarianceReason.OTHER_APPROVED = ''OTHER_APPROVED''"

datatype ApprovalReason =
    HIGH_VALUE
  | UNVERIFIED_QUANTITY
  | NONSTANDARD_WORK
  | COMPLEX_EQUIPMENT
  | TECHNICAL_ANALOGUE
  | RFQ_PRICE
  | HIGH_PRICE_SPREAD
  | DOCUMENT_CONFLICT
  | MANUAL_COEFFICIENT
  | LARGE_RESERVE
  | MATERIAL_PROFIT_IMPACT
  | CONTRACT_COST_IMPACT
  | LOGISTICS_MODEL
  | MOBILISATION_MODEL
  | CONTRACT_FINANCE_MODEL

fun ApprovalReason_value :: "ApprovalReason \<Rightarrow> string" where
  "ApprovalReason_value ApprovalReason.HIGH_VALUE = ''HIGH_VALUE''"
| "ApprovalReason_value ApprovalReason.UNVERIFIED_QUANTITY = ''UNVERIFIED_QUANTITY''"
| "ApprovalReason_value ApprovalReason.NONSTANDARD_WORK = ''NONSTANDARD_WORK''"
| "ApprovalReason_value ApprovalReason.COMPLEX_EQUIPMENT = ''COMPLEX_EQUIPMENT''"
| "ApprovalReason_value ApprovalReason.TECHNICAL_ANALOGUE = ''TECHNICAL_ANALOGUE''"
| "ApprovalReason_value ApprovalReason.RFQ_PRICE = ''RFQ_PRICE''"
| "ApprovalReason_value ApprovalReason.HIGH_PRICE_SPREAD = ''HIGH_PRICE_SPREAD''"
| "ApprovalReason_value ApprovalReason.DOCUMENT_CONFLICT = ''DOCUMENT_CONFLICT''"
| "ApprovalReason_value ApprovalReason.MANUAL_COEFFICIENT = ''MANUAL_COEFFICIENT''"
| "ApprovalReason_value ApprovalReason.LARGE_RESERVE = ''LARGE_RESERVE''"
| "ApprovalReason_value ApprovalReason.MATERIAL_PROFIT_IMPACT = ''MATERIAL_PROFIT_IMPACT''"
| "ApprovalReason_value ApprovalReason.CONTRACT_COST_IMPACT = ''CONTRACT_COST_IMPACT''"
| "ApprovalReason_value ApprovalReason.LOGISTICS_MODEL = ''LOGISTICS_MODEL''"
| "ApprovalReason_value ApprovalReason.MOBILISATION_MODEL = ''MOBILISATION_MODEL''"
| "ApprovalReason_value ApprovalReason.CONTRACT_FINANCE_MODEL = ''CONTRACT_FINANCE_MODEL''"

lemma ApprovalReason_value_inj [simp]: "ApprovalReason_value x = ApprovalReason_value y \<longleftrightarrow> x = y"
  by (cases x; cases y; simp)

instantiation ApprovalReason :: linorder
begin

definition less_eq_ApprovalReason :: "ApprovalReason \<Rightarrow> ApprovalReason \<Rightarrow> bool" where
  "x \<le> y \<longleftrightarrow> ApprovalReason_value x \<le> ApprovalReason_value y"

definition less_ApprovalReason :: "ApprovalReason \<Rightarrow> ApprovalReason \<Rightarrow> bool" where
  "x < y \<longleftrightarrow> ApprovalReason_value x < ApprovalReason_value y"

instance
  by standard (auto simp: less_eq_ApprovalReason_def less_ApprovalReason_def order_less_le)

end

definition all_ApprovalReason :: "ApprovalReason list" where
  "all_ApprovalReason = [ApprovalReason.HIGH_VALUE, ApprovalReason.UNVERIFIED_QUANTITY, ApprovalReason.NONSTANDARD_WORK, ApprovalReason.COMPLEX_EQUIPMENT, ApprovalReason.TECHNICAL_ANALOGUE, ApprovalReason.RFQ_PRICE, ApprovalReason.HIGH_PRICE_SPREAD, ApprovalReason.DOCUMENT_CONFLICT, ApprovalReason.MANUAL_COEFFICIENT, ApprovalReason.LARGE_RESERVE, ApprovalReason.MATERIAL_PROFIT_IMPACT, ApprovalReason.CONTRACT_COST_IMPACT, ApprovalReason.LOGISTICS_MODEL, ApprovalReason.MOBILISATION_MODEL, ApprovalReason.CONTRACT_FINANCE_MODEL]"

lemma set_all_ApprovalReason [simp]: "set all_ApprovalReason = UNIV"
proof -
  have "x \<in> set all_ApprovalReason" for x by (cases x) (simp_all add: all_ApprovalReason_def)
  then show ?thesis by auto
qed

lemma distinct_all_ApprovalReason [simp]: "distinct all_ApprovalReason"
  by (simp add: all_ApprovalReason_def)

text \<open>\<open>ActorRole(value)\<close>: the member with that value, or a \<open>ValueError\<close>.\<close>

definition ActorRole_of :: "string \<Rightarrow> ActorRole result" where
  "ActorRole_of s = (case find (\<lambda>r. ActorRole_value r = s) all_ActorRole of
     None \<Rightarrow> Inl (ValueError (s @ '' is not a valid ActorRole'')) | Some r \<Rightarrow> Inr r)"

lemma ActorRole_of_value [simp]: "ActorRole_of (ActorRole_value r) = Inr r"
  by (cases r) (simp_all add: ActorRole_of_def all_ActorRole_def)

lemma ActorRole_of_Inr: "ActorRole_of s = Inr r \<longleftrightarrow> s = ActorRole_value r"
proof
  assume "ActorRole_of s = Inr r"
  then have "find (\<lambda>r. ActorRole_value r = s) all_ActorRole = Some r"
    by (simp add: ActorRole_of_def split: option.splits)
  then show "s = ActorRole_value r" by (auto dest: find_SomeD)
qed simp

end
