(* ===== verification/TG_Decimal.thy ===== *)
theory TG_Decimal
  imports TG_Prelude
begin

text \<open>
  Finite decimals as the \<open>decimal\<close> module computes with them: a coefficient and an
  exponent, with every arithmetic result rounded half-even to the context precision, a
  \<open>quantize\<close> that raises \<open>InvalidOperation\<close> when the result has more digits than
  the precision, and division by the module's shift-and-sticky-digit algorithm.  The abstract
  value of a decimal is the rational \<open>dval\<close>; every operation is related to rational
  arithmetic, exactly where the result fits the precision.

  The sign of a zero is not represented, and exponents are unbounded (the context's
  \<open>Emax\<close> is 999999).
\<close>

named_theorems dec_simps \<open>values of decimal operations\<close>

subsection \<open>Representation and value\<close>

datatype decimal = Dec (coeff: int) (expn: int)

abbreviation pow10 :: "int \<Rightarrow> rat" where
  "pow10 e \<equiv> 10 powi e"

definition dval :: "decimal \<Rightarrow> rat" where
  "dval x = of_int (coeff x) * pow10 (expn x)"

lemma dval_Dec: "dval (Dec c e) = of_int c * pow10 e"
  by (simp add: dval_def)

lemma pow10_pos [simp]: "0 < pow10 e"
  by (simp add: zero_less_power_int)

lemma pow10_shift: "e \<le> f \<Longrightarrow> pow10 f = of_int (10 ^ nat (f - e)) * pow10 e"
  by (simp flip: power_int_of_nat power_int_add)

lemma dval_Dec_0 [simp]: "dval (Dec 0 e) = 0"
  by (simp add: dval_Dec)

definition d_zero :: decimal where "d_zero = Dec 0 0"
definition d_one :: decimal where "d_one = Dec 1 0"

lemma dval_d_zero [simp]: "dval d_zero = 0" and dval_d_one [simp]: "dval d_one = 1"
  by (simp_all add: d_zero_def d_one_def dval_Dec)

definition dec_of_int :: "int \<Rightarrow> decimal" where "dec_of_int n = Dec n 0"

lemma dval_dec_of_int [simp]: "dval (dec_of_int n) = of_int n"
  by (simp add: dec_of_int_def dval_Dec)

subsection \<open>Alignment and comparison\<close>

definition dalign :: "decimal \<Rightarrow> decimal \<Rightarrow> int \<times> int \<times> int" where
  "dalign a b = (let e = min (expn a) (expn b) in
     (coeff a * 10 ^ nat (expn a - e), coeff b * 10 ^ nat (expn b - e), e))"

lemma dalign_dval:
  "dalign a b = (x, y, e) \<Longrightarrow> dval a = of_int x * pow10 e \<and> dval b = of_int y * pow10 e"
  using pow10_shift [of "min (expn a) (expn b)" "expn a"]
    pow10_shift [of "min (expn a) (expn b)" "expn b"]
  by (auto simp: dalign_def dval_def Let_def)

definition dle :: "decimal \<Rightarrow> decimal \<Rightarrow> bool" where
  "dle a b = (case dalign a b of (x, y, _) \<Rightarrow> x \<le> y)"

definition dlt :: "decimal \<Rightarrow> decimal \<Rightarrow> bool" where
  "dlt a b = (case dalign a b of (x, y, _) \<Rightarrow> x < y)"

definition deq :: "decimal \<Rightarrow> decimal \<Rightarrow> bool" where
  "deq a b = (case dalign a b of (x, y, _) \<Rightarrow> x = y)"

lemma dle_iff [dec_simps]: "dle a b \<longleftrightarrow> dval a \<le> dval b"
  by (cases "dalign a b") (auto simp: dle_def dest: dalign_dval)

lemma dlt_iff [dec_simps]: "dlt a b \<longleftrightarrow> dval a < dval b"
  by (cases "dalign a b") (auto simp: dlt_def dest: dalign_dval)

lemma deq_iff [dec_simps]: "deq a b \<longleftrightarrow> dval a = dval b"
  by (cases "dalign a b") (auto simp: deq_def dest: dalign_dval)

definition dmax :: "decimal \<Rightarrow> decimal \<Rightarrow> decimal" where
  "dmax a b = (if dlt a b then b else a)"

lemma dval_dmax [dec_simps]: "dval (dmax a b) = max (dval a) (dval b)"
  by (simp add: dmax_def dlt_iff max_def)

subsection \<open>Rounding modes\<close>

datatype rounding_mode = ROUND_HALF_UP | ROUND_HALF_EVEN | ROUND_UP | ROUND_DOWN

definition ROUNDING_MODES :: "string \<Rightarrow> rounding_mode option" where
  "ROUNDING_MODES s =
     (if s = ''ROUND_HALF_UP'' then Some ROUND_HALF_UP
      else if s = ''ROUND_HALF_EVEN'' then Some ROUND_HALF_EVEN
      else if s = ''ROUND_UP'' then Some ROUND_UP
      else if s = ''ROUND_DOWN'' then Some ROUND_DOWN else None)"

definition rounds_away :: "rounding_mode \<Rightarrow> int \<Rightarrow> int \<Rightarrow> int \<Rightarrow> bool" where
  "rounds_away mode q r d = (case mode of
     ROUND_HALF_UP \<Rightarrow> d \<le> 2 * r
   | ROUND_HALF_EVEN \<Rightarrow> d < 2 * r \<or> (d = 2 * r \<and> odd q)
   | ROUND_UP \<Rightarrow> 0 < r
   | ROUND_DOWN \<Rightarrow> False)"

text \<open>The quotient \<open>n / d\<close> rounded to an integer, symmetrically in the sign.\<close>

definition round_div :: "rounding_mode \<Rightarrow> int \<Rightarrow> int \<Rightarrow> int" where
  "round_div mode n d = (let q = \<bar>n\<bar> div d; r = \<bar>n\<bar> mod d in
     (if n < 0 then -1 else 1) * (if rounds_away mode q r d then q + 1 else q))"

text \<open>Rounding of a rational: the abstract counterpart of \<open>round_div\<close>.\<close>

definition round_rat :: "rounding_mode \<Rightarrow> rat \<Rightarrow> int" where
  "round_rat mode v = (let q = \<lfloor>\<bar>v\<bar>\<rfloor>; f = \<bar>v\<bar> - of_int q in
     (if v < 0 then -1 else 1) *
     (if (case mode of
            ROUND_HALF_UP \<Rightarrow> 1 \<le> 2 * f
          | ROUND_HALF_EVEN \<Rightarrow> 1 < 2 * f \<or> (1 = 2 * f \<and> odd q)
          | ROUND_UP \<Rightarrow> 0 < f
          | ROUND_DOWN \<Rightarrow> False) then q + 1 else q))"

lemma round_div_rat:
  assumes "0 < d"
  shows "round_div mode n d = round_rat mode (of_int n / of_int d)"
proof -
  have q: "\<lfloor>\<bar>of_int n / of_int d :: rat\<bar>\<rfloor> = \<bar>n\<bar> div d"
    using assms by (metis abs_divide abs_of_pos floor_divide_of_int_eq of_int_0_less_iff of_int_abs)
  have f: "\<bar>of_int n / of_int d\<bar> - of_int (\<bar>n\<bar> div d) = (of_int (\<bar>n\<bar> mod d) / of_int d :: rat)"
  proof -
    have "(of_int \<bar>n\<bar> :: rat) = of_int (\<bar>n\<bar> div d) * of_int d + of_int (\<bar>n\<bar> mod d)"
      by (metis div_mult_mod_eq of_int_add of_int_mult)
    with assms show ?thesis by (simp add: abs_divide field_simps flip: of_int_abs)
  qed
  have c: "1 \<le> 2 * (of_int r / of_int d :: rat) \<longleftrightarrow> d \<le> 2 * r"
    "1 < 2 * (of_int r / of_int d :: rat) \<longleftrightarrow> d < 2 * r"
    "1 = 2 * (of_int r / of_int d :: rat) \<longleftrightarrow> d = 2 * r"
    "0 < (of_int r / of_int d :: rat) \<longleftrightarrow> 0 < r" for r
  proof -
    have d: "0 < (of_int d :: rat)" using assms by simp
    have t: "2 * (of_int r :: rat) = of_int (2 * r)" by simp
    show "1 \<le> 2 * (of_int r / of_int d :: rat) \<longleftrightarrow> d \<le> 2 * r"
      unfolding times_divide_eq_right t le_divide_eq_1_pos [OF d] by (rule of_int_le_iff)
    show "1 < 2 * (of_int r / of_int d :: rat) \<longleftrightarrow> d < 2 * r"
      unfolding times_divide_eq_right t less_divide_eq_1_pos [OF d] by (rule of_int_less_iff)
    show "1 = 2 * (of_int r / of_int d :: rat) \<longleftrightarrow> d = 2 * r"
      unfolding times_divide_eq_right t using d
      by (metis divide_eq_1_iff less_irrefl of_int_eq_iff)
    show "0 < (of_int r / of_int d :: rat) \<longleftrightarrow> 0 < r"
      using d by (simp add: zero_less_divide_iff)
  qed
  have s: "(of_int n / of_int d :: rat) < 0 \<longleftrightarrow> n < 0"
    using assms by (simp add: divide_less_0_iff)
  show ?thesis
    unfolding round_div_def round_rat_def Let_def q f s rounds_away_def c ..
qed

text \<open>
  What every client of a rounding relies on: integers are kept, the order is kept, the result
  is less than one unit away, and rounding is symmetric in the sign.
\<close>

locale rounding =
  fixes rnd :: "rat \<Rightarrow> int"
  assumes exact: "rnd (of_int k) = k"
    and mono: "x \<le> y \<Longrightarrow> rnd x \<le> rnd y"
    and near: "\<bar>of_int (rnd x) - x\<bar> < 1"
    and neg: "rnd (- x) = - rnd x"
begin

lemma zero: "rnd 0 = 0"
  using exact [of 0] by simp

lemma nonneg: "0 \<le> x \<Longrightarrow> 0 \<le> rnd x"
  using mono [of 0 x] by (simp add: zero)

lemma idem: "rnd (of_int (rnd x)) = rnd x"
  by (rule exact)

lemma le_of_int: "x \<le> of_int k \<Longrightarrow> rnd x \<le> k"
  using mono [of x "of_int k"] by (simp add: exact)

lemma abs_le_of_int: "\<bar>x\<bar> \<le> of_int k \<Longrightarrow> \<bar>rnd x\<bar> \<le> k"
  using le_of_int [of x k] le_of_int [of "- x" k] by (auto simp: neg abs_le_iff)

lemma sum_error:
  "\<bar>of_int (sum_list (map rnd xs)) - sum_list xs\<bar> \<le> of_nat (length xs)"
proof (induction xs)
  case (Cons x xs)
  show ?case using Cons near [of x] by simp
qed simp

end

locale nearest_rounding = rounding +
  assumes nearest: "\<bar>of_int (rnd x) - x\<bar> \<le> 1 / 2"
begin

lemma sum_error_half:
  "\<bar>of_int (sum_list (map rnd xs)) - sum_list xs\<bar> \<le> of_nat (length xs) / 2"
proof (induction xs)
  case (Cons x xs)
  have "\<bar>of_int (rnd x + sum_list (map rnd xs)) - (x + sum_list xs)\<bar>
      \<le> \<bar>of_int (rnd x) - x\<bar> + \<bar>of_int (sum_list (map rnd xs)) - sum_list xs\<bar>"
    unfolding of_int_add by (rule abs_diff_triangle_ineq)
  also have "\<dots> \<le> 1 / 2 + of_nat (length xs) / 2"
    using Cons.IH nearest [of x] by (rule add_mono [rotated])
  finally show ?case by (simp add: add_divide_distrib)
qed simp

end

lemma round_rat_minus: "round_rat mode (- v) = - round_rat mode v"
proof (cases "v = 0")
  case True
  then show ?thesis by (simp add: round_rat_def split: rounding_mode.split)
next
  case False
  then show ?thesis by (auto simp: round_rat_def Let_def)
qed

lemma round_rat_near_nonneg:
  assumes "0 \<le> v"
  shows "\<bar>of_int (round_rat mode v) - v\<bar> < 1"
    and "mode = ROUND_HALF_UP \<or> mode = ROUND_HALF_EVEN \<Longrightarrow> \<bar>of_int (round_rat mode v) - v\<bar> \<le> 1 / 2"
proof -
  have f: "0 \<le> v - of_int \<lfloor>v\<rfloor>" "v - of_int \<lfloor>v\<rfloor> < 1" by linarith+
  show "\<bar>of_int (round_rat mode v) - v\<bar> < 1"
    using assms f
    by (auto simp: round_rat_def Let_def abs_if split: rounding_mode.splits) linarith+
  show "\<bar>of_int (round_rat mode v) - v\<bar> \<le> 1 / 2"
    if "mode = ROUND_HALF_UP \<or> mode = ROUND_HALF_EVEN"
    using assms f that by (auto simp: round_rat_def Let_def abs_if) linarith+
qed

lemma round_rat_near: "\<bar>of_int (round_rat mode v) - v\<bar> < 1"
  using round_rat_near_nonneg(1) [of v mode] round_rat_near_nonneg(1) [of "- v" mode]
  by (cases "0 \<le> v") (auto simp: round_rat_minus)

lemma round_rat_nearest:
  "mode = ROUND_HALF_UP \<or> mode = ROUND_HALF_EVEN \<Longrightarrow> \<bar>of_int (round_rat mode v) - v\<bar> \<le> 1 / 2"
  using round_rat_near_nonneg(2) [of v mode] round_rat_near_nonneg(2) [of "- v" mode]
  by (cases "0 \<le> v") (auto simp: round_rat_minus abs_minus_commute)

lemma round_rat_bounds_nonneg:
  assumes "0 \<le> v"
  shows "\<lfloor>v\<rfloor> \<le> round_rat mode v" "round_rat mode v \<le> \<lfloor>v\<rfloor> + 1"
  using assms by (auto simp: round_rat_def Let_def)

lemma round_rat_mono_nonneg:
  assumes "0 \<le> x" "x \<le> y"
  shows "round_rat mode x \<le> round_rat mode y"
proof (cases "\<lfloor>x\<rfloor> = \<lfloor>y\<rfloor>")
  case True
  with assms show ?thesis
    by (auto simp: round_rat_def Let_def split: rounding_mode.splits)
next
  case False
  with assms have "\<lfloor>x\<rfloor> + 1 \<le> \<lfloor>y\<rfloor>" using floor_mono [of x y] by linarith
  then show ?thesis
    using round_rat_bounds_nonneg(2) [of x mode] round_rat_bounds_nonneg(1) [of y mode] assms
    by linarith
qed

lemma round_rat_mono:
  assumes "x \<le> y"
  shows "round_rat mode x \<le> round_rat mode y"
proof -
  have z: "round_rat mode 0 = 0" using round_rat_minus [of mode 0] by simp
  consider "0 \<le> x" | "x < 0" "0 \<le> y" | "y < 0" by linarith
  then show ?thesis
  proof cases
    case 2
    then show ?thesis
      using round_rat_mono_nonneg [of 0 y mode] round_rat_mono_nonneg [of 0 "- x" mode]
      by (simp add: z round_rat_minus)
  next
    case 3
    with assms show ?thesis
      using round_rat_mono_nonneg [of "- y" "- x" mode] by (simp add: round_rat_minus)
  qed (use assms round_rat_mono_nonneg in auto)
qed

lemma round_rat_of_int: "round_rat mode (of_int k) = k"
proof -
  have "\<bar>of_int (round_rat mode (of_int k)) - of_int k\<bar> < (1 :: rat)" by (rule round_rat_near)
  then have "\<bar>round_rat mode (of_int k) - k\<bar> < 1"
    by (metis of_int_1 of_int_abs of_int_diff of_int_less_iff)
  then show ?thesis by simp
qed

interpretation rr: rounding "round_rat mode" for mode
  by unfold_locales
    (simp_all add: round_rat_of_int round_rat_mono round_rat_near round_rat_minus)

interpretation half_up: nearest_rounding "round_rat ROUND_HALF_UP"
  by unfold_locales (rule round_rat_nearest, simp)

interpretation half_even: nearest_rounding "round_rat ROUND_HALF_EVEN"
  by unfold_locales (rule round_rat_nearest, simp)


subsection \<open>Context precision\<close>

fun ndigits :: "nat \<Rightarrow> nat" where
  "ndigits n = (if n < 10 then 1 else Suc (ndigits (n div 10)))"

declare ndigits.simps [simp del]

lemma ndigits_pos: "0 < ndigits n"
  by (subst ndigits.simps) simp

lemma ndigits_upper: "n < 10 ^ ndigits n"
proof (induction n rule: ndigits.induct)
  case (1 n)
  show ?case
  proof (cases "n < 10")
    case False
    with 1 have "n div 10 < 10 ^ ndigits (n div 10)" by simp
    then have "n < 10 * 10 ^ ndigits (n div 10)" by (simp add: div_less_iff_less_mult mult.commute)
    with False show ?thesis by (simp add: ndigits.simps [of n])
  qed (simp add: ndigits.simps [of n])
qed

lemma ndigits_lower: "0 < n \<Longrightarrow> 10 ^ (ndigits n - 1) \<le> n"
proof (induction n rule: ndigits.induct)
  case (1 n)
  show ?case
  proof (cases "n < 10")
    case False
    with 1 have "10 ^ (ndigits (n div 10) - 1) \<le> n div 10" by simp
    then have "10 * 10 ^ (ndigits (n div 10) - 1) \<le> n"
      by (metis div_le_mono div_times_less_eq_dividend le_trans mult.commute mult_le_mono2)
    moreover have "Suc (ndigits (n div 10) - 1) = ndigits (n div 10)"
      using ndigits_pos [of "n div 10"] by simp
    ultimately show ?thesis using False
      by (simp add: ndigits.simps [of n] flip: power_Suc)
  qed (use 1 in \<open>simp add: ndigits.simps [of n]\<close>)
qed

lemma ndigits_gt:
  assumes "10 ^ p \<le> n" shows "p < ndigits n"
proof -
  have "(10::nat) ^ p < 10 ^ ndigits n" using assms ndigits_upper [of n] by linarith
  then show ?thesis by simp
qed

text \<open>\<open>Decimal._fix\<close>: round half-even to the precision of the context.\<close>

definition fix_ctx :: "nat \<Rightarrow> decimal \<Rightarrow> decimal" where
  "fix_ctx p x = (if \<bar>coeff x\<bar> < 10 ^ p then x
     else let k = ndigits (nat \<bar>coeff x\<bar>) - p;
              c = round_div ROUND_HALF_EVEN (coeff x) (10 ^ k)
          in if \<bar>c\<bar> = 10 ^ p then Dec (c div 10) (expn x + int k + 1) else Dec c (expn x + int k))"

definition fits :: "nat \<Rightarrow> rat \<Rightarrow> bool" where
  "fits p v \<longleftrightarrow> (\<exists>k e. v = of_int k * pow10 e \<and> \<bar>k\<bar> < 10 ^ p)"

lemma fitsI: "v = of_int k * pow10 e \<Longrightarrow> \<bar>k\<bar> < 10 ^ p \<Longrightarrow> fits p v"
  by (auto simp: fits_def)

lemma fits_mono:
  assumes "fits p v" "p \<le> q"
  shows "fits q v"
proof -
  obtain k e where k: "v = of_int k * pow10 e" "\<bar>k\<bar> < 10 ^ p" using assms(1) by (auto simp: fits_def)
  have "(10::int) ^ p \<le> 10 ^ q" using assms(2) by (intro power_increasing) auto
  with k(2) have "\<bar>k\<bar> < 10 ^ q" by (rule order.strict_trans2)
  with k(1) show ?thesis by (rule fitsI)
qed

lemma fits_uminus: "fits p v \<Longrightarrow> fits p (- v)"
  by (auto simp: fits_def) (metis abs_minus_cancel mult_minus_left of_int_minus)

lemma fits_minus [simp]: "fits p (- v) \<longleftrightarrow> fits p v"
  using fits_uminus [of p v] fits_uminus [of p "- v"] by auto

lemma fits_0 [simp]: "fits p 0"
  by (rule fitsI [of _ 0 0]) simp_all

lemma fix_ctx_small [simp]: "\<bar>c\<bar> < 10 ^ p \<Longrightarrow> fix_ctx p (Dec c e) = Dec c e"
  by (simp add: fix_ctx_def)

text \<open>A result that fits the precision is kept exactly.\<close>

lemma fix_ctx_exact:
  assumes "fits p (dval x)"
  shows "dval (fix_ctx p x) = dval x"
proof (cases "\<bar>coeff x\<bar> < 10 ^ p")
  case True
  then show ?thesis by (simp add: fix_ctx_def)
next
  case False
  define c where "c = coeff x"
  define e where "e = expn x"
  define n where "n = ndigits (nat \<bar>c\<bar>)"
  obtain k f where kf: "of_int c * pow10 e = of_int k * pow10 f" "\<bar>k\<bar> < 10 ^ p"
    using assms by (auto simp: fits_def dval_def c_def e_def)
  have c: "10 ^ p \<le> \<bar>c\<bar>" using False by (simp add: c_def)
  have "(10::nat) ^ p \<le> nat \<bar>c\<bar>" using c by (simp add: le_nat_iff)
  then have n: "p < n" unfolding n_def by (rule ndigits_gt)
  have "0 < (10::int) ^ p" by simp
  with c have "(10::nat) ^ (n - 1) \<le> nat \<bar>c\<bar>"
    unfolding n_def by (intro ndigits_lower) linarith
  then have low: "10 ^ (n - 1) \<le> \<bar>c\<bar>" by (simp add: le_nat_iff)
  have ef: "e < f"
  proof (rule ccontr)
    assume "\<not> e < f"
    then have "of_int k * pow10 f = of_int (c * 10 ^ nat (e - f)) * pow10 f"
      using pow10_shift [of f e] kf by simp
    then have "k = c * 10 ^ nat (e - f)"
      by (metis mult_right_cancel of_int_eq_iff pow10_pos less_irrefl)
    then have "\<bar>c\<bar> \<le> \<bar>k\<bar>" by (simp add: abs_mult mult_le_cancel_left1)
    with c kf(2) show False by simp
  qed
  then have "of_int c * pow10 e = of_int (k * 10 ^ nat (f - e)) * pow10 e"
    using pow10_shift [of e f] kf by simp
  then have ck: "c = k * 10 ^ nat (f - e)"
    by (metis mult_right_cancel of_int_eq_iff pow10_pos less_irrefl)
  have "n - p \<le> nat (f - e)"
  proof (rule ccontr)
    assume "\<not> n - p \<le> nat (f - e)"
    then have "p + nat (f - e) \<le> n - 1" by simp
    then have "(10::int) ^ (p + nat (f - e)) \<le> 10 ^ (n - 1)" by (intro power_increasing) auto
    also have "\<dots> \<le> \<bar>k\<bar> * 10 ^ nat (f - e)" using low ck by (simp add: abs_mult)
    also have "\<dots> < 10 ^ p * 10 ^ nat (f - e)" using kf(2) by simp
    finally show False by (simp add: power_add)
  qed
  then obtain m where m: "c = m * 10 ^ (n - p)"
    by (metis ck dvd_def dvd_mult le_imp_power_dvd mult.commute)
  have r: "round_div ROUND_HALF_EVEN c (10 ^ (n - p)) = m"
    by (simp add: round_div_rat m rr.exact flip: of_int_power)
  have "dval (Dec m (e + int (n - p))) = of_int c * pow10 e"
    by (simp add: dval_Dec m power_int_add)
  moreover have "dval (Dec (m div 10) (e + int (n - p) + 1)) = of_int c * pow10 e"
    if "\<bar>m\<bar> = 10 ^ p"
  proof -
    have "p \<noteq> 0" using that m kf(2) ck c by (cases "p = 0") auto
    then have "10 dvd m" using that by (metis dvd_abs_iff dvd_power neq0_conv)
    then have "of_int m = of_int (m div 10) * (10::rat)" by (metis dvd_div_mult_self of_int_mult of_int_numeral)
    then show ?thesis by (simp add: dval_Dec m power_int_add)
  qed
  ultimately show ?thesis
    using False r by (simp add: fix_ctx_def Let_def c_def [symmetric] e_def [symmetric]
        n_def [symmetric] dval_def [of x])
qed

subsection \<open>Arithmetic\<close>

definition dadd :: "nat \<Rightarrow> decimal \<Rightarrow> decimal \<Rightarrow> decimal" where
  "dadd p a b = (case dalign a b of (x, y, e) \<Rightarrow> fix_ctx p (Dec (x + y) e))"

definition dneg :: "nat \<Rightarrow> decimal \<Rightarrow> decimal" where
  "dneg p a = fix_ctx p (Dec (- coeff a) (expn a))"

definition dsub :: "nat \<Rightarrow> decimal \<Rightarrow> decimal \<Rightarrow> decimal" where
  "dsub p a b = (case dalign a b of (x, y, e) \<Rightarrow> fix_ctx p (Dec (x - y) e))"

definition dabs :: "nat \<Rightarrow> decimal \<Rightarrow> decimal" where
  "dabs p a = fix_ctx p (Dec \<bar>coeff a\<bar> (expn a))"

definition dmul :: "nat \<Rightarrow> decimal \<Rightarrow> decimal \<Rightarrow> decimal" where
  "dmul p a b = fix_ctx p (Dec (coeff a * coeff b) (expn a + expn b))"

definition dsum :: "nat \<Rightarrow> decimal list \<Rightarrow> decimal" where
  "dsum p xs = foldl (dadd p) d_zero xs"

lemma dval_dadd [dec_simps]:
  "fits p (dval a + dval b) \<Longrightarrow> dval (dadd p a b) = dval a + dval b"
  by (cases "dalign a b")
    (auto simp: dadd_def dval_Dec distrib_right [symmetric] dest!: dalign_dval intro!: fix_ctx_exact
      [THEN trans])

lemma dval_dsub [dec_simps]:
  "fits p (dval a - dval b) \<Longrightarrow> dval (dsub p a b) = dval a - dval b"
  by (cases "dalign a b")
    (auto simp: dsub_def dval_Dec left_diff_distrib [symmetric] dest!: dalign_dval
      intro!: fix_ctx_exact [THEN trans])

lemma dval_dmul [dec_simps]:
  "fits p (dval a * dval b) \<Longrightarrow> dval (dmul p a b) = dval a * dval b"
proof -
  assume "fits p (dval a * dval b)"
  moreover have "dval (Dec (coeff a * coeff b) (expn a + expn b)) = dval a * dval b"
    by (simp add: dval_def power_int_add)
  ultimately show ?thesis unfolding dmul_def using fix_ctx_exact by metis
qed

lemma dval_dneg [dec_simps]: "fits p (dval a) \<Longrightarrow> dval (dneg p a) = - dval a"
proof -
  assume "fits p (dval a)"
  moreover have "dval (Dec (- coeff a) (expn a)) = - dval a" by (simp add: dval_def)
  ultimately show ?thesis unfolding dneg_def by (metis fits_minus fix_ctx_exact)
qed

lemma dval_dabs [dec_simps]: "fits p (dval a) \<Longrightarrow> dval (dabs p a) = \<bar>dval a\<bar>"
proof -
  assume "fits p (dval a)"
  then have "fits p \<bar>dval a\<bar>" by (simp add: abs_if)
  moreover have "dval (Dec \<bar>coeff a\<bar> (expn a)) = \<bar>dval a\<bar>" by (simp add: dval_def abs_mult)
  ultimately show ?thesis unfolding dabs_def by (metis fix_ctx_exact)
qed

text \<open>\<open>Decimal.__truediv__\<close> for a non-zero divisor.\<close>

fun strip_zeros :: "nat \<Rightarrow> int \<Rightarrow> int \<Rightarrow> int \<times> int" where
  "strip_zeros 0 c e = (c, e)"
| "strip_zeros (Suc n) c e = (if c mod 10 = 0 then strip_zeros n (c div 10) (e + 1) else (c, e))"

definition ddiv :: "nat \<Rightarrow> decimal \<Rightarrow> decimal \<Rightarrow> decimal result" where
  "ddiv p a b =
     (if coeff b = 0 then Inl (if coeff a = 0 then InvalidOperation else DivisionByZero)
      else if coeff a = 0 then Inr (Dec 0 (expn a - expn b))
      else
        let sg = (if (coeff a < 0) = (coeff b < 0) then 1 else -1 :: int);
            ca = \<bar>coeff a\<bar>; cb = \<bar>coeff b\<bar>;
            shift = int (ndigits (nat cb)) - int (ndigits (nat ca)) + int p + 1;
            e = expn a - expn b - shift;
            n = (if 0 \<le> shift then ca * 10 ^ nat shift else ca);
            d = (if 0 \<le> shift then cb else cb * 10 ^ nat (- shift));
            q = n div d; r = n mod d
        in if r \<noteq> 0 then Inr (fix_ctx p (Dec (sg * (if q mod 5 = 0 then q + 1 else q)) e))
           else case strip_zeros (nat (expn a - expn b - e)) q e of
                  (q', e') \<Rightarrow> Inr (fix_ctx p (Dec (sg * q') e')))"

subsection \<open>Quantize\<close>

text \<open>\<open>x.quantize(Decimal(1).scaleb(-scale), rounding=mode)\<close> in a context of precision \<open>p\<close>.\<close>

definition rescale :: "rounding_mode \<Rightarrow> int \<Rightarrow> decimal \<Rightarrow> decimal" where
  "rescale mode e x = (if e \<le> expn x then Dec (coeff x * 10 ^ nat (expn x - e)) e
     else Dec (round_div mode (coeff x) (10 ^ nat (e - expn x))) e)"

definition quantize :: "nat \<Rightarrow> rounding_mode \<Rightarrow> nat \<Rightarrow> decimal \<Rightarrow> decimal result" where
  "quantize p mode scale x = (let y = rescale mode (- int scale) x in
     if \<bar>coeff y\<bar> < 10 ^ p then Inr y else Inl InvalidOperation)"

text \<open>The abstract quantize: the rational rounded to \<open>scale\<close> decimal places.\<close>

definition rquantize :: "rounding_mode \<Rightarrow> nat \<Rightarrow> rat \<Rightarrow> rat" where
  "rquantize mode scale v = of_int (round_rat mode (v * 10 ^ scale)) / 10 ^ scale"

lemma rescale_eq: "rescale mode (- int s) x = Dec (round_rat mode (dval x * 10 ^ s)) (- int s)"
proof (cases "- int s \<le> expn x")
  case True
  have "dval x = of_int (coeff x * 10 ^ nat (expn x - (- int s))) * pow10 (- int s)"
    using pow10_shift [OF True] by (simp add: dval_def)
  then have "dval x * 10 ^ s = of_int (coeff x * 10 ^ nat (expn x - (- int s)))"
    by (simp add: power_int_minus)
  then have "round_rat mode (dval x * 10 ^ s) = coeff x * 10 ^ nat (expn x - (- int s))"
    by (simp only: rr.exact)
  then show ?thesis using True by (simp add: rescale_def)
next
  case False
  then have "pow10 (- int s) = of_int (10 ^ nat (- int s - expn x)) * pow10 (expn x)"
    by (intro pow10_shift) simp
  then have "dval x * 10 ^ s = of_int (coeff x) / of_int (10 ^ nat (- int s - expn x))"
    by (simp add: dval_def power_int_minus field_simps)
  with False show ?thesis by (simp add: rescale_def round_div_rat del: of_int_power)
qed

lemma quantize_Inr_iff:
  "quantize p mode s x = Inr y \<longleftrightarrow>
     y = Dec (round_rat mode (dval x * 10 ^ s)) (- int s) \<and> \<bar>round_rat mode (dval x * 10 ^ s)\<bar> < 10 ^ p"
  by (auto simp: quantize_def rescale_eq Let_def)

lemma quantize_dval: "quantize p mode s x = Inr y \<Longrightarrow> dval y = rquantize mode s (dval x)"
  by (auto simp: quantize_Inr_iff rquantize_def dval_Dec power_int_minus field_simps)

lemma quantize_cong: "dval x = dval x' \<Longrightarrow> quantize p mode s x = quantize p mode s x'"
  by (simp add: quantize_def rescale_eq)

lemma quantize_error: "quantize p mode s x = Inl e \<Longrightarrow> e = InvalidOperation"
  by (auto simp: quantize_def Let_def split: if_splits)

lemma quantize_expn: "quantize p mode s x = Inr y \<Longrightarrow> expn y = - int s \<and> \<bar>coeff y\<bar> < 10 ^ p"
  by (auto simp: quantize_Inr_iff)

lemma quantize_ok_iff: "is_ok (quantize p mode s x) \<longleftrightarrow> \<bar>round_rat mode (dval x * 10 ^ s)\<bar> < 10 ^ p"
  by (auto simp: is_ok_iff quantize_Inr_iff)

lemma rquantize_mono: "v \<le> w \<Longrightarrow> rquantize mode s v \<le> rquantize mode s w"
  by (simp add: rquantize_def divide_right_mono rr.mono)

lemma rquantize_near: "\<bar>rquantize mode s v - v\<bar> < 1 / 10 ^ s"
proof -
  have "\<bar>rquantize mode s v - v\<bar> = \<bar>of_int (round_rat mode (v * 10 ^ s)) - v * 10 ^ s\<bar> / 10 ^ s"
    by (simp add: rquantize_def abs_divide field_simps)
  also have "\<dots> < 1 / 10 ^ s" by (intro divide_strict_right_mono rr.near) simp
  finally show ?thesis .
qed

lemma rquantize_nonneg: "0 \<le> v \<Longrightarrow> 0 \<le> rquantize mode s v"
  by (simp add: rquantize_def rr.nonneg)

lemma rquantize_minus: "rquantize mode s (- v) = - rquantize mode s v"
  by (simp add: rquantize_def rr.neg)

lemma rquantize_of_multiple: "v * 10 ^ s = of_int k \<Longrightarrow> rquantize mode s v = v"
  by (simp add: rquantize_def rr.exact field_simps)

lemma rquantize_finer: "s \<le> t \<Longrightarrow> rquantize mode t (rquantize mode' s v) = rquantize mode' s v"
proof (rule rquantize_of_multiple)
  assume "s \<le> t"
  then have "(10::rat) ^ t = 10 ^ s * 10 ^ (t - s)" by (simp flip: power_add)
  then show "rquantize mode' s v * 10 ^ t = of_int (round_rat mode' (v * 10 ^ s) * 10 ^ (t - s))"
    by (simp add: rquantize_def)
qed

lemma rquantize_idem: "rquantize mode s (rquantize mode' s v) = rquantize mode' s v"
  by (rule rquantize_finer) simp


subsection \<open>Evaluation on small literals\<close>

text \<open>Decimals of fewer than 20 digits need no context rounding; these rules keep the evaluation
  of concrete examples away from the powers of ten of the large contexts.\<close>

lemma small_coeff: "20 \<le> p \<Longrightarrow> \<bar>c\<bar> < 100000000000000000000 \<Longrightarrow> \<bar>c :: int\<bar> < 10 ^ p"
proof -
  assume "20 \<le> p" "\<bar>c\<bar> < 100000000000000000000"
  moreover from \<open>20 \<le> p\<close> have "(10::int) ^ 20 \<le> 10 ^ p" by (rule power_increasing) simp
  ultimately show ?thesis by simp
qed

lemma fix_ctx_literal: "20 \<le> p \<Longrightarrow> \<bar>c\<bar> < 100000000000000000000 \<Longrightarrow> fix_ctx p (Dec c e) = Dec c e"
  by (rule fix_ctx_small) (rule small_coeff)

lemma quantize_literal:
  assumes "20 \<le> p" "rescale mode (- int s) x = Dec c e" "\<bar>c\<bar> < 100000000000000000000"
  shows "quantize p mode s x = Inr (Dec c e)"
  using small_coeff [OF assms(1,3)] assms(2) by (simp add: quantize_def)

lemma decimal_literals:
  "dadd p (Dec a e) (Dec b f) = (let m = min e f in fix_ctx p (Dec (a * 10 ^ nat (e - m) + b * 10 ^ nat (f - m)) m))"
  "dsub p (Dec a e) (Dec b f) = (let m = min e f in fix_ctx p (Dec (a * 10 ^ nat (e - m) - b * 10 ^ nat (f - m)) m))"
  "dmul p (Dec a e) (Dec b f) = fix_ctx p (Dec (a * b) (e + f))"
  "dabs p (Dec a e) = fix_ctx p (Dec \<bar>a\<bar> e)"
  "dneg p (Dec a e) = fix_ctx p (Dec (- a) e)"
  "dlt (Dec a e) (Dec b f) = (let m = min e f in a * 10 ^ nat (e - m) < b * 10 ^ nat (f - m))"
  "dle (Dec a e) (Dec b f) = (let m = min e f in a * 10 ^ nat (e - m) \<le> b * 10 ^ nat (f - m))"
  "deq (Dec a e) (Dec b f) = (let m = min e f in a * 10 ^ nat (e - m) = b * 10 ^ nat (f - m))"
  "rescale mode g (Dec a e) = (if g \<le> e then Dec (a * 10 ^ nat (e - g)) g
     else Dec (round_div mode a (10 ^ nat (g - e))) g)"
  by (simp_all add: dadd_def dsub_def dmul_def dabs_def dneg_def dlt_def dle_def deq_def rescale_def dalign_def Let_def)

lemmas dec_eval = fix_ctx_literal quantize_literal decimal_literals round_div_def rounds_away_def Let_def
  dsum_def d_zero_def d_one_def dec_of_int_def

end
