(* ===== verification/TG_Access.thy ===== *)
theory TG_Access
  imports TG_Enums TG_Decimal
begin

text \<open>
  \<open>domain/access.py\<close>: the bit mask of a set of project roles and the check that stored
  role evidence (a JSON list of role names and an integer mask) reproduces one role set.
  Untyped Python values (\<open>object\<close>, \<open>Any\<close>) are the datatype \<open>pyval\<close>.
\<close>

unbundle bit_operations_syntax

subsection \<open>Untyped values\<close>

datatype pyval =
    PNone
  | PBool bool
  | PInt int
  | PDec decimal
  | PFloat rat
  | is_PStr: PStr string
  | PList "pyval list"
  | PSet "pyval list"
  | PDict "(string \<times> pyval) list"

subsection \<open>Role bits\<close>

text \<open>\<open>PROJECT_ROLE_BITS\<close>: \<open>SYSTEM\<close> has no entry.\<close>

fun PROJECT_ROLE_BITS :: "ActorRole \<Rightarrow> int option" where
  "PROJECT_ROLE_BITS ActorRole.ESTIMATOR = Some (push_bit 0 1)"
| "PROJECT_ROLE_BITS ActorRole.PROCUREMENT = Some (push_bit 1 1)"
| "PROJECT_ROLE_BITS ActorRole.TECHNICAL_EXPERT = Some (push_bit 2 1)"
| "PROJECT_ROLE_BITS ActorRole.REVIEWER = Some (push_bit 3 1)"
| "PROJECT_ROLE_BITS ActorRole.APPROVER = Some (push_bit 4 1)"
| "PROJECT_ROLE_BITS ActorRole.METHODOLOGY_OWNER = Some (push_bit 5 1)"
| "PROJECT_ROLE_BITS ActorRole.CATALOG_OWNER = Some (push_bit 6 1)"
| "PROJECT_ROLE_BITS ActorRole.AUDITOR = Some (push_bit 7 1)"
| "PROJECT_ROLE_BITS ActorRole.ADMIN = Some (push_bit 8 1)"
| "PROJECT_ROLE_BITS ActorRole.SYSTEM = None"

definition PROJECT_ROLE_MASK_MAX :: int where
  "PROJECT_ROLE_MASK_MAX = sum_list (List.map_filter PROJECT_ROLE_BITS all_ActorRole)"

definition project_role_bit :: "ActorRole \<Rightarrow> int result" where
  "project_role_bit role = (case PROJECT_ROLE_BITS role of
     None \<Rightarrow> Inl (ValueError (ActorRole_value role @ '' is not a project membership role''))
   | Some b \<Rightarrow> Inr b)"

definition project_role_mask :: "ActorRole list \<Rightarrow> int result" where
  "project_role_mask roles =
     bindR (foldR (\<lambda>mask role. bindR (project_role_bit role) (\<lambda>b. Inr (mask OR b))) 0 roles)
       (\<lambda>mask. if mask = 0
               then Inl (ValueError ''At least one project membership role is required'')
               else Inr mask)"

definition role_members :: "pyval list \<Rightarrow> ActorRole list result" where
  "role_members = mapR (\<lambda>v. case v of PStr s \<Rightarrow> ActorRole_of s | _ \<Rightarrow> Inl (TypeError []))"

definition validate_project_role_evidence :: "pyval \<Rightarrow> pyval \<Rightarrow> ActorRole fset result" where
  "validate_project_role_evidence raw_roles stored_mask = (case raw_roles of
     PList vs \<Rightarrow>
       (if vs = [] \<or> (\<exists>v \<in> set vs. \<not> is_PStr v) \<or> \<not> distinct vs
        then Inl (ValueError ''Project membership role evidence is malformed'')
        else (case role_members vs of
            Inl _ \<Rightarrow> Inl (ValueError ''Project membership contains an unknown role'')
          | Inr roles \<Rightarrow>
              (if ActorRole.SYSTEM \<in> set roles
               then Inl (ValueError ''Project membership cannot contain the SYSTEM role'')
               else case stored_mask of
                 PInt m \<Rightarrow> bindR (project_role_mask roles) (\<lambda>mask.
                   if mask \<noteq> m
                   then Inl (ValueError ''Project membership role mask does not match its role set'')
                   else Inr (fset_of_list roles))
               | _ \<Rightarrow> Inl (ValueError ''Project membership role mask is malformed''))))
   | _ \<Rightarrow> Inl (ValueError ''Project membership role evidence is malformed''))"

subsection \<open>The mask determines the role set\<close>

fun role_index :: "ActorRole \<Rightarrow> nat" where
  "role_index ActorRole.ESTIMATOR = 0"
| "role_index ActorRole.PROCUREMENT = 1"
| "role_index ActorRole.TECHNICAL_EXPERT = 2"
| "role_index ActorRole.REVIEWER = 3"
| "role_index ActorRole.APPROVER = 4"
| "role_index ActorRole.METHODOLOGY_OWNER = 5"
| "role_index ActorRole.CATALOG_OWNER = 6"
| "role_index ActorRole.AUDITOR = 7"
| "role_index ActorRole.ADMIN = 8"
| "role_index ActorRole.SYSTEM = 9"

lemma role_index_inj [simp]: "role_index r = role_index s \<longleftrightarrow> r = s"
  by (cases r; cases s; simp)

lemma project_role_bit_Inr:
  "project_role_bit r = (if r = ActorRole.SYSTEM
     then Inl (ValueError ''SYSTEM is not a project membership role'')
     else Inr (2 ^ role_index r))"
  by (cases r) (simp_all add: project_role_bit_def)

definition or_bits :: "int \<Rightarrow> ActorRole list \<Rightarrow> int" where
  "or_bits m rs = foldl (\<lambda>a r. a OR 2 ^ role_index r) m rs"

lemma or_bits_Nil [simp]: "or_bits m [] = m"
  and or_bits_Cons [simp]: "or_bits m (r # rs) = or_bits (m OR 2 ^ role_index r) rs"
  by (simp_all add: or_bits_def)

lemma foldR_role_bits:
  "foldR (\<lambda>mask role. bindR (project_role_bit role) (\<lambda>b. Inr (mask OR b))) m rs =
     (if ActorRole.SYSTEM \<in> set rs
      then Inl (ValueError ''SYSTEM is not a project membership role'')
      else Inr (or_bits m rs))"
  by (induction rs arbitrary: m) (auto simp: project_role_bit_Inr)

lemma bit_or_bits: "bit (or_bits m rs) n \<longleftrightarrow> bit m n \<or> (\<exists>r \<in> set rs. role_index r = n)"
  by (induction rs arbitrary: m) (auto simp: bit_or_iff bit_exp_iff)

lemma or_bits_eq_0: "or_bits 0 rs = 0 \<longleftrightarrow> rs = []"
proof
  assume "or_bits 0 rs = 0"
  then have "\<not> (\<exists>r \<in> set rs. role_index r = n)" for n
    using bit_or_bits [of 0 rs n] by simp
  then show "rs = []" by (cases rs) auto
qed simp

lemma project_role_mask_Inr:
  "project_role_mask rs = Inr m \<longleftrightarrow> rs \<noteq> [] \<and> ActorRole.SYSTEM \<notin> set rs \<and> m = or_bits 0 rs"
  by (auto simp: project_role_mask_def foldR_role_bits or_bits_eq_0)

lemma project_role_mask_ok:
  "is_ok (project_role_mask rs) \<longleftrightarrow> rs \<noteq> [] \<and> ActorRole.SYSTEM \<notin> set rs"
  by (auto simp: is_ok_iff project_role_mask_Inr)

lemma or_bits_inj: "or_bits 0 rs = or_bits 0 qs \<longleftrightarrow> set rs = set qs"
proof
  assume eq: "or_bits 0 rs = or_bits 0 qs"
  have "r \<in> set rs \<longleftrightarrow> r \<in> set qs" for r
    using bit_or_bits [of 0 rs "role_index r"] bit_or_bits [of 0 qs "role_index r"] eq
    by simp
  then show "set rs = set qs" by auto
next
  assume "set rs = set qs"
  then show "or_bits 0 rs = or_bits 0 qs" by (intro bit_eqI) (simp add: bit_or_bits)
qed

lemma role_index_less: "r \<noteq> ActorRole.SYSTEM \<Longrightarrow> role_index r < 9"
  by (cases r) auto

lemma or_bits_range:
  assumes "ActorRole.SYSTEM \<notin> set rs"
  shows "0 \<le> or_bits 0 rs" "or_bits 0 rs < 512"
proof -
  have "\<not> bit (or_bits 0 rs) n" if "9 \<le> n" for n
    using that assms by (auto simp: bit_or_bits dest!: role_index_less)
      (metis not_less role_index_less)
  then have "take_bit 9 (or_bits 0 rs) = or_bits 0 rs"
    by (intro bit_eqI) (auto simp: bit_take_bit_iff not_le [symmetric])
  moreover have "0 \<le> take_bit 9 (or_bits 0 rs)" "take_bit 9 (or_bits 0 rs) < 2 ^ 9"
    by simp (rule take_bit_int_less_exp)
  ultimately show "0 \<le> or_bits 0 rs" "or_bits 0 rs < 512" by simp_all
qed

lemma PROJECT_ROLE_MASK_MAX_eq: "PROJECT_ROLE_MASK_MAX = 511"
  by (simp add: PROJECT_ROLE_MASK_MAX_def all_ActorRole_def List.map_filter_def)

subsection \<open>Stored evidence\<close>

lemma mapR_ActorRole_of_values: "mapR ActorRole_of (map ActorRole_value rs) = Inr rs"
  by (induction rs) simp_all

lemma role_members_Inr: "role_members vs = Inr rs \<longleftrightarrow> vs = map (PStr \<circ> ActorRole_value) rs"
  unfolding role_members_def
  by (induction vs arbitrary: rs)
    (auto simp: result_simps ActorRole_of_Inr map_eq_Cons_conv Cons_eq_map_conv split: pyval.splits)

lemma validate_project_role_evidence_Inr:
  "validate_project_role_evidence raw stored = Inr R \<longleftrightarrow>
     (\<exists>rs. raw = PList (map (PStr \<circ> ActorRole_value) rs) \<and> rs \<noteq> [] \<and> distinct rs
        \<and> ActorRole.SYSTEM \<notin> set rs \<and> stored = PInt (or_bits 0 rs) \<and> R = fset_of_list rs)"
  (is "?L \<longleftrightarrow> ?R")
proof
  assume L: ?L
  then obtain vs where vs: "raw = PList vs" "vs \<noteq> []" "distinct vs"
    by (cases raw) (auto simp: validate_project_role_evidence_def split: if_splits)
  show ?R
  proof (cases "role_members vs")
    case (Inl e)
    with L vs show ?thesis by (auto simp: validate_project_role_evidence_def split: if_splits)
  next
    case (Inr rs)
    with L vs have "ActorRole.SYSTEM \<notin> set rs" "\<exists>m. stored = PInt m \<and> project_role_mask rs = Inr m"
      "R = fset_of_list rs"
      by (auto simp: validate_project_role_evidence_def result_simps split: if_splits pyval.splits)
    with Inr vs show ?thesis
      by (auto simp: role_members_Inr project_role_mask_Inr distinct_map intro!: exI [of _ rs])
  qed
next
  assume ?R
  then obtain rs where rs: "raw = PList (map (PStr \<circ> ActorRole_value) rs)" "rs \<noteq> []"
    "distinct rs" "ActorRole.SYSTEM \<notin> set rs" "stored = PInt (or_bits 0 rs)" "R = fset_of_list rs"
    by auto
  moreover from rs have "project_role_mask rs = Inr (or_bits 0 rs)"
    by (simp add: project_role_mask_Inr)
  moreover have "role_members (map (PStr \<circ> ActorRole_value) rs) = Inr rs"
    by (simp add: role_members_Inr)
  ultimately show ?L
    by (simp add: validate_project_role_evidence_def distinct_map inj_on_def)
qed

end
