(* ===== verification/TG_Project_Store.thy ===== *)
theory TG_Project_Store
  imports TG_Access
begin

text \<open>
  The rows of the system of record that the project service reads and writes
  (\<open>infrastructure/orm.py\<close>) and the actor of a request (\<open>infrastructure/auth.py\<close>).  The
  store is the database as one transaction sees it: an operation takes it and returns either
  an exception, in which case the transaction rolls back and the caller keeps the old store,
  or its result and the new store.  Fresh identifiers (\<open>uuid4\<close>) and the clock
  (\<open>utc_now\<close>) are arguments.
\<close>

record actor =
  actor_id :: string
  actor_organization_id :: string
  actor_roles :: "ActorRole fset"

definition require_any :: "actor \<Rightarrow> ActorRole list \<Rightarrow> unit result" where
  "require_any a roles = (if actor_roles a |\<inter>| fset_of_list roles = {||}
     then Inl (HTTPException 403 ''Required role is missing'') else Inr ())"

record project =
  pr_id :: string
  pr_organization_id :: string
  pr_code :: string
  pr_name :: string
  pr_state :: ApprovalState
  pr_blocked_resume_state :: "ApprovalState option"
  pr_current_document_set_revision_id :: "string option"
  pr_row_version :: int
  pr_updated_at :: int

record membership =
  mb_id :: string
  mb_project_id :: string
  mb_principal_id :: string
  mb_roles :: "string list"
  mb_role_mask :: int
  mb_access_level :: ProjectAccessLevel
  mb_status :: ProjectMembershipStatus
  mb_version :: int
  mb_supersedes :: "string option"
  mb_changed_by :: string
  mb_reason :: string
  mb_created_at :: int

record adapter_qualification =
  aq_id :: string
  aq_adapter_name :: string
  aq_status :: string
  aq_valid_until :: "int option"
  aq_organization_id :: "string option"
  aq_service_actor_id :: "string option"
  aq_supported_methods :: "string list"

record workflow_transition_row =
  wt_id :: string
  wt_project_id :: string
  wt_from_state :: ApprovalState
  wt_to_state :: ApprovalState
  wt_actor_id :: string
  wt_reason :: string
  wt_occurred_at :: int

record release_decision_row =
  rd_id :: string
  rd_project_id :: string
  rd_snapshot_id :: "string option"
  rd_requested_state :: ApprovalState
  rd_resulting_state :: ApprovalState
  rd_allowed :: bool
  rd_gate_hash :: string
  rd_decided_by :: string
  rd_decided_at :: int

record document_row =
  dr_id :: string
  dr_project_id :: string
  dr_logical_key :: string
  dr_title :: string
  dr_document_type :: string
  dr_critical :: bool
  dr_cancelled :: bool

record document_revision_row =
  dv_id :: string
  dv_document_id :: string
  dv_revision_label :: string
  dv_object_hash :: string
  dv_supersedes_revision_id :: "string option"
  dv_is_current :: bool

record document_set_row =
  ds_id :: string
  ds_project_id :: string
  ds_manifest_hash :: string
  ds_revision_ids :: "string list"
  ds_status :: string
  ds_created_by :: string
  ds_created_at :: int
  ds_confirmed_by :: "string option"
  ds_confirmed_at :: "int option"

record verification_finding_row =
  fr_id :: string
  fr_project_id :: string
  fr_contour :: string
  fr_code :: string
  fr_severity :: Severity
  fr_resolved :: bool
  fr_payload :: "(string \<times> pyval) list"
  fr_created_at :: int

record audit_entry =
  ae_aggregate_type :: string
  ae_aggregate_id :: string
  ae_event_type :: string
  ae_actor_id :: string
  ae_request_id :: string
  ae_reason :: string
  ae_payload :: "(string \<times> pyval) list"

record outbox_entry =
  oe_topic :: string
  oe_aggregate_id :: string
  oe_payload :: "(string \<times> pyval) list"

record store =
  st_projects :: "project list"
  st_memberships :: "membership list"
  st_qualifications :: "adapter_qualification list"
  st_documents :: "document_row list"
  st_revisions :: "document_revision_row list"
  st_document_sets :: "document_set_row list"
  st_findings :: "verification_finding_row list"
  st_transitions :: "workflow_transition_row list"
  st_decisions :: "release_decision_row list"
  st_audit :: "audit_entry list"
  st_outbox :: "outbox_entry list"

text \<open>The configured service qualifications of \<open>config.Settings\<close>.\<close>

record settings =
  malware_scanner_qualification_id :: "string option"
  malware_scanner_adapter :: "string option"
  document_processor_qualification_id :: "string option"
  document_processor_adapter :: "string option"
  automation_rework_qualification_id :: "string option"
  automation_rework_adapter :: "string option"

subsection \<open>Primitive effects\<close>

definition audit :: "actor \<Rightarrow> string \<Rightarrow> string \<Rightarrow> string \<Rightarrow> string \<Rightarrow> string \<Rightarrow> (string \<times> pyval) list
    \<Rightarrow> store \<Rightarrow> store" where
  "audit a agg_type agg_id event_type request_id reason payload st =
     st\<lparr>st_audit := st_audit st @ [\<lparr>ae_aggregate_type = agg_type, ae_aggregate_id = agg_id,
        ae_event_type = event_type, ae_actor_id = actor_id a, ae_request_id = request_id,
        ae_reason = reason, ae_payload = payload\<rparr>]\<rparr>"

definition outbox :: "string \<Rightarrow> string \<Rightarrow> (string \<times> pyval) list \<Rightarrow> store \<Rightarrow> store" where
  "outbox topic agg_id payload st =
     st\<lparr>st_outbox := st_outbox st @ [\<lparr>oe_topic = topic, oe_aggregate_id = agg_id, oe_payload = payload\<rparr>]\<rparr>"

lemma audit_frame [simp]:
  "st_projects (audit a t i e q r p st) = st_projects st"
  "st_memberships (audit a t i e q r p st) = st_memberships st"
  "st_qualifications (audit a t i e q r p st) = st_qualifications st"
  "st_documents (audit a t i e q r p st) = st_documents st"
  "st_revisions (audit a t i e q r p st) = st_revisions st"
  "st_document_sets (audit a t i e q r p st) = st_document_sets st"
  "st_findings (audit a t i e q r p st) = st_findings st"
  "st_transitions (audit a t i e q r p st) = st_transitions st"
  "st_decisions (audit a t i e q r p st) = st_decisions st"
  "st_outbox (audit a t i e q r p st) = st_outbox st"
  by (simp_all add: audit_def)

lemma outbox_frame [simp]:
  "st_projects (outbox t i p st) = st_projects st"
  "st_memberships (outbox t i p st) = st_memberships st"
  "st_qualifications (outbox t i p st) = st_qualifications st"
  "st_documents (outbox t i p st) = st_documents st"
  "st_revisions (outbox t i p st) = st_revisions st"
  "st_document_sets (outbox t i p st) = st_document_sets st"
  "st_findings (outbox t i p st) = st_findings st"
  "st_transitions (outbox t i p st) = st_transitions st"
  "st_decisions (outbox t i p st) = st_decisions st"
  "st_audit (outbox t i p st) = st_audit st"
  by (simp_all add: outbox_def)

text \<open>The project row a query by identifier and organisation finds.\<close>

definition find_project :: "store \<Rightarrow> string \<Rightarrow> string \<Rightarrow> project option" where
  "find_project st project_id organization_id =
     find (\<lambda>p. pr_id p = project_id \<and> pr_organization_id p = organization_id) (st_projects st)"

lemma find_project_Some:
  "find_project st pid org = Some p \<Longrightarrow> p \<in> set (st_projects st) \<and> pr_id p = pid \<and> pr_organization_id p = org"
  by (auto simp: find_project_def dest: find_SomeD)

lemma find_project_frame [simp]:
  "find_project (audit a t i e q r p st) = find_project st"
  "find_project (outbox t i p st) = find_project st"
  "find_project (st\<lparr>st_memberships := ms\<rparr>) = find_project st"
  by (simp_all add: find_project_def fun_eq_iff)

text \<open>Writing a project row back, by primary key.\<close>

definition put_project :: "project \<Rightarrow> store \<Rightarrow> store" where
  "put_project p st = st\<lparr>st_projects := map (\<lambda>q. if pr_id q = pr_id p then p else q) (st_projects st)\<rparr>"

lemma put_project_frame [simp]:
  "st_memberships (put_project p st) = st_memberships st"
  "st_qualifications (put_project p st) = st_qualifications st"
  "st_documents (put_project p st) = st_documents st"
  "st_revisions (put_project p st) = st_revisions st"
  "st_document_sets (put_project p st) = st_document_sets st"
  "st_findings (put_project p st) = st_findings st"
  "st_transitions (put_project p st) = st_transitions st"
  "st_decisions (put_project p st) = st_decisions st"
  "st_audit (put_project p st) = st_audit st"
  "st_outbox (put_project p st) = st_outbox st"
  by (simp_all add: put_project_def)

lemma find_project_put:
  assumes "find_project st (pr_id p) (pr_organization_id p) = Some q"
    and "distinct (map pr_id (st_projects st))"
  shows "find_project (put_project p st) (pr_id p) (pr_organization_id p) = Some p"
proof -
  have "find (\<lambda>x. pr_id x = pr_id p \<and> pr_organization_id x = pr_organization_id p)
      (map (\<lambda>q. if pr_id q = pr_id p then p else q) ps) = Some p"
    if "r \<in> set ps" "pr_id r = pr_id p" for r ps
    using that by (induction ps) auto
  with assms show ?thesis
    by (auto simp: find_project_def put_project_def dest: find_SomeD)
qed

lemma find_project_put_other:
  assumes "pr_id p \<noteq> pid"
  shows "find_project (put_project p st) pid org = find_project st pid org"
proof -
  have "find (\<lambda>x. pr_id x = pid \<and> pr_organization_id x = org)
      (map (\<lambda>q. if pr_id q = pr_id p then p else q) ps)
    = find (\<lambda>x. pr_id x = pid \<and> pr_organization_id x = org) ps" for ps
    using assms by (induction ps) auto
  then show ?thesis by (simp add: find_project_def put_project_def)
qed

lemma put_project_ids [simp]: "map pr_id (st_projects (put_project p st)) = map pr_id (st_projects st)"
  by (simp add: put_project_def)

end
