(* ===== verification/TG_Models.thy ===== *)
theory TG_Models
  imports TG_Access
begin

text \<open>
  \<open>domain/models.py\<close>: the frozen value types the evaluators share, as records, and the
  validators pydantic runs on construction, as functions that return the value or its error.
  \<open>domain/common.py\<close>: the canonical form of a value and the rejection of floating point.
\<close>

subsection \<open>Findings and decisions\<close>

record validation_finding =
  vf_code :: FindingCode
  vf_severity :: Severity
  vf_message :: string
  vf_entity_ids :: "string list"
  vf_details :: "(string \<times> pyval) list"

record gate_decision =
  gd_requested_state :: ApprovalState
  gd_allowed :: bool
  gd_resulting_state :: ApprovalState
  gd_findings :: "validation_finding list"

record workflow_transition =
  wf_project_id :: string
  wf_from_state :: ApprovalState
  wf_to_state :: ApprovalState
  wf_actor_id :: string
  wf_reason :: string
  wf_occurred_at :: int

record calculation_snapshot =
  cs_snapshot_id :: string
  cs_project_id :: string
  cs_document_set_revision_id :: string
  cs_input_hash :: string
  cs_output_hash :: string
  cs_snapshot_hash :: string
  cs_created_by :: string
  cs_created_at :: int
  cs_fixed :: bool

record calculation_line_result =
  lr_line_id :: string
  lr_category :: CostCategory
  lr_amount :: decimal
  lr_currency :: string

record calculation_result =
  cr_engine_version :: string
  cr_currency :: string
  cr_lines :: "calculation_line_result list"
  cr_category_totals :: "(CostCategory \<times> decimal) list"
  cr_grand_total :: decimal
  cr_calculated_at :: int

record independent_validation_result =
  iv_validator_version :: string
  iv_passed :: bool
  iv_independently_calculated_total :: decimal
  iv_primary_total :: decimal
  iv_difference :: decimal
  iv_tolerance :: decimal
  iv_findings :: "validation_finding list"
  iv_validated_at :: int

definition vfinding :: "FindingCode \<Rightarrow> Severity \<Rightarrow> string \<Rightarrow> string list \<Rightarrow> validation_finding" where
  "vfinding code severity message ids =
     \<lparr>vf_code = code, vf_severity = severity, vf_message = message, vf_entity_ids = ids, vf_details = []\<rparr>"

lemma vfinding_fields [simp]:
  "vf_code (vfinding c s m ids) = c" "vf_severity (vfinding c s m ids) = s"
  "vf_entity_ids (vfinding c s m ids) = ids" "vf_message (vfinding c s m ids) = m"
  by (simp_all add: vfinding_def)

subsection \<open>Controlled versions\<close>

record controlled_version =
  cv_kind :: string
  cv_version_id :: string
  cv_content_hash :: string
  cv_status :: VersionStatus
  cv_approved_by :: "string option"
  cv_approved_at :: "int option"

definition approval_is_complete :: "controlled_version \<Rightarrow> controlled_version result" where
  "approval_is_complete v =
     (if cv_status v = VersionStatus.APPROVED \<and> \<not> (str_true (cv_approved_by v) \<and> cv_approved_at v \<noteq> None)
      then Inl (ValueError ''Approved controlled versions require approver and timestamp'')
      else Inr v)"

subsection \<open>Conflicts\<close>

record conflict =
  cf_conflict_id :: string
  cf_field_name :: string
  cf_observation_ids :: "string list"
  cf_reason :: string
  cf_status :: VerificationStatus
  cf_resolved_value :: "pyval option"
  cf_resolved_by :: "string option"
  cf_resolved_at :: "int option"
  cf_resolution_reason :: "string option"

definition resolution_fields :: "conflict \<Rightarrow> bool list" where
  "resolution_fields c = [cf_resolved_value c \<noteq> None, cf_resolved_by c \<noteq> None,
     cf_resolved_at c \<noteq> None, cf_resolution_reason c \<noteq> None]"

definition resolution_is_atomic :: "conflict \<Rightarrow> conflict result" where
  "resolution_is_atomic c =
     (if cf_status c = VerificationStatus.VERIFIED \<and> \<not> list_all (\<lambda>b. b) (resolution_fields c)
      then Inl (ValueError ''Resolved conflicts require value, actor, timestamp, and reason'')
      else if cf_status c = VerificationStatus.CONFLICT \<and> list_ex (\<lambda>b. b) (resolution_fields c)
      then Inl (ValueError ''Unresolved conflicts cannot contain partial resolution'')
      else Inr c)"

subsection \<open>Commercial terms\<close>

record commercial_basis =
  cb_currency :: string
  cb_vat_basis :: VatBasis
  cb_vat_rate :: "decimal option"
  cb_unit :: string
  cb_package_quantity :: decimal
  cb_party_quantity :: decimal
  cb_region :: string
  cb_delivery_included :: bool
  cb_unloading_included :: bool
  cb_payment_terms :: string

definition vat_consistency :: "commercial_basis \<Rightarrow> commercial_basis result" where
  "vat_consistency b =
     (if cb_vat_basis b = VatBasis.NOT_APPLICABLE
         \<and> \<not> (case cb_vat_rate b of None \<Rightarrow> True | Some r \<Rightarrow> deq r d_zero)
      then Inl (ValueError ''VAT rate conflicts with NOT_APPLICABLE basis'')
      else if cb_vat_basis b \<noteq> VatBasis.NOT_APPLICABLE \<and> cb_vat_rate b = None
      then Inl (ValueError ''VAT rate is required for inclusive/exclusive price'')
      else Inr b)"

record price_source_reference =
  ps_source_type :: PriceSourceType
  ps_display_name :: string
  ps_source_item_name :: string
  ps_source_record_id :: string
  ps_source_uri :: "string option"

record price_quote =
  pq_quote_id :: string
  pq_item_id :: string
  pq_supplier_id :: "string option"
  pq_evidence_class :: PriceEvidenceClass
  pq_source_reference :: price_source_reference
  pq_source_observation_id :: string
  pq_technical_attributes :: "(string \<times> string) list"
  pq_amount :: decimal
  pq_basis :: commercial_basis
  pq_quote_date :: int
  pq_valid_until :: "int option"
  pq_lead_time_days :: "int option"
  pq_available :: "bool option"
  pq_source_reliability :: decimal
  pq_status :: PriceStatus

record normalized_price =
  np_normalized_price_id :: string
  np_quote_id :: string
  np_amount_per_unit :: decimal
  np_target_basis :: commercial_basis
  np_fx_rate_id :: "string option"
  np_unit_conversion_id :: "string option"
  np_delivery_component :: decimal
  np_unloading_component :: decimal
  np_normalization_formula :: string
  np_normalized_at :: int
  np_status :: PriceStatus

text \<open>The column types of money and quantities, \<open>max_digits\<close> and \<open>decimal_places\<close> of a
  pydantic \<open>Decimal\<close> field: at most the given number of decimal places, and the value scaled by
  them has at most the given number of digits.\<close>

definition column_ok :: "nat \<Rightarrow> nat \<Rightarrow> decimal \<Rightarrow> bool" where
  "column_ok max_digits decimal_places x \<longleftrightarrow>
     - int decimal_places \<le> expn x
     \<and> \<bar>coeff x\<bar> * 10 ^ nat (expn x + int decimal_places) < 10 ^ max_digits"

lemma column_ok_dval:
  assumes "column_ok m s x"
  shows "\<exists>k. dval x = of_int k / 10 ^ s \<and> \<bar>k\<bar> < 10 ^ m"
proof (intro exI conjI)
  let ?k = "coeff x * 10 ^ nat (expn x + int s)"
  have "pow10 (expn x) = of_int (10 ^ nat (expn x + int s)) * pow10 (- int s)"
    using assms pow10_shift [of "- int s" "expn x"] by (simp add: column_ok_def)
  then show "dval x = of_int ?k / 10 ^ s"
    by (simp add: dval_def power_int_minus divide_inverse)
  show "\<bar>?k\<bar> < 10 ^ m" using assms by (simp add: column_ok_def abs_mult)
qed

subsection \<open>Canonical data\<close>

text \<open>\<open>_contains_float\<close> of \<open>models.py\<close>.\<close>

fun contains_float :: "pyval \<Rightarrow> bool" where
  "contains_float (PFloat _) = True"
| "contains_float (PDict kvs) = list_ex (\<lambda>kv. contains_float (snd kv)) kvs"
| "contains_float (PList vs) = list_ex contains_float vs"
| "contains_float (PSet vs) = list_ex contains_float vs"
| "contains_float _ = False"

definition reject_floats :: "pyval \<Rightarrow> pyval result" where
  "reject_floats v = (if contains_float v
     then Inl (ValueError ''Evidence values may not contain floating point at any nesting level'')
     else Inr v)"

text \<open>
  \<open>_canonical\<close> of \<open>common.py\<close> on the values of \<open>pyval\<close>: a decimal becomes its
  fixed-point text, a mapping is sorted by key, a set is sorted by the \<open>repr\<close> of its canonical
  elements.  The fixed-point text \<open>fmt\<close> of a decimal and \<open>repr\<close> are formatting of the
  Python runtime and are parameters.
\<close>

function canonical :: "(decimal \<Rightarrow> string) \<Rightarrow> (pyval \<Rightarrow> string) \<Rightarrow> pyval \<Rightarrow> pyval result" where
  "canonical fmt repr (PDec d) = Inr (PStr (fmt d))"
| "canonical fmt repr (PDict kvs) =
     bindR (mapR (\<lambda>kv. bindR (canonical fmt repr (snd kv)) (\<lambda>v. Inr (fst kv, v))) (sort_key fst kvs))
       (\<lambda>kvs'. Inr (PDict kvs'))"
| "canonical fmt repr (PSet vs) =
     bindR (mapR (canonical fmt repr) vs) (\<lambda>vs'. Inr (PList (sort_key repr vs')))"
| "canonical fmt repr (PList vs) = bindR (mapR (canonical fmt repr) vs) (\<lambda>vs'. Inr (PList vs'))"
| "canonical fmt repr (PFloat _) =
     Inl (TypeError ''Floating point values are forbidden in auditable records'')"
| "canonical fmt repr PNone = Inr PNone"
| "canonical fmt repr (PBool b) = Inr (PBool b)"
| "canonical fmt repr (PInt n) = Inr (PInt n)"
| "canonical fmt repr (PStr s) = Inr (PStr s)"
  by pat_completeness auto

termination
proof (relation "measure (\<lambda>(_, _, v). size v)", goal_cases)
  case (2 fmt repr kvs kv)
  then have "kv \<in> set kvs" by (metis set_sort)
  moreover have "size (snd kv) \<le> size_prod (\<lambda>_. 0) size kv" by (cases kv) simp
  ultimately have "size (snd kv) \<le> size_list (size_prod (\<lambda>_. 0) size) kvs"
    by (rule size_list_estimation')
  then show ?case by simp
next
  case (3 fmt repr vs v)
  then have "size v < size (PSet vs)"
    by (auto simp: less_Suc_eq_le intro: size_list_estimation')
  then show ?case by simp
next
  case (4 fmt repr vs v)
  then have "size v < size (PList vs)"
    by (auto simp: less_Suc_eq_le intro: size_list_estimation')
  then show ?case by simp
qed simp

lemma canonical_ok_iff: "is_ok (canonical fmt repr v) \<longleftrightarrow> \<not> contains_float v"
proof (induction fmt repr v rule: canonical.induct)
  case (2 fmt repr kvs)
  then show ?case by (auto simp: is_ok_bindR is_ok_mapR list_ex_iff)
next
  case (3 fmt repr vs)
  then show ?case by (auto simp: is_ok_bindR is_ok_mapR list_ex_iff)
next
  case (4 fmt repr vs)
  then show ?case by (auto simp: is_ok_bindR is_ok_mapR list_ex_iff)
qed simp_all

lemma mapR_fixed: "(\<And>x. x \<in> set xs \<Longrightarrow> f x = Inr x) \<Longrightarrow> mapR f xs = Inr xs"
  by (induction xs) simp_all

lemma mapR_result: "mapR f xs = Inr ys \<Longrightarrow> y \<in> set ys \<Longrightarrow> \<exists>x \<in> set xs. f x = Inr y"
  by (induction xs arbitrary: ys) (auto simp: result_simps)

lemma mapR_map_eq:
  "mapR f xs = Inr ys \<Longrightarrow> (\<And>x y. f x = Inr y \<Longrightarrow> g y = h x) \<Longrightarrow> map g ys = map h xs"
  by (induction xs arbitrary: ys) (auto simp: result_simps)

lemma canonical_idem: "canonical fmt repr v = Inr w \<Longrightarrow> canonical fmt repr w = Inr w"
proof (induction fmt repr v arbitrary: w rule: canonical.induct)
  case (2 fmt repr kvs)
  let ?f = "\<lambda>kv. bindR (canonical fmt repr (snd kv)) (\<lambda>v. Inr (fst kv, v))"
  from 2(2) obtain kvs' where w: "w = PDict kvs'" and kvs': "mapR ?f (sort_key fst kvs) = Inr kvs'"
    by (auto simp: bindR_eq_Inr)
  have "map fst kvs' = map fst (sort_key fst kvs)"
    using kvs' by (rule mapR_map_eq) (auto simp: bindR_eq_Inr)
  then have "sorted (map fst kvs')" by (metis sorted_sort_key)
  then have "sort_key fst kvs' = kvs'" by (rule sort_key_id_if_sorted)
  moreover have "?f kv = Inr kv" if kv: "kv \<in> set kvs'" for kv
  proof -
    obtain q where q: "q \<in> set (sort_key fst kvs)" "?f q = Inr kv"
      using mapR_result [OF kvs' kv] by blast
    then have "canonical fmt repr (snd kv) = Inr (snd kv)"
      using 2(1) [of q] by (auto simp: bindR_eq_Inr)
    then show ?thesis by simp
  qed
  ultimately show ?case by (simp add: w mapR_fixed)
next
  case (3 fmt repr vs)
  then obtain vs' where w: "w = PList (sort_key repr vs')" and "mapR (canonical fmt repr) vs = Inr vs'"
    by (auto simp: bindR_eq_Inr)
  with 3(1) have "canonical fmt repr v = Inr v" if "v \<in> set (sort_key repr vs')" for v
    using that by (auto dest: mapR_result)
  then have "mapR (canonical fmt repr) (sort_key repr vs') = Inr (sort_key repr vs')"
    by (rule mapR_fixed)
  then show ?case by (simp add: w)
next
  case (4 fmt repr vs)
  then obtain vs' where w: "w = PList vs'" and "mapR (canonical fmt repr) vs = Inr vs'"
    by (auto simp: bindR_eq_Inr)
  with 4(1) have "canonical fmt repr v = Inr v" if "v \<in> set vs'" for v
    using that by (auto dest: mapR_result)
  then have "mapR (canonical fmt repr) vs' = Inr vs'" by (rule mapR_fixed)
  then show ?case by (simp add: w)
qed auto

text \<open>The canonical form every hash is taken of exists exactly for the values the evidence
  model accepts, namely those without floating point at any depth; it is a normal form, and it does
  not depend on the order in which the keys of a mapping were inserted.\<close>

theorem canonical_normal_form:
  "(is_ok (canonical fmt repr v) \<longleftrightarrow> is_ok (reject_floats v))
   \<and> (canonical fmt repr v = Inr w \<longrightarrow> canonical fmt repr w = Inr w)
   \<and> (mset kvs = mset kvs' \<and> distinct (map fst kvs) \<longrightarrow>
        canonical fmt repr (PDict kvs) = canonical fmt repr (PDict kvs'))"
proof -
  have "sort_key fst kvs = sort_key fst kvs'" if "mset kvs = mset kvs'" "distinct (map fst kvs)"
    using that by (intro sort_key_perm_eq) (simp_all add: distinct_map)
  then show ?thesis
    by (auto simp: canonical_ok_iff reject_floats_def canonical_idem)
qed

definition ex_payload :: "pyval list" where
  "ex_payload = [PSet [PStr ''b'', PStr ''a''], PDec (Dec 15 (-1)), PDict [(''k'', PInt 1), (''a'', PNone)]]"

theorem canonical_normal_form_witness:
  "let fmt = (\<lambda>d. ''1.5''); repr = (\<lambda>v. case v of PStr s \<Rightarrow> s | _ \<Rightarrow> []);
       v = PList ex_payload; w = projr (canonical fmt repr v) in
   canonical fmt repr v = Inr w \<and> canonical fmt repr w = Inr w
   \<and> canonical fmt repr (PDict [(''k'', v), (''a'', PNone)]) = canonical fmt repr (PDict [(''a'', PNone), (''k'', v)])"
proof -
  define fmt :: "decimal \<Rightarrow> string" where "fmt = (\<lambda>d. ''1.5'')"
  define repr :: "pyval \<Rightarrow> string" where "repr = (\<lambda>v. case v of PStr s \<Rightarrow> s | _ \<Rightarrow> [])"
  have "is_ok (canonical fmt repr (PList ex_payload))"
    by (simp add: canonical_ok_iff ex_payload_def)
  then have v: "canonical fmt repr (PList ex_payload) = Inr (projr (canonical fmt repr (PList ex_payload)))"
    by (auto simp: is_ok_iff)
  have "mset [(''k'', PList ex_payload), (''a'', PNone)] = mset [(''a'', PNone), (''k'', PList ex_payload)]"
    "distinct (map fst [(''k'', PList ex_payload), (''a'', PNone)])"
    by simp_all
  with v canonical_normal_form show ?thesis
    unfolding Let_def fmt_def [symmetric] repr_def [symmetric] by blast
qed

end
