(* ===== verification/TG_Json.thy ===== *)
theory TG_Json
  imports TG_Models
begin

text \<open>
  The text every hash is taken of: \<open>canonical_json\<close> of \<open>domain/common.py\<close> and the parts of
  Python's \<open>json\<close>, \<open>repr\<close>, \<open>format\<close> and \<open>isoformat\<close> it uses, written out.  The main fact
  is that the text determines the canonical value, so that two records with one hash input are one
  record.  As everywhere, strings are ASCII; \<open>encode("utf-8")\<close> is then the identity.
\<close>

subsection \<open>Formatting\<close>

definition pad_left :: "nat \<Rightarrow> string \<Rightarrow> string" where
  "pad_left n s = replicate (n - length s) (CHR ''0'') @ s"

text \<open>\<open>format(value, "f")\<close> of a \<open>Decimal\<close>: no exponent, the decimal places of the value.\<close>

definition format_f :: "decimal \<Rightarrow> string" where
  "format_f d = (if coeff d < 0 then ''-'' else []) @
     (let n = nat \<bar>coeff d\<bar> in
      if expn d \<ge> 0 then (if n = 0 then ''0'' else nat_str n @ replicate (nat (expn d)) (CHR ''0''))
      else let k = nat (- expn d); s = pad_left (k + 1) (nat_str n)
           in take (length s - k) s @ ''.'' @ drop (length s - k) s)"

text \<open>\<open>repr\<close> of a canonical value, the key under which the elements of a set are sorted.  The
  last three constructors do not occur in a canonical value.\<close>

fun repr_value :: "pyval \<Rightarrow> string" where
  "repr_value PNone = ''None''"
| "repr_value (PBool b) = (if b then ''True'' else ''False'')"
| "repr_value (PInt n) = int_str n"
| "repr_value (PStr s) = py_repr s"
| "repr_value (PList vs) = ''['' @ join_with '', '' (map repr_value vs) @ '']''"
| "repr_value (PDict kvs) =
     ''{'' @ join_with '', '' (map (\<lambda>kv. py_repr (fst kv) @ '': '' @ repr_value (snd kv)) kvs) @ ''}''"
| "repr_value (PDec _) = []"
| "repr_value (PFloat _) = []"
| "repr_value (PSet _) = []"

text \<open>A field that may be \<open>None\<close>.\<close>

definition opt_value :: "('a \<Rightarrow> pyval) \<Rightarrow> 'a option \<Rightarrow> pyval" where
  "opt_value f v = (case v of None \<Rightarrow> PNone | Some x \<Rightarrow> f x)"

definition canonical_data :: "pyval \<Rightarrow> pyval result" where
  "canonical_data = canonical format_f repr_value"

lemma canonical_data_ok: "is_ok (canonical_data v) \<longleftrightarrow> \<not> contains_float v"
  by (simp add: canonical_data_def canonical_ok_iff)

subsection \<open>Dates\<close>

definition is_leap :: "int \<Rightarrow> bool" where
  "is_leap y \<longleftrightarrow> y mod 4 = 0 \<and> (y mod 100 \<noteq> 0 \<or> y mod 400 = 0)"

definition month_lengths :: "int \<Rightarrow> int list" where
  "month_lengths y = [31, if is_leap y then 29 else 28, 31, 30, 31, 30, 31, 31, 30, 31, 30, 31]"

text \<open>The month and day of the day \<open>n\<close> (from 0) of a year, and the date of an ordinal day, day 1
  being 1 January of year 1: whole cycles of 400, 100, 4 years and 1 year, as \<open>datetime\<close> does it.\<close>

fun month_and_day :: "int \<Rightarrow> int \<Rightarrow> int list \<Rightarrow> int \<times> int" where
  "month_and_day m n (l # ls) = (if n < l then (m, n + 1) else month_and_day (m + 1) (n - l) ls)"
| "month_and_day m n [] = (m, n + 1)"

definition ord2ymd :: "int \<Rightarrow> int \<times> int \<times> int" where
  "ord2ymd ordinal =
     (let n = ordinal - 1; n400 = n div 146097; n = n mod 146097; n100 = n div 36524; n = n mod 36524;
          n4 = n div 1461; n = n mod 1461; n1 = n div 365; n = n mod 365;
          y = n400 * 400 + n100 * 100 + n4 * 4 + n1 + 1
      in if n1 = 4 \<or> n100 = 4 then (y - 1, 12, 31)
         else (case month_and_day 1 n (month_lengths y) of (m, d) \<Rightarrow> (y, m, d)))"

definition two_digits :: "int \<Rightarrow> string" where
  "two_digits n = pad_left 2 (int_str n)"

definition date_iso :: "int \<Rightarrow> string" where
  "date_iso ordinal = (case ord2ymd ordinal of (y, m, d) \<Rightarrow>
     pad_left 4 (int_str y) @ ''-'' @ two_digits m @ ''-'' @ two_digits d)"

text \<open>\<open>value.astimezone(UTC).isoformat().replace("+00:00", "Z")\<close>; ordinal 719163 is 1970-01-01.\<close>

definition datetime_iso :: "int \<Rightarrow> string" where
  "datetime_iso t = (let us = t mod 1000000; s = t div 1000000; sec = s mod 86400 in
     date_iso (719163 + s div 86400) @ ''T'' @ two_digits (sec div 3600) @ '':''
     @ two_digits (sec div 60 mod 60) @ '':'' @ two_digits (sec mod 60)
     @ (if us = 0 then [] else ''.'' @ pad_left 6 (int_str us)) @ ''Z'')"

subsection \<open>JSON text\<close>

definition json_char :: "char \<Rightarrow> string" where
  "json_char c = (let n = of_char c :: nat; esc = (\<lambda>x. [char_of (92 :: nat), x]) in
     if n = 34 then esc (CHR 0x22) else if n = 92 then esc (char_of (92 :: nat))
     else if n = 10 then esc (CHR ''n'') else if n = 13 then esc (CHR ''r'')
     else if n = 9 then esc (CHR ''t'') else if n = 12 then esc (CHR ''f'')
     else if n = 8 then esc (CHR ''b'')
     else if n < 32 then esc (CHR ''u'') @ ''00'' @ [hex_digit (n div 16), hex_digit (n mod 16)]
     else [c])"

definition json_str :: "string \<Rightarrow> string" where
  "json_str s = CHR 0x22 # concat (map json_char s) @ [CHR 0x22]"

text \<open>\<open>json.dumps\<close> with compact separators.  The keys of a canonical mapping are sorted already, so
  \<open>sort_keys\<close> changes nothing; the last three constructors do not occur in a canonical value.\<close>

fun json_text :: "pyval \<Rightarrow> string" where
  "json_text PNone = ''null''"
| "json_text (PBool b) = (if b then ''true'' else ''false'')"
| "json_text (PInt n) = int_str n"
| "json_text (PStr s) = json_str s"
| "json_text (PList vs) = ''['' @ join_with '','' (map json_text vs) @ '']''"
| "json_text (PDict kvs) =
     ''{'' @ join_with '','' (map (\<lambda>kv. json_str (fst kv) @ '':'' @ json_text (snd kv)) kvs) @ ''}''"
| "json_text (PDec _) = []"
| "json_text (PFloat _) = []"
| "json_text (PSet _) = []"

definition canonical_json :: "pyval \<Rightarrow> string result" where
  "canonical_json v = bindR (canonical_data v) (\<lambda>w. Inr (json_text w))"

subsection \<open>Canonical values\<close>

fun plain :: "pyval \<Rightarrow> bool" where
  "plain (PList vs) = list_all plain vs"
| "plain (PDict kvs) = list_all (\<lambda>kv. plain (snd kv)) kvs"
| "plain (PDec _) = False"
| "plain (PFloat _) = False"
| "plain (PSet _) = False"
| "plain _ = True"

lemma canonical_plain: "canonical fmt repr v = Inr w \<Longrightarrow> plain w"
proof (induction fmt repr v arbitrary: w rule: canonical.induct)
  case (2 fmt repr kvs)
  then obtain kvs' where w: "w = PDict kvs'"
    and *: "mapR (\<lambda>kv. bindR (canonical fmt repr (snd kv)) (\<lambda>v. Inr (fst kv, v))) (sort_key fst kvs) = Inr kvs'"
    by (auto simp: bindR_eq_Inr)
  have "plain (snd kv)" if "kv \<in> set kvs'" for kv
  proof -
    from mapR_result [OF * that] obtain q where "q \<in> set (sort_key fst kvs)" "canonical fmt repr (snd q) = Inr (snd kv)"
      by (auto simp: bindR_eq_Inr)
    with 2(1) show ?thesis by blast
  qed
  with w show ?case by (simp add: list_all_iff)
next
  case (3 fmt repr vs)
  then obtain vs' where w: "w = PList (sort_key repr vs')" and *: "mapR (canonical fmt repr) vs = Inr vs'"
    by (auto simp: bindR_eq_Inr)
  have "plain v" if "v \<in> set vs'" for v using mapR_result [OF * that] 3(1) by blast
  with w show ?case by (simp add: list_all_iff)
next
  case (4 fmt repr vs)
  then obtain vs' where w: "w = PList vs'" and *: "mapR (canonical fmt repr) vs = Inr vs'"
    by (auto simp: bindR_eq_Inr)
  have "plain v" if "v \<in> set vs'" for v using mapR_result [OF * that] 4(1) by blast
  with w show ?case by (simp add: list_all_iff)
qed auto

subsection \<open>The text determines the value\<close>

text \<open>Digits.\<close>

definition is_digit :: "char \<Rightarrow> bool" where
  "is_digit c = (let n = of_char c :: nat in 48 \<le> n \<and> n \<le> 57)"

definition digits_value :: "string \<Rightarrow> nat" where
  "digits_value s = foldl (\<lambda>a c. a * 10 + (of_char c - 48)) 0 s"

lemma nat_str_facts: "list_all is_digit (nat_str n) \<and> nat_str n \<noteq> [] \<and> digits_value (nat_str n) = n"
proof (induction n rule: nat_str.induct)
  case (1 n)
  show ?case
  proof (cases "n < 10")
    case True
    then show ?thesis by (simp add: nat_str.simps [of n] is_digit_def digits_value_def)
  next
    case False
    with 1 show ?thesis by (simp add: nat_str.simps [of n] is_digit_def digits_value_def)
  qed
qed

lemma nat_str_prefix:
  assumes "nat_str n @ s = nat_str m @ t" "s = [] \<or> \<not> is_digit (hd s)" "t = [] \<or> \<not> is_digit (hd t)"
  shows "n = m \<and> s = t"
proof -
  have *: "takeWhile is_digit (nat_str n @ s) = nat_str n" if "s = [] \<or> \<not> is_digit (hd s)" for n s
    using that nat_str_facts [of n] by (cases s) (auto simp: takeWhile_append2 list_all_iff)
  have "nat_str n = nat_str m" using * [OF assms(2), of n] * [OF assms(3), of m] assms(1) by simp
  with assms(1) nat_str_facts show ?thesis by (metis append_same_eq same_append_eq)
qed

lemma hd_nat_str: "is_digit (hd (nat_str n @ s))"
  using nat_str_facts [of n] by (cases "nat_str n") auto

lemma minus_not_digit [simp]: "\<not> is_digit (CHR ''-'')"
  by (simp add: is_digit_def)

lemma int_str_prefix:
  assumes "int_str n @ s = int_str m @ t" "s = [] \<or> \<not> is_digit (hd s)" "t = [] \<or> \<not> is_digit (hd t)"
  shows "n = m \<and> s = t"
proof -
  have sign: "n < 0 \<longleftrightarrow> m < 0"
    using assms(1) hd_nat_str [of "nat n" s] hd_nat_str [of "nat m" t]
    by (auto simp: int_str_def split: if_splits) (metis list.sel(1) minus_not_digit)+
  then have "nat_str (nat \<bar>n\<bar>) @ s = nat_str (nat \<bar>m\<bar>) @ t"
    using assms(1) by (auto simp: int_str_def split: if_splits)
  from nat_str_prefix [OF this assms(2,3)] sign show ?thesis by auto
qed

text \<open>Strings.\<close>

lemma hex_digit_inj: "n < 16 \<Longrightarrow> m < 16 \<Longrightarrow> hex_digit n = hex_digit m \<Longrightarrow> n = m"
  by (auto simp: hex_digit_def char_of_eq_iff take_bit_eq_mod split: if_splits)

definition json_letter :: "nat \<Rightarrow> char" where
  "json_letter n = (if n = 34 then CHR 0x22 else if n = 10 then CHR ''n'' else if n = 13 then CHR ''r''
     else if n = 9 then CHR ''t'' else if n = 12 then CHR ''f'' else if n = 8 then CHR ''b''
     else char_of (92 :: nat))"

lemma json_char_cases:
  obtains (letter) "(of_char c :: nat) \<in> {8, 9, 10, 12, 13, 34, 92}"
      "json_char c = [char_of (92 :: nat), json_letter (of_char c)]"
  | (hex) "(of_char c :: nat) < 32" "json_char c = [char_of (92 :: nat), CHR ''u'', CHR ''0'', CHR ''0'',
      hex_digit (of_char c div 16), hex_digit (of_char c mod 16)]"
  | (itself) "c \<noteq> char_of (92 :: nat)" "json_char c = [c]"
proof -
  consider "(of_char c :: nat) \<in> {8, 9, 10, 12, 13, 34, 92}" | "(of_char c :: nat) \<notin> {8, 9, 10, 12, 13, 34, 92}" "(of_char c :: nat) < 32"
    | "(of_char c :: nat) \<notin> {8, 9, 10, 12, 13, 34, 92}" "\<not> (of_char c :: nat) < 32" by blast
  then show ?thesis
  proof cases
    case 1 then show ?thesis by (intro letter) (auto simp: json_char_def json_letter_def Let_def)
  next
    case 2 then show ?thesis by (intro hex) (auto simp: json_char_def Let_def)
  next
    case 3
    have "(of_char (char_of (92 :: nat)) :: nat) = 92" by simp
    with 3 have "c \<noteq> char_of (92 :: nat)" by (metis insertCI)
    with 3 show ?thesis by (intro itself) (auto simp: json_char_def Let_def)
  qed
qed

lemma json_letter_inj:
  assumes "n \<in> {8, 9, 10, 12, 13, 34, 92}"
  shows "json_letter n \<noteq> CHR ''u''"
    and "m \<in> {8, 9, 10, 12, 13, 34, 92} \<Longrightarrow> json_letter n = json_letter m \<Longrightarrow> n = m"
proof -
  have "(of_char (char_of (92 :: nat)) :: nat) = 92" by simp
  then have *: "char_of (92 :: nat) \<noteq> x" if "(of_char x :: nat) \<noteq> 92" for x using that by metis
  show "json_letter n \<noteq> CHR ''u''" using assms by (auto simp: json_letter_def *)
  show "m \<in> {8, 9, 10, 12, 13, 34, 92} \<Longrightarrow> json_letter n = json_letter m \<Longrightarrow> n = m"
    using assms by (auto simp: json_letter_def * * [symmetric])
qed

lemma json_char_prefix:
  assumes "json_char c @ s = json_char d @ t"
  shows "c = d \<and> s = t"
proof (cases c rule: json_char_cases)
  case c: letter
  show ?thesis
  proof (cases d rule: json_char_cases)
    case letter
    with c(2) assms have "json_letter (of_char c) = json_letter (of_char d)" "s = t" by simp_all
    with json_letter_inj(2) [OF c(1) letter(1)] show ?thesis by simp
  next
    case hex
    with c(2) assms have "json_letter (of_char c) = CHR ''u''" by simp
    with json_letter_inj(1) [OF c(1)] show ?thesis by simp
  next
    case itself
    with c(2) assms show ?thesis by simp
  qed
next
  case c: hex
  show ?thesis
  proof (cases d rule: json_char_cases)
    case letter
    with c(2) assms have "json_letter (of_char d) = CHR ''u''" by simp
    with json_letter_inj(1) [OF letter(1)] show ?thesis by simp
  next
    case hex
    let ?n = "of_char c :: nat" and ?m = "of_char d :: nat"
    have "s = t" "hex_digit (?n div 16) = hex_digit (?m div 16)" "hex_digit (?n mod 16) = hex_digit (?m mod 16)"
      using c hex assms by auto
    moreover have "?n div 16 < 16" "?m div 16 < 16" using c hex by auto
    ultimately have "?n div 16 = ?m div 16" "?n mod 16 = ?m mod 16" by (auto intro!: hex_digit_inj)
    then have "?n = ?m" by (metis div_mult_mod_eq)
    with \<open>s = t\<close> show ?thesis by simp
  next
    case itself
    with c(2) assms show ?thesis by simp
  qed
next
  case c: itself
  then show ?thesis by (cases d rule: json_char_cases) (use assms in simp_all)
qed

lemma json_char_head: "json_char c \<noteq> [] \<and> hd (json_char c) \<noteq> CHR 0x22"
proof -
  have "(of_char (char_of (92 :: nat)) :: nat) \<noteq> of_char (CHR 0x22)" by simp
  then have "char_of (92 :: nat) \<noteq> CHR 0x22" by metis
  then show ?thesis by (auto simp: json_char_def Let_def)
qed

lemma json_str_prefix: "json_str s @ x = json_str t @ y \<Longrightarrow> s = t \<and> x = y"
proof -
  have "concat (map json_char s) @ CHR 0x22 # x = concat (map json_char t) @ CHR 0x22 # y \<Longrightarrow> s = t \<and> x = y"
  proof (induction s arbitrary: t)
    case Nil
    then show ?case
    proof (cases t)
      case (Cons d ds)
      with Nil json_char_head [of d] show ?thesis by (cases "json_char d") auto
    qed simp
  next
    case (Cons c cs)
    show ?case
    proof (cases t)
      case Nil
      with Cons.prems json_char_head [of c] show ?thesis by (cases "json_char c") auto
    next
      case t: (Cons d ds)
      with Cons.prems have "json_char c @ concat (map json_char cs) @ CHR 0x22 # x
          = json_char d @ concat (map json_char ds) @ CHR 0x22 # y" by simp
      from json_char_prefix [OF this] Cons.IH t show ?thesis by auto
    qed
  qed
  then show "json_str s @ x = json_str t @ y \<Longrightarrow> s = t \<and> x = y" by (simp add: json_str_def)
qed

text \<open>Sequences: every element is followed by a comma or the closing bracket.\<close>

definition delimited :: "string \<Rightarrow> bool" where
  "delimited s \<longleftrightarrow> s = [] \<or> hd s \<in> set '',]}''"

lemma delimited_not_digit: "delimited s \<Longrightarrow> s = [] \<or> \<not> is_digit (hd s)"
  by (auto simp: delimited_def is_digit_def)

definition items :: "char \<Rightarrow> string list \<Rightarrow> string \<Rightarrow> string" where
  "items b ws s = concat (map (\<lambda>w. CHR '','' # w) ws) @ b # s"

lemma items_simps [simp]:
  "items b [] s = b # s" "items b (w # ws) s = CHR '','' # w @ items b ws s"
  by (simp_all add: items_def)

lemma delimited_items: "b \<in> set '']}'' \<Longrightarrow> delimited (items b ws s)"
  by (cases ws) (auto simp: delimited_def)

lemma items_inj:
  assumes f: "\<And>v w x y. v \<in> set vs \<Longrightarrow> w \<in> set ws \<Longrightarrow> f v @ x = f w @ y \<Longrightarrow> delimited x \<Longrightarrow> delimited y \<Longrightarrow> v = w \<and> x = y"
    and b: "b \<in> set '']}''"
    and eq: "items b (map f vs) s = items b (map f ws) t"
  shows "vs = ws \<and> s = t"
  using f eq
proof (induction vs arbitrary: ws)
  case Nil
  with b show ?case by (cases ws) auto
next
  case (Cons v vs)
  with b obtain w ws' where ws: "ws = w # ws'" by (cases ws) auto
  with Cons.prems(2) have "f v @ items b (map f vs) s = f w @ items b (map f ws') t" by simp
  then have "v = w \<and> items b (map f vs) s = items b (map f ws') t"
    using Cons.prems(1) [of v w] ws delimited_items [OF b] by auto
  with Cons.IH [of ws'] Cons.prems(1) ws show ?case by auto
qed

lemma join_items: "join_with '','' ws @ b # s = (case ws of [] \<Rightarrow> b # s | w # ws' \<Rightarrow> w @ items b ws' s)"
  by (cases ws) (simp_all add: join_with_def items_def cong: map_cong)

lemma join_inj:
  assumes f: "\<And>v w x y. v \<in> set vs \<Longrightarrow> w \<in> set ws \<Longrightarrow> f v @ x = f w @ y \<Longrightarrow> delimited x \<Longrightarrow> delimited y \<Longrightarrow> v = w \<and> x = y"
    and ne: "\<And>v z. v \<in> set vs \<union> set ws \<Longrightarrow> f v @ z \<noteq> [] \<and> hd (f v @ z) \<noteq> b"
    and b: "b \<in> set '']}''"
    and eq: "join_with '','' (map f vs) @ b # s = join_with '','' (map f ws) @ b # t"
  shows "vs = ws \<and> s = t"
proof (cases vs; cases ws)
  assume "vs = []" "ws = []"
  with eq show ?thesis by (simp add: join_items)
next
  fix w ws' assume *: "vs = []" "ws = w # ws'"
  with eq have "b # s = f w @ items b (map f ws') t" by (simp add: join_items)
  moreover have "hd (f w @ items b (map f ws') t) \<noteq> b" using ne [of w] * by simp
  moreover have "hd (b # s) = b" by simp
  ultimately show ?thesis by metis
next
  fix v vs' assume "vs = v # vs'" "ws = []"
  with eq ne [of v "items b (map f vs') s"] show ?thesis by (simp add: join_items)
next
  fix v vs' w ws' assume *: "vs = v # vs'" "ws = w # ws'"
  with eq have "items b (map f vs) s = items b (map f ws) t" by (simp add: join_items)
  with items_inj [OF f b] show ?thesis by blast
qed

text \<open>The first character tells the constructor.\<close>

datatype shape = Null | Bool bool | Number | Text | Array | Object

fun shape_of :: "pyval \<Rightarrow> shape" where
  "shape_of PNone = Null"
| "shape_of (PBool b) = Bool b"
| "shape_of (PStr _) = Text"
| "shape_of (PList _) = Array"
| "shape_of (PDict _) = Object"
| "shape_of _ = Number"

definition shape_of_char :: "char \<Rightarrow> shape" where
  "shape_of_char c = (if c = CHR ''n'' then Null else if c = CHR ''t'' then Bool True
     else if c = CHR ''f'' then Bool False else if c = CHR 0x22 then Text
     else if c = CHR ''['' then Array else if c = CHR ''{'' then Object else Number)"

lemma json_shape: "plain v \<Longrightarrow> json_text v @ s \<noteq> [] \<and> shape_of_char (hd (json_text v @ s)) = shape_of v"
proof (cases v)
  case (PInt n)
  have "\<not> is_digit (CHR ''n'')" "\<not> is_digit (CHR ''t'')" "\<not> is_digit (CHR ''f'')" "\<not> is_digit (CHR 0x22)"
    "\<not> is_digit (CHR ''['')" "\<not> is_digit (CHR ''{'')" by (simp_all add: is_digit_def)
  then have "is_digit c \<or> c = CHR ''-'' \<Longrightarrow> shape_of_char c = Number" for c
    by (auto simp: shape_of_char_def simp del: char.inject)
  moreover have "hd (int_str n @ s) = CHR ''-'' \<or> is_digit (hd (int_str n @ s))" "int_str n \<noteq> []"
    using hd_nat_str [of "nat n" s] nat_str_facts [of "nat n"] by (auto simp: int_str_def)
  ultimately show ?thesis using PInt by auto
qed (auto simp: shape_of_char_def json_str_def)

lemma json_head: "plain v \<Longrightarrow> b \<in> set '']}'' \<Longrightarrow> json_text v @ z \<noteq> [] \<and> hd (json_text v @ z) \<noteq> b"
proof
  assume *: "plain v" "b \<in> set '']}''"
  then show "json_text v @ z \<noteq> []" using json_shape by blast
  have "b = CHR '']'' \<or> b = CHR ''}''" using * by auto
  show "hd (json_text v @ z) \<noteq> b"
  proof
    assume eq: "hd (json_text v @ z) = b"
    show False
    proof (cases v)
      case (PInt n)
      with eq hd_nat_str [of "nat n" z] \<open>b = CHR '']'' \<or> b = CHR ''}''\<close> show ?thesis
        by (auto simp: int_str_def is_digit_def split: if_splits)
    qed (use * eq in \<open>auto simp: json_str_def split: if_splits\<close>)
  qed
qed

lemma json_text_prefix:
  assumes "plain v" "plain w" "json_text v @ s = json_text w @ t" "delimited s" "delimited t"
  shows "v = w \<and> s = t"
  using assms
proof (induction v arbitrary: w s t)
  case (PInt n)
  then have "shape_of w = Number" using json_shape [of "PInt n" s] json_shape [of w t] by simp
  then obtain m where w: "w = PInt m" using \<open>plain w\<close> by (cases w) auto
  with PInt.prems int_str_prefix [of n s m t] delimited_not_digit show ?case by simp
next
  case (PStr u)
  then have "shape_of w = Text" using json_shape [of "PStr u" s] json_shape [of w t] by simp
  then obtain u' where w: "w = PStr u'" by (cases w) auto
  with PStr.prems json_str_prefix [of u s u' t] show ?case by simp
next
  case (PList vs)
  then have "shape_of w = Array" using json_shape [of "PList vs" s] json_shape [of w t] by simp
  then obtain ws where w: "w = PList ws" by (cases w) auto
  have "vs = ws \<and> s = t"
  proof (rule join_inj [where f = json_text and b = "CHR '']''"])
    show "v = w \<and> x = y" if "v \<in> set vs" "w \<in> set ws" "json_text v @ x = json_text w @ y" "delimited x" "delimited y" for v w x y
      using PList.IH [OF that(1)] PList.prems(1,2) w that by (auto simp: list_all_iff)
    show "json_text v @ z \<noteq> [] \<and> hd (json_text v @ z) \<noteq> CHR '']''" if "v \<in> set vs \<union> set ws" for v z
      using json_head [of v "CHR '']''" z] that PList.prems(1,2) w by (auto simp: list_all_iff)
    show "join_with '','' (map json_text vs) @ CHR '']'' # s = join_with '','' (map json_text ws) @ CHR '']'' # t"
      using PList.prems(3) w by simp
  qed simp
  with w show ?case by simp
next
  case (PDict vs)
  then have "shape_of w = Object" using json_shape [of "PDict vs" s] json_shape [of w t] by simp
  then obtain ws where w: "w = PDict ws" by (cases w) auto
  let ?f = "\<lambda>kv. json_str (fst kv) @ '':'' @ json_text (snd kv)"
  have "vs = ws \<and> s = t"
  proof (rule join_inj [where f = ?f and b = "CHR ''}''"])
    fix p q x y
    assume pq: "p \<in> set vs" "q \<in> set ws" and eq: "?f p @ x = ?f q @ y" and d: "delimited x" "delimited y"
    from eq have "json_str (fst p) @ '':'' @ json_text (snd p) @ x = json_str (fst q) @ '':'' @ json_text (snd q) @ y"
      by simp
    from json_str_prefix [OF this] have k: "fst p = fst q" and "json_text (snd p) @ x = json_text (snd q) @ y"
      by auto
    moreover have "plain (snd p)" "plain (snd q)" using pq PDict.prems(1,2) w by (auto simp: list_all_iff)
    moreover have "snd p \<in> Basic_BNFs.snds p" by (cases p) simp
    ultimately have "snd p = snd q \<and> x = y" using PDict.IH [OF pq(1)] d by blast
    with k show "p = q \<and> x = y" by (simp add: prod_eq_iff)
  next
    show "join_with '','' (map ?f vs) @ CHR ''}'' # s = join_with '','' (map ?f ws) @ CHR ''}'' # t"
      using PDict.prems(3) w by simp
  qed (auto simp: json_str_def)
  with w show ?case by simp
next
  case PNone
  then have "shape_of w = Null" using json_shape [of PNone s] json_shape [of w t] by simp
  then show ?case using PNone.prems by (cases w) auto
next
  case (PBool b)
  then have "shape_of w = Bool b" using json_shape [of "PBool b" s] json_shape [of w t] by simp
  then show ?case using PBool.prems by (cases w) auto
qed simp_all

lemma json_text_inj: "plain v \<Longrightarrow> plain w \<Longrightarrow> json_text v = json_text w \<Longrightarrow> v = w"
  using json_text_prefix [of v w "[]" "[]"] by (simp add: delimited_def)

lemma canonical_json_inj:
  assumes "canonical_json v = Inr s" "canonical_json w = Inr s"
  shows "canonical_data v = canonical_data w"
proof -
  obtain v' w' where *: "canonical_data v = Inr v'" "canonical_data w = Inr w'" "s = json_text v'" "s = json_text w'"
    using assms by (auto simp: canonical_json_def bindR_eq_Inr)
  then have "plain v'" "plain w'" unfolding canonical_data_def by (auto intro: canonical_plain)
  then show ?thesis using * json_text_inj by auto
qed

text \<open>C25. The text a hash is taken of determines the hashed record: two values with a canonical JSON
  text have the same text exactly when their canonical data are the same.\<close>

theorem canonical_json_determines:
  assumes "canonical_json v = Inr s" "canonical_json w = Inr t"
  shows "s = t \<longleftrightarrow> canonical_data v = canonical_data w"
  using assms canonical_json_inj [of v s w] by (auto simp: canonical_json_def)

definition ex_value :: "pyval" where
  "ex_value = PDict [(''t'', PDec (Dec (- 1050) (- 2))), (''s'', PSet [PStr ''b'', PStr [CHR 0x22]])]"

definition ex_value_text :: "string" where
  "ex_value_text = ''{'' @ json_str ''s'' @ '':['' @ json_str [CHR 0x22] @ '','' @ json_str ''b'' @ ''],'' @ json_str ''t'' @ '':''
     @ json_str ''-10.50'' @ ''}''"

theorem canonical_json_determines_witness:
  "canonical_json ex_value = Inr ex_value_text
   \<and> canonical_data ex_value = canonical_data (projr (canonical_data ex_value))"
proof -
  have a: "canonical_json ex_value = Inr ex_value_text" by code_simp
  have b: "canonical_json (projr (canonical_data ex_value)) = Inr ex_value_text" by code_simp
  from a canonical_json_determines [OF a b] show ?thesis by simp
qed

subsection \<open>Hashes\<close>

text \<open>SHA-256 and HMAC are parameters on byte strings; nothing is assumed of them.\<close>

record crypto =
  sha256_hex :: "string \<Rightarrow> string"
  hmac_hex :: "string \<Rightarrow> string \<Rightarrow> string"

definition content_hash :: "crypto \<Rightarrow> pyval \<Rightarrow> string result" where
  "content_hash C v = bindR (canonical_json v) (\<lambda>s. Inr (sha256_hex C s))"

definition signed_hash :: "crypto \<Rightarrow> pyval \<Rightarrow> string \<Rightarrow> string result" where
  "signed_hash C v secret =
     (if secret = [] then Inl (ValueError ''Audit signing key must not be empty'')
      else bindR (canonical_json v) (\<lambda>s. Inr (hmac_hex C secret s)))"

lemma content_hash_eq:
  assumes "content_hash C v = Inr h" "content_hash C w = Inr h"
  shows "canonical_data v = canonical_data w \<or> (\<exists>s t. s \<noteq> t \<and> sha256_hex C s = sha256_hex C t)"
proof -
  obtain s t where s: "canonical_json v = Inr s" "canonical_json w = Inr t" "sha256_hex C s = sha256_hex C t"
    using assms by (auto simp: content_hash_def bindR_eq_Inr)
  then show ?thesis using canonical_json_inj [of v s w] by (cases "s = t") (auto simp: canonical_json_def)
qed

lemma content_hash_ok: "is_ok (content_hash C v) \<longleftrightarrow> \<not> contains_float v"
  by (simp add: content_hash_def canonical_json_def is_ok_bindR canonical_data_ok)

subsection \<open>Canonical mappings\<close>

text \<open>The canonical form of a mapping depends on the canonical forms of its values only.\<close>

definition canonical_entry :: "string \<times> pyval \<Rightarrow> string \<times> pyval result" where
  "canonical_entry kv = (fst kv, canonical_data (snd kv))"

lemma canonical_dict_cong:
  assumes "map canonical_entry xs = map canonical_entry ys"
  shows "canonical_data (PDict xs) = canonical_data (PDict ys)"
proof -
  have *: "canonical_data (PDict zs) = bindR (mapR (\<lambda>kr. bindR (snd kr) (\<lambda>v. Inr (fst kr, v)))
      (sort_key fst (map canonical_entry zs))) (\<lambda>kvs. Inr (PDict kvs))" for zs
  proof -
    have "sort_key fst (map canonical_entry zs) = map canonical_entry (sort_key fst zs)"
    proof -
      have "insort_key fst (canonical_entry z) (map canonical_entry qs) = map canonical_entry (insort_key fst z qs)" for z qs
        by (induction qs) (auto simp: canonical_entry_def)
      then show ?thesis by (induction zs) simp_all
    qed
    moreover have "mapR (\<lambda>kr. bindR (snd kr) (\<lambda>v. Inr (fst kr, v))) (map canonical_entry qs)
        = mapR (\<lambda>kv. bindR (canonical_data (snd kv)) (\<lambda>v. Inr (fst kv, v))) qs" for qs
      by (induction qs) (simp_all add: canonical_entry_def)
    ultimately show ?thesis by (simp add: canonical_data_def)
  qed
  show ?thesis using assms by (simp add: *)
qed

lemma mapR_entries:
  assumes "mapR (\<lambda>kv. bindR (g (snd kv)) (\<lambda>v. Inr (fst kv, v))) xs = Inr zs"
  shows "map_of xs k = None \<Longrightarrow> map_of zs k = None"
    and "map_of xs k = Some v \<Longrightarrow> \<exists>w. g v = Inr w \<and> map_of zs k = Some w"
  using assms by (induction xs arbitrary: zs) (auto simp: result_simps split: if_splits)

lemma map_of_sort_key: "distinct (map fst xs) \<Longrightarrow> map_of (sort_key fst xs) = map_of xs"
  by (rule map_of_inject_set [THEN iffD2]) (simp_all add: distinct_map)

lemma canonical_dict_shape: "canonical_data (PDict xs) = Inr w \<Longrightarrow> \<exists>zs. w = PDict zs"
  by (auto simp: canonical_data_def bindR_eq_Inr)

lemma canonical_dict_lookup:
  assumes "canonical_data (PDict xs) = Inr (PDict zs)" "distinct (map fst xs)" "map_of xs k = Some v"
  shows "\<exists>w. canonical_data v = Inr w \<and> map_of zs k = Some w"
proof -
  have "mapR (\<lambda>kv. bindR (canonical_data (snd kv)) (\<lambda>v. Inr (fst kv, v))) (sort_key fst xs) = Inr zs"
    using assms(1) by (auto simp: canonical_data_def bindR_eq_Inr)
  moreover have "map_of (sort_key fst xs) k = Some v" using assms(2,3) by (simp add: map_of_sort_key)
  ultimately show ?thesis by (rule mapR_entries(2))
qed

lemma canonical_dict_inj:
  assumes "canonical_data (PDict xs) = Inr d" "canonical_data (PDict ys) = Inr d"
    and "distinct (map fst xs)" "distinct (map fst ys)" "map_of xs k = Some v" "map_of ys k = Some v'"
  shows "canonical_data v = canonical_data v'"
proof -
  obtain zs where "d = PDict zs" using canonical_dict_shape assms(1) by blast
  with canonical_dict_lookup [of xs zs k v] canonical_dict_lookup [of ys zs k v'] assms show ?thesis by force
qed

lemma canonical_data_idem: "canonical_data v = Inr w \<Longrightarrow> canonical_data w = Inr w"
  unfolding canonical_data_def by (rule canonical_idem)

lemma canonical_data_simps [simp]:
  "canonical_data (PStr s) = Inr (PStr s)" "canonical_data (PInt n) = Inr (PInt n)"
  "canonical_data (PBool b) = Inr (PBool b)" "canonical_data PNone = Inr PNone"
  by (simp_all add: canonical_data_def)

lemma canonical_strings [simp]: "canonical_data (PList (map PStr ss)) = Inr (PList (map PStr ss))"
proof -
  have "mapR (canonical format_f repr_value) (map PStr ss) = Inr (map PStr ss)" by (rule mapR_fixed) auto
  then show ?thesis by (simp add: canonical_data_def)
qed

lemma canonical_list_eq:
  assumes "canonical_data (PList xs) = canonical_data (PList ys)" "is_ok (canonical_data (PList xs))"
  shows "map canonical_data xs = map canonical_data ys"
proof -
  obtain zs where "mapR canonical_data xs = Inr zs" "mapR canonical_data ys = Inr zs"
    using assms by (auto simp: canonical_data_def is_ok_iff bindR_eq_Inr)
  then have "map canonical_data xs = map Inr zs" "map canonical_data ys = map Inr zs"
    by (auto simp: mapR_Inr_iff list_all2_conv_all_nth intro!: nth_equalityI)
  then show ?thesis by simp
qed

end
