(* ===== verification/TG_Outbox.thy ===== *)
theory TG_Outbox
  imports TG_Models
begin

text \<open>
  \<open>application/outbox.py\<close>: claiming and settling durable outbox events under a lease.  The table
  \<open>outbox_events\<close> is the list of its rows; \<open>uuid4\<close>, the readings of \<open>utc_now\<close> and the rows other
  transactions hold locked (\<open>skip_locked\<close>) are arguments.
\<close>

subsection \<open>Rows, claims and the policy\<close>

record outbox_event =
  oe_id :: string
  oe_deduplication_key :: string
  oe_delivery_deduplication_key :: string
  oe_topic :: string
  oe_aggregate_id :: string
  oe_payload :: "(string \<times> pyval) list"
  oe_attempts :: int
  oe_available_at :: int
  oe_published_at :: "int option"
  oe_last_error :: "string option"
  oe_locked_by :: "string option"
  oe_lease_token :: "string option"
  oe_lease_expires_at :: "int option"
  oe_last_attempt_at :: "int option"
  oe_dead_lettered_at :: "int option"
  oe_created_at :: int

record outbox_claim =
  oc_event_id :: string
  oc_deduplication_key :: string
  oc_delivery_deduplication_key :: string
  oc_topic :: string
  oc_aggregate_id :: string
  oc_payload :: "(string \<times> pyval) list"
  oc_occurred_at :: int
  oc_delivery_attempt :: int
  oc_worker_id :: string
  oc_lease_token :: string
  oc_lease_expires_at :: int

record outbox_settlement =
  os_event_id :: string
  os_dead_lettered :: bool
  os_next_available_at :: "int option"

record delivery_policy =
  dp_lease_seconds :: int
  dp_max_attempts :: int
  dp_retry_base_seconds :: int
  dp_retry_max_seconds :: int

definition delivery_policy_check :: "delivery_policy \<Rightarrow> delivery_policy result" where
  "delivery_policy_check p =
     (if dp_lease_seconds p \<le> 0 then Inl (ValueError ''Outbox lease must be positive'')
      else if dp_max_attempts p \<le> 0 then Inl (ValueError ''Outbox maximum attempts must be positive'')
      else if dp_retry_base_seconds p \<le> 0 then Inl (ValueError ''Outbox retry base must be positive'')
      else if dp_retry_max_seconds p < dp_retry_base_seconds p
      then Inl (ValueError ''Outbox retry maximum must be at least the base delay'') else Inr p)"

text \<open>\<open>timedelta(seconds=n)\<close> in microseconds.\<close>

definition seconds :: "int \<Rightarrow> int" where
  "seconds n = n * 1000000"

definition is_error_code :: "string \<Rightarrow> bool" where
  "is_error_code s \<longleftrightarrow> 1 \<le> length s \<and> length s \<le> 200 \<and> list_all (\<lambda>c. let n = of_char c :: nat in
     (65 \<le> n \<and> n \<le> 90) \<or> (48 \<le> n \<and> n \<le> 57) \<or> c \<in> set ''_.:-'') s"

definition error_code :: "string \<Rightarrow> string result" where
  "error_code s = (let normalized = upper (strip s) in
     if \<not> is_error_code normalized then Inl (ValueError ''error_code must be an uppercase machine code'')
     else Inr normalized)"

subsection \<open>Claiming\<close>

definition lease_is_free :: "outbox_event \<Rightarrow> int \<Rightarrow> bool" where
  "lease_is_free e now = (case oe_lease_expires_at e of None \<Rightarrow> True | Some t \<Rightarrow> t \<le> now)"

definition is_terminal :: "outbox_event \<Rightarrow> bool" where
  "is_terminal e \<longleftrightarrow> oe_published_at e \<noteq> None \<or> oe_dead_lettered_at e \<noteq> None"

definition claimable :: "string list \<Rightarrow> string option \<Rightarrow> (string \<Rightarrow> bool) \<Rightarrow> int \<Rightarrow> outbox_event \<Rightarrow> bool" where
  "claimable topics aggregate locked now e \<longleftrightarrow> oe_topic e \<in> set topics \<and> oe_published_at e = None
     \<and> oe_dead_lettered_at e = None \<and> oe_available_at e \<le> now \<and> lease_is_free e now
     \<and> (case aggregate of None \<Rightarrow> True | Some a \<Rightarrow> oe_aggregate_id e = a) \<and> \<not> locked (oe_id e)"

definition update_event :: "string \<Rightarrow> (outbox_event \<Rightarrow> outbox_event) \<Rightarrow> outbox_event list \<Rightarrow> outbox_event list" where
  "update_event i f es = map (\<lambda>e. if oe_id e = i then f e else e) es"

definition lease_event :: "delivery_policy \<Rightarrow> string \<Rightarrow> string \<Rightarrow> int \<Rightarrow> outbox_event \<Rightarrow> outbox_event" where
  "lease_event p worker token now e = e\<lparr>oe_attempts := oe_attempts e + 1, oe_locked_by := Some worker,
     oe_lease_token := Some token, oe_lease_expires_at := Some (now + seconds (dp_lease_seconds p)),
     oe_last_attempt_at := Some now\<rparr>"

definition claim_of :: "delivery_policy \<Rightarrow> string \<Rightarrow> string \<Rightarrow> int \<Rightarrow> outbox_event \<Rightarrow> outbox_claim" where
  "claim_of p worker token now e = \<lparr>oc_event_id = oe_id e, oc_deduplication_key = oe_deduplication_key e,
     oc_delivery_deduplication_key = oe_delivery_deduplication_key e, oc_topic = oe_topic e,
     oc_aggregate_id = oe_aggregate_id e, oc_payload = oe_payload e, oc_occurred_at = oe_created_at e,
     oc_delivery_attempt = oe_attempts e + 1, oc_worker_id = worker, oc_lease_token = token,
     oc_lease_expires_at = now + seconds (dp_lease_seconds p)\<rparr>"

definition lease_token :: "string \<Rightarrow> string" where
  "lease_token uuid = ''outbox-lease-'' @ uuid"

text \<open>The query for the next row and its update.\<close>

definition take_claim :: "delivery_policy \<Rightarrow> string list \<Rightarrow> string \<Rightarrow> string option \<Rightarrow> (string \<Rightarrow> bool) \<Rightarrow> string \<Rightarrow> int
    \<Rightarrow> outbox_event list \<Rightarrow> outbox_claim option \<times> outbox_event list" where
  "take_claim p topics worker aggregate locked uuid now events =
     (case sort_key (\<lambda>e. (oe_available_at e, oe_created_at e, oe_id e))
             (filter (claimable topics aggregate locked now) events) of
        [] \<Rightarrow> (None, events)
      | row # _ \<Rightarrow> (Some (claim_of p worker (lease_token uuid) now row),
                    update_event (oe_id row) (lease_event p worker (lease_token uuid) now) events))"

definition claim_next :: "delivery_policy \<Rightarrow> string list \<Rightarrow> string \<Rightarrow> string option \<Rightarrow> (string \<Rightarrow> bool) \<Rightarrow> string \<Rightarrow> int
    \<Rightarrow> outbox_event list \<Rightarrow> (outbox_claim option \<times> outbox_event list) result" where
  "claim_next p topics worker_id aggregate_id locked uuid now events =
     bindR (mapR (\<lambda>t. required_text t ''topic'' 200) topics) (\<lambda>ts.
     let normalized_topics = sort (remdups ts) in
     if normalized_topics = [] then Inl (ValueError ''At least one outbox topic is required'')
     else bindR (required_text worker_id ''worker_id'' 128) (\<lambda>worker.
     bindR (case aggregate_id of None \<Rightarrow> Inr None
            | Some a \<Rightarrow> bindR (required_text a ''aggregate_id'' 128) (\<lambda>a. Inr (Some a))) (\<lambda>aggregate.
       Inr (take_claim p normalized_topics worker aggregate locked uuid now events))))"

subsection \<open>Settling\<close>

definition locked_event :: "string \<Rightarrow> outbox_event list \<Rightarrow> outbox_event result" where
  "locked_event i events = (case find (\<lambda>e. oe_id e = i) events of
     None \<Rightarrow> Inl (LookupError i) | Some e \<Rightarrow> Inr e)"

definition require_owner :: "outbox_event \<Rightarrow> outbox_claim \<Rightarrow> int \<Rightarrow> unit result" where
  "require_owner row claim now =
     (if oe_locked_by row \<noteq> Some (oc_worker_id claim) \<or> oe_lease_token row \<noteq> Some (oc_lease_token claim)
         \<or> (case oe_lease_expires_at row of None \<Rightarrow> True
            | Some t \<Rightarrow> t \<noteq> oc_lease_expires_at claim \<or> t \<le> now)
      then Inl (OutboxLeaseLostError ''Outbox event lease is owned by another worker'') else Inr ())"

definition clear_lease :: "outbox_event \<Rightarrow> outbox_event" where
  "clear_lease e = e\<lparr>oe_locked_by := None, oe_lease_token := None, oe_lease_expires_at := None\<rparr>"

definition acknowledge :: "outbox_claim \<Rightarrow> int \<Rightarrow> int \<Rightarrow> outbox_event list
    \<Rightarrow> (outbox_settlement \<times> outbox_event list) result" where
  "acknowledge claim checked_at now events =
     bindR (locked_event (oc_event_id claim) events) (\<lambda>row.
     let settled = \<lparr>os_event_id = oe_id row, os_dead_lettered = False, os_next_available_at = None\<rparr> in
     if oe_published_at row \<noteq> None then Inr (settled, events)
     else if oe_dead_lettered_at row \<noteq> None
     then Inl (OutboxLeaseLostError ''Cannot acknowledge a dead-lettered outbox event'')
     else bindR (require_owner row claim checked_at) (\<lambda>_.
       Inr (settled, update_event (oe_id row) (\<lambda>e. clear_lease (e\<lparr>oe_published_at := Some now\<rparr>)) events)))"

definition retry_delay :: "delivery_policy \<Rightarrow> int \<Rightarrow> int" where
  "retry_delay p attempts =
     (let exponent = min (max (attempts - 1) 0) 30
      in min (dp_retry_base_seconds p * 2 ^ nat exponent) (dp_retry_max_seconds p))"

definition dead_letters :: "delivery_policy \<Rightarrow> bool \<Rightarrow> bool \<Rightarrow> outbox_event \<Rightarrow> bool" where
  "dead_letters p force_dead_letter allow_dead_letter row \<longleftrightarrow>
     force_dead_letter \<or> (allow_dead_letter \<and> oe_attempts row \<ge> dp_max_attempts p)"

definition reject_event :: "string \<Rightarrow> bool \<Rightarrow> int \<Rightarrow> int \<Rightarrow> outbox_event \<Rightarrow> outbox_event" where
  "reject_event code dead_lettered now next_available_at row =
     clear_lease (if dead_lettered
       then row\<lparr>oe_last_error := Some code, oe_dead_lettered_at := Some now\<rparr>
       else row\<lparr>oe_last_error := Some code, oe_available_at := next_available_at\<rparr>)"

definition reject :: "delivery_policy \<Rightarrow> outbox_claim \<Rightarrow> string \<Rightarrow> bool \<Rightarrow> bool \<Rightarrow> int \<Rightarrow> int \<Rightarrow> outbox_event list
    \<Rightarrow> (outbox_settlement \<times> outbox_event list) result" where
  "reject p claim code force_dead_letter allow_dead_letter checked_at now events =
     bindR (error_code code) (\<lambda>code.
     bindR (locked_event (oc_event_id claim) events) (\<lambda>row.
     if oe_published_at row \<noteq> None then Inl (OutboxLeaseLostError ''Cannot reject an acknowledged outbox event'')
     else if oe_dead_lettered_at row \<noteq> None
     then Inr (\<lparr>os_event_id = oe_id row, os_dead_lettered = True, os_next_available_at = None\<rparr>, events)
     else bindR (require_owner row claim checked_at) (\<lambda>_.
       let dead_lettered = dead_letters p force_dead_letter allow_dead_letter row;
           next_available_at = now + seconds (retry_delay p (oe_attempts row))
       in Inr (\<lparr>os_event_id = oe_id row, os_dead_lettered = dead_lettered,
                 os_next_available_at = (if dead_lettered then None else Some next_available_at)\<rparr>,
               update_event (oe_id row) (reject_event code dead_lettered now next_available_at) events))))"

end
