(* ===== verification/TG_Outbox_Lease.thy ===== *)
theory TG_Outbox_Lease
  imports TG_Outbox
begin

text \<open>
  The lease protocol of the outbox as a transition system: producers enqueue events, time passes,
  workers claim, acknowledge and reject with whatever claim they hold.  The invariant ties every
  live lease to the newest claim issued for its event; the refinement maps the columns of a row to
  an abstract delivery machine.
\<close>

subsection \<open>The transition system\<close>

record outbox_system =
  sy_events :: "outbox_event list"
  sy_claims :: "outbox_claim list"
  sy_now :: int

definition fresh_event :: "outbox_event \<Rightarrow> bool" where
  "fresh_event e \<longleftrightarrow> oe_attempts e = 0 \<and> oe_published_at e = None \<and> oe_dead_lettered_at e = None
     \<and> oe_locked_by e = None \<and> oe_lease_token e = None \<and> oe_lease_expires_at e = None"

inductive delivery_step :: "delivery_policy \<Rightarrow> outbox_system \<Rightarrow> outbox_system \<Rightarrow> bool" for p where
  enqueue: "fresh_event e \<Longrightarrow> oe_id e \<notin> oe_id ` set (sy_events st)
    \<Longrightarrow> delivery_step p st (st\<lparr>sy_events := sy_events st @ [e]\<rparr>)"
| tick: "sy_now st \<le> t \<Longrightarrow> delivery_step p st (st\<lparr>sy_now := t\<rparr>)"
| claim: "claim_next p topics worker aggregate locked uuid (sy_now st) (sy_events st) = Inr (Some c, events)
    \<Longrightarrow> oc_lease_token c \<notin> oc_lease_token ` set (sy_claims st)
    \<Longrightarrow> delivery_step p st (st\<lparr>sy_events := events, sy_claims := sy_claims st @ [c]\<rparr>)"
| ack: "acknowledge c checked_at now (sy_events st) = Inr (s, events) \<Longrightarrow> sy_now st \<le> checked_at \<Longrightarrow> checked_at \<le> now
    \<Longrightarrow> delivery_step p st (st\<lparr>sy_events := events, sy_now := now\<rparr>)"
| reject: "reject p c code force allow checked_at now (sy_events st) = Inr (s, events) \<Longrightarrow> sy_now st \<le> checked_at
    \<Longrightarrow> checked_at \<le> now \<Longrightarrow> delivery_step p st (st\<lparr>sy_events := events, sy_now := now\<rparr>)"

inductive reachable_outbox :: "delivery_policy \<Rightarrow> outbox_system \<Rightarrow> bool" for p where
  empty: "reachable_outbox p \<lparr>sy_events = [], sy_claims = [], sy_now = t\<rparr>"
| step: "reachable_outbox p st \<Longrightarrow> delivery_step p st st' \<Longrightarrow> reachable_outbox p st'"

subsection \<open>The invariant\<close>

definition claims_for :: "string \<Rightarrow> outbox_claim list \<Rightarrow> outbox_claim list" where
  "claims_for i cs = filter (\<lambda>c. oc_event_id c = i) cs"

definition holds_lease :: "outbox_event \<Rightarrow> outbox_claim \<Rightarrow> bool" where
  "holds_lease e c \<longleftrightarrow> oe_locked_by e = Some (oc_worker_id c) \<and> oe_lease_token e = Some (oc_lease_token c)
     \<and> oe_lease_expires_at e = Some (oc_lease_expires_at c)"

definition unleased :: "outbox_event \<Rightarrow> bool" where
  "unleased e \<longleftrightarrow> oe_locked_by e = None \<and> oe_lease_token e = None \<and> oe_lease_expires_at e = None"

definition event_ok :: "outbox_claim list \<Rightarrow> outbox_event \<Rightarrow> bool" where
  "event_ok cs e \<longleftrightarrow> (oe_published_at e = None \<or> oe_dead_lettered_at e = None)
     \<and> oe_attempts e = int (length (claims_for (oe_id e) cs))
     \<and> (if is_terminal e then unleased e
        else unleased e \<or> (claims_for (oe_id e) cs \<noteq> [] \<and> holds_lease e (last (claims_for (oe_id e) cs))))"

definition outbox_inv :: "outbox_system \<Rightarrow> bool" where
  "outbox_inv st \<longleftrightarrow> distinct (map oe_id (sy_events st)) \<and> distinct (map oc_lease_token (sy_claims st))
     \<and> oc_event_id ` set (sy_claims st) \<subseteq> oe_id ` set (sy_events st)
     \<and> list_all (event_ok (sy_claims st)) (sy_events st)"

subsection \<open>What the operations do to the table\<close>

lemma update_event_ids: "(\<And>e. oe_id (f e) = oe_id e) \<Longrightarrow> map oe_id (update_event i f es) = map oe_id es"
  by (simp add: update_event_def comp_def)

lemma in_update_event:
  "e \<in> set (update_event i f es) \<longleftrightarrow> (\<exists>d \<in> set es. e = (if oe_id d = i then f d else d))"
  by (force simp: update_event_def)

lemma locked_event_Inr: "locked_event i es = Inr e \<longleftrightarrow> find (\<lambda>e. oe_id e = i) es = Some e"
  by (simp add: locked_event_def split: option.split)

lemma locked_event_mem: "locked_event i es = Inr e \<Longrightarrow> e \<in> set es \<and> oe_id e = i"
  by (auto simp: locked_event_Inr dest: find_SomeD)

lemma require_owner_Inr:
  "require_owner row c now = Inr u \<longleftrightarrow> holds_lease row c \<and> now < oc_lease_expires_at c"
  by (auto simp: require_owner_def holds_lease_def split: option.splits)

lemma claim_next_Inr:
  "claim_next p topics worker aggregate locked uuid now events = Inr r \<Longrightarrow>
    \<exists>ts w a. r = take_claim p ts w a locked uuid now events"
  by (auto simp: claim_next_def Let_def bindR_eq_Inr split: if_splits)

lemma take_claim_Some:
  assumes "take_claim p ts w a locked uuid now events = (Some c, events')"
  shows "\<exists>row. row \<in> set events \<and> claimable ts a locked now row \<and> c = claim_of p w (lease_token uuid) now row
    \<and> events' = update_event (oe_id row) (lease_event p w (lease_token uuid) now) events"
proof -
  let ?cs = "sort_key (\<lambda>e. (oe_available_at e, oe_created_at e, oe_id e)) (filter (claimable ts a locked now) events)"
  obtain row rest where l: "?cs = row # rest" using assms by (cases ?cs) (simp_all add: take_claim_def)
  then have "row \<in> set (filter (claimable ts a locked now) events)" by (metis list.set_intros(1) set_sort)
  moreover from l assms have "c = claim_of p w (lease_token uuid) now row"
    "events' = update_event (oe_id row) (lease_event p w (lease_token uuid) now) events"
    by (simp_all add: take_claim_def)
  ultimately show ?thesis by auto
qed

lemma claim_next_Some:
  assumes "claim_next p topics worker aggregate locked uuid now events = Inr (Some c, events')"
  shows "\<exists>row w ts a. row \<in> set events \<and> claimable ts a locked now row \<and> c = claim_of p w (lease_token uuid) now row
    \<and> events' = update_event (oe_id row) (lease_event p w (lease_token uuid) now) events"
  using claim_next_Inr [OF assms] by (metis take_claim_Some)

lemma acknowledge_Inr:
  assumes "acknowledge c checked_at now events = Inr (s, events')"
  shows "events' = events \<or> (\<exists>row. row \<in> set events \<and> oe_id row = oc_event_id c \<and> \<not> is_terminal row \<and> holds_lease row c
    \<and> checked_at < oc_lease_expires_at c
    \<and> events' = update_event (oe_id row) (\<lambda>e. clear_lease (e\<lparr>oe_published_at := Some now\<rparr>)) events)"
  using assms
  by (auto simp: acknowledge_def Let_def bindR_eq_Inr is_terminal_def require_owner_Inr split: if_splits
      dest!: locked_event_mem)

lemma reject_Inr:
  assumes "reject p c code force allow checked_at now events = Inr (s, events')"
  shows "events' = events \<or> (\<exists>row code'. row \<in> set events \<and> oe_id row = oc_event_id c \<and> \<not> is_terminal row
    \<and> holds_lease row c \<and> checked_at < oc_lease_expires_at c
    \<and> events' = update_event (oe_id row) (reject_event code' (dead_letters p force allow row) now
        (now + seconds (retry_delay p (oe_attempts row)))) events)"
proof -
  from assms obtain code' row where row: "locked_event (oc_event_id c) events = Inr row"
    and r: "(if oe_published_at row \<noteq> None then Inl (OutboxLeaseLostError ''Cannot reject an acknowledged outbox event'')
     else if oe_dead_lettered_at row \<noteq> None
     then Inr (\<lparr>os_event_id = oe_id row, os_dead_lettered = True, os_next_available_at = None\<rparr>, events)
     else bindR (require_owner row c checked_at) (\<lambda>_.
       let dead_lettered = dead_letters p force allow row;
           next_available_at = now + seconds (retry_delay p (oe_attempts row))
       in Inr (\<lparr>os_event_id = oe_id row, os_dead_lettered = dead_lettered,
                 os_next_available_at = (if dead_lettered then None else Some next_available_at)\<rparr>,
               update_event (oe_id row) (reject_event code' dead_lettered now next_available_at) events)))
      = Inr (s, events')"
    unfolding reject_def bindR_eq_Inr by blast
  note m = locked_event_mem [OF row]
  show ?thesis
  proof (cases "is_terminal row")
    case True
    with r show ?thesis by (auto simp: is_terminal_def split: if_splits)
  next
    case False
    with r have "holds_lease row c" "checked_at < oc_lease_expires_at c"
      "events' = update_event (oe_id row) (reject_event code' (dead_letters p force allow row) now
        (now + seconds (retry_delay p (oe_attempts row)))) events"
      by (auto simp: is_terminal_def bindR_eq_Inr require_owner_Inr Let_def)
    with m False show ?thesis by blast
  qed
qed

subsection \<open>Preservation\<close>

lemma claims_for_snoc [simp]:
  "claims_for i (cs @ [c]) = (if oc_event_id c = i then claims_for i cs @ [c] else claims_for i cs)"
  by (simp add: claims_for_def)

lemma inv_update:
  assumes "outbox_inv st" "\<And>e. oe_id (f e) = oe_id e" "distinct (map oc_lease_token cs)"
    "oc_event_id ` set cs \<subseteq> oe_id ` set (sy_events st)"
    "\<And>e. e \<in> set (sy_events st) \<Longrightarrow> event_ok (sy_claims st) e \<Longrightarrow> event_ok cs (if oe_id e = i then f e else e)"
  shows "outbox_inv (st\<lparr>sy_events := update_event i f (sy_events st), sy_claims := cs, sy_now := t\<rparr>)"
proof -
  have ids: "map oe_id (update_event i f (sy_events st)) = map oe_id (sy_events st)"
    by (rule update_event_ids [OF assms(2)])
  then have "oe_id ` set (update_event i f (sy_events st)) = oe_id ` set (sy_events st)" by (metis set_map)
  with assms ids show ?thesis by (auto simp: outbox_inv_def list_all_iff in_update_event)
qed

lemma same_row:
  "distinct (map oe_id es) \<Longrightarrow> row \<in> set es \<Longrightarrow> e \<in> set es \<Longrightarrow> oe_id e = oe_id row \<Longrightarrow> e = row"
  by (auto simp: distinct_map inj_on_def)

lemmas event_fields = event_ok_def is_terminal_def unleased_def holds_lease_def lease_event_def claim_of_def clear_lease_def
  reject_event_def

lemma delivery_step_inv:
  assumes "outbox_inv st" "delivery_step p st st'"
  shows "outbox_inv st'"
  using assms(2,1)
proof (induction rule: delivery_step.induct)
  case (enqueue e st)
  have "claims_for (oe_id e) (sy_claims st) = []"
    using enqueue unfolding outbox_inv_def claims_for_def filter_empty_conv by (metis image_eqI subsetD)
  with enqueue show ?case
    by (auto simp: outbox_inv_def fresh_event_def event_ok_def is_terminal_def unleased_def)
next
  case (tick st t)
  then show ?case by (simp add: outbox_inv_def)
next
  case (claim topics worker aggregate locked uuid st c events)
  from claim_next_Some [OF claim.hyps(1)] obtain row w ts a where row: "row \<in> set (sy_events st)"
    and cl: "claimable ts a locked (sy_now st) row"
    and c: "c = claim_of p w (lease_token uuid) (sy_now st) row"
      "events = update_event (oe_id row) (lease_event p w (lease_token uuid) (sy_now st)) (sy_events st)"
    by blast
  have d: "distinct (map oe_id (sy_events st))" using claim.prems by (simp add: outbox_inv_def)
  have "outbox_inv (st\<lparr>sy_events := events, sy_claims := sy_claims st @ [c], sy_now := sy_now st\<rparr>)"
    unfolding c(2)
  proof (rule inv_update [OF claim.prems])
    fix e assume e: "e \<in> set (sy_events st)" "event_ok (sy_claims st) e"
    show "event_ok (sy_claims st @ [c]) (if oe_id e = oe_id row
        then lease_event p w (lease_token uuid) (sy_now st) e else e)"
      using e(2) same_row [OF d row e(1)] cl
      by (auto simp: event_fields c(1) claimable_def)
  qed (use claim row in \<open>auto simp: outbox_inv_def lease_event_def c(1) claim_of_def\<close>)
  then show ?case by simp
next
  case (ack c checked_at now st s events)
  from acknowledge_Inr [OF ack.hyps(1)] show ?case
  proof (elim disjE exE conjE)
    fix row assume row: "row \<in> set (sy_events st)" "\<not> is_terminal row"
      and ev: "events = update_event (oe_id row) (\<lambda>e. clear_lease (e\<lparr>oe_published_at := Some now\<rparr>)) (sy_events st)"
    have d: "distinct (map oe_id (sy_events st))" using ack.prems by (simp add: outbox_inv_def)
    have "outbox_inv (st\<lparr>sy_events := events, sy_claims := sy_claims st, sy_now := now\<rparr>)"
      unfolding ev
    proof (rule inv_update [OF ack.prems])
      fix e assume e: "e \<in> set (sy_events st)" "event_ok (sy_claims st) e"
      show "event_ok (sy_claims st) (if oe_id e = oe_id row then clear_lease (e\<lparr>oe_published_at := Some now\<rparr>) else e)"
        using e(2) same_row [OF d row(1) e(1)] row(2) by (auto simp: event_fields)
    qed (use ack.prems in \<open>auto simp: outbox_inv_def clear_lease_def\<close>)
    then show ?thesis by simp
  qed (use ack.prems in \<open>simp add: outbox_inv_def\<close>)
next
  case (reject c code force allow checked_at now st s events)
  from reject_Inr [OF reject.hyps(1)] show ?case
  proof (elim disjE exE conjE)
    fix row code' assume row: "row \<in> set (sy_events st)" "\<not> is_terminal row"
      and ev: "events = update_event (oe_id row) (reject_event code' (dead_letters p force allow row) now
        (now + seconds (retry_delay p (oe_attempts row)))) (sy_events st)"
    have d: "distinct (map oe_id (sy_events st))" using reject.prems by (simp add: outbox_inv_def)
    have "outbox_inv (st\<lparr>sy_events := events, sy_claims := sy_claims st, sy_now := now\<rparr>)"
      unfolding ev
    proof (rule inv_update [OF reject.prems])
      fix e assume e: "e \<in> set (sy_events st)" "event_ok (sy_claims st) e"
      show "event_ok (sy_claims st) (if oe_id e = oe_id row then reject_event code' (dead_letters p force allow row) now
        (now + seconds (retry_delay p (oe_attempts row))) e else e)"
        using e(2) same_row [OF d row(1) e(1)] row(2) by (auto simp: event_fields)
    qed (use reject.prems in \<open>auto simp: outbox_inv_def reject_event_def clear_lease_def\<close>)
    then show ?thesis by simp
  qed (use reject.prems in \<open>simp add: outbox_inv_def\<close>)
qed

lemma reachable_outbox_inv: "reachable_outbox p st \<Longrightarrow> outbox_inv st"
proof (induction rule: reachable_outbox.induct)
  case (empty t)
  show ?case by (simp add: outbox_inv_def)
next
  case (step st st')
  then show ?case by (blast intro: delivery_step_inv)
qed

text \<open>C19. Lease invariant of the outbox.  In every reachable state event identifiers and lease tokens
  are unique, the attempts of an event count the claims issued for it, no event is both published
  and dead-lettered, the three lease columns are set together and never on a settled event, and a
  lease is always the one of the newest claim issued for its event.\<close>

theorem outbox_lease_invariant: "reachable_outbox p st \<Longrightarrow> outbox_inv st"
  by (rule reachable_outbox_inv)

text \<open>C20. Only the newest claim settles.  In a reachable state, an acknowledgement that publishes an
  event, or a rejection that reschedules or dead-letters it, carries the worker, the token and the
  expiry of the newest claim issued for the event, before that claim's lease expires: two workers
  never both settle one delivery.\<close>

theorem only_newest_claim_settles:
  assumes "reachable_outbox p st"
    "acknowledge c checked_at now (sy_events st) = Inr (s, events)
     \<or> reject p c code force allow checked_at now (sy_events st) = Inr (s, events)"
    "events \<noteq> sy_events st"
  shows "claims_for (oc_event_id c) (sy_claims st) \<noteq> []
    \<and> oc_lease_token (last (claims_for (oc_event_id c) (sy_claims st))) = oc_lease_token c
    \<and> oc_worker_id (last (claims_for (oc_event_id c) (sy_claims st))) = oc_worker_id c
    \<and> checked_at < oc_lease_expires_at c"
proof -
  obtain row where row: "row \<in> set (sy_events st)" "oe_id row = oc_event_id c" "\<not> is_terminal row"
    "holds_lease row c" "checked_at < oc_lease_expires_at c"
    using assms(2,3) acknowledge_Inr reject_Inr by metis
  have "event_ok (sy_claims st) row"
    using reachable_outbox_inv [OF assms(1)] row(1) by (simp add: outbox_inv_def list_all_iff)
  with row show ?thesis by (auto simp: event_ok_def unleased_def holds_lease_def)
qed

subsection \<open>Refinement of an abstract delivery machine\<close>

text \<open>What a producer or an operator sees of an event: its phase and the number of deliveries.\<close>

datatype phase = Waiting | Leased string | Published | Dead

definition phase_of :: "outbox_event \<Rightarrow> phase" where
  "phase_of e = (if oe_published_at e \<noteq> None then Published else if oe_dead_lettered_at e \<noteq> None then Dead
     else case oe_lease_token e of None \<Rightarrow> Waiting | Some t \<Rightarrow> Leased t)"

inductive delivery_spec :: "(string \<rightharpoonup> phase \<times> int) \<Rightarrow> (string \<rightharpoonup> phase \<times> int) \<Rightarrow> bool" where
  idle: "delivery_spec m m"
| new: "m i = None \<Longrightarrow> delivery_spec m (m(i \<mapsto> (Waiting, 0)))"
| deliver: "m i = Some (Waiting, n) \<Longrightarrow> delivery_spec m (m(i \<mapsto> (Leased t, n + 1)))"
| redeliver: "m i = Some (Leased t, n) \<Longrightarrow> t' \<noteq> t \<Longrightarrow> delivery_spec m (m(i \<mapsto> (Leased t', n + 1)))"
| publish: "m i = Some (Leased t, n) \<Longrightarrow> delivery_spec m (m(i \<mapsto> (Published, n)))"
| retry: "m i = Some (Leased t, n) \<Longrightarrow> delivery_spec m (m(i \<mapsto> (Waiting, n)))"
| kill: "m i = Some (Leased t, n) \<Longrightarrow> delivery_spec m (m(i \<mapsto> (Dead, n)))"

definition abs_outbox :: "outbox_event list \<Rightarrow> string \<rightharpoonup> phase \<times> int" where
  "abs_outbox es = map_of (map (\<lambda>e. (oe_id e, phase_of e, oe_attempts e)) es)"

lemma abs_lookup:
  "distinct (map oe_id es) \<Longrightarrow> e \<in> set es \<Longrightarrow> abs_outbox es (oe_id e) = Some (phase_of e, oe_attempts e)"
  unfolding abs_outbox_def by (rule map_of_is_SomeI) (auto simp: comp_def)

lemma abs_None: "i \<notin> oe_id ` set es \<Longrightarrow> abs_outbox es i = None"
  by (auto simp: abs_outbox_def map_of_eq_None_iff)

lemma abs_update:
  assumes "distinct (map oe_id es)" "row \<in> set es" "oe_id (f row) = oe_id row"
  shows "abs_outbox (update_event (oe_id row) f es) = (abs_outbox es)(oe_id row \<mapsto> (phase_of (f row), oe_attempts (f row)))"
  using assms(1,2)
proof (induction es)
  case (Cons e es)
  show ?case
  proof (cases "e = row")
    case True
    then have "update_event (oe_id row) f es = es"
      using Cons.prems(1) by (auto simp: update_event_def image_iff intro!: map_idI)
    with True assms(3) show ?thesis by (auto simp: abs_outbox_def update_event_def)
  next
    case False
    with Cons.prems have ne: "oe_id e \<noteq> oe_id row" "row \<in> set es" by (auto simp: image_iff)
    have "abs_outbox (update_event (oe_id row) f es)
        = (abs_outbox es)(oe_id row \<mapsto> (phase_of (f row), oe_attempts (f row)))"
      using Cons.IH Cons.prems(1) ne(2) by (simp only: distinct.simps list.map)
    moreover have "abs_outbox (update_event (oe_id row) f (e # es))
        = (abs_outbox (update_event (oe_id row) f es))(oe_id e \<mapsto> (phase_of e, oe_attempts e))"
      using ne(1) by (simp add: abs_outbox_def update_event_def)
    moreover have "abs_outbox (e # es) = (abs_outbox es)(oe_id e \<mapsto> (phase_of e, oe_attempts e))"
      by (simp add: abs_outbox_def)
    ultimately show ?thesis using fun_upd_twist [OF ne(1)] by metis
  qed
qed simp

lemma abs_snoc:
  assumes "oe_id e \<notin> oe_id ` set es"
  shows "abs_outbox (es @ [e]) = (abs_outbox es)(oe_id e \<mapsto> (phase_of e, oe_attempts e))"
proof -
  have "oe_id e \<notin> dom (map_of (map (\<lambda>e. (oe_id e, phase_of e, oe_attempts e)) es))"
    using assms by (auto simp: dom_map_of_conv_image_fst)
  then show ?thesis by (simp add: abs_outbox_def map_add_upd_left)
qed

lemma delivery_specI:
  "m i = Some (Waiting, n) \<Longrightarrow> m' = m(i \<mapsto> (Leased t', n + 1)) \<Longrightarrow> delivery_spec m m'"
  "m i = Some (Leased t, n) \<Longrightarrow> t' \<noteq> t \<Longrightarrow> m' = m(i \<mapsto> (Leased t', n + 1)) \<Longrightarrow> delivery_spec m m'"
  "m i = Some (Leased t, n) \<Longrightarrow> m' = m(i \<mapsto> (Published, n)) \<or> m' = m(i \<mapsto> (Waiting, n)) \<or> m' = m(i \<mapsto> (Dead, n))
    \<Longrightarrow> delivery_spec m m'"
  using delivery_spec.intros by metis+

text \<open>C21. The outbox implements the abstract delivery machine: every step of the table moves at most
  one event along waiting, leased, published or dead; a lease is only taken from a waiting event or
  replaced by a different one, only a leased event is settled, and published and dead are final.\<close>

theorem outbox_refines_delivery:
  assumes "reachable_outbox p st" "delivery_step p st st'"
  shows "delivery_spec (abs_outbox (sy_events st)) (abs_outbox (sy_events st'))"
  using assms(2) reachable_outbox_inv [OF assms(1)]
proof (induction rule: delivery_step.induct)
  case (enqueue e st)
  have "abs_outbox (sy_events st @ [e]) = (abs_outbox (sy_events st))(oe_id e \<mapsto> (Waiting, 0))"
    using abs_snoc [OF enqueue.hyps(2)] enqueue.hyps(1) by (simp add: fresh_event_def phase_of_def)
  moreover have "abs_outbox (sy_events st) (oe_id e) = None" by (rule abs_None [OF enqueue.hyps(2)])
  moreover have "sy_events (st\<lparr>sy_events := sy_events st @ [e]\<rparr>) = sy_events st @ [e]" by simp
  ultimately show ?case using delivery_spec.new by metis
next
  case (tick st t)
  show ?case by (simp add: delivery_spec.idle)
next
  case (claim topics worker aggregate locked uuid st c events)
  from claim_next_Some [OF claim.hyps(1)] obtain row w ts a where row: "row \<in> set (sy_events st)"
    and cl: "claimable ts a locked (sy_now st) row" and c: "c = claim_of p w (lease_token uuid) (sy_now st) row"
      "events = update_event (oe_id row) (lease_event p w (lease_token uuid) (sy_now st)) (sy_events st)"
    by blast
  have d: "distinct (map oe_id (sy_events st))" and ok: "event_ok (sy_claims st) row"
    using claim.prems row by (simp_all add: outbox_inv_def list_all_iff)
  have ev: "abs_outbox events = (abs_outbox (sy_events st))(oe_id row \<mapsto> (Leased (lease_token uuid), oe_attempts row + 1))"
    unfolding c(2) using abs_update [OF d row, of "lease_event p w (lease_token uuid) (sy_now st)"] cl
    by (simp add: lease_event_def phase_of_def claimable_def)
  note look = abs_lookup [OF d row]
  show ?case
  proof (cases "oe_lease_token row")
    case None
    then have "phase_of row = Waiting" using cl by (simp add: phase_of_def claimable_def)
    with look have "delivery_spec (abs_outbox (sy_events st)) (abs_outbox events)"
      by (intro delivery_specI(1) [OF _ ev]) simp
    then show ?thesis by simp
  next
    case (Some t)
    then have "phase_of row = Leased t" using cl by (simp add: phase_of_def claimable_def)
    moreover have "t \<in> oc_lease_token ` set (sy_claims st)"
    proof -
      have "claims_for (oe_id row) (sy_claims st) \<noteq> []" "holds_lease row (last (claims_for (oe_id row) (sy_claims st)))"
        using ok Some by (auto simp: event_ok_def unleased_def split: if_splits)
      then show ?thesis using Some last_in_set [of "claims_for (oe_id row) (sy_claims st)"]
        by (auto simp: holds_lease_def claims_for_def)
    qed
    then have "lease_token uuid \<noteq> t" using claim.hyps(2) by (auto simp: c(1) claim_of_def)
    ultimately have "delivery_spec (abs_outbox (sy_events st)) (abs_outbox events)"
      using look by (intro delivery_specI(2) [OF _ _ ev]) simp_all
    then show ?thesis by simp
  qed
next
  case (ack c checked_at now st s events)
  from acknowledge_Inr [OF ack.hyps(1)] show ?case
  proof (elim disjE exE conjE)
    fix row assume row: "row \<in> set (sy_events st)" "\<not> is_terminal row" "holds_lease row c"
      and ev: "events = update_event (oe_id row) (\<lambda>e. clear_lease (e\<lparr>oe_published_at := Some now\<rparr>)) (sy_events st)"
    have d: "distinct (map oe_id (sy_events st))" using ack.prems by (simp add: outbox_inv_def)
    have "abs_outbox events = (abs_outbox (sy_events st))(oe_id row \<mapsto> (Published, oe_attempts row))"
      unfolding ev using abs_update [OF d row(1), of "\<lambda>e. clear_lease (e\<lparr>oe_published_at := Some now\<rparr>)"]
      by (simp add: clear_lease_def phase_of_def)
    moreover have "phase_of row = Leased (oc_lease_token c)"
      using row by (simp add: phase_of_def is_terminal_def holds_lease_def)
    ultimately have "delivery_spec (abs_outbox (sy_events st)) (abs_outbox events)"
      using abs_lookup [OF d row(1)] delivery_specI(3) by metis
    then show ?thesis by simp
  qed (simp add: delivery_spec.idle)
next
  case (reject c code force allow checked_at now st s events)
  from reject_Inr [OF reject.hyps(1)] show ?case
  proof (elim disjE exE conjE)
    fix row code' assume row: "row \<in> set (sy_events st)" "\<not> is_terminal row" "holds_lease row c"
      and ev: "events = update_event (oe_id row) (reject_event code' (dead_letters p force allow row) now
        (now + seconds (retry_delay p (oe_attempts row)))) (sy_events st)"
    have d: "distinct (map oe_id (sy_events st))" using reject.prems by (simp add: outbox_inv_def)
    have "phase_of row = Leased (oc_lease_token c)" "oe_published_at row = None" "oe_dead_lettered_at row = None"
      using row by (simp_all add: phase_of_def is_terminal_def holds_lease_def)
    moreover have "abs_outbox events = (abs_outbox (sy_events st))(oe_id row \<mapsto> (Dead, oe_attempts row))
        \<or> abs_outbox events = (abs_outbox (sy_events st))(oe_id row \<mapsto> (Waiting, oe_attempts row))"
      unfolding ev by (subst (1 2) abs_update [OF d row(1)])
        (use row in \<open>auto simp: reject_event_def clear_lease_def phase_of_def is_terminal_def\<close>)
    ultimately have "delivery_spec (abs_outbox (sy_events st)) (abs_outbox events)"
      using abs_lookup [OF d row(1)] delivery_specI(3) by metis
    then show ?thesis by simp
  qed (simp add: delivery_spec.idle)
qed

subsection \<open>A concrete queue\<close>

definition ex_delivery_policy :: delivery_policy where
  "ex_delivery_policy = \<lparr>dp_lease_seconds = 60, dp_max_attempts = 3, dp_retry_base_seconds = 10,
     dp_retry_max_seconds = 600\<rparr>"

definition ex_event :: "string \<Rightarrow> outbox_event" where
  "ex_event i = \<lparr>oe_id = i, oe_deduplication_key = i, oe_delivery_deduplication_key = i,
     oe_topic = ''document.upload.scan-clean'', oe_aggregate_id = ''u1'',
     oe_payload = [(''upload_id'', PStr ''u1''), (''project_id'', PStr ''p1'')], oe_attempts = 0, oe_available_at = 0,
     oe_published_at = None, oe_last_error = None, oe_locked_by = None, oe_lease_token = None,
     oe_lease_expires_at = None, oe_last_attempt_at = None, oe_dead_lettered_at = None, oe_created_at = 0\<rparr>"

definition ex_queue :: outbox_system where
  "ex_queue = \<lparr>sy_events = [ex_event ''e1''], sy_claims = [], sy_now = 0\<rparr>"

definition ex_claim :: outbox_claim where
  "ex_claim = claim_of ex_delivery_policy ''w1'' (lease_token ''t1'') 0 (ex_event ''e1'')"

definition ex_leased :: "outbox_event list" where
  "ex_leased = [lease_event ex_delivery_policy ''w1'' (lease_token ''t1'') 0 (ex_event ''e1'')]"

definition ex_claimed :: outbox_system where
  "ex_claimed = \<lparr>sy_events = ex_leased, sy_claims = [ex_claim], sy_now = 0\<rparr>"

lemma ex_taken:
  "claim_next ex_delivery_policy [''document.upload.scan-clean''] ''w1'' None (\<lambda>_. False) ''t1'' 0 [ex_event ''e1'']
    = Inr (Some ex_claim, ex_leased)"
  unfolding ex_claim_def ex_leased_def by code_simp

lemma ex_queue_reachable: "reachable_outbox ex_delivery_policy ex_queue"
proof -
  have "delivery_step ex_delivery_policy \<lparr>sy_events = [], sy_claims = [], sy_now = 0\<rparr> ex_queue"
    using delivery_step.enqueue [of "ex_event ''e1''" "\<lparr>sy_events = [], sy_claims = [], sy_now = 0\<rparr>" ex_delivery_policy]
    by (simp add: ex_queue_def fresh_event_def ex_event_def)
  then show ?thesis by (blast intro: reachable_outbox.intros)
qed

lemma ex_claim_step: "delivery_step ex_delivery_policy ex_queue ex_claimed"
proof -
  have "claim_next ex_delivery_policy [''document.upload.scan-clean''] ''w1'' None (\<lambda>_. False) ''t1'' (sy_now ex_queue)
      (sy_events ex_queue) = Inr (Some ex_claim, ex_leased)"
    using ex_taken by (simp add: ex_queue_def)
  from delivery_step.claim [OF this] show ?thesis by (simp add: ex_queue_def ex_claimed_def)
qed

lemma ex_claimed_reachable: "reachable_outbox ex_delivery_policy ex_claimed"
  by (rule reachable_outbox.step [OF ex_queue_reachable ex_claim_step])

theorem outbox_lease_invariant_witness: "outbox_inv ex_claimed"
  by (rule outbox_lease_invariant [OF ex_claimed_reachable])

theorem outbox_refines_delivery_witness: "delivery_spec (abs_outbox (sy_events ex_queue)) (abs_outbox (sy_events ex_claimed))"
  by (rule outbox_refines_delivery [OF ex_queue_reachable ex_claim_step])

definition ex_settled :: "outbox_event list" where
  "ex_settled = snd (projr (acknowledge ex_claim 1 2 ex_leased))"

lemma ex_acknowledged:
  "acknowledge ex_claim 1 2 (sy_events ex_claimed) = Inr (\<lparr>os_event_id = ''e1'', os_dead_lettered = False,
    os_next_available_at = None\<rparr>, ex_settled) \<and> map oe_published_at ex_settled = [Some 2]"
  unfolding ex_settled_def ex_claimed_def ex_claim_def ex_leased_def outbox_system.select_convs by code_simp

theorem only_newest_claim_settles_witness:
  "oc_lease_token (last (claims_for (oc_event_id ex_claim) (sy_claims ex_claimed))) = oc_lease_token ex_claim"
proof -
  have "map oe_published_at (sy_events ex_claimed) = [None]"
    by (simp add: ex_claimed_def ex_leased_def lease_event_def ex_event_def)
  then have "ex_settled \<noteq> sy_events ex_claimed"
    using ex_acknowledged [THEN conjunct2] by (metis list.inject option.distinct(1))
  with only_newest_claim_settles [OF ex_claimed_reachable disjI1 [OF ex_acknowledged [THEN conjunct1]]]
  show ?thesis by blast
qed

end
