(* ===== verification/TG_Audit.thy ===== *)
theory TG_Audit
  imports TG_Project_Store TG_Json TG_Outbox_Lease
begin

text \<open>
  \<open>domain/audit.py\<close> and \<open>ProjectService._audit\<close>: events chained by the hash of their
  predecessor and signed, the check of a chain, and the append to the table \<open>audit_events\<close> with
  its outbox notification.  SHA-256 and HMAC are parameters (a record of functions on byte strings);
  nothing is assumed of them: what would contradict a statement about hashes is named as two
  different texts with one digest.
\<close>

subsection \<open>Hashes\<close>

definition is_sha256 :: "string \<Rightarrow> bool" where
  "is_sha256 s \<longleftrightarrow> length s = 64 \<and> list_all (\<lambda>c. c \<in> set ''0123456789abcdef'') s"

definition GENESIS_HASH :: string where
  "GENESIS_HASH = replicate 64 (CHR ''0'')"

definition AUDIT_SIGNATURE_V1 :: string where
  "AUDIT_SIGNATURE_V1 = ''HMAC-SHA256-V1''"

definition AUDIT_SIGNATURE_V2 :: string where
  "AUDIT_SIGNATURE_V2 = ''HMAC-SHA256-V2''"

subsection \<open>Events\<close>

text \<open>The arguments of \<open>append_event\<close>, the fields it adds before hashing, and the event.\<close>

record audit_draft =
  av_event_id :: string
  av_aggregate_type :: string
  av_aggregate_id :: string
  av_event_type :: string
  av_actor_id :: string
  av_actor_roles :: "string list"
  av_request_id :: string
  av_reason :: string
  av_occurred_at :: int
  av_payload :: "(string \<times> pyval) list"

record audit_body = audit_draft +
  av_sequence :: int
  av_previous_hash :: string
  av_signing_key_id :: string
  av_signature_version :: string

record audit_event = audit_body +
  av_event_hash :: string
  av_signature :: string

definition audit_event_check :: "audit_event \<Rightarrow> audit_event result" where
  "audit_event_check e =
     (if av_sequence e < 1 \<or> \<not> is_sha256 (av_previous_hash e)
         \<or> av_signing_key_id e = [] \<or> length (av_signing_key_id e) > 200
         \<or> (av_signature_version e \<noteq> AUDIT_SIGNATURE_V1 \<and> av_signature_version e \<noteq> AUDIT_SIGNATURE_V2)
         \<or> \<not> is_sha256 (av_event_hash e) \<or> \<not> is_sha256 (av_signature e)
      then Inl (ValueError ''AuditEvent'') else Inr e)"

definition record_entries :: "'a audit_body_scheme \<Rightarrow> (string \<times> pyval) list" where
  "record_entries e =
     [(''sequence'', PInt (av_sequence e)), (''event_id'', PStr (av_event_id e)),
      (''aggregate_type'', PStr (av_aggregate_type e)), (''aggregate_id'', PStr (av_aggregate_id e)),
      (''event_type'', PStr (av_event_type e)), (''actor_id'', PStr (av_actor_id e)),
      (''actor_roles'', PList (map PStr (av_actor_roles e))), (''request_id'', PStr (av_request_id e)),
      (''reason'', PStr (av_reason e)), (''occurred_at'', PStr (datetime_iso (av_occurred_at e))),
      (''payload'', PDict (av_payload e)), (''previous_hash'', PStr (av_previous_hash e))]"

definition unsigned_record :: "'a audit_body_scheme \<Rightarrow> pyval result" where
  "unsigned_record e =
     (if av_signature_version e = AUDIT_SIGNATURE_V2
      then Inr (PDict (record_entries e @ [(''signing_key_id'', PStr (av_signing_key_id e)),
             (''signature_version'', PStr (av_signature_version e))]))
      else if av_signature_version e \<noteq> AUDIT_SIGNATURE_V1
      then Inl (ValueError ''Unsupported audit signature version'')
      else Inr (PDict (record_entries e)))"

definition signature_payload :: "string \<Rightarrow> pyval" where
  "signature_payload h = PDict [(''event_hash'', PStr h)]"

definition event_body :: "audit_event option \<Rightarrow> audit_draft \<Rightarrow> string \<Rightarrow> audit_body" where
  "event_body previous d key_id = audit_draft.extend d
     \<lparr>av_sequence = (case previous of None \<Rightarrow> 1 | Some p \<Rightarrow> av_sequence p + 1),
      av_previous_hash = (case previous of None \<Rightarrow> GENESIS_HASH | Some p \<Rightarrow> av_event_hash p),
      av_signing_key_id = key_id, av_signature_version = AUDIT_SIGNATURE_V2\<rparr>"

definition append_event :: "crypto \<Rightarrow> audit_event option \<Rightarrow> audit_draft \<Rightarrow> string \<Rightarrow> string \<Rightarrow> audit_event result" where
  "append_event C previous d signing_key signing_key_id =
     (if strip signing_key_id = [] \<or> strip signing_key_id \<noteq> signing_key_id
      then Inl (ValueError ''Audit signing key ID is invalid'')
      else let body = event_body previous d signing_key_id in
        bindR (unsigned_record body) (\<lambda>unsigned.
        bindR (content_hash C unsigned) (\<lambda>event_hash.
        bindR (signed_hash C (signature_payload event_hash) signing_key) (\<lambda>signature.
          audit_event_check (audit_body.extend body \<lparr>av_event_hash = event_hash, av_signature = signature\<rparr>)))))"

fun verify_from :: "crypto \<Rightarrow> (string \<Rightarrow> string option) \<Rightarrow> string \<Rightarrow> int \<Rightarrow> audit_event list \<Rightarrow> bool result" where
  "verify_from C verification_keys previous_hash expected_sequence [] = Inr True"
| "verify_from C verification_keys previous_hash expected_sequence (e # es) =
     (if av_sequence e \<noteq> expected_sequence \<or> av_previous_hash e \<noteq> previous_hash then Inr False
      else bindR (unsigned_record e) (\<lambda>unsigned.
        bindR (content_hash C unsigned) (\<lambda>h.
        if h \<noteq> av_event_hash e then Inr False
        else (case verification_keys (av_signing_key_id e) of
            None \<Rightarrow> Inr False
          | Some signing_key \<Rightarrow>
              bindR (signed_hash C (signature_payload (av_event_hash e)) signing_key) (\<lambda>expected_signature.
              if expected_signature \<noteq> av_signature e then Inr False
              else verify_from C verification_keys (av_event_hash e) (expected_sequence + 1) es)))))"

definition verify_chain :: "crypto \<Rightarrow> (string \<Rightarrow> string option) \<Rightarrow> audit_event list \<Rightarrow> bool result" where
  "verify_chain C verification_keys events = verify_from C verification_keys GENESIS_HASH 1 events"

subsection \<open>The table\<close>

record audit_settings =
  audit_signing_key :: string
  audit_signing_key_id :: string
  audit_verification_keys :: "(string \<times> string) list"

definition audit_verification_keyring :: "audit_settings \<Rightarrow> string \<Rightarrow> string option" where
  "audit_verification_keyring s = (map_of (audit_verification_keys s))(audit_signing_key_id s \<mapsto> audit_signing_key s)"

text \<open>A row has the columns of the event; its payload column holds canonical data.\<close>

record audit_table =
  tb_events :: "audit_event list"
  tb_outbox :: "outbox_event list"

definition chain_of :: "string \<Rightarrow> string \<Rightarrow> audit_event list \<Rightarrow> audit_event list" where
  "chain_of agg_type agg_id rows =
     sort_key av_sequence (filter (\<lambda>e. av_aggregate_type e = agg_type \<and> av_aggregate_id e = agg_id) rows)"

definition previous_event :: "string \<Rightarrow> string \<Rightarrow> audit_event list \<Rightarrow> audit_event option result" where
  "previous_event agg_type agg_id rows =
     (case rev (chain_of agg_type agg_id rows) of [] \<Rightarrow> Inr None
      | row # _ \<Rightarrow> bindR (audit_event_check row) (\<lambda>e. Inr (Some e)))"

definition event_draft :: "actor \<Rightarrow> string \<Rightarrow> string \<Rightarrow> string \<Rightarrow> string \<Rightarrow> string \<Rightarrow> (string \<times> pyval) list
    \<Rightarrow> string \<Rightarrow> int \<Rightarrow> audit_draft" where
  "event_draft a agg_type agg_id event_type request_id reason payload uuid now =
     \<lparr>av_event_id = ''audit-'' @ uuid, av_aggregate_type = agg_type, av_aggregate_id = agg_id,
      av_event_type = event_type, av_actor_id = actor_id a,
      av_actor_roles = sorted_list_of_fset (ActorRole_value |`| actor_roles a),
      av_request_id = request_id, av_reason = reason, av_occurred_at = now, av_payload = payload\<rparr>"

text \<open>The unique constraints of \<open>audit_events\<close>.\<close>

definition insert_event :: "audit_event \<Rightarrow> audit_event list \<Rightarrow> audit_event list result" where
  "insert_event r rows =
     (if list_ex (\<lambda>q. av_event_id q = av_event_id r \<or> av_event_hash q = av_event_hash r
           \<or> (av_aggregate_type q, av_aggregate_id q, av_sequence q)
             = (av_aggregate_type r, av_aggregate_id r, av_sequence r)) rows
      then Inl (IntegrityError ''audit_events'') else Inr (rows @ [r]))"

definition as_dict :: "pyval \<Rightarrow> (string \<times> pyval) list" where
  "as_dict v = (case v of PDict kvs \<Rightarrow> kvs | _ \<Rightarrow> [])"

definition outbox_row :: "string \<Rightarrow> string \<Rightarrow> (string \<times> pyval) list \<Rightarrow> string \<Rightarrow> string \<Rightarrow> int \<Rightarrow> outbox_event" where
  "outbox_row topic agg_id payload dedup uuid now =
     \<lparr>oe_id = ''outbox-'' @ uuid, oe_deduplication_key = dedup, oe_delivery_deduplication_key = dedup,
      oe_topic = topic, oe_aggregate_id = agg_id, oe_payload = payload, oe_attempts = 0, oe_available_at = now,
      oe_published_at = None, oe_last_error = None, oe_locked_by = None, oe_lease_token = None,
      oe_lease_expires_at = None, oe_last_attempt_at = None, oe_dead_lettered_at = None, oe_created_at = now\<rparr>"

definition add_outbox :: "string \<Rightarrow> string \<Rightarrow> (string \<times> pyval) list \<Rightarrow> string option \<Rightarrow> string \<Rightarrow> int
    \<Rightarrow> outbox_event list \<Rightarrow> outbox_event list result" where
  "add_outbox topic agg_id payload dedup uuid now rows =
     bindR (canonical_data (PDict payload)) (\<lambda>data.
       Inr (rows @ [outbox_row topic agg_id (as_dict data)
         (if str_true dedup then the dedup else ''outbox-event:outbox-'' @ uuid) uuid now]))"

definition notification :: "actor \<Rightarrow> audit_event \<Rightarrow> (string \<times> pyval) list" where
  "notification a e =
     [(''organization_id'', PStr (actor_organization_id a)), (''audit_event_id'', PStr (av_event_id e)),
      (''aggregate_type'', PStr (av_aggregate_type e)), (''aggregate_id'', PStr (av_aggregate_id e)),
      (''sequence'', PInt (av_sequence e)), (''event_type'', PStr (av_event_type e)),
      (''event_hash'', PStr (av_event_hash e)), (''occurred_at'', PStr (datetime_iso (av_occurred_at e)))]"

text \<open>The fresh identifiers and clock readings of an operation that records one event.\<close>

record stamps =
  sp_uuid :: string
  sp_event_uuid :: string
  sp_outbox_uuid :: string
  sp_now :: int
  sp_event_now :: int
  sp_outbox_now :: int

definition record_audit :: "crypto \<Rightarrow> audit_settings \<Rightarrow> actor \<Rightarrow> audit_draft \<Rightarrow> string \<Rightarrow> int \<Rightarrow> audit_table
    \<Rightarrow> (audit_event \<times> audit_table) result" where
  "record_audit C s a d outbox_uuid outbox_now t =
     bindR (previous_event (av_aggregate_type d) (av_aggregate_id d) (tb_events t)) (\<lambda>previous.
     bindR (append_event C previous d (audit_signing_key s) (audit_signing_key_id s)) (\<lambda>event.
     bindR (canonical_data (PDict (av_payload event))) (\<lambda>data.
     bindR (insert_event (event\<lparr>av_payload := as_dict data\<rparr>) (tb_events t)) (\<lambda>rows.
     bindR (add_outbox ''audit.event.recorded'' (av_aggregate_id event) (notification a event)
             (Some (''audit-event:'' @ av_event_id event)) outbox_uuid outbox_now (tb_outbox t)) (\<lambda>outbox.
       Inr (event, \<lparr>tb_events = rows, tb_outbox = outbox\<rparr>))))))"

subsection \<open>Chains\<close>

lemma audit_event_check_eq: "audit_event_check e = Inr f \<Longrightarrow> f = e"
  by (auto simp: audit_event_check_def split: if_splits)

lemma audit_event_check_payload: "audit_event_check (e\<lparr>av_payload := p\<rparr>) = Inr (e\<lparr>av_payload := p\<rparr>) \<longleftrightarrow> audit_event_check e = Inr e"
  by (simp add: audit_event_check_def)

definition tip_hash :: "string \<Rightarrow> audit_event list \<Rightarrow> string" where
  "tip_hash h es = (if es = [] then h else av_event_hash (last es))"

lemma verify_from_snoc:
  "verify_from C K h n (es @ [e]) = Inr True \<longleftrightarrow>
     verify_from C K h n es = Inr True \<and> verify_from C K (tip_hash h es) (n + int (length es)) [e] = Inr True"
proof (induction es arbitrary: h n)
  case (Cons a es)
  have "tip_hash (av_event_hash a) es = tip_hash h (a # es)" by (simp add: tip_hash_def)
  with Cons [of "av_event_hash a" "n + 1"] show ?case
    by (simp add: result_simps add.commute add.left_commute split: option.splits) blast
qed (simp add: tip_hash_def)

lemma verify_from_take: "verify_from C K h n es = Inr True \<Longrightarrow> verify_from C K h n (take k es) = Inr True"
proof (induction es arbitrary: h n k)
  case (Cons e es)
  then show ?case by (cases k) (auto simp: result_simps split: if_splits option.splits)
qed simp

lemma verify_from_sequence:
  "verify_from C K h n es = Inr True \<Longrightarrow> map av_sequence es = map (\<lambda>k. n + int k) [0..<length es]"
proof (induction es arbitrary: h n)
  case (Cons e es)
  from Cons.prems have "av_sequence e = n" and "verify_from C K (av_event_hash e) (n + 1) es = Inr True"
    by (auto simp: result_simps split: if_splits option.splits)
  with Cons.IH have "map av_sequence (e # es) = n # map (\<lambda>k. n + 1 + int k) [0..<length es]" by simp
  also have "\<dots> = map (\<lambda>k. n + int k) [0..<length (e # es)]"
    by (simp add: upt_conv_Cons map_Suc_upt [symmetric] comp_def add.assoc del: upt_Suc)
  finally show ?case .
qed simp

lemma verify_from_sorted: "verify_from C K h n es = Inr True \<Longrightarrow> sort_key av_sequence es = es"
proof -
  assume "verify_from C K h n es = Inr True"
  then have "sorted (map av_sequence es)" by (simp add: verify_from_sequence sorted_iff_nth_mono)
  then show ?thesis by (rule sort_key_id_if_sorted)
qed

text \<open>What one step of the check establishes.\<close>

lemma verify_from_single:
  "verify_from C K h n [e] = Inr True \<longleftrightarrow> av_sequence e = n \<and> av_previous_hash e = h
     \<and> bindR (unsigned_record e) (content_hash C) = Inr (av_event_hash e)
     \<and> (\<exists>key. K (av_signing_key_id e) = Some key
          \<and> signed_hash C (signature_payload (av_event_hash e)) key = Inr (av_signature e))"
  by (auto simp: result_simps split: if_splits option.splits)

text \<open>The stored row, whose payload is canonical, hashes to what the event with the original payload
  hashed to.\<close>

lemma unsigned_record_stored:
  assumes "canonical_data (PDict (av_payload e)) = Inr data" "unsigned_record e = Inr u"
  shows "\<exists>u'. unsigned_record (e\<lparr>av_payload := as_dict data\<rparr>) = Inr u' \<and> canonical_data u' = canonical_data u"
proof -
  let ?e = "e\<lparr>av_payload := as_dict data\<rparr>"
  obtain zs where zs: "data = PDict zs" using assms(1) canonical_dict_shape by blast
  then have "canonical_data (PDict (as_dict data)) = canonical_data (PDict (av_payload e))"
    using assms(1) canonical_data_idem by (simp add: as_dict_def)
  then have "map canonical_entry (record_entries ?e) = map canonical_entry (record_entries e)"
    by (simp add: record_entries_def canonical_entry_def)
  then have "canonical_data (PDict (record_entries ?e @ zs)) = canonical_data (PDict (record_entries e @ zs))" for zs
    by (intro canonical_dict_cong) simp
  from this [of "[]"] this show ?thesis
    using assms(2) by (auto simp: unsigned_record_def split: if_splits)
qed

lemma content_hash_cong: "canonical_data u = canonical_data v \<Longrightarrow> content_hash C u = content_hash C v"
  by (simp add: content_hash_def canonical_json_def)

definition draft_text :: "audit_event option \<Rightarrow> audit_draft \<Rightarrow> string \<Rightarrow> string" where
  "draft_text p d key_id = projr (bindR (unsigned_record (event_body p d key_id)) canonical_json)"

definition draft_hash :: "crypto \<Rightarrow> audit_event option \<Rightarrow> audit_draft \<Rightarrow> string \<Rightarrow> string" where
  "draft_hash C p d key_id = sha256_hex C (draft_text p d key_id)"

lemma append_event_Inr:
  assumes "append_event C previous d key key_id = Inr e"
  obtains u where "unsigned_record e = Inr u" "content_hash C u = Inr (av_event_hash e)"
    "signed_hash C (signature_payload (av_event_hash e)) key = Inr (av_signature e)"
    "audit_event_check e = Inr e" "av_signing_key_id e = key_id" "av_payload e = av_payload d"
    "av_sequence e = (case previous of None \<Rightarrow> 1 | Some p \<Rightarrow> av_sequence p + 1)"
    "av_previous_hash e = (case previous of None \<Rightarrow> GENESIS_HASH | Some p \<Rightarrow> av_event_hash p)"
    "av_aggregate_type e = av_aggregate_type d" "av_aggregate_id e = av_aggregate_id d"
    "av_event_id e = av_event_id d" "av_event_hash e = draft_hash C previous d key_id"
proof -
  let ?b = "event_body previous d key_id"
  from assms obtain u h sg where u: "unsigned_record ?b = Inr u" and h: "content_hash C u = Inr h"
    and sg: "signed_hash C (signature_payload h) key = Inr sg"
    and c: "audit_event_check (audit_body.extend ?b \<lparr>av_event_hash = h, av_signature = sg\<rparr>) = Inr e"
    by (auto simp: append_event_def Let_def bindR_eq_Inr split: if_splits)
  let ?e = "audit_body.extend ?b \<lparr>av_event_hash = h, av_signature = sg\<rparr>"
  have e: "e = ?e" using audit_event_check_eq [OF c] .
  have "unsigned_record ?e = unsigned_record ?b"
    by (simp add: unsigned_record_def record_entries_def audit_body.defs event_body_def audit_draft.defs)
  moreover have "h = draft_hash C previous d key_id"
    using u h by (auto simp: draft_hash_def draft_text_def content_hash_def bindR_eq_Inr)
  ultimately show ?thesis using u h sg c e
    by (intro that [of u]) (simp_all add: audit_body.defs event_body_def audit_draft.defs)
qed

subsection \<open>The stored history always verifies\<close>

definition same_aggregate :: "string \<Rightarrow> string \<Rightarrow> audit_event list \<Rightarrow> audit_event list" where
  "same_aggregate ty i rows = filter (\<lambda>e. av_aggregate_type e = ty \<and> av_aggregate_id e = i) rows"

definition notifies :: "audit_event \<Rightarrow> outbox_event \<Rightarrow> bool" where
  "notifies e ob \<longleftrightarrow> fresh_event ob \<and> oe_topic ob = ''audit.event.recorded'' \<and> oe_aggregate_id ob = av_aggregate_id e
     \<and> oe_deduplication_key ob = ''audit-event:'' @ av_event_id e
     \<and> map_of (oe_payload ob) ''event_hash'' = Some (PStr (av_event_hash e))
     \<and> map_of (oe_payload ob) ''sequence'' = Some (PInt (av_sequence e))"

definition audit_inv :: "crypto \<Rightarrow> (string \<Rightarrow> string option) \<Rightarrow> audit_table \<Rightarrow> bool" where
  "audit_inv C K t \<longleftrightarrow> (\<forall>ty i. verify_chain C K (same_aggregate ty i (tb_events t)) = Inr True)
     \<and> list_all (\<lambda>e. audit_event_check e = Inr e) (tb_events t)
     \<and> distinct (map av_event_id (tb_events t)) \<and> distinct (map av_event_hash (tb_events t))
     \<and> list_all2 notifies (tb_events t) (tb_outbox t)"

lemma chain_of_verified:
  "verify_chain C K (same_aggregate ty i rows) = Inr True \<Longrightarrow> chain_of ty i rows = same_aggregate ty i rows"
  unfolding chain_of_def verify_chain_def same_aggregate_def by (rule verify_from_sorted)

lemma add_outbox_notifies:
  assumes "add_outbox ''audit.event.recorded'' (av_aggregate_id e) (notification a e)
      (Some (''audit-event:'' @ av_event_id e)) uuid now rows = Inr rows'"
  shows "\<exists>ob. rows' = rows @ [ob] \<and> notifies e ob"
proof -
  obtain data where data: "canonical_data (PDict (notification a e)) = Inr data"
    and rows': "rows' = rows @ [outbox_row ''audit.event.recorded'' (av_aggregate_id e) (as_dict data)
      (''audit-event:'' @ av_event_id e) uuid now]"
    using assms by (auto simp: add_outbox_def bindR_eq_Inr)
  obtain zs where zs: "data = PDict zs" using canonical_dict_shape [OF data] by blast
  have "distinct (map fst (notification a e))" by (simp add: notification_def)
  note lookup = canonical_dict_lookup [OF data [unfolded zs] this]
  have "map_of zs ''event_hash'' = Some (PStr (av_event_hash e))"
    using lookup [of "''event_hash''"] by (auto simp: notification_def)
  moreover have "map_of zs ''sequence'' = Some (PInt (av_sequence e))"
    using lookup [of "''sequence''"] by (auto simp: notification_def)
  ultimately show ?thesis
    by (simp add: rows' notifies_def outbox_row_def fresh_event_def zs as_dict_def)
qed

lemma previous_event_verified:
  assumes "verify_chain C K (same_aggregate ty i rows) = Inr True" "previous_event ty i rows = Inr p"
  shows "(case p of None \<Rightarrow> GENESIS_HASH | Some e \<Rightarrow> av_event_hash e) = tip_hash GENESIS_HASH (same_aggregate ty i rows)"
    and "(case p of None \<Rightarrow> 1 | Some e \<Rightarrow> av_sequence e + 1) = 1 + int (length (same_aggregate ty i rows))"
proof -
  let ?es = "same_aggregate ty i rows"
  have p: "p = (if ?es = [] then None else Some (last ?es))"
    using assms(2) audit_event_check_eq
    by (cases ?es rule: rev_cases) (auto simp: previous_event_def chain_of_verified [OF assms(1)] bindR_eq_Inr)
  then show "(case p of None \<Rightarrow> GENESIS_HASH | Some e \<Rightarrow> av_event_hash e) = tip_hash GENESIS_HASH ?es"
    by (simp add: tip_hash_def)
  have "av_sequence (last ?es) = int (length ?es)" if "?es \<noteq> []"
  proof -
    have "last (map av_sequence ?es) = 1 + int (length ?es - 1)"
      using verify_from_sequence [OF assms(1) [unfolded verify_chain_def]] that by (simp add: last_map last_upt)
    moreover have "last (map av_sequence ?es) = av_sequence (last ?es)" using that by (rule last_map)
    moreover have "length ?es \<noteq> 0" using that by simp
    ultimately show ?thesis by simp
  qed
  with p show "(case p of None \<Rightarrow> 1 | Some e \<Rightarrow> av_sequence e + 1) = 1 + int (length ?es)" by simp
qed

text \<open>One successful append.\<close>

lemma record_audit_Inr:
  assumes "record_audit C s a d uuid now t = Inr (e, t')"
    and "verify_chain C K (same_aggregate (av_aggregate_type d) (av_aggregate_id d) (tb_events t)) = Inr True"
    and "K (audit_signing_key_id s) = Some (audit_signing_key s)"
  obtains row ob where "tb_events t' = tb_events t @ [row]" "tb_outbox t' = tb_outbox t @ [ob]" "notifies row ob"
    "audit_event_check row = Inr row" "av_event_id row \<notin> av_event_id ` set (tb_events t)"
    "av_event_hash row \<notin> av_event_hash ` set (tb_events t)"
    "av_aggregate_type row = av_aggregate_type d" "av_aggregate_id row = av_aggregate_id d"
    "verify_chain C K (same_aggregate (av_aggregate_type d) (av_aggregate_id d) (tb_events t) @ [row]) = Inr True"
    "row = e\<lparr>av_payload := av_payload row\<rparr>" "av_event_id row = av_event_id d"
    "\<exists>p. previous_event (av_aggregate_type d) (av_aggregate_id d) (tb_events t) = Inr p
      \<and> av_event_hash row = draft_hash C p d (audit_signing_key_id s)"
proof -
  let ?es = "same_aggregate (av_aggregate_type d) (av_aggregate_id d) (tb_events t)"
  from assms(1) obtain p data rows outbox where
    p: "previous_event (av_aggregate_type d) (av_aggregate_id d) (tb_events t) = Inr p"
    and e: "append_event C p d (audit_signing_key s) (audit_signing_key_id s) = Inr e"
    and data: "canonical_data (PDict (av_payload e)) = Inr data"
    and ins: "insert_event (e\<lparr>av_payload := as_dict data\<rparr>) (tb_events t) = Inr rows"
    and out: "add_outbox ''audit.event.recorded'' (av_aggregate_id e) (notification a e)
        (Some (''audit-event:'' @ av_event_id e)) uuid now (tb_outbox t) = Inr outbox"
    and t': "t' = \<lparr>tb_events = rows, tb_outbox = outbox\<rparr>"
    by (auto simp: record_audit_def bindR_eq_Inr)
  let ?row = "e\<lparr>av_payload := as_dict data\<rparr>"
  obtain u where u: "unsigned_record e = Inr u" "content_hash C u = Inr (av_event_hash e)"
    and sg: "signed_hash C (signature_payload (av_event_hash e)) (audit_signing_key s) = Inr (av_signature e)"
    and c: "audit_event_check e = Inr e" and kid: "av_signing_key_id e = audit_signing_key_id s"
    and sq: "av_sequence e = (case p of None \<Rightarrow> 1 | Some p \<Rightarrow> av_sequence p + 1)"
    and pr: "av_previous_hash e = (case p of None \<Rightarrow> GENESIS_HASH | Some p \<Rightarrow> av_event_hash p)"
    and ag: "av_aggregate_type e = av_aggregate_type d" "av_aggregate_id e = av_aggregate_id d" "av_event_id e = av_event_id d"
    and dh: "av_event_hash e = draft_hash C p d (audit_signing_key_id s)"
    using append_event_Inr [OF e] by metis
  obtain u' where "unsigned_record ?row = Inr u'" "canonical_data u' = canonical_data u"
    using unsigned_record_stored [OF data u(1)] by blast
  then have h: "bindR (unsigned_record ?row) (content_hash C) = Inr (av_event_hash ?row)"
    using u(2) content_hash_cong [of u' u] by simp
  have position: "av_sequence ?row = 1 + int (length ?es)" "av_previous_hash ?row = tip_hash GENESIS_HASH ?es"
    using sq pr previous_event_verified [OF assms(2) p] by simp_all
  have "K (av_signing_key_id ?row) = Some (audit_signing_key s)"
    "signed_hash C (signature_payload (av_event_hash ?row)) (audit_signing_key s) = Inr (av_signature ?row)"
    using kid assms(3) sg by simp_all
  with h position have step: "verify_from C K (tip_hash GENESIS_HASH ?es) (1 + int (length ?es)) [?row] = Inr True"
    unfolding verify_from_single by blast
  then have "verify_chain C K (?es @ [?row]) = Inr True"
    using assms(2) by (simp add: verify_chain_def verify_from_snoc del: verify_from.simps)
  moreover obtain ob where "outbox = tb_outbox t @ [ob]" "notifies e ob" using add_outbox_notifies [OF out] by blast
  moreover have "rows = tb_events t @ [?row]" "av_event_id ?row \<notin> av_event_id ` set (tb_events t)"
    "av_event_hash ?row \<notin> av_event_hash ` set (tb_events t)"
    using ins by (auto simp: insert_event_def list_ex_iff split: if_splits)
  ultimately show ?thesis
    using c ag p dh by (intro that [of ?row ob]) (simp_all add: t' notifies_def audit_event_check_payload)
qed

inductive audit_reachable :: "crypto \<Rightarrow> (string \<Rightarrow> string option) \<Rightarrow> audit_table \<Rightarrow> bool" for C K where
  empty: "audit_reachable C K \<lparr>tb_events = [], tb_outbox = []\<rparr>"
| step: "audit_reachable C K t \<Longrightarrow> record_audit C s a d uuid now t = Inr (e, t')
    \<Longrightarrow> K (audit_signing_key_id s) = Some (audit_signing_key s) \<Longrightarrow> audit_reachable C K t'"

lemma audit_inv_step:
  assumes inv: "audit_inv C K t" and r: "record_audit C s a d uuid now t = Inr (e, t')"
    and K: "K (audit_signing_key_id s) = Some (audit_signing_key s)"
  shows "audit_inv C K t'"
proof -
  have v: "verify_chain C K (same_aggregate ty i (tb_events t)) = Inr True" for ty i
    using inv by (simp add: audit_inv_def)
  obtain row ob where row: "tb_events t' = tb_events t @ [row]" "tb_outbox t' = tb_outbox t @ [ob]" "notifies row ob"
      "audit_event_check row = Inr row" "av_event_id row \<notin> av_event_id ` set (tb_events t)"
      "av_event_hash row \<notin> av_event_hash ` set (tb_events t)"
      "av_aggregate_type row = av_aggregate_type d" "av_aggregate_id row = av_aggregate_id d"
      "verify_chain C K (same_aggregate (av_aggregate_type d) (av_aggregate_id d) (tb_events t) @ [row]) = Inr True"
    using record_audit_Inr [OF r v K] by metis
  have "verify_chain C K (same_aggregate ty i (tb_events t')) = Inr True" for ty i
    using v [of ty i] row(1,7-9) by (auto simp: same_aggregate_def)
  moreover have "list_all2 notifies (tb_events t') (tb_outbox t')"
    using inv row(1-3) by (auto simp: audit_inv_def intro: list_all2_appendI)
  ultimately show ?thesis using inv row(1,4-6) by (simp add: audit_inv_def)
qed

lemma audit_reachable_inv: "audit_reachable C K t \<Longrightarrow> audit_inv C K t"
proof (induction rule: audit_reachable.induct)
  case empty
  then show ?case by (simp add: audit_inv_def same_aggregate_def verify_chain_def)
next
  case (step t s a d uuid now e t')
  then show ?case by (blast intro: audit_inv_step)
qed

text \<open>C26. However events are recorded, by whatever actors and with whatever signing keys of the keyring,
  the stored chain of every aggregate, read back in sequence order, verifies; its sequence numbers are
  1, 2, ... without gaps; event ids and hashes are unique; and every event has its own fresh outbox
  notification that carries its hash and sequence number.\<close>

theorem audit_chains_verify:
  assumes "audit_reachable C K t"
  shows "verify_chain C K (chain_of ty i (tb_events t)) = Inr True
     \<and> map av_sequence (chain_of ty i (tb_events t)) = map int [1..<Suc (length (chain_of ty i (tb_events t)))]
     \<and> distinct (map av_event_id (tb_events t)) \<and> distinct (map av_event_hash (tb_events t))
     \<and> list_all2 notifies (tb_events t) (tb_outbox t)"
proof -
  have inv: "audit_inv C K t" using assms by (rule audit_reachable_inv)
  then have v: "verify_chain C K (same_aggregate ty i (tb_events t)) = Inr True" by (simp add: audit_inv_def)
  have "map av_sequence (same_aggregate ty i (tb_events t)) = map int [1..<Suc (length (same_aggregate ty i (tb_events t)))]"
    using verify_from_sequence [OF v [unfolded verify_chain_def]] by (simp add: map_Suc_upt [symmetric] comp_def del: upt_Suc)
  with v inv chain_of_verified [OF v] show ?thesis by (simp add: audit_inv_def)
qed

subsection \<open>Tamper evidence\<close>

text \<open>The text whose digest is the hash of an event, and two events that a reader could tell apart by
  nothing but the spelling of their payload.\<close>

definition audit_text :: "audit_event \<Rightarrow> string" where
  "audit_text e = projr (bindR (unsigned_record e) canonical_json)"

definition same_record :: "audit_event \<Rightarrow> audit_event \<Rightarrow> bool" where
  "same_record e f \<longleftrightarrow> av_sequence e = av_sequence f \<and> av_event_id e = av_event_id f
     \<and> av_aggregate_type e = av_aggregate_type f \<and> av_aggregate_id e = av_aggregate_id f
     \<and> av_event_type e = av_event_type f \<and> av_actor_id e = av_actor_id f \<and> av_actor_roles e = av_actor_roles f
     \<and> av_request_id e = av_request_id f \<and> av_reason e = av_reason f
     \<and> datetime_iso (av_occurred_at e) = datetime_iso (av_occurred_at f)
     \<and> canonical_data (PDict (av_payload e)) = canonical_data (PDict (av_payload f))
     \<and> av_previous_hash e = av_previous_hash f \<and> av_event_hash e = av_event_hash f"

definition collision :: "crypto \<Rightarrow> string \<Rightarrow> string \<Rightarrow> bool" where
  "collision C x y \<longleftrightarrow> x \<noteq> y \<and> sha256_hex C x = sha256_hex C y"

lemma unsigned_record_entries:
  assumes "unsigned_record e = Inr u"
  shows "\<exists>zs. u = PDict (record_entries e @ zs) \<and> distinct (map fst (record_entries e @ zs))"
proof -
  let ?zs = "[(''signing_key_id'', PStr (av_signing_key_id e)), (''signature_version'', PStr (av_signature_version e))]"
  have "distinct (map fst (record_entries e @ ?zs))" "distinct (map fst (record_entries e @ []))"
    by (simp_all add: record_entries_def)
  moreover have "u = PDict (record_entries e @ ?zs) \<or> u = PDict (record_entries e @ [])"
    using assms by (simp add: unsigned_record_def split: if_splits)
  ultimately show ?thesis by blast
qed

lemma map_PStr_eq: "map PStr xs = map PStr ys \<longleftrightarrow> xs = ys"
  by (simp add: inj_map_eq_map inj_def)

lemma same_text_same_record:
  assumes "bindR (unsigned_record e) (content_hash C) = Inr (av_event_hash e)"
    "bindR (unsigned_record f) (content_hash C) = Inr (av_event_hash f)"
    "audit_text e = audit_text f" "av_event_hash e = av_event_hash f"
  shows "same_record e f"
proof -
  obtain u x where u: "unsigned_record e = Inr u" "canonical_json u = Inr x"
    using assms(1) by (auto simp: bindR_eq_Inr content_hash_def)
  obtain v y where v: "unsigned_record f = Inr v" "canonical_json v = Inr y"
    using assms(2) by (auto simp: bindR_eq_Inr content_hash_def)
  have "x = y" using assms(3) u v by (simp add: audit_text_def)
  then obtain d where d: "canonical_data u = Inr d" "canonical_data v = Inr d"
    using u(2) v(2) canonical_json_inj [of u x v] by (auto simp: canonical_json_def bindR_eq_Inr)
  obtain us where us: "u = PDict (record_entries e @ us)" "distinct (map fst (record_entries e @ us))"
    using unsigned_record_entries [OF u(1)] by blast
  obtain vs where vs: "v = PDict (record_entries f @ vs)" "distinct (map fst (record_entries f @ vs))"
    using unsigned_record_entries [OF v(1)] by blast
  have field: "canonical_data (the (map_of (record_entries e) k)) = canonical_data (the (map_of (record_entries f) k))"
    if "map_of (record_entries e) k \<noteq> None" "map_of (record_entries f) k \<noteq> None" for k
    using canonical_dict_inj [OF d [unfolded us(1) vs(1)] us(2) vs(2), of k] that by auto
  show ?thesis
    using field [of "''sequence''"] field [of "''event_id''"] field [of "''aggregate_type''"]
      field [of "''aggregate_id''"] field [of "''event_type''"] field [of "''actor_id''"]
      field [of "''actor_roles''"] field [of "''request_id''"] field [of "''reason''"]
      field [of "''occurred_at''"] field [of "''payload''"] field [of "''previous_hash''"] assms(4)
    by (simp add: same_record_def record_entries_def map_PStr_eq)
qed

text \<open>Two verified chains of one length that end in one hash.\<close>

lemma chains_agree:
  assumes "verify_from C K h n es = Inr True" "verify_from C K' h' n' fs = Inr True"
    "length es = length fs" "tip_hash h es = tip_hash h' fs"
  shows "list_all2 same_record es fs \<or> (\<exists>i < length es. collision C (audit_text (es ! i)) (audit_text (fs ! i)))"
  using assms
proof (induction es arbitrary: fs rule: rev_induct)
  case (snoc e es)
  then obtain f gs where fs: "fs = gs @ [f]" "length gs = length es" by (cases fs rule: rev_cases) auto
  have e: "verify_from C K h n es = Inr True" "av_previous_hash e = tip_hash h es"
    "bindR (unsigned_record e) (content_hash C) = Inr (av_event_hash e)"
    using snoc.prems(1) by (simp_all add: verify_from_snoc verify_from_single del: verify_from.simps)
  have f: "verify_from C K' h' n' gs = Inr True" "av_previous_hash f = tip_hash h' gs"
    "bindR (unsigned_record f) (content_hash C) = Inr (av_event_hash f)"
    using snoc.prems(2) fs(1) by (simp_all add: verify_from_snoc verify_from_single del: verify_from.simps)
  have hash: "av_event_hash e = av_event_hash f" using snoc.prems(4) fs by (simp add: tip_hash_def)
  moreover have "av_event_hash e = sha256_hex C (audit_text e)" "av_event_hash f = sha256_hex C (audit_text f)"
    using e(3) f(3) by (auto simp: audit_text_def content_hash_def bindR_eq_Inr)
  ultimately consider "collision C (audit_text e) (audit_text f)" | "audit_text e = audit_text f"
    by (auto simp: collision_def)
  then show ?case
  proof cases
    case 1
    then show ?thesis using fs by (intro disjI2 exI [of _ "length es"]) (simp add: nth_append)
  next
    case 2
    then have r: "same_record e f" using same_text_same_record e(3) f(3) hash by blast
    then have "tip_hash h es = tip_hash h' gs" using e(2) f(2) by (simp add: same_record_def)
    from snoc.IH [OF e(1) f(1) fs(2) [symmetric] this] show ?thesis
    proof
      assume "list_all2 same_record es gs"
      with r fs show ?thesis by (auto intro: list_all2_appendI)
    next
      assume "\<exists>i < length es. collision C (audit_text (es ! i)) (audit_text (gs ! i))"
      then show ?thesis using fs by (auto simp: nth_append intro: less_SucI)
    qed
  qed
qed simp

text \<open>A verified chain that carries the terminal hash of another at its place continues it.\<close>

lemma chain_continues:
  assumes "verify_chain C K es = Inr True" "verify_chain C K' fs = Inr True"
    "es \<noteq> []" "length es \<le> length fs" "av_event_hash (fs ! (length es - 1)) = av_event_hash (last es)"
  shows "list_all2 same_record es (take (length es) fs)
     \<or> (\<exists>i < length es. collision C (audit_text (es ! i)) (audit_text (fs ! i)))"
proof -
  let ?fs = "take (length es) fs"
  have "verify_from C K' GENESIS_HASH 1 ?fs = Inr True"
    using assms(2) by (auto simp: verify_chain_def intro: verify_from_take)
  moreover have "?fs \<noteq> []" using assms(3,4) by auto
  moreover from this have "last ?fs = fs ! (length es - 1)"
    using assms(3,4) by (simp add: last_conv_nth min_absorb2)
  ultimately show ?thesis
    using chains_agree [of C K GENESIS_HASH 1 es K' GENESIS_HASH 1 ?fs] assms(1,3-5)
    by (auto simp: verify_chain_def tip_hash_def)
qed

subsection \<open>When recording succeeds\<close>

lemma canonical_error: "canonical fmt repr v = Inl e \<Longrightarrow> e = TypeError ''Floating point values are forbidden in auditable records''"
proof -
  have loop: "mapR f xs = Inl e \<Longrightarrow> \<exists>x \<in> set xs. f x = Inl e" for f :: "'a \<Rightarrow> 'b result" and xs e
    by (induction xs) (auto simp: result_simps)
  show "canonical fmt repr v = Inl e \<Longrightarrow> e = TypeError ''Floating point values are forbidden in auditable records''"
  proof (induction fmt repr v rule: canonical.induct)
    case (2 fmt repr kvs)
    then obtain kv where "kv \<in> set (sort_key fst kvs)" "canonical fmt repr (snd kv) = Inl e"
      by (fastforce simp: bindR_eq_Inl dest!: loop)
    with 2(1) show ?case by blast
  next
    case (3 fmt repr vs)
    then show ?case by (auto simp: bindR_eq_Inl dest!: loop)
  next
    case (4 fmt repr vs)
    then show ?case by (auto simp: bindR_eq_Inl dest!: loop)
  qed auto
qed

definition float_error :: error where
  "float_error = TypeError ''Floating point values are forbidden in auditable records''"

lemma canonical_data_float: "canonical_data v = Inl e \<Longrightarrow> e = float_error"
  by (simp add: canonical_data_def float_error_def canonical_error)

lemma content_hash_cases:
  "content_hash C v = (if contains_float v then Inl float_error else Inr (sha256_hex C (projr (canonical_json v))))"
proof (cases "canonical_data v")
  case (Inl e)
  with canonical_data_float [OF Inl] canonical_data_ok [of v] show ?thesis
    by (simp add: content_hash_def canonical_json_def)
next
  case (Inr w)
  with canonical_data_ok [of v] show ?thesis by (simp add: content_hash_def canonical_json_def)
qed

lemma contains_float_entries: "contains_float (PDict (record_entries e @ zs)) \<longleftrightarrow>
    contains_float (PDict (av_payload e)) \<or> contains_float (PDict zs)"
  by (auto simp: record_entries_def list_ex_iff)

definition bad_key_id :: "string \<Rightarrow> bool" where
  "bad_key_id i \<longleftrightarrow> strip i = [] \<or> strip i \<noteq> i"

definition hex_digests :: "crypto \<Rightarrow> bool" where
  "hex_digests C \<longleftrightarrow> (\<forall>m. is_sha256 (sha256_hex C m)) \<and> (\<forall>k m. is_sha256 (hmac_hex C k m))"

lemma append_event_cases:
  assumes "hex_digests C" "length key_id \<le> 200" "case p of None \<Rightarrow> True | Some q \<Rightarrow> audit_event_check q = Inr q"
  shows "append_event C p d key key_id = (if bad_key_id key_id then Inl (ValueError ''Audit signing key ID is invalid'')
     else if contains_float (PDict (av_payload d)) then Inl float_error
     else if key = [] then Inl (ValueError ''Audit signing key must not be empty'')
     else Inr (audit_body.extend (event_body p d key_id) \<lparr>av_event_hash = draft_hash C p d key_id,
       av_signature = hmac_hex C key (projr (canonical_json (signature_payload (draft_hash C p d key_id))))\<rparr>))"
proof (cases "bad_key_id key_id")
  case False
  let ?b = "event_body p d key_id"
  have genesis: "is_sha256 GENESIS_HASH" by (simp add: is_sha256_def GENESIS_HASH_def list_all_iff)
  have valid: "av_sequence ?b \<ge> 1" "is_sha256 (av_previous_hash ?b)" "av_signing_key_id ?b = key_id"
    "av_signature_version ?b = AUDIT_SIGNATURE_V2" "av_payload ?b = av_payload d"
    using assms(3) genesis by (auto simp: event_body_def audit_draft.defs audit_event_check_def split: option.splits if_splits)
  have "key_id \<noteq> []" using False by (auto simp: bad_key_id_def strip_def)
  then have check: "audit_event_check (audit_body.extend ?b \<lparr>av_event_hash = sha256_hex C x, av_signature = hmac_hex C k y\<rparr>)
      = Inr (audit_body.extend ?b \<lparr>av_event_hash = sha256_hex C x, av_signature = hmac_hex C k y\<rparr>)" for x k y
    using valid assms(1,2) by (simp add: audit_event_check_def audit_body.defs hex_digests_def)
  obtain zs where u: "unsigned_record ?b = Inr (PDict (record_entries ?b @ zs))" and zs: "\<not> contains_float (PDict zs)"
    using valid by (simp add: unsigned_record_def)
  have hash: "content_hash C (PDict (record_entries ?b @ zs)) = (if contains_float (PDict (av_payload d)) then Inl float_error
      else Inr (draft_hash C p d key_id))"
    using zs valid u by (simp only: content_hash_cases contains_float_entries draft_hash_def draft_text_def bindR_Inr simp_thms)
  have sign: "signed_hash C (signature_payload h) key = (if key = [] then Inl (ValueError ''Audit signing key must not be empty'')
      else Inr (hmac_hex C key (projr (canonical_json (signature_payload h)))))" for h
    using canonical_data_ok [of "signature_payload h"]
    by (auto simp: signed_hash_def signature_payload_def canonical_json_def is_ok_iff)
  show ?thesis
    using False check by (simp add: append_event_def Let_def u hash sign bad_key_id_def draft_hash_def draft_text_def)
qed (simp add: append_event_def bad_key_id_def)

definition chain_tip :: "string \<Rightarrow> string \<Rightarrow> audit_event list \<Rightarrow> audit_event option" where
  "chain_tip ty i rows = (if same_aggregate ty i rows = [] then None else Some (last (same_aggregate ty i rows)))"

lemma previous_event_tip:
  assumes "audit_inv C K t"
  shows "previous_event ty i (tb_events t) = Inr (chain_tip ty i (tb_events t))"
    and "case chain_tip ty i (tb_events t) of None \<Rightarrow> True | Some q \<Rightarrow> audit_event_check q = Inr q"
proof -
  let ?es = "same_aggregate ty i (tb_events t)"
  have v: "verify_chain C K ?es = Inr True" and ok: "e \<in> set (tb_events t) \<Longrightarrow> audit_event_check e = Inr e" for e
    using assms by (auto simp: audit_inv_def list_all_iff)
  have "?es \<noteq> [] \<Longrightarrow> audit_event_check (last ?es) = Inr (last ?es)"
    using last_in_set [of ?es] by (intro ok) (auto simp: same_aggregate_def)
  then show "previous_event ty i (tb_events t) = Inr (chain_tip ty i (tb_events t))"
    "case chain_tip ty i (tb_events t) of None \<Rightarrow> True | Some q \<Rightarrow> audit_event_check q = Inr q"
    by (cases ?es rule: rev_cases; simp add: previous_event_def chain_of_verified [OF v] chain_tip_def)+
qed

text \<open>The unique constraints reject the event, whose sequence number is always free.\<close>

definition already_recorded :: "crypto \<Rightarrow> audit_settings \<Rightarrow> audit_draft \<Rightarrow> audit_event list \<Rightarrow> bool" where
  "already_recorded C s d rows \<longleftrightarrow> av_event_id d \<in> av_event_id ` set rows
     \<or> draft_hash C (chain_tip (av_aggregate_type d) (av_aggregate_id d) rows) d (audit_signing_key_id s)
        \<in> av_event_hash ` set rows"

lemma sequence_is_free:
  assumes "verify_chain C K (same_aggregate ty i rows) = Inr True"
    and "e \<in> set rows" "av_aggregate_type e = ty" "av_aggregate_id e = i"
  shows "av_sequence e < (case chain_tip ty i rows of None \<Rightarrow> 1 | Some p \<Rightarrow> av_sequence p + 1)"
proof -
  let ?es = "same_aggregate ty i rows"
  have e: "e \<in> set ?es" using assms(2-4) by (simp add: same_aggregate_def)
  have "sorted (map av_sequence ?es)"
    using verify_from_sequence [OF assms(1) [unfolded verify_chain_def]] by (simp add: sorted_iff_nth_mono)
  then have "av_sequence e \<le> av_sequence (last ?es)"
    using e by (cases ?es rule: rev_cases) (auto simp: sorted_append)
  moreover have "?es \<noteq> []" using e by auto
  ultimately show ?thesis by (simp add: chain_tip_def)
qed

lemma insert_event_cases:
  assumes "audit_inv C K t" "av_event_id r = av_event_id d"
    "av_event_hash r = draft_hash C (chain_tip (av_aggregate_type d) (av_aggregate_id d) (tb_events t)) d (audit_signing_key_id s)"
    "av_aggregate_type r = av_aggregate_type d" "av_aggregate_id r = av_aggregate_id d"
    "av_sequence r = (case chain_tip (av_aggregate_type d) (av_aggregate_id d) (tb_events t) of None \<Rightarrow> 1 | Some p \<Rightarrow> av_sequence p + 1)"
  shows "insert_event r (tb_events t) = (if already_recorded C s d (tb_events t)
     then Inl (IntegrityError ''audit_events'') else Inr (tb_events t @ [r]))"
proof -
  have "verify_chain C K (same_aggregate ty i (tb_events t)) = Inr True" for ty i
    using assms(1) by (simp add: audit_inv_def)
  then have "\<not> ((av_aggregate_type q, av_aggregate_id q, av_sequence q) = (av_aggregate_type r, av_aggregate_id r, av_sequence r))"
    if "q \<in> set (tb_events t)" for q
    using sequence_is_free [of C K "av_aggregate_type d" "av_aggregate_id d" "tb_events t" q] that assms(4-6) by auto
  then have "list_ex (\<lambda>q. av_event_id q = av_event_id r \<or> av_event_hash q = av_event_hash r
      \<or> (av_aggregate_type q, av_aggregate_id q, av_sequence q) = (av_aggregate_type r, av_aggregate_id r, av_sequence r)) (tb_events t)
    \<longleftrightarrow> already_recorded C s d (tb_events t)"
    unfolding list_ex_iff already_recorded_def image_iff assms(2,3) by (metis (no_types, lifting))
  then show ?thesis by (simp add: insert_event_def)
qed

lemma record_audit_cases:
  assumes inv: "audit_inv C K t" and "hex_digests C" "length (audit_signing_key_id s) \<le> 200"
  shows "let r = record_audit C s a d uuid now t in
     if bad_key_id (audit_signing_key_id s) then r = Inl (ValueError ''Audit signing key ID is invalid'')
     else if contains_float (PDict (av_payload d)) then r = Inl float_error
     else if audit_signing_key s = [] then r = Inl (ValueError ''Audit signing key must not be empty'')
     else if already_recorded C s d (tb_events t) then r = Inl (IntegrityError ''audit_events'')
     else is_ok r"
proof -
  let ?p = "chain_tip (av_aggregate_type d) (av_aggregate_id d) (tb_events t)"
  note p = previous_event_tip [OF inv, of "av_aggregate_type d" "av_aggregate_id d"]
  have r: "record_audit C s a d uuid now t = bindR (append_event C ?p d (audit_signing_key s) (audit_signing_key_id s)) (\<lambda>event.
     bindR (canonical_data (PDict (av_payload event))) (\<lambda>data.
     bindR (insert_event (event\<lparr>av_payload := as_dict data\<rparr>) (tb_events t)) (\<lambda>rows.
     bindR (add_outbox ''audit.event.recorded'' (av_aggregate_id event) (notification a event)
             (Some (''audit-event:'' @ av_event_id event)) uuid now (tb_outbox t)) (\<lambda>outbox.
       Inr (event, \<lparr>tb_events = rows, tb_outbox = outbox\<rparr>)))))"
    by (simp add: record_audit_def p(1))
  obtain e where append: "append_event C ?p d (audit_signing_key s) (audit_signing_key_id s) =
      (if bad_key_id (audit_signing_key_id s) then Inl (ValueError ''Audit signing key ID is invalid'')
       else if contains_float (PDict (av_payload d)) then Inl float_error
       else if audit_signing_key s = [] then Inl (ValueError ''Audit signing key must not be empty'') else Inr e)"
    and e: "av_payload e = av_payload d" "av_event_id e = av_event_id d" "av_aggregate_type e = av_aggregate_type d"
    "av_aggregate_id e = av_aggregate_id d" "av_event_hash e = draft_hash C ?p d (audit_signing_key_id s)"
    "av_sequence e = (case ?p of None \<Rightarrow> 1 | Some p \<Rightarrow> av_sequence p + 1)"
    using append_event_cases [OF assms(2,3) p(2), of d "audit_signing_key s"]
    by (rule that) (simp_all add: audit_body.defs event_body_def audit_draft.defs)
  have ins: "insert_event (e\<lparr>av_payload := x\<rparr>) (tb_events t) = (if already_recorded C s d (tb_events t)
      then Inl (IntegrityError ''audit_events'') else Inr (tb_events t @ [e\<lparr>av_payload := x\<rparr>]))" for x
    using e by (intro insert_event_cases [OF inv]) simp_all
  have out: "is_ok (add_outbox topic i (notification a e) k uuid now rows)" for topic i k rows
    using canonical_data_ok [of "PDict (notification a e)"]
    by (auto simp: add_outbox_def notification_def is_ok_iff)
  show ?thesis
  proof (cases "bad_key_id (audit_signing_key_id s) \<or> contains_float (PDict (av_payload d)) \<or> audit_signing_key s = []")
    case True
    then consider "bad_key_id (audit_signing_key_id s)" | "\<not> bad_key_id (audit_signing_key_id s)" "contains_float (PDict (av_payload d))"
      | "\<not> bad_key_id (audit_signing_key_id s)" "\<not> contains_float (PDict (av_payload d))" "audit_signing_key s = []"
      by blast
    then show ?thesis
    proof cases
      case 3
      then have "append_event C ?p d (audit_signing_key s) (audit_signing_key_id s)
          = Inl (ValueError ''Audit signing key must not be empty'')"
        unfolding append by (simp only: if_False if_True simp_thms)
      then have "record_audit C s a d uuid now t = Inl (ValueError ''Audit signing key must not be empty'')"
        unfolding r by (simp only: bindR_Inl)
      with 3 show ?thesis by simp
    qed (simp_all only: Let_def r append if_True if_False bindR_Inl simp_thms)
  next
    case False
    then have float: "\<not> contains_float (PDict (av_payload d))" by blast
    then obtain data where data: "canonical_data (PDict (av_payload e)) = Inr data"
      using canonical_data_ok [of "PDict (av_payload d)"] unfolding e(1) is_ok_iff by blast
    have r': "record_audit C s a d uuid now t = bindR (insert_event (e\<lparr>av_payload := as_dict data\<rparr>) (tb_events t)) (\<lambda>rows.
       bindR (add_outbox ''audit.event.recorded'' (av_aggregate_id e) (notification a e)
             (Some (''audit-event:'' @ av_event_id e)) uuid now (tb_outbox t)) (\<lambda>outbox.
       Inr (e, \<lparr>tb_events = rows, tb_outbox = outbox\<rparr>)))"
      unfolding r append using False by (simp add: data)
    show ?thesis
    proof (cases "already_recorded C s d (tb_events t)")
      case True
      with False show ?thesis unfolding Let_def r' ins by simp
    next
      case False
      then have "is_ok (record_audit C s a d uuid now t)"
        unfolding r' ins using out [of "''audit.event.recorded''"] by (simp add: is_ok_bindR)
      with False \<open>\<not> (bad_key_id (audit_signing_key_id s) \<or> contains_float (PDict (av_payload d)) \<or> audit_signing_key s = [])\<close>
      show ?thesis by simp
    qed
  qed
qed

text \<open>On every reachable table, recording an event ends in exactly one way, told by its inputs: a
  malformed key id, a payload with floating point at any depth, an empty key, an event id or hash that
  is already stored, or success.  (Digests are 64 lowercase hexadecimal digits.)\<close>

theorem audit_record_outcome:
  assumes "audit_reachable C K t" "hex_digests C" "length (audit_signing_key_id s) \<le> 200"
  shows "let r = record_audit C s a d uuid now t in
     if bad_key_id (audit_signing_key_id s) then r = Inl (ValueError ''Audit signing key ID is invalid'')
     else if contains_float (PDict (av_payload d)) then r = Inl float_error
     else if audit_signing_key s = [] then r = Inl (ValueError ''Audit signing key must not be empty'')
     else if already_recorded C s d (tb_events t) then r = Inl (IntegrityError ''audit_events'')
     else is_ok r"
  by (rule record_audit_cases [OF audit_reachable_inv [OF assms(1)] assms(2,3)])

subsection \<open>An example history\<close>

definition ex_audit_settings :: audit_settings where
  "ex_audit_settings = \<lparr>audit_signing_key = ''secret'', audit_signing_key_id = ''key-1'', audit_verification_keys = []\<rparr>"

definition ex_audit_actor :: actor where
  "ex_audit_actor = \<lparr>actor_id = ''u1'', actor_organization_id = ''org'', actor_roles = {|ActorRole.ADMIN|}\<rparr>"

definition ex_draft :: "string \<Rightarrow> pyval \<Rightarrow> audit_draft" where
  "ex_draft i v = event_draft ex_audit_actor ''project'' ''p1'' ''created'' ''r1'' ''why'' [(''amount'', v)] i 1709210096000500"

text \<open>A toy digest: it tells the text of the first record from every other text.\<close>

definition ex_first_text :: string where
  "ex_first_text = draft_text None (ex_draft ''a'' (PDec (Dec 1050 (- 2)))) ''key-1''"

definition toy_digest :: "string \<Rightarrow> string" where
  "toy_digest s = replicate 64 (if s = ex_first_text then CHR ''a'' else CHR ''b'')"

definition ex_crypto :: crypto where
  "ex_crypto = \<lparr>sha256_hex = toy_digest, hmac_hex = (\<lambda>k m. toy_digest (k @ m))\<rparr>"

definition ex_record :: "string \<Rightarrow> pyval \<Rightarrow> audit_table \<Rightarrow> (audit_event \<times> audit_table) result" where
  "ex_record i v t = record_audit ex_crypto ex_audit_settings ex_audit_actor (ex_draft i v) ''x'' 0 t"

definition ex_table :: audit_table where
  "ex_table = snd (projr (ex_record ''a'' (PDec (Dec 1050 (- 2))) \<lparr>tb_events = [], tb_outbox = []\<rparr>))"

lemma ex_hex_digests: "hex_digests ex_crypto"
  by (simp add: hex_digests_def ex_crypto_def toy_digest_def is_sha256_def list_all_iff)

lemma ex_key_id: "\<not> bad_key_id (audit_signing_key_id ex_audit_settings)"
  "length (audit_signing_key_id ex_audit_settings) \<le> 200" "audit_signing_key ex_audit_settings \<noteq> []"
  by code_simp+

lemma ex_table_reachable: "audit_reachable ex_crypto (audit_verification_keyring ex_audit_settings) ex_table"
  "ex_record ''a'' (PDec (Dec 1050 (- 2))) \<lparr>tb_events = [], tb_outbox = []\<rparr> = Inr (projr (ex_record ''a'' (PDec (Dec 1050 (- 2))) \<lparr>tb_events = [], tb_outbox = []\<rparr>))"
proof -
  let ?K = "audit_verification_keyring ex_audit_settings" and ?t = "\<lparr>tb_events = [], tb_outbox = []\<rparr>"
  let ?r = "ex_record ''a'' (PDec (Dec 1050 (- 2))) ?t"
  have "audit_inv ex_crypto ?K ?t" by (rule audit_reachable_inv [OF audit_reachable.empty])
  then have "is_ok ?r"
    using record_audit_cases [of ex_crypto ?K ?t ex_audit_settings ex_audit_actor "ex_draft ''a'' (PDec (Dec 1050 (- 2)))" "''x''" 0]
      ex_hex_digests ex_key_id
    by (simp add: ex_record_def ex_draft_def event_draft_def already_recorded_def Let_def)
  then show r: "?r = Inr (projr ?r)" by (auto simp: is_ok_iff)
  then have "?r = Inr (fst (projr ?r), ex_table)" by (simp add: ex_table_def)
  then show "audit_reachable ex_crypto ?K ex_table"
    unfolding ex_record_def
    by (rule audit_reachable.step [OF audit_reachable.empty]) (simp add: audit_verification_keyring_def)
qed

lemma ex_table_row:
  obtains row where "tb_events ex_table = [row]" "av_event_id row = ''audit-a''" "av_aggregate_type row = ''project''"
    "av_aggregate_id row = ''p1''" "av_event_hash row = replicate 64 (CHR ''a'')" "audit_event_check row = Inr row"
proof -
  let ?K = "audit_verification_keyring ex_audit_settings" and ?t = "\<lparr>tb_events = [], tb_outbox = []\<rparr>"
  let ?d = "ex_draft ''a'' (PDec (Dec 1050 (- 2)))"
  have "record_audit ex_crypto ex_audit_settings ex_audit_actor ?d ''x'' 0 ?t
      = Inr (fst (projr (ex_record ''a'' (PDec (Dec 1050 (- 2))) ?t)), ex_table)"
    using ex_table_reachable(2) by (simp add: ex_table_def ex_record_def)
  then obtain row where row: "tb_events ex_table = [row]" "av_event_id row = ''audit-a''" "av_aggregate_type row = ''project''"
      "av_aggregate_id row = ''p1''" "audit_event_check row = Inr row"
    and h: "\<exists>p. previous_event ''project'' ''p1'' [] = Inr p
      \<and> av_event_hash row = draft_hash ex_crypto p ?d (audit_signing_key_id ex_audit_settings)"
    by (rule record_audit_Inr [where K = ?K])
      (simp_all add: same_aggregate_def verify_chain_def audit_verification_keyring_def ex_draft_def event_draft_def)
  have "av_event_hash row = replicate 64 (CHR ''a'')"
    using h by (auto simp: previous_event_def chain_of_def draft_hash_def ex_crypto_def toy_digest_def ex_first_text_def ex_audit_settings_def)
  with row show ?thesis by (intro that)
qed

lemma ex_table_events: "map av_event_id (tb_events ex_table) = [''audit-a'']"
  by (rule ex_table_row) simp

text \<open>Drafts with different event ids have different texts.\<close>

lemma draft_texts_differ:
  assumes "av_event_id d \<noteq> av_event_id d'" "\<not> contains_float (PDict (av_payload d))" "\<not> contains_float (PDict (av_payload d'))"
  shows "draft_text p d k \<noteq> draft_text p' d' k'"
proof
  assume eq: "draft_text p d k = draft_text p' d' k'"
  have *: "\<exists>u. unsigned_record (event_body p d k) = Inr u \<and> canonical_json u = Inr (draft_text p d k)
      \<and> (\<exists>zs. u = PDict (record_entries (event_body p d k) @ zs) \<and> distinct (map fst (record_entries (event_body p d k) @ zs)))"
    if nf: "\<not> contains_float (PDict (av_payload d))" for p d k
  proof -
    let ?b = "event_body p d k"
    have payload: "av_payload ?b = av_payload d" by (simp add: event_body_def audit_draft.defs)
    obtain zs where u: "unsigned_record ?b = Inr (PDict (record_entries ?b @ zs))" and zs: "\<not> contains_float (PDict zs)"
      by (simp add: unsigned_record_def event_body_def audit_draft.defs)
    have "\<not> contains_float (PDict (record_entries ?b @ zs))"
      using nf zs payload by (simp only: contains_float_entries simp_thms)
    then have "is_ok (canonical_data (PDict (record_entries ?b @ zs)))" by (simp only: canonical_data_ok simp_thms)
    then have "canonical_json (PDict (record_entries ?b @ zs)) = Inr (draft_text p d k)"
      using u by (auto simp: draft_text_def canonical_json_def is_ok_iff)
    with u unsigned_record_entries [OF u] show ?thesis by blast
  qed
  obtain u zs where u: "canonical_json u = Inr (draft_text p d k)" "u = PDict (record_entries (event_body p d k) @ zs)"
    "distinct (map fst (record_entries (event_body p d k) @ zs))" using * [OF assms(2)] by blast
  obtain v ys where v: "canonical_json v = Inr (draft_text p d k)" "v = PDict (record_entries (event_body p' d' k') @ ys)"
    "distinct (map fst (record_entries (event_body p' d' k') @ ys))" using * [OF assms(3), of p' k'] eq by metis
  have "canonical_data u = canonical_data v" by (rule canonical_json_inj [OF u(1) v(1)])
  moreover have "is_ok (canonical_data u)" using u(1) by (auto simp: canonical_json_def bindR_eq_Inr)
  ultimately obtain w where w: "canonical_data u = Inr w" "canonical_data v = Inr w" by (auto simp: is_ok_iff)
  have id: "av_event_id (event_body p d k) = av_event_id d" for p d k by (simp add: event_body_def audit_draft.defs)
  have "map_of (record_entries (event_body p d k) @ zs) ''event_id'' = Some (PStr (av_event_id d))" for p d k zs
    by (simp add: record_entries_def id)
  then have "canonical_data (PStr (av_event_id d)) = canonical_data (PStr (av_event_id d'))"
    using canonical_dict_inj [OF w [unfolded u(2) v(2)] u(3) v(3), of "''event_id''"] by blast
  with assms(1) show False by simp
qed

theorem audit_chains_verify_witness:
  "length (tb_events ex_table) = 1 \<and>
   verify_chain ex_crypto (audit_verification_keyring ex_audit_settings) (chain_of ''project'' ''p1'' (tb_events ex_table)) = Inr True"
  using audit_chains_verify [OF ex_table_reachable(1), of "''project''" "''p1''"] arg_cong [OF ex_table_events, of length]
  by simp

theorem audit_record_outcome_witness:
  "ex_record ''b'' (PList [PFloat 1]) ex_table = Inl float_error
   \<and> ex_record ''a'' PNone ex_table = Inl (IntegrityError ''audit_events'')"
proof -
  note r = audit_record_outcome [OF ex_table_reachable(1) ex_hex_digests ex_key_id(2), of ex_audit_actor _ "''x''" 0, folded ex_record_def]
  have "ex_record ''b'' (PList [PFloat 1]) ex_table = Inl float_error"
    using r [of "ex_draft ''b'' (PList [PFloat 1])"] ex_key_id(1)
    by (simp add: ex_record_def ex_draft_def event_draft_def Let_def)
  moreover have "''audit-a'' \<in> av_event_id ` set (tb_events ex_table)"
    using arg_cong [OF ex_table_events, of set] by simp
  then have "already_recorded ex_crypto ex_audit_settings (ex_draft ''a'' PNone) (tb_events ex_table)"
    by (simp add: already_recorded_def ex_draft_def event_draft_def)
  then have "ex_record ''a'' PNone ex_table = Inl (IntegrityError ''audit_events'')"
    using r [of "ex_draft ''a'' PNone"] ex_key_id
    by (simp add: ex_record_def ex_draft_def event_draft_def Let_def)
  ultimately show ?thesis ..
qed

end
