(* ===== verification/TG_Base64.thy ===== *)
theory TG_Base64
  imports TG_Prelude
begin

text \<open>
  \<open>base64.b64encode\<close> and \<open>base64.b64decode(..., validate=True)\<close> as CPython 3.11 and 3.12 have
  them, with the decoder's state machine: the position in the quad, the bits left over and the padding
  seen.  A byte string is a list of characters.
\<close>

definition b64_char :: "nat \<Rightarrow> char" where
  "b64_char n = (if n < 26 then char_of (65 + n) else if n < 52 then char_of (71 + n)
     else if n < 62 then char_of (n - 4) else if n = 62 then CHR ''+'' else CHR ''/'')"

definition b64_value :: "char \<Rightarrow> nat option" where
  "b64_value c = (let n = of_char c :: nat in
     if 65 \<le> n \<and> n \<le> 90 then Some (n - 65) else if 97 \<le> n \<and> n \<le> 122 then Some (n - 71)
     else if 48 \<le> n \<and> n \<le> 57 then Some (n + 4) else if c = CHR ''+'' then Some 62 else if c = CHR ''/'' then Some 63 else None)"

fun b64_quads :: "nat list \<Rightarrow> string" where
  "b64_quads [] = []"
| "b64_quads [a] = [b64_char (a div 4), b64_char (a mod 4 * 16), CHR ''='', CHR ''='']"
| "b64_quads [a, b] = [b64_char (a div 4), b64_char (a mod 4 * 16 + b div 16), b64_char (b mod 16 * 4), CHR ''='']"
| "b64_quads (a # b # c # rest) = [b64_char (a div 4), b64_char (a mod 4 * 16 + b div 16),
     b64_char (b mod 16 * 4 + c div 64), b64_char (c mod 64)] @ b64_quads rest"

definition b64encode :: "string \<Rightarrow> string" where
  "b64encode bs = b64_quads (map of_char bs)"

fun a2b_base64 :: "nat \<Rightarrow> nat \<Rightarrow> nat \<Rightarrow> bool \<Rightarrow> string \<Rightarrow> string option" where
  "a2b_base64 quad_pos leftchar pads padding [] = (if quad_pos = 0 then Some [] else None)"
| "a2b_base64 quad_pos leftchar pads padding (c # cs) =
     (if c = CHR ''='' then
        (if 2 \<le> quad_pos \<and> 4 \<le> quad_pos + pads + 1 then (if cs = [] then Some [] else None)
         else a2b_base64 quad_pos leftchar (if 2 \<le> quad_pos then pads + 1 else pads) True cs)
      else case b64_value c of
        None \<Rightarrow> None
      | Some v \<Rightarrow>
          if padding then None
          else if quad_pos = 0 then a2b_base64 1 v 0 padding cs
          else if quad_pos = 1 then map_option ((#) (char_of (leftchar * 4 + v div 16))) (a2b_base64 2 (v mod 16) 0 padding cs)
          else if quad_pos = 2 then map_option ((#) (char_of (leftchar * 16 + v div 4))) (a2b_base64 3 (v mod 4) 0 padding cs)
          else map_option ((#) (char_of (leftchar * 64 + v))) (a2b_base64 0 0 0 padding cs))"

definition b64decode :: "string \<Rightarrow> string option" where
  "b64decode s = (if s \<noteq> [] \<and> hd s = CHR ''='' then None else a2b_base64 0 0 0 False s)"

lemma b64_value_char [simp]: "n < 64 \<Longrightarrow> b64_value (b64_char n) = Some n"
  by (auto simp: b64_value_def b64_char_def Let_def of_char_of)

lemma b64_char_pad [simp]: "b64_char n \<noteq> CHR ''=''"
proof -
  have "(of_char (b64_char n) :: nat) \<noteq> of_char (CHR ''='')" by (auto simp: b64_char_def of_char_of)
  then show ?thesis by metis
qed

lemma byte_bits:
  fixes a b c :: nat
  assumes "a < 256" "b < 256" "c < 256"
  shows "a div 4 < 64" "a mod 4 * 16 + b div 16 < 64" "b mod 16 * 4 + c div 64 < 64"
    "b div 16 div 16 = 0" "c div 64 div 4 = 0" "c div 64 mod 4 = c div 64"
proof -
  have b: "b div 16 < 16" and c: "c div 64 < 4" using assms by (simp_all add: less_mult_imp_div_less)
  have "a mod 4 < 4" "b mod 16 < 16" by simp_all
  with b c show "a mod 4 * 16 + b div 16 < 64" "b mod 16 * 4 + c div 64 < 64" by linarith+
  show "a div 4 < 64" using assms by (simp add: less_mult_imp_div_less)
  show "b div 16 div 16 = 0" "c div 64 div 4 = 0" "c div 64 mod 4 = c div 64" using b c assms by simp_all
qed

lemma nibbles: "(b :: nat) < 256 \<Longrightarrow> (b div 16 mod 16 * 16 + b mod 16) mod 256 = b"
  by (simp add: less_mult_imp_div_less)

lemma a2b_quads:
  assumes "list_all (\<lambda>n. n < 256) ns"
  shows "a2b_base64 0 0 0 False (b64_quads ns) = Some (map char_of ns)"
  using assms
proof (induction ns rule: b64_quads.induct)
  case (2 a)
  then show ?case using byte_bits [of a 0 0] by simp
next
  case (3 a b)
  then show ?case using byte_bits [of a b 0] by (simp add: nibbles)
next
  case (4 a b c rest)
  then show ?case using byte_bits [of a b c] by (simp add: nibbles)
qed simp

theorem b64_roundtrip: "b64decode (b64encode bs) = Some bs"
proof -
  have "list_all (\<lambda>n. n < 256) (map of_char bs :: nat list)" by (simp add: list_all_iff)
  then have "a2b_base64 0 0 0 False (b64encode bs) = Some bs"
    using a2b_quads [of "map of_char bs"] by (simp add: b64encode_def comp_def)
  moreover have "hd (b64encode bs) \<noteq> CHR ''=''" if "b64encode bs \<noteq> []"
    using that unfolding b64encode_def by (cases "map of_char bs :: nat list" rule: b64_quads.cases) auto
  ultimately show ?thesis by (auto simp: b64decode_def)
qed

end
