(* ===== verification/TG_Audit_Integrity.thy ===== *)
theory TG_Audit_Integrity
  imports TG_Audit TG_Base64
begin

text \<open>
  \<open>infrastructure/object_store.py\<close> (the local store), \<open>domain/audit_anchor.py\<close> and
  \<open>application/audit_integrity.py\<close>: a checkpoint of every audit chain is stored by content hash,
  an external provider signs the hash, and later the current tables are compared with the signed
  checkpoint.  Ed25519 and the JSON parser with pydantic's validation are parameters;
  nothing is assumed of them.
\<close>

subsection \<open>The content-addressed store\<close>

record stored_object =
  so_object_hash :: string
  so_object_key :: string
  so_size_bytes :: int

type_synonym object_files = "string \<Rightarrow> string option"

definition path_for :: "string \<Rightarrow> string result" where
  "path_for object_hash = (if \<not> is_sha256 object_hash then Inl (ValueError ''Invalid SHA-256 object hash'')
     else Inr (take 2 object_hash @ ''/'' @ object_hash))"

definition put_object :: "crypto \<Rightarrow> nat option \<Rightarrow> string \<Rightarrow> object_files \<Rightarrow> (stored_object \<times> object_files) result" where
  "put_object C max_bytes stream files =
     (if (case max_bytes of None \<Rightarrow> False | Some m \<Rightarrow> length stream > m)
      then Inl (ValueError (''File exceeds configured limit of '' @ nat_str (the max_bytes) @ '' bytes''))
      else let object_hash = sha256_hex C stream in
        bindR (path_for object_hash) (\<lambda>destination.
          Inr (\<lparr>so_object_hash = object_hash, so_object_key = destination, so_size_bytes = int (length stream)\<rparr>,
               if files destination \<noteq> None then files else files(destination \<mapsto> stream))))"

definition verify_stream_hash :: "crypto \<Rightarrow> string \<Rightarrow> string \<Rightarrow> unit result" where
  "verify_stream_hash C stream expected_hash =
     (if sha256_hex C stream \<noteq> expected_hash
      then Inl (RuntimeError ''Content-addressed object fails SHA-256 verification'') else Inr ())"

definition open_object :: "crypto \<Rightarrow> string \<Rightarrow> object_files \<Rightarrow> string result" where
  "open_object C object_hash files = bindR (path_for object_hash) (\<lambda>path.
     case files path of None \<Rightarrow> Inl (OSError path)
     | Some stream \<Rightarrow> bindR (verify_stream_hash C stream object_hash) (\<lambda>_. Inr stream))"

text \<open>What the clients of a content-addressed store rely on.\<close>

locale content_store =
  fixes digest :: "string \<Rightarrow> string"
    and put :: "string \<Rightarrow> 's \<Rightarrow> (stored_object \<times> 's) result"
    and get :: "string \<Rightarrow> 's \<Rightarrow> string result"
  assumes put_hash: "put d s = Inr (x, s') \<Longrightarrow> so_object_hash x = digest d"
    and get_digest: "get h s = Inr d \<Longrightarrow> digest d = h"
    and put_keeps: "put d s = Inr (x, s') \<Longrightarrow> get h s = Inr e \<Longrightarrow> get h s' = Inr e"
begin

lemma put_then_get:
  "put d s = Inr (x, s') \<Longrightarrow> get (so_object_hash x) t = Inr e \<Longrightarrow> e = d \<or> (e \<noteq> d \<and> digest e = digest d)"
  using put_hash get_digest by metis

lemma get_same: "get h s = Inr d \<Longrightarrow> get h t = Inr e \<Longrightarrow> e = d \<or> (e \<noteq> d \<and> digest e = digest d)"
  using get_digest by metis

end

interpretation local_store: content_store "sha256_hex C" "put_object C m" "open_object C" for C m
proof
  fix d s x s' h e
  show "put_object C m d s = Inr (x, s') \<Longrightarrow> so_object_hash x = sha256_hex C d"
    by (auto simp: put_object_def bindR_eq_Inr Let_def split: if_splits option.splits)
  show "open_object C h s = Inr d \<Longrightarrow> sha256_hex C d = h"
    by (auto simp: open_object_def verify_stream_hash_def bindR_eq_Inr split: if_splits option.splits)
  show "put_object C m d s = Inr (x, s') \<Longrightarrow> open_object C h s = Inr e \<Longrightarrow> open_object C h s' = Inr e"
    by (auto simp: put_object_def open_object_def bindR_eq_Inr Let_def split: if_splits option.splits)
qed

subsection \<open>Checkpoints\<close>

definition AUDIT_CHECKPOINT_SCHEMA_VERSION :: string where
  "AUDIT_CHECKPOINT_SCHEMA_VERSION = ''tenderguard.audit-checkpoint/v1''"

definition AUDIT_ANCHOR_RECEIPT_SCHEMA_VERSION :: string where
  "AUDIT_ANCHOR_RECEIPT_SCHEMA_VERSION = ''tenderguard.audit-anchor-receipt/v1''"

record audit_terminal =
  at_aggregate_type :: string
  at_aggregate_id :: string
  at_sequence :: int
  at_event_hash :: string

record audit_manifest =
  am_schema_version :: string
  am_checkpoint_id :: string
  am_created_at :: int
  am_event_count :: int
  am_terminals :: "audit_terminal list"

record anchor_statement =
  an_schema_version :: string
  an_provider_id :: string
  an_provider_key_id :: string
  an_checkpoint_hash :: string
  an_anchored_at :: int
  an_external_reference :: string

definition text_between :: "nat \<Rightarrow> nat \<Rightarrow> string \<Rightarrow> bool" where
  "text_between a b s \<longleftrightarrow> a \<le> length s \<and> length s \<le> b"

definition terminal_check :: "audit_terminal \<Rightarrow> audit_terminal result" where
  "terminal_check t =
     (if text_between 1 100 (at_aggregate_type t) \<and> text_between 1 128 (at_aggregate_id t)
         \<and> at_sequence t \<ge> 1 \<and> is_sha256 (at_event_hash t)
      then Inr t else Inl (ValueError ''AuditChainTerminal''))"

definition manifest_check :: "audit_manifest \<Rightarrow> audit_manifest result" where
  "manifest_check m =
     (if text_between 1 64 (am_checkpoint_id m) \<and> am_event_count m \<ge> 1 \<and> am_terminals m \<noteq> []
      then Inr m else Inl (ValueError ''AuditCheckpointManifest''))"

definition validate_manifest :: "audit_manifest \<Rightarrow> audit_manifest result" where
  "validate_manifest m = bindR (mapR terminal_check (am_terminals m)) (\<lambda>_. manifest_check m)"

definition statement_check :: "anchor_statement \<Rightarrow> anchor_statement result" where
  "statement_check a =
     (if text_between 1 200 (an_provider_id a) \<and> text_between 1 200 (an_provider_key_id a)
         \<and> is_sha256 (an_checkpoint_hash a) \<and> text_between 1 500 (an_external_reference a)
      then Inr a else Inl (ValueError ''AuditAnchorStatement''))"

definition terminal_data :: "audit_terminal \<Rightarrow> pyval" where
  "terminal_data t = PDict [(''aggregate_type'', PStr (at_aggregate_type t)), (''aggregate_id'', PStr (at_aggregate_id t)),
     (''sequence'', PInt (at_sequence t)), (''event_hash'', PStr (at_event_hash t))]"

definition manifest_data :: "audit_manifest \<Rightarrow> pyval" where
  "manifest_data m = PDict [(''schema_version'', PStr (am_schema_version m)), (''checkpoint_id'', PStr (am_checkpoint_id m)),
     (''created_at'', PStr (datetime_iso (am_created_at m))), (''event_count'', PInt (am_event_count m)),
     (''terminals'', PList (map terminal_data (am_terminals m)))]"

definition statement_data :: "anchor_statement \<Rightarrow> pyval" where
  "statement_data a = PDict [(''schema_version'', PStr (an_schema_version a)), (''provider_id'', PStr (an_provider_id a)),
     (''provider_key_id'', PStr (an_provider_key_id a)), (''checkpoint_hash'', PStr (an_checkpoint_hash a)),
     (''anchored_at'', PStr (datetime_iso (an_anchored_at a))), (''external_reference'', PStr (an_external_reference a))]"

record audit_checkpoint_row =
  ck_id :: string
  ck_schema_version :: string
  ck_event_count :: int
  ck_terminal_count :: int
  ck_checkpoint_hash :: string
  ck_object_hash :: string
  ck_object_key :: string
  ck_size_bytes :: int
  ck_created_by :: string
  ck_created_at :: int

record audit_anchor_receipt_row =
  rc_id :: string
  rc_checkpoint_id :: string
  rc_provider_id :: string
  rc_provider_key_id :: string
  rc_external_reference :: string
  rc_anchored_at :: int
  rc_signature_b64 :: string
  rc_receipt_hash :: string
  rc_registered_by :: string
  rc_created_at :: int

record integrity_settings = audit_settings +
  audit_anchor_provider_id :: "string option"
  audit_anchor_provider_key_id :: "string option"
  audit_anchor_public_key_b64 :: "string option"
  audit_anchor_max_age_seconds :: "int option"
  audit_operator_organization_id :: "string option"

definition audit_anchor_configured :: "integrity_settings \<Rightarrow> bool" where
  "audit_anchor_configured s \<longleftrightarrow> str_true (audit_anchor_provider_id s) \<and> str_true (audit_anchor_provider_key_id s)
     \<and> str_true (audit_anchor_public_key_b64 s)
     \<and> (case audit_anchor_max_age_seconds s of None \<Rightarrow> False | Some n \<Rightarrow> n \<noteq> 0)"

record integrity_store =
  ig_audit :: audit_table
  ig_checkpoints :: "audit_checkpoint_row list"
  ig_receipts :: "audit_anchor_receipt_row list"
  ig_objects :: object_files

text \<open>The code the component calls and does not contain.\<close>

record anchor_env =
  env_crypto :: crypto
  env_ed25519 :: "string \<Rightarrow> string \<Rightarrow> string \<Rightarrow> bool"
  env_parse_manifest :: "string \<Rightarrow> audit_manifest result"

subsection \<open>Anchor signatures\<close>

definition decode_b64 :: "string \<Rightarrow> nat \<Rightarrow> string \<Rightarrow> string result" where
  "decode_b64 s expected_size label = (case b64decode s of
     None \<Rightarrow> Inl (ValueError (label @ '' is not valid base64''))
   | Some decoded \<Rightarrow> if length decoded \<noteq> expected_size
       then Inl (ValueError (label @ '' must decode to '' @ nat_str expected_size @ '' bytes'')) else Inr decoded)"

definition verify_anchor_signature :: "anchor_env \<Rightarrow> anchor_statement \<Rightarrow> string \<Rightarrow> string \<Rightarrow> unit result" where
  "verify_anchor_signature E statement signature_b64 trusted_public_key_b64 =
     (if an_schema_version statement \<noteq> AUDIT_ANCHOR_RECEIPT_SCHEMA_VERSION
      then Inl (ValueError ''Unsupported audit anchor receipt schema version'')
      else bindR (decode_b64 trusted_public_key_b64 32 ''audit anchor public key'') (\<lambda>public_key.
        bindR (decode_b64 signature_b64 64 ''audit anchor signature'') (\<lambda>signature.
        bindR (canonical_json (statement_data statement)) (\<lambda>message.
        if env_ed25519 E public_key signature message then Inr ()
        else Inl (ValueError ''Audit anchor signature verification failed'')))))"

subsection \<open>Creating a checkpoint\<close>

definition require_operator :: "integrity_settings \<Rightarrow> actor \<Rightarrow> unit result" where
  "require_operator s a = bindR (require_any a [ActorRole.ADMIN]) (\<lambda>_.
     case audit_operator_organization_id s of
       None \<Rightarrow> Inr ()
     | Some org \<Rightarrow> if actor_organization_id a \<noteq> org
         then Inl (HTTPException 403 ''Audit operator organization is required'') else Inr ())"

definition exact_text :: "string \<Rightarrow> string \<Rightarrow> nat \<Rightarrow> string result" where
  "exact_text value field max_length =
     (if strip value = [] then Inl (ValueError (field @ '' is required''))
      else if strip value \<noteq> value then Inl (ValueError (field @ '' must not contain surrounding whitespace''))
      else if length value > max_length then Inl (ValueError (field @ '' exceeds '' @ nat_str max_length @ '' characters''))
      else Inr value)"

definition aggregate_key :: "audit_event \<Rightarrow> string \<times> string" where
  "aggregate_key e = (av_aggregate_type e, av_aggregate_id e)"

definition ordered_rows :: "audit_event list \<Rightarrow> audit_event list" where
  "ordered_rows rows = sort_key (\<lambda>e. (av_aggregate_type e, av_aggregate_id e, av_sequence e)) rows"

text \<open>The dictionary of chains, sorted by its keys as the rows are.\<close>

definition chains_by_key :: "audit_event list \<Rightarrow> ((string \<times> string) \<times> audit_event list) list" where
  "chains_by_key events = map (\<lambda>k. (k, filter (\<lambda>e. aggregate_key e = k) events)) (sort (remdups (map aggregate_key events)))"

definition load_events :: "audit_event list \<Rightarrow> audit_event list result" where
  "load_events rows = mapR audit_event_check (ordered_rows rows)"

definition terminal_of :: "crypto \<Rightarrow> (string \<Rightarrow> string option) \<Rightarrow> audit_event list \<Rightarrow> audit_terminal result" where
  "terminal_of C K chain = bindR (verify_chain C K chain) (\<lambda>valid.
     if \<not> valid then Inl (ValueError ''Audit checkpoint creation blocked: an audit chain does not verify'')
     else terminal_check \<lparr>at_aggregate_type = av_aggregate_type (last chain), at_aggregate_id = av_aggregate_id (last chain),
            at_sequence = av_sequence (last chain), at_event_hash = av_event_hash (last chain)\<rparr>)"

definition checkpoint_manifest :: "crypto \<Rightarrow> (string \<Rightarrow> string option) \<Rightarrow> string \<Rightarrow> int \<Rightarrow> audit_event list
    \<Rightarrow> audit_manifest result" where
  "checkpoint_manifest C K checkpoint_id now rows =
     (if rows = [] then Inl (ValueError ''An audit checkpoint requires at least one audit event'')
      else bindR (load_events rows) (\<lambda>events.
        bindR (mapR (terminal_of C K \<circ> snd) (chains_by_key events)) (\<lambda>terminals.
          manifest_check \<lparr>am_schema_version = AUDIT_CHECKPOINT_SCHEMA_VERSION, am_checkpoint_id = checkpoint_id,
            am_created_at = now, am_event_count = int (length rows), am_terminals = terminals\<rparr>)))"

definition record_integrity_event :: "crypto \<Rightarrow> integrity_settings \<Rightarrow> actor \<Rightarrow> string \<Rightarrow> string \<Rightarrow> string \<Rightarrow> string
    \<Rightarrow> (string \<times> pyval) list \<Rightarrow> stamps \<Rightarrow> integrity_store \<Rightarrow> integrity_store result" where
  "record_integrity_event C s a checkpoint_id event_type request_id reason payload sp st =
     bindR (record_audit C (audit_settings.truncate s) a
       (event_draft a ''audit_checkpoint'' checkpoint_id event_type request_id reason payload (sp_event_uuid sp) (sp_event_now sp))
       (sp_outbox_uuid sp) (sp_outbox_now sp) (ig_audit st)) (\<lambda>(e, t). Inr (st\<lparr>ig_audit := t\<rparr>))"

definition new_checkpoint_id :: "stamps \<Rightarrow> string" where
  "new_checkpoint_id sp = ''audit-checkpoint-'' @ sp_uuid sp"

definition create_checkpoint :: "anchor_env \<Rightarrow> integrity_settings \<Rightarrow> actor \<Rightarrow> string \<Rightarrow> string \<Rightarrow> stamps \<Rightarrow> integrity_store
    \<Rightarrow> (audit_checkpoint_row \<times> integrity_store) result" where
  "create_checkpoint E s a request_id reason sp st =
     bindR (require_operator s a) (\<lambda>_.
     bindR (exact_text reason ''reason'' 2000) (\<lambda>reason.
     let checkpoint_id = new_checkpoint_id sp in
     bindR (checkpoint_manifest (env_crypto E) (audit_verification_keyring (audit_settings.truncate s)) checkpoint_id (sp_now sp)
              (tb_events (ig_audit st))) (\<lambda>manifest.
     bindR (content_hash (env_crypto E) (manifest_data manifest)) (\<lambda>checkpoint_hash.
     bindR (canonical_json (manifest_data manifest)) (\<lambda>text.
     bindR (put_object (env_crypto E) None text (ig_objects st)) (\<lambda>(stored, objects).
     if so_object_hash stored \<noteq> checkpoint_hash
     then Inl (RuntimeError ''Stored audit checkpoint differs from its canonical manifest'')
     else let row = \<lparr>ck_id = checkpoint_id, ck_schema_version = am_schema_version manifest,
                ck_event_count = am_event_count manifest, ck_terminal_count = int (length (am_terminals manifest)),
                ck_checkpoint_hash = checkpoint_hash, ck_object_hash = so_object_hash stored,
                ck_object_key = so_object_key stored, ck_size_bytes = so_size_bytes stored,
                ck_created_by = actor_id a, ck_created_at = sp_now sp\<rparr> in
       if list_ex (\<lambda>c. ck_id c = ck_id row \<or> ck_checkpoint_hash c = ck_checkpoint_hash row) (ig_checkpoints st)
       then Inl (IntegrityError ''audit_checkpoints'')
       else bindR (record_integrity_event (env_crypto E) s a checkpoint_id ''audit_checkpoint_created'' request_id reason
              [(''checkpoint_hash'', PStr checkpoint_hash), (''event_count'', PInt (ck_event_count row)),
               (''terminal_count'', PInt (ck_terminal_count row)), (''object_hash'', PStr (ck_object_hash row))] sp
              (st\<lparr>ig_checkpoints := ig_checkpoints st @ [row], ig_objects := objects\<rparr>)) (\<lambda>st'.
         Inr (row, st'))))))))"

subsection \<open>Registering a receipt\<close>

definition receipt_statement :: "audit_anchor_receipt_row \<Rightarrow> string \<Rightarrow> anchor_statement" where
  "receipt_statement r checkpoint_hash = \<lparr>an_schema_version = AUDIT_ANCHOR_RECEIPT_SCHEMA_VERSION,
     an_provider_id = rc_provider_id r, an_provider_key_id = rc_provider_key_id r,
     an_checkpoint_hash = checkpoint_hash, an_anchored_at = rc_anchored_at r,
     an_external_reference = rc_external_reference r\<rparr>"

definition receipt_data :: "anchor_statement \<Rightarrow> string \<Rightarrow> pyval" where
  "receipt_data statement signature_b64 =
     PDict [(''statement'', statement_data statement), (''signature_b64'', PStr signature_b64)]"

definition insert_receipt :: "audit_anchor_receipt_row \<Rightarrow> integrity_store \<Rightarrow> integrity_store result" where
  "insert_receipt r st =
     (if list_ex (\<lambda>q. rc_id q = rc_id r \<or> rc_checkpoint_id q = rc_checkpoint_id r \<or> rc_receipt_hash q = rc_receipt_hash r)
           (ig_receipts st)
      then Inl (IntegrityError ''audit_anchor_receipts'') else Inr (st\<lparr>ig_receipts := ig_receipts st @ [r]\<rparr>))"

definition register_receipt :: "anchor_env \<Rightarrow> integrity_settings \<Rightarrow> actor \<Rightarrow> string \<Rightarrow> int \<Rightarrow> string \<Rightarrow> string \<Rightarrow> string \<Rightarrow> string
    \<Rightarrow> stamps \<Rightarrow> integrity_store \<Rightarrow> (audit_anchor_receipt_row \<times> integrity_store) result" where
  "register_receipt E s a checkpoint_id anchored_at external_reference signature_b64 request_id reason sp st =
     bindR (require_operator s a) (\<lambda>_.
     if \<not> audit_anchor_configured s then Inl (ValueError ''External audit anchor is not configured'') else
     bindR (exact_text reason ''reason'' 2000) (\<lambda>reason.
     bindR (exact_text external_reference ''external_reference'' 500) (\<lambda>external_reference.
     case find (\<lambda>c. ck_id c = checkpoint_id) (ig_checkpoints st) of
       None \<Rightarrow> Inl (LookupError checkpoint_id)
     | Some checkpoint \<Rightarrow>
       if ck_created_by checkpoint = actor_id a
       then Inl (ValueError ''Audit anchor receipt must be registered by a different administrator'')
       else if anchored_at < ck_created_at checkpoint \<or> anchored_at > sp_now sp
       then Inl (ValueError ''Audit anchor timestamp is outside the valid checkpoint interval'')
       else case find (\<lambda>r. rc_checkpoint_id r = checkpoint_id) (ig_receipts st) of
         Some existing \<Rightarrow>
           if rc_anchored_at existing \<noteq> anchored_at \<or> rc_external_reference existing \<noteq> external_reference
              \<or> rc_signature_b64 existing \<noteq> signature_b64
           then Inl (ValueError ''Audit checkpoint already has a different external anchor receipt'')
           else Inr (existing, st)
       | None \<Rightarrow>
           let row = \<lparr>rc_id = ''audit-anchor-receipt-'' @ sp_uuid sp, rc_checkpoint_id = checkpoint_id,
                 rc_provider_id = the (audit_anchor_provider_id s), rc_provider_key_id = the (audit_anchor_provider_key_id s),
                 rc_external_reference = external_reference, rc_anchored_at = anchored_at,
                 rc_signature_b64 = signature_b64, rc_receipt_hash = [], rc_registered_by = actor_id a,
                 rc_created_at = sp_now sp\<rparr> in
           bindR (statement_check (receipt_statement row (ck_checkpoint_hash checkpoint))) (\<lambda>statement.
           bindR (verify_anchor_signature E statement signature_b64 (the (audit_anchor_public_key_b64 s))) (\<lambda>_.
           bindR (content_hash (env_crypto E) (receipt_data statement signature_b64)) (\<lambda>receipt_hash.
           let row = row\<lparr>rc_receipt_hash := receipt_hash\<rparr> in
           bindR (insert_receipt row st) (\<lambda>st.
           bindR (record_integrity_event (env_crypto E) s a checkpoint_id ''audit_anchor_receipt_registered'' request_id reason
                [(''receipt_id'', PStr (rc_id row)), (''provider_id'', PStr (rc_provider_id row)),
                 (''provider_key_id'', PStr (rc_provider_key_id row)),
                 (''external_reference'', PStr (rc_external_reference row)),
                 (''anchored_at'', PStr (datetime_iso (rc_anchored_at row))), (''receipt_hash'', PStr (rc_receipt_hash row))]
                sp st) (\<lambda>st'. Inr (row, st')))))))))"

subsection \<open>The anchor status\<close>

record audit_anchor_status =
  st_valid :: bool
  st_checkpoint_id :: "string option"
  st_checkpoint_hash :: "string option"
  st_receipt_id :: "string option"
  st_anchored_at :: "int option"
  st_age_seconds :: "int option"
  st_reasons :: "string list"

definition invalid_status :: "string option \<Rightarrow> string \<Rightarrow> audit_anchor_status" where
  "invalid_status receipt_id reason = \<lparr>st_valid = False, st_checkpoint_id = None, st_checkpoint_hash = None,
     st_receipt_id = receipt_id, st_anchored_at = None, st_age_seconds = None, st_reasons = [reason]\<rparr>"

definition read_checkpoint_manifest :: "anchor_env \<Rightarrow> object_files \<Rightarrow> audit_checkpoint_row \<Rightarrow> audit_manifest result" where
  "read_checkpoint_manifest E files c =
     bindR (open_object (env_crypto E) (ck_object_hash c) files) (\<lambda>raw.
     bindR (env_parse_manifest E raw) (\<lambda>fields.
     bindR (validate_manifest fields) (\<lambda>manifest.
     if am_schema_version manifest \<noteq> AUDIT_CHECKPOINT_SCHEMA_VERSION \<or> am_checkpoint_id manifest \<noteq> ck_id c
        \<or> am_event_count manifest \<noteq> ck_event_count c \<or> int (length (am_terminals manifest)) \<noteq> ck_terminal_count c
     then Inl (ValueError ''Audit checkpoint manifest differs from its immutable row'')
     else bindR (content_hash (env_crypto E) (manifest_data manifest)) (\<lambda>h.
       if h \<noteq> ck_checkpoint_hash c \<or> ck_object_hash c \<noteq> ck_checkpoint_hash c \<or> int (length raw) \<noteq> ck_size_bytes c
       then Inl (ValueError ''Audit checkpoint manifest differs from its immutable row'') else Inr manifest))))"

text \<open>\<open>any(not verify_chain(...))\<close> stops at the first chain that does not verify.\<close>

fun any_unverified :: "crypto \<Rightarrow> (string \<Rightarrow> string option) \<Rightarrow> audit_event list list \<Rightarrow> bool result" where
  "any_unverified C K [] = Inr False"
| "any_unverified C K (chain # rest) = bindR (verify_chain C K chain) (\<lambda>valid.
     if \<not> valid then Inr True else any_unverified C K rest)"

definition terminal_present :: "((string \<times> string) \<times> audit_event list) list \<Rightarrow> audit_terminal \<Rightarrow> bool" where
  "terminal_present by_key t =
     (case map_of by_key (at_aggregate_type t, at_aggregate_id t) of
        None \<Rightarrow> False
      | Some chain \<Rightarrow> \<not> int (length chain) < at_sequence t
          \<and> av_event_hash (chain ! nat (at_sequence t - 1)) = at_event_hash t)"

definition current_audit_reasons :: "crypto \<Rightarrow> (string \<Rightarrow> string option) \<Rightarrow> audit_manifest \<Rightarrow> audit_event list
    \<Rightarrow> string list result" where
  "current_audit_reasons C K manifest rows =
     (if int (length rows) < am_event_count manifest
      then Inr [''Current audit event set predates the anchored checkpoint'']
      else case load_events rows of
        Inl (ValueError _) \<Rightarrow> Inr [''Current audit event data is invalid'']
      | Inl e \<Rightarrow> Inl e
      | Inr events \<Rightarrow> bindR (any_unverified C K (map snd (chains_by_key events))) (\<lambda>bad.
          if bad then Inr [''Current audit chain verification failed'']
          else if list_ex (\<lambda>t. \<not> terminal_present (chains_by_key events) t) (am_terminals manifest)
          then Inr [''Anchored audit terminal is absent from current history'']
          else Inr []))"

definition manifest_or_reason :: "audit_manifest result \<Rightarrow> (audit_manifest option \<times> string list) result" where
  "manifest_or_reason r = (case r of
     Inr m \<Rightarrow> Inr (Some m, [])
   | Inl e \<Rightarrow> (case e of
       OSError _ \<Rightarrow> Inr (None, [''Audit checkpoint object integrity verification failed''])
     | RuntimeError _ \<Rightarrow> Inr (None, [''Audit checkpoint object integrity verification failed''])
     | ValueError _ \<Rightarrow> Inr (None, [''Audit checkpoint object integrity verification failed''])
     | e \<Rightarrow> Inl e))"

definition signature_reasons :: "anchor_env \<Rightarrow> integrity_settings \<Rightarrow> audit_anchor_receipt_row \<Rightarrow> audit_checkpoint_row
    \<Rightarrow> string list result" where
  "signature_reasons E s r c =
     (if Some (rc_provider_id r) \<noteq> audit_anchor_provider_id s \<or> Some (rc_provider_key_id r) \<noteq> audit_anchor_provider_key_id s
      then Inr [''Audit anchor provider binding differs from configuration'']
      else bindR (statement_check (receipt_statement r (ck_checkpoint_hash c))) (\<lambda>statement.
        bindR (content_hash (env_crypto E) (receipt_data statement (rc_signature_b64 r))) (\<lambda>expected_receipt_hash.
        let hash_reasons = (if expected_receipt_hash \<noteq> rc_receipt_hash r
              then [''Audit anchor receipt hash verification failed''] else []) in
        case verify_anchor_signature E statement (rc_signature_b64 r) (the (audit_anchor_public_key_b64 s)) of
          Inr _ \<Rightarrow> Inr hash_reasons
        | Inl (ValueError _) \<Rightarrow> Inr (hash_reasons @ [''External audit anchor signature verification failed''])
        | Inl e \<Rightarrow> Inl e)))"

text \<open>\<open>int(delta.total_seconds())\<close> truncates towards zero; the float is exact enough for spans below
  two centuries.\<close>

definition whole_seconds :: "int \<Rightarrow> int" where
  "whole_seconds us = (if us \<ge> 0 then us div 1000000 else - ((- us) div 1000000))"

definition anchor_status :: "anchor_env \<Rightarrow> integrity_settings \<Rightarrow> int \<Rightarrow> integrity_store \<Rightarrow> audit_anchor_status result" where
  "anchor_status E s now st =
     (if \<not> audit_anchor_configured s then Inr (invalid_status None ''External audit anchor is not configured'')
      else case sort_key (\<lambda>r. - rc_anchored_at r) (ig_receipts st) of
        [] \<Rightarrow> Inr (invalid_status None ''No external audit anchor receipt is registered'')
      | receipt # _ \<Rightarrow> (case find (\<lambda>c. ck_id c = rc_checkpoint_id receipt) (ig_checkpoints st) of
          None \<Rightarrow> Inr (invalid_status (Some (rc_id receipt)) ''Audit anchor checkpoint is missing'')
        | Some checkpoint \<Rightarrow>
          bindR (manifest_or_reason (read_checkpoint_manifest E (ig_objects st) checkpoint)) (\<lambda>(manifest, read_reasons).
          let age_seconds = whole_seconds (now - rc_anchored_at receipt);
              age_reasons = (if age_seconds < 0 then [''Audit anchor timestamp is in the future''] else [])
                @ (if age_seconds > the (audit_anchor_max_age_seconds s) then [''External audit anchor receipt is stale''] else []) in
          bindR (signature_reasons E s receipt checkpoint) (\<lambda>sig_reasons.
          bindR (case manifest of None \<Rightarrow> Inr []
            | Some m \<Rightarrow> current_audit_reasons (env_crypto E) (audit_verification_keyring (audit_settings.truncate s)) m
                (tb_events (ig_audit st))) (\<lambda>history_reasons.
          let reasons = read_reasons @ age_reasons @ sig_reasons @ history_reasons in
          Inr \<lparr>st_valid = (reasons = []), st_checkpoint_id = Some (ck_id checkpoint),
            st_checkpoint_hash = Some (ck_checkpoint_hash checkpoint), st_receipt_id = Some (rc_id receipt),
            st_anchored_at = Some (rc_anchored_at receipt), st_age_seconds = Some age_seconds,
            st_reasons = reasons\<rparr>)))))"

subsection \<open>Chains of a table\<close>

lemma insort_key_cong:
  "(\<And>y. y \<in> set xs \<Longrightarrow> f x \<le> f y \<longleftrightarrow> g x \<le> g y) \<Longrightarrow> insort_key f x xs = insort_key g x xs"
  by (induction xs) auto

lemma sort_key_cong_le:
  "(\<And>x y. x \<in> set xs \<Longrightarrow> y \<in> set xs \<Longrightarrow> f x \<le> f y \<longleftrightarrow> g x \<le> g y) \<Longrightarrow> sort_key f xs = sort_key g xs"
proof (induction xs)
  case (Cons x xs)
  then have "sort_key f xs = sort_key g xs" by simp
  moreover have "insort_key f x (sort_key g xs) = insort_key g x (sort_key g xs)"
    by (rule insort_key_cong) (use Cons.prems in auto)
  ultimately show ?case by simp
qed simp

lemma chain_of_ordered: "filter (\<lambda>e. aggregate_key e = (ty, i)) (ordered_rows rows) = chain_of ty i rows"
proof -
  have "filter (\<lambda>e. aggregate_key e = (ty, i)) (ordered_rows rows)
      = sort_key (\<lambda>e. (av_aggregate_type e, av_aggregate_id e, av_sequence e)) (filter (\<lambda>e. aggregate_key e = (ty, i)) rows)"
    by (simp add: ordered_rows_def filter_sort)
  also have "\<dots> = sort_key av_sequence (filter (\<lambda>e. aggregate_key e = (ty, i)) rows)"
    by (rule sort_key_cong_le) (auto simp: aggregate_key_def)
  finally show ?thesis by (simp add: chain_of_def aggregate_key_def)
qed

lemma load_events_Inr: "load_events rows = Inr events \<Longrightarrow> events = ordered_rows rows"
proof -
  have "mapR audit_event_check xs = Inr ys \<Longrightarrow> ys = xs" for xs ys
    by (induction xs arbitrary: ys) (auto simp: result_simps dest: audit_event_check_eq)
  then show "load_events rows = Inr events \<Longrightarrow> events = ordered_rows rows" by (simp add: load_events_def)
qed

lemma chains_by_key_map:
  "map_of (chains_by_key (ordered_rows rows)) (ty, i) = (if chain_of ty i rows = [] then None else Some (chain_of ty i rows))"
proof -
  have "chain_of ty i rows = [] \<longleftrightarrow> (ty, i) \<notin> aggregate_key ` set (ordered_rows rows)"
    by (auto simp: chain_of_ordered [symmetric] filter_empty_conv image_iff)
  then show ?thesis
    by (auto simp: chains_by_key_def map_of_map_restrict restrict_map_def chain_of_ordered)
qed

lemma chains_by_key_elem:
  assumes "(k, chain) \<in> set (chains_by_key (ordered_rows rows))"
  shows "chain = chain_of (fst k) (snd k) rows" "chain \<noteq> []"
  using assms chain_of_ordered [of "fst k" "snd k" rows]
  by (auto simp: chains_by_key_def filter_empty_conv)

lemma chains_by_key_mem: "chain_of ty i rows \<noteq> [] \<Longrightarrow> ((ty, i), chain_of ty i rows) \<in> set (chains_by_key (ordered_rows rows))"
  using chains_by_key_map [of rows ty i] by (auto dest: map_of_SomeD)

lemma any_unverified_False: "any_unverified C K cs = Inr False \<longleftrightarrow> (\<forall>c \<in> set cs. verify_chain C K c = Inr True)"
  by (induction cs) (auto simp: result_simps)

lemma chain_of_keys: "e \<in> set (chain_of ty i rows) \<Longrightarrow> av_aggregate_type e = ty \<and> av_aggregate_id e = i"
  by (auto simp: chain_of_def)

subsection \<open>Manifests\<close>

lemma terminal_data_inj: "canonical_data (terminal_data t) = canonical_data (terminal_data u) \<Longrightarrow> t = u"
proof -
  assume eq: "canonical_data (terminal_data t) = canonical_data (terminal_data u)"
  have "is_ok (canonical_data (terminal_data t))" by (simp add: canonical_data_ok terminal_data_def)
  then obtain d where d: "canonical_data (terminal_data t) = Inr d" "canonical_data (terminal_data u) = Inr d"
    using eq by (auto simp: is_ok_iff)
  note field = canonical_dict_inj [OF d [unfolded terminal_data_def], of _ _ _]
  have "at_aggregate_type t = at_aggregate_type u" using field [of "''aggregate_type''"] by fastforce
  moreover have "at_aggregate_id t = at_aggregate_id u" using field [of "''aggregate_id''"] by fastforce
  moreover have "at_sequence t = at_sequence u" using field [of "''sequence''"] by fastforce
  moreover have "at_event_hash t = at_event_hash u" using field [of "''event_hash''"] by fastforce
  ultimately show "t = u" by simp
qed

lemma manifest_ok: "is_ok (canonical_data (manifest_data m))"
  by (auto simp: canonical_data_ok manifest_data_def terminal_data_def list_ex_iff)

lemma manifest_terminals_determined:
  assumes "canonical_data (manifest_data m) = canonical_data (manifest_data m')"
  shows "am_terminals m = am_terminals m'"
proof -
  obtain d where d: "canonical_data (manifest_data m) = Inr d" "canonical_data (manifest_data m') = Inr d"
    using assms manifest_ok [of m] by (auto simp: is_ok_iff)
  have "canonical_data (PList (map terminal_data (am_terminals m))) = canonical_data (PList (map terminal_data (am_terminals m')))"
    using canonical_dict_inj [OF d [unfolded manifest_data_def], of "''terminals''"] by simp
  moreover have "is_ok (canonical_data (PList (map terminal_data (am_terminals m))))"
    by (auto simp: canonical_data_ok terminal_data_def list_ex_iff)
  ultimately have "map (canonical_data \<circ> terminal_data) (am_terminals m) = map (canonical_data \<circ> terminal_data) (am_terminals m')"
    using canonical_list_eq by fastforce
  then show ?thesis by (rule map_injective) (auto simp: inj_def intro: terminal_data_inj)
qed

definition manifest_text :: "audit_manifest \<Rightarrow> string" where
  "manifest_text m = projr (canonical_json (manifest_data m))"

lemma manifest_json: "canonical_json (manifest_data m) = Inr (manifest_text m)"
  using manifest_ok [of m] by (auto simp: canonical_json_def manifest_text_def is_ok_iff)

lemma manifest_hash: "content_hash C (manifest_data m) = Inr (sha256_hex C (manifest_text m))"
  by (simp add: content_hash_def manifest_json)

lemma manifests_agree:
  assumes "sha256_hex C (manifest_text m) = sha256_hex C (manifest_text m')"
  shows "am_terminals m = am_terminals m' \<or> collision C (manifest_text m) (manifest_text m')"
  using assms manifest_terminals_determined [of m m'] canonical_json_inj [OF manifest_json [of m], of "manifest_data m'"]
    manifest_json [of m'] by (auto simp: collision_def)

text \<open>The checkpoint has the terminal of every chain, no other terminal, and every chain verified.\<close>

definition terminal_for :: "string \<Rightarrow> string \<Rightarrow> audit_event list \<Rightarrow> audit_terminal" where
  "terminal_for ty i rows = \<lparr>at_aggregate_type = ty, at_aggregate_id = i, at_sequence = int (length (chain_of ty i rows)),
     at_event_hash = av_event_hash (last (chain_of ty i rows))\<rparr>"

lemma terminal_of_chain:
  assumes "terminal_of C K (chain_of ty i rows) = Inr t" "chain_of ty i rows \<noteq> []"
  shows "verify_chain C K (chain_of ty i rows) = Inr True \<and> t = terminal_for ty i rows"
proof -
  let ?c = "chain_of ty i rows"
  from assms(1) have v: "verify_chain C K ?c = Inr True"
    and t_def: "t = \<lparr>at_aggregate_type = av_aggregate_type (last ?c), at_aggregate_id = av_aggregate_id (last ?c),
            at_sequence = av_sequence (last ?c), at_event_hash = av_event_hash (last ?c)\<rparr>"
    by (auto simp: terminal_of_def bindR_eq_Inr terminal_check_def split: if_splits)
  have "last ?c \<in> set ?c" using assms(2) by simp
  from chain_of_keys [OF this] have "av_aggregate_type (last ?c) = ty" "av_aggregate_id (last ?c) = i" by simp_all
  moreover have "av_sequence (last ?c) = int (length ?c)"
  proof -
    have "last (map av_sequence ?c) = 1 + int (length ?c - 1)"
      using verify_from_sequence [OF v [unfolded verify_chain_def]] assms(2) by (simp add: last_map last_upt)
    moreover have "length ?c \<noteq> 0" using assms(2) by simp
    ultimately show ?thesis using assms(2) by (simp add: last_map)
  qed
  ultimately show ?thesis using v t_def by (simp add: terminal_for_def)
qed

lemma checkpoint_manifest_terminals:
  assumes "checkpoint_manifest C K i now rows = Inr m"
  shows "chain_of ty a rows \<noteq> [] \<Longrightarrow> verify_chain C K (chain_of ty a rows) = Inr True \<and> terminal_for ty a rows \<in> set (am_terminals m)"
    and "t \<in> set (am_terminals m) \<Longrightarrow> \<exists>ty a. chain_of ty a rows \<noteq> [] \<and> t = terminal_for ty a rows"
    and "am_event_count m = int (length rows)"
proof -
  obtain ts where ts: "mapR (terminal_of C K \<circ> snd) (chains_by_key (ordered_rows rows)) = Inr ts" and m: "am_terminals m = ts"
    and n: "am_event_count m = int (length rows)"
    using assms load_events_Inr by (auto simp: checkpoint_manifest_def manifest_check_def bindR_eq_Inr split: if_splits)
  show "am_event_count m = int (length rows)" by (rule n)
  show "verify_chain C K (chain_of ty a rows) = Inr True \<and> terminal_for ty a rows \<in> set (am_terminals m)"
    if c: "chain_of ty a rows \<noteq> []"
  proof -
    obtain u where "u \<in> set ts" "terminal_of C K (chain_of ty a rows) = Inr u"
      using mapR_ok [OF ts chains_by_key_mem [OF c]] by auto
    with terminal_of_chain c m show ?thesis by blast
  qed
  show "\<exists>ty a. chain_of ty a rows \<noteq> [] \<and> t = terminal_for ty a rows" if t: "t \<in> set (am_terminals m)"
  proof -
    obtain k c where kc: "(k, c) \<in> set (chains_by_key (ordered_rows rows))" "terminal_of C K c = Inr t"
      using mapR_result [OF ts] t m by fastforce
    with chains_by_key_elem [OF kc(1)] terminal_of_chain [of C K "fst k" "snd k" rows t] show ?thesis by auto
  qed
qed

text \<open>What an empty list of reasons says about the current history.\<close>

lemma current_audit_ok:
  assumes "current_audit_reasons C K m rows = Inr []"
  shows "chain_of ty i rows \<noteq> [] \<Longrightarrow> verify_chain C K (chain_of ty i rows) = Inr True"
    and "t \<in> set (am_terminals m) \<Longrightarrow> at_sequence t \<le> int (length (chain_of (at_aggregate_type t) (at_aggregate_id t) rows))
      \<and> av_event_hash (chain_of (at_aggregate_type t) (at_aggregate_id t) rows ! nat (at_sequence t - 1)) = at_event_hash t"
proof -
  obtain events where e: "load_events rows = Inr events"
    and v: "any_unverified C K (map snd (chains_by_key events)) = Inr False"
    and t: "\<not> list_ex (\<lambda>t. \<not> terminal_present (chains_by_key events) t) (am_terminals m)"
    using assms by (auto simp: current_audit_reasons_def bindR_eq_Inr split: if_splits sum.splits error.splits)
  note events = load_events_Inr [OF e]
  show "chain_of ty i rows \<noteq> [] \<Longrightarrow> verify_chain C K (chain_of ty i rows) = Inr True"
    using v chains_by_key_mem [of ty i rows] by (force simp: any_unverified_False events)
  assume "t \<in> set (am_terminals m)"
  with t have "terminal_present (chains_by_key (ordered_rows rows)) t" by (auto simp: list_ex_iff events)
  then show "at_sequence t \<le> int (length (chain_of (at_aggregate_type t) (at_aggregate_id t) rows))
      \<and> av_event_hash (chain_of (at_aggregate_type t) (at_aggregate_id t) rows ! nat (at_sequence t - 1)) = at_event_hash t"
    by (auto simp: terminal_present_def chains_by_key_map split: if_splits)
qed

subsection \<open>Anchored history\<close>

lemma read_manifest_hash:
  assumes "read_checkpoint_manifest E files c = Inr m"
  shows "sha256_hex (env_crypto E) (manifest_text m) = ck_checkpoint_hash c"
  using assms by (auto simp: read_checkpoint_manifest_def bindR_eq_Inr manifest_hash split: if_splits)

lemma anchor_status_valid:
  assumes "anchor_status E s now st = Inr status" "st_valid status"
  obtains r c m where "r \<in> set (ig_receipts st)" "c \<in> set (ig_checkpoints st)" "ck_id c = rc_checkpoint_id r"
    "st_checkpoint_hash status = Some (ck_checkpoint_hash c)" "st_receipt_id status = Some (rc_id r)"
    "read_checkpoint_manifest E (ig_objects st) c = Inr m"
    "signature_reasons E s r c = Inr []"
    "current_audit_reasons (env_crypto E) (audit_verification_keyring (audit_settings.truncate s)) m (tb_events (ig_audit st)) = Inr []"
    "0 \<le> whole_seconds (now - rc_anchored_at r)"
    "whole_seconds (now - rc_anchored_at r) \<le> the (audit_anchor_max_age_seconds s)"
proof -
  have conf: "audit_anchor_configured s" using assms by (auto simp: anchor_status_def invalid_status_def split: if_splits)
  obtain r rs where rs: "sort_key (\<lambda>r. - rc_anchored_at r) (ig_receipts st) = r # rs"
    using assms conf by (auto simp: anchor_status_def invalid_status_def split: list.splits)
  then have r: "r \<in> set (ig_receipts st)" by (metis list.set_intros(1) set_sort)
  obtain c where c: "find (\<lambda>c. ck_id c = rc_checkpoint_id r) (ig_checkpoints st) = Some c"
    using assms conf rs by (auto simp: anchor_status_def invalid_status_def split: option.splits)
  obtain manifest rr sr hr where *: "manifest_or_reason (read_checkpoint_manifest E (ig_objects st) c) = Inr (manifest, rr)"
    "signature_reasons E s r c = Inr sr"
    "(case manifest of None \<Rightarrow> Inr [] | Some m \<Rightarrow> current_audit_reasons (env_crypto E)
       (audit_verification_keyring (audit_settings.truncate s)) m (tb_events (ig_audit st))) = Inr hr"
    and status: "status = \<lparr>st_valid = (rr @ ((if whole_seconds (now - rc_anchored_at r) < 0 then [''Audit anchor timestamp is in the future''] else [])
        @ (if whole_seconds (now - rc_anchored_at r) > the (audit_anchor_max_age_seconds s) then [''External audit anchor receipt is stale''] else []))
        @ sr @ hr = []), st_checkpoint_id = Some (ck_id c),
        st_checkpoint_hash = Some (ck_checkpoint_hash c), st_receipt_id = Some (rc_id r),
        st_anchored_at = Some (rc_anchored_at r), st_age_seconds = Some (whole_seconds (now - rc_anchored_at r)),
        st_reasons = rr @ ((if whole_seconds (now - rc_anchored_at r) < 0 then [''Audit anchor timestamp is in the future''] else [])
        @ (if whole_seconds (now - rc_anchored_at r) > the (audit_anchor_max_age_seconds s) then [''External audit anchor receipt is stale''] else []))
        @ sr @ hr\<rparr>"
    using assms(1) conf by (auto simp: anchor_status_def rs c Let_def bindR_eq_Inr)
  have empty: "rr = []" "sr = []" "hr = []" and age: "0 \<le> whole_seconds (now - rc_anchored_at r)"
    "whole_seconds (now - rc_anchored_at r) \<le> the (audit_anchor_max_age_seconds s)"
    using assms(2) by (auto simp: status split: if_splits)
  obtain m where m: "manifest = Some m" "read_checkpoint_manifest E (ig_objects st) c = Inr m"
    using *(1) empty(1) by (auto simp: manifest_or_reason_def split: sum.splits error.splits)
  have "c \<in> set (ig_checkpoints st)" "ck_id c = rc_checkpoint_id r" using c by (auto dest: find_SomeD)
  then show ?thesis
    using that r m *(2,3) empty age by (simp add: status)
qed

lemma signature_valid:
  assumes "signature_reasons E s r c = Inr []"
  shows "\<exists>key sig. b64decode (the (audit_anchor_public_key_b64 s)) = Some key \<and> length key = 32
     \<and> b64decode (rc_signature_b64 r) = Some sig \<and> length sig = 64
     \<and> env_ed25519 E key sig (projr (canonical_json (statement_data (receipt_statement r (ck_checkpoint_hash c)))))"
proof -
  obtain a where "statement_check (receipt_statement r (ck_checkpoint_hash c)) = Inr a"
    and "verify_anchor_signature E a (rc_signature_b64 r) (the (audit_anchor_public_key_b64 s)) = Inr ()"
    using assms by (auto simp: signature_reasons_def bindR_eq_Inr Let_def split: if_splits sum.splits error.splits)
  then show ?thesis
    by (auto simp: statement_check_def verify_anchor_signature_def decode_b64_def bindR_eq_Inr split: if_splits option.splits)
qed

lemma create_checkpoint_Inr:
  assumes "create_checkpoint E s a request_id reason sp st = Inr (row, st')"
  obtains m where
    "checkpoint_manifest (env_crypto E) (audit_verification_keyring (audit_settings.truncate s))
       (new_checkpoint_id sp) (sp_now sp) (tb_events (ig_audit st)) = Inr m"
    "ck_checkpoint_hash row = sha256_hex (env_crypto E) (manifest_text m)"
    "row \<in> set (ig_checkpoints st')" "actor_id a = ck_created_by row" "ActorRole.ADMIN |\<in>| actor_roles a"
proof -
  have frame: "record_integrity_event C s a i ty q w p sp st = Inr st' \<Longrightarrow> ig_checkpoints st' = ig_checkpoints st"
    for C i ty q w p st st' by (auto simp: record_integrity_event_def bindR_eq_Inr)
  have "require_operator s a = Inr ()" using assms by (auto simp: create_checkpoint_def bindR_eq_Inr)
  then have "ActorRole.ADMIN |\<in>| actor_roles a"
    by (auto simp: require_operator_def require_any_def bindR_eq_Inr split: if_splits)
  moreover obtain m where "checkpoint_manifest (env_crypto E) (audit_verification_keyring (audit_settings.truncate s))
       (new_checkpoint_id sp) (sp_now sp) (tb_events (ig_audit st)) = Inr m"
    "ck_checkpoint_hash row = sha256_hex (env_crypto E) (manifest_text m)"
    "row \<in> set (ig_checkpoints st')" "actor_id a = ck_created_by row"
    using assms by (auto simp: create_checkpoint_def bindR_eq_Inr Let_def manifest_hash dest!: frame split: if_splits)
  ultimately show ?thesis using that by blast
qed

definition history_kept :: "crypto \<Rightarrow> audit_event list \<Rightarrow> audit_event list \<Rightarrow> bool" where
  "history_kept C old cur \<longleftrightarrow> list_all2 same_record old (take (length old) cur)
     \<or> (\<exists>j < length old. collision C (audit_text (old ! j)) (audit_text (cur ! j)))"

lemma anchored_history:
  assumes created: "create_checkpoint E s a request_id reason sp st = Inr (row, st')"
    and valid: "anchor_status E s2 now cur = Inr status" "st_valid status"
    and anchored: "st_checkpoint_hash status = Some (ck_checkpoint_hash row)"
  shows "\<exists>m m'. (\<exists>c \<in> set (ig_checkpoints cur). read_checkpoint_manifest E (ig_objects cur) c = Inr m')
     \<and> checkpoint_manifest (env_crypto E) (audit_verification_keyring (audit_settings.truncate s))
       (new_checkpoint_id sp) (sp_now sp) (tb_events (ig_audit st)) = Inr m
     \<and> (collision (env_crypto E) (manifest_text m) (manifest_text m')
        \<or> (\<forall>ty i. history_kept (env_crypto E) (chain_of ty i (tb_events (ig_audit st))) (chain_of ty i (tb_events (ig_audit cur)))))"
proof -
  let ?C = "env_crypto E"
  obtain m where m: "checkpoint_manifest ?C (audit_verification_keyring (audit_settings.truncate s))
       (new_checkpoint_id sp) (sp_now sp) (tb_events (ig_audit st)) = Inr m"
    and h: "ck_checkpoint_hash row = sha256_hex ?C (manifest_text m)"
    using create_checkpoint_Inr [OF created] by metis
  obtain r c m' where c: "st_checkpoint_hash status = Some (ck_checkpoint_hash c)" "c \<in> set (ig_checkpoints cur)"
    and read: "read_checkpoint_manifest E (ig_objects cur) c = Inr m'"
    and ok: "current_audit_reasons ?C (audit_verification_keyring (audit_settings.truncate s2)) m' (tb_events (ig_audit cur)) = Inr []"
    using anchor_status_valid [OF valid] by metis
  have "sha256_hex ?C (manifest_text m) = sha256_hex ?C (manifest_text m')"
    using read_manifest_hash [OF read] c anchored h by simp
  then consider "collision ?C (manifest_text m) (manifest_text m')" | "am_terminals m = am_terminals m'"
    using manifests_agree by blast
  then show ?thesis
  proof cases
    case 2
    have "history_kept ?C (chain_of ty i (tb_events (ig_audit st))) (chain_of ty i (tb_events (ig_audit cur)))" for ty i
    proof (cases "chain_of ty i (tb_events (ig_audit st)) = []")
      case False
      let ?old = "chain_of ty i (tb_events (ig_audit st))" and ?cur = "chain_of ty i (tb_events (ig_audit cur))"
      note v = checkpoint_manifest_terminals(1) [OF m False]
      have t: "int (length ?old) \<le> int (length ?cur) \<and> av_event_hash (?cur ! nat (int (length ?old) - 1)) = av_event_hash (last ?old)"
        using current_audit_ok(2) [OF ok, of "terminal_for ty i (tb_events (ig_audit st))"] v 2 by (simp add: terminal_for_def)
      moreover have "nat (int (length ?old) - 1) = length ?old - 1" by simp
      moreover have "?cur \<noteq> []" using t False by auto
      ultimately show ?thesis
        using chain_continues [OF conjunct1 [OF v] current_audit_ok(1) [OF ok] False] by (auto simp: history_kept_def)
    qed (simp add: history_kept_def)
    with m read c(2) show ?thesis by blast
  qed (use m read c(2) in blast)
qed

text \<open>C27. Anchored history is intact: suppose a checkpoint was created over the audit tables, and later,
  over tables and stored objects that may have been changed in any way, the anchor status is reported
  valid for that checkpoint's hash.  Then the external key has signed a statement of that hash, the receipt
  is not older than configured, and every chain of the checkpoint is still there, record for record, as the
  beginning of the current chain of its aggregate, unless two concrete different texts (the two manifests, or
  the two records at one place) have one SHA-256 digest.\<close>

theorem anchored_history_intact:
  assumes "create_checkpoint E s a request_id reason sp st = Inr (row, st')"
    and "anchor_status E s2 now cur = Inr status" "st_valid status"
    and "st_checkpoint_hash status = Some (ck_checkpoint_hash row)"
  shows "(\<exists>m m'. (\<exists>c \<in> set (ig_checkpoints cur). read_checkpoint_manifest E (ig_objects cur) c = Inr m')
     \<and> checkpoint_manifest (env_crypto E) (audit_verification_keyring (audit_settings.truncate s))
       (new_checkpoint_id sp) (sp_now sp) (tb_events (ig_audit st)) = Inr m
     \<and> (collision (env_crypto E) (manifest_text m) (manifest_text m')
        \<or> (\<forall>ty i. history_kept (env_crypto E) (chain_of ty i (tb_events (ig_audit st))) (chain_of ty i (tb_events (ig_audit cur))))))
   \<and> (\<exists>r \<in> set (ig_receipts cur). \<exists>key sig. b64decode (the (audit_anchor_public_key_b64 s2)) = Some key
        \<and> b64decode (rc_signature_b64 r) = Some sig
        \<and> env_ed25519 E key sig (projr (canonical_json (statement_data (receipt_statement r (ck_checkpoint_hash row)))))
        \<and> whole_seconds (now - rc_anchored_at r) \<in> {0..the (audit_anchor_max_age_seconds s2)})"
proof (intro conjI)
  obtain r c m' where rc: "r \<in> set (ig_receipts cur)" "st_checkpoint_hash status = Some (ck_checkpoint_hash c)"
    "signature_reasons E s2 r c = Inr []"
    "0 \<le> whole_seconds (now - rc_anchored_at r)" "whole_seconds (now - rc_anchored_at r) \<le> the (audit_anchor_max_age_seconds s2)"
    using anchor_status_valid [OF assms(2,3)] by metis
  then have "ck_checkpoint_hash c = ck_checkpoint_hash row" using assms(4) by simp
  with signature_valid [OF rc(3)] rc show "\<exists>r \<in> set (ig_receipts cur). \<exists>key sig. b64decode (the (audit_anchor_public_key_b64 s2)) = Some key
        \<and> b64decode (rc_signature_b64 r) = Some sig
        \<and> env_ed25519 E key sig (projr (canonical_json (statement_data (receipt_statement r (ck_checkpoint_hash row)))))
        \<and> whole_seconds (now - rc_anchored_at r) \<in> {0..the (audit_anchor_max_age_seconds s2)}"
    by auto
qed (rule anchored_history [OF assms])

subsection \<open>Honest histories are accepted\<close>

inductive audit_extends :: "crypto \<Rightarrow> (string \<Rightarrow> string option) \<Rightarrow> audit_table \<Rightarrow> audit_table \<Rightarrow> bool" for C K t where
  refl: "audit_extends C K t t"
| step: "audit_extends C K t u \<Longrightarrow> record_audit C s a d uuid now u = Inr (e, u')
    \<Longrightarrow> K (audit_signing_key_id s) = Some (audit_signing_key s) \<Longrightarrow> audit_extends C K t u'"

lemma audit_extends_prefix:
  assumes "audit_extends C K t u" "audit_inv C K t"
  shows "audit_inv C K u \<and> (\<exists>added. tb_events u = tb_events t @ added)"
  using assms
proof (induction rule: audit_extends.induct)
  case (step u s a d uuid now e u')
  then have inv: "audit_inv C K u" and "\<exists>added. tb_events u = tb_events t @ added" by auto
  moreover have "verify_chain C K (same_aggregate (av_aggregate_type d) (av_aggregate_id d) (tb_events u)) = Inr True"
    using inv by (simp add: audit_inv_def)
  from record_audit_Inr [OF step.hyps(2) this step.hyps(3)]
  have "\<exists>row. tb_events u' = tb_events u @ [row]" by metis
  moreover have "audit_inv C K u'" by (rule audit_inv_step [OF inv step.hyps(2,3)])
  ultimately show ?case by auto
qed simp

lemma load_events_ok: "audit_inv C K t \<Longrightarrow> load_events (tb_events t) = Inr (ordered_rows (tb_events t))"
  unfolding load_events_def by (rule mapR_fixed) (auto simp: audit_inv_def list_all_iff ordered_rows_def)

lemma chains_verified: "audit_inv C K t \<Longrightarrow> verify_chain C K (chain_of ty i (tb_events t)) = Inr True"
  using chain_of_verified [of C K ty i "tb_events t"] by (simp add: audit_inv_def)

lemma chain_of_append:
  assumes "audit_inv C K t" "audit_inv C K u" "tb_events u = tb_events t @ added"
  shows "\<exists>rest. chain_of ty i (tb_events u) = chain_of ty i (tb_events t) @ rest"
  using assms chain_of_verified [of C K ty i "tb_events t"] chain_of_verified [of C K ty i "tb_events u"]
  by (simp add: audit_inv_def same_aggregate_def)

lemma honest_accepted:
  assumes inv: "audit_inv C K t" and m: "checkpoint_manifest C K' i now (tb_events t) = Inr m"
    and ext: "audit_extends C K t u"
  shows "current_audit_reasons C K m (tb_events u) = Inr []"
proof -
  obtain added where u: "audit_inv C K u" "tb_events u = tb_events t @ added" using audit_extends_prefix [OF ext inv] by blast
  have verified: "any_unverified C K (map snd (chains_by_key (ordered_rows (tb_events u)))) = Inr False"
    using chains_by_key_elem chains_verified [OF u(1)] by (fastforce simp: any_unverified_False)
  have "terminal_present (chains_by_key (ordered_rows (tb_events u))) x" if x: "x \<in> set (am_terminals m)" for x
  proof -
    obtain ty a where c: "chain_of ty a (tb_events t) \<noteq> []" and x_def: "x = terminal_for ty a (tb_events t)"
      using checkpoint_manifest_terminals(2) [OF m x] by blast
    let ?old = "chain_of ty a (tb_events t)"
    obtain rest where rest: "chain_of ty a (tb_events u) = ?old @ rest"
      using chain_of_append [OF inv u] by blast
    have "nat (int (length ?old) - 1) = length ?old - 1" by simp
    moreover have "length ?old - 1 < length ?old" using c by simp
    ultimately have "(?old @ rest) ! nat (int (length ?old) - 1) = last ?old"
      using c by (simp add: last_conv_nth nth_append)
    then show ?thesis
      using c by (simp add: terminal_present_def x_def terminal_for_def chains_by_key_map rest)
  qed
  then have "\<not> list_ex (\<lambda>x. \<not> terminal_present (chains_by_key (ordered_rows (tb_events u))) x) (am_terminals m)"
    by (auto simp: list_ex_iff)
  moreover have "\<not> int (length (tb_events u)) < am_event_count m"
    using checkpoint_manifest_terminals(3) [OF m] u(2) by simp
  ultimately show ?thesis by (simp add: current_audit_reasons_def load_events_ok [OF u(1)] verified)
qed

text \<open>C28. No false alarm: a checkpoint taken of a reachable audit table accepts every later state the
  table reaches by recording further events; comparing the two yields no reason.\<close>

theorem honest_history_accepted:
  assumes "audit_reachable C K t" "checkpoint_manifest C K' i now (tb_events t) = Inr m" "audit_extends C K t u"
  shows "current_audit_reasons C K m (tb_events u) = Inr []"
  by (rule honest_accepted [OF audit_reachable_inv [OF assms(1)] assms(2,3)])

subsection \<open>A created checkpoint reads back\<close>

lemma manifest_validates: "checkpoint_manifest C K i now rows = Inr m \<Longrightarrow> validate_manifest m = Inr m"
proof -
  assume *: "checkpoint_manifest C K i now rows = Inr m"
  then obtain events ts where ts: "mapR (terminal_of C K \<circ> snd) (chains_by_key events) = Inr ts" "am_terminals m = ts"
    and m: "manifest_check m = Inr m"
    by (auto simp: checkpoint_manifest_def manifest_check_def bindR_eq_Inr split: if_splits)
  have "terminal_check t = Inr t" if "t \<in> set ts" for t
    using mapR_result [OF ts(1) that] by (auto simp: terminal_of_def terminal_check_def bindR_eq_Inr split: if_splits)
  then have "mapR terminal_check (am_terminals m) = Inr (am_terminals m)" using ts(2) by (auto intro: mapR_fixed)
  with m show ?thesis by (simp add: validate_manifest_def)
qed

lemma created_reads_back:
  assumes created: "create_checkpoint E s a request_id reason sp st = Inr (row, st')"
    and m: "checkpoint_manifest (env_crypto E) (audit_verification_keyring (audit_settings.truncate s))
       (new_checkpoint_id sp) (sp_now sp) (tb_events (ig_audit st)) = Inr m"
    and parse: "env_parse_manifest E (manifest_text m) = Inr m"
    and intact: "\<And>path x. ig_objects st path = Some x \<Longrightarrow> path_for (sha256_hex (env_crypto E) (manifest_text m)) = Inr path \<Longrightarrow> x = manifest_text m"
  shows "read_checkpoint_manifest E (ig_objects st') row = Inr m"
proof -
  let ?h = "sha256_hex (env_crypto E) (manifest_text m)"
  have frame: "record_integrity_event C s a i ty q w p sp st = Inr st' \<Longrightarrow> ig_objects st' = ig_objects st"
    for C i ty q w p st st' by (auto simp: record_integrity_event_def bindR_eq_Inr)
  obtain stored objects where put: "put_object (env_crypto E) None (manifest_text m) (ig_objects st) = Inr (stored, objects)"
    and row: "ck_id row = new_checkpoint_id sp" "ck_event_count row = am_event_count m"
      "ck_terminal_count row = int (length (am_terminals m))" "ck_checkpoint_hash row = ?h"
      "ck_object_hash row = so_object_hash stored" "ck_size_bytes row = so_size_bytes stored" "so_object_hash stored = ?h"
    and objects: "ig_objects st' = objects"
    using created by (auto simp: create_checkpoint_def m bindR_eq_Inr Let_def manifest_hash manifest_json dest!: frame split: if_splits)
  obtain path where path: "path_for ?h = Inr path"
    using put by (cases "path_for ?h") (simp_all add: put_object_def Let_def)
  then have size: "so_size_bytes stored = int (length (manifest_text m))"
    and objs: "objects = (if ig_objects st path \<noteq> None then ig_objects st else (ig_objects st)(path \<mapsto> manifest_text m))"
    using put by (auto simp: put_object_def Let_def)
  have files: "objects path = Some (manifest_text m)"
    using intact [OF _ path] by (cases "ig_objects st path") (simp_all add: objs)
  have "open_object (env_crypto E) ?h objects = Inr (manifest_text m)"
    by (simp add: open_object_def path files verify_stream_hash_def)
  moreover have "am_schema_version m = AUDIT_CHECKPOINT_SCHEMA_VERSION" "am_checkpoint_id m = new_checkpoint_id sp"
    using m by (auto simp: checkpoint_manifest_def manifest_check_def bindR_eq_Inr split: if_splits)
  ultimately show ?thesis
    using manifest_validates [OF m] by (simp add: read_checkpoint_manifest_def row size objects parse manifest_hash)
qed

text \<open>Creating a checkpoint extends the history by one event of the configured key.\<close>

lemma record_integrity_event_extends:
  assumes "record_integrity_event C s a i ty q w p sp st = Inr st'"
    and "K (audit_signing_key_id (audit_settings.truncate s)) = Some (audit_signing_key (audit_settings.truncate s))"
  shows "audit_extends C K (ig_audit st) (ig_audit st')"
proof -
  obtain e t where "record_audit C (audit_settings.truncate s) a
      (event_draft a ''audit_checkpoint'' i ty q w p (sp_event_uuid sp) (sp_event_now sp)) (sp_outbox_uuid sp) (sp_outbox_now sp) (ig_audit st) = Inr (e, t)"
    and "st' = st\<lparr>ig_audit := t\<rparr>"
    using assms(1) by (auto simp: record_integrity_event_def bindR_eq_Inr)
  then show ?thesis using audit_extends.step [of _ K, OF audit_extends.refl, OF _ assms(2)] by simp
qed

lemma create_checkpoint_extends:
  assumes "create_checkpoint E s a request_id reason sp st = Inr (row, st')"
    and "K (audit_signing_key_id (audit_settings.truncate s)) = Some (audit_signing_key (audit_settings.truncate s))"
  shows "audit_extends (env_crypto E) K (ig_audit st) (ig_audit st')"
proof -
  obtain i ty q w p st1 where "record_integrity_event (env_crypto E) s a i ty q w p sp st1 = Inr st'" "ig_audit st1 = ig_audit st"
    using assms(1) by (auto simp: create_checkpoint_def bindR_eq_Inr Let_def split: if_splits)
  with record_integrity_event_extends [OF this(1), of K] assms(2) show ?thesis by simp
qed

subsection \<open>An example checkpoint\<close>

definition ex_checkpoint_manifest :: "audit_manifest result" where
  "ex_checkpoint_manifest = checkpoint_manifest ex_crypto (audit_verification_keyring ex_audit_settings)
     ''audit-checkpoint-c'' 0 (tb_events ex_table)"

definition ex_pub :: string where
  "ex_pub = b64encode (replicate 32 (CHR ''k''))"

definition ex_sig :: string where
  "ex_sig = b64encode (replicate 64 (CHR ''k''))"

lemma ex_pub_nonempty [simp]: "ex_pub \<noteq> []"
proof
  assume "ex_pub = []"
  then have "Some (replicate 32 (CHR ''k'')) = b64decode []" unfolding ex_pub_def by (metis b64_roundtrip)
  then show False by (simp add: b64decode_def)
qed

definition ex_env :: anchor_env where
  "ex_env = \<lparr>env_crypto = ex_crypto,
     env_ed25519 = (\<lambda>key sig msg. key = replicate 32 (CHR ''k'')),
     env_parse_manifest = (\<lambda>_. ex_checkpoint_manifest)\<rparr>"

definition ex_integrity_settings :: integrity_settings where
  "ex_integrity_settings = audit_settings.extend ex_audit_settings
     \<lparr>audit_anchor_provider_id = Some ''p'', audit_anchor_provider_key_id = Some ''k'',
      audit_anchor_public_key_b64 = Some ex_pub, audit_anchor_max_age_seconds = Some 60,
      audit_operator_organization_id = Some ''org''\<rparr>"

definition ex_stamps :: stamps where
  "ex_stamps = \<lparr>sp_uuid = ''c'', sp_event_uuid = ''e'', sp_outbox_uuid = ''o'', sp_now = 0, sp_event_now = 0, sp_outbox_now = 0\<rparr>"

definition ex_integrity_store :: integrity_store where
  "ex_integrity_store = \<lparr>ig_audit = ex_table, ig_checkpoints = [], ig_receipts = [], ig_objects = (\<lambda>_. None)\<rparr>"

definition ex_checkpointed :: "(audit_checkpoint_row \<times> integrity_store) result" where
  "ex_checkpointed = create_checkpoint ex_env ex_integrity_settings ex_audit_actor ''r1'' ''monthly'' ex_stamps ex_integrity_store"

lemma ex_truncate [simp]: "audit_settings.truncate ex_integrity_settings = ex_audit_settings"
  by (simp add: ex_integrity_settings_def audit_settings.defs ex_audit_settings_def)

lemma ex_toy_hash [simp]: "is_sha256 (toy_digest m)"
  by (simp add: is_sha256_def toy_digest_def list_all_iff)

lemma ex_manifest_ok: "ex_checkpoint_manifest = Inr (projr ex_checkpoint_manifest)"
proof -
  obtain row where row: "tb_events ex_table = [row]" "av_aggregate_type row = ''project''"
    "av_aggregate_id row = ''p1''" "av_event_hash row = replicate 64 (CHR ''a'')" "audit_event_check row = Inr row"
    by (rule ex_table_row) blast
  have inv: "audit_inv ex_crypto (audit_verification_keyring ex_audit_settings) ex_table"
    by (rule audit_reachable_inv [OF ex_table_reachable(1)])
  have "chain_of ''project'' ''p1'' [row] = [row]" using row(2,3) by (simp add: chain_of_def)
  then have v: "verify_chain ex_crypto (audit_verification_keyring ex_audit_settings) [row] = Inr True"
    using chains_verified [OF inv, of "''project''" "''p1''"] row(1) by simp
  have "terminal_of ex_crypto (audit_verification_keyring ex_audit_settings) [row]
      = Inr \<lparr>at_aggregate_type = ''project'', at_aggregate_id = ''p1'', at_sequence = av_sequence row, at_event_hash = av_event_hash row\<rparr>"
    using row(2-5) by (simp add: terminal_of_def v terminal_check_def text_between_def audit_event_check_def split: if_splits)
  then show ?thesis
    by (simp add: ex_checkpoint_manifest_def checkpoint_manifest_def row(1) load_events_def ordered_rows_def row(5)
        chains_by_key_def manifest_check_def text_between_def)
qed

lemma ex_checkpointed_ok: "ex_checkpointed = Inr (fst (projr ex_checkpointed), snd (projr ex_checkpointed))"
proof -
  let ?m = "projr ex_checkpoint_manifest" and ?K = "audit_verification_keyring ex_audit_settings"
  have m: "checkpoint_manifest ex_crypto ?K (new_checkpoint_id ex_stamps) (sp_now ex_stamps) (tb_events (ig_audit ex_integrity_store)) = Inr ?m"
    using ex_manifest_ok by (simp add: ex_checkpoint_manifest_def ex_stamps_def ex_integrity_store_def new_checkpoint_id_def)
  have op: "require_operator ex_integrity_settings ex_audit_actor = Inr ()" by code_simp
  have reason: "exact_text ''monthly'' ''reason'' 2000 = Inr ''monthly''" by code_simp
  have inv: "audit_inv ex_crypto ?K ex_table" by (rule audit_reachable_inv [OF ex_table_reachable(1)])
  have rec_ok: "is_ok (record_audit ex_crypto ex_audit_settings ex_audit_actor
      (event_draft ex_audit_actor ''audit_checkpoint'' i ''audit_checkpoint_created'' ''r1'' ''monthly'' payload ''e'' 0) ''o'' 0 ex_table)"
    if nf: "\<not> contains_float (PDict payload)" for i payload
  proof -
    let ?d = "event_draft ex_audit_actor ''audit_checkpoint'' i ''audit_checkpoint_created'' ''r1'' ''monthly'' payload ''e'' 0"
    have "draft_text p ?d k \<noteq> ex_first_text" for p k
      unfolding ex_first_text_def using nf by (intro draft_texts_differ) (simp_all add: ex_draft_def event_draft_def)
    then have "draft_hash ex_crypto p ?d k = replicate 64 (CHR ''b'')" for p k
      by (simp add: draft_hash_def ex_crypto_def toy_digest_def)
    then have "\<not> already_recorded ex_crypto ex_audit_settings ?d (tb_events ex_table)"
      by (rule_tac ex_table_row) (simp add: already_recorded_def event_draft_def)
    then show ?thesis
      using record_audit_cases [OF inv ex_hex_digests ex_key_id(2), of ex_audit_actor ?d "''o''" 0] ex_key_id(1,3) nf
      by (simp add: Let_def event_draft_def)
  qed
  have "is_ok ex_checkpointed"
    unfolding ex_checkpointed_def create_checkpoint_def
    using m rec_ok
    by (auto simp: op reason ex_env_def manifest_hash manifest_json put_object_def path_for_def ex_integrity_store_def ex_stamps_def
        ex_crypto_def record_integrity_event_def is_ok_bindR Let_def split: prod.splits)
  then show ?thesis by (metis is_ok_iff prod.collapse sum.sel(2))
qed

definition ex_row :: audit_checkpoint_row where
  "ex_row = fst (projr ex_checkpointed)"

lemma ex_checkpointed_eq: "create_checkpoint ex_env ex_integrity_settings ex_audit_actor ''r1'' ''monthly'' ex_stamps ex_integrity_store
    = Inr (ex_row, snd (projr ex_checkpointed))"
  using ex_checkpointed_ok by (simp add: ex_checkpointed_def ex_row_def)

definition ex_receipt :: audit_anchor_receipt_row where
  "ex_receipt = \<lparr>rc_id = ''receipt'', rc_checkpoint_id = ck_id ex_row, rc_provider_id = ''p'', rc_provider_key_id = ''k'',
     rc_external_reference = ''ref'', rc_anchored_at = 0, rc_signature_b64 = ex_sig,
     rc_receipt_hash = toy_digest (projr (canonical_json (receipt_data
        \<lparr>an_schema_version = AUDIT_ANCHOR_RECEIPT_SCHEMA_VERSION, an_provider_id = ''p'', an_provider_key_id = ''k'',
         an_checkpoint_hash = ck_checkpoint_hash ex_row, an_anchored_at = 0, an_external_reference = ''ref''\<rparr> ex_sig))),
     rc_registered_by = ''u2'', rc_created_at = 0\<rparr>"

definition ex_anchored :: integrity_store where
  "ex_anchored = (snd (projr ex_checkpointed))\<lparr>ig_receipts := [ex_receipt]\<rparr>"

lemma ex_anchor_signature: "signature_reasons ex_env ex_integrity_settings ex_receipt ex_row = Inr []"
proof -
  let ?a = "receipt_statement ex_receipt (ck_checkpoint_hash ex_row)"
  have "is_sha256 (ck_checkpoint_hash ex_row)"
    by (rule create_checkpoint_Inr [OF ex_checkpointed_eq]) (simp add: ex_env_def ex_crypto_def)
  then have check: "statement_check ?a = Inr ?a"
    by (simp add: statement_check_def receipt_statement_def ex_receipt_def text_between_def)
  have "\<not> contains_float (receipt_data ?a ex_sig)" "\<not> contains_float (statement_data ?a)"
    by (simp_all add: receipt_data_def statement_data_def)
  then have json: "is_ok (canonical_data (receipt_data ?a ex_sig))" "is_ok (canonical_data (statement_data ?a))"
    by (simp_all only: canonical_data_ok simp_thms)
  have hash: "content_hash ex_crypto (receipt_data ?a ex_sig) = Inr (rc_receipt_hash ex_receipt)"
    using json(1) by (auto simp: content_hash_def canonical_json_def is_ok_iff ex_crypto_def ex_receipt_def receipt_statement_def)
  have "verify_anchor_signature ex_env ?a ex_sig ex_pub = Inr ()"
    using json(2) by (auto simp: verify_anchor_signature_def decode_b64_def ex_env_def canonical_json_def is_ok_iff
        receipt_statement_def ex_pub_def ex_sig_def b64_roundtrip)
  then show ?thesis
    using check hash
    by (simp add: signature_reasons_def ex_integrity_settings_def audit_settings.defs ex_receipt_def ex_env_def)
qed

lemma ex_crypto_env: "env_crypto ex_env = ex_crypto"
  by (simp add: ex_env_def)

lemma ex_store_manifest: "checkpoint_manifest ex_crypto (audit_verification_keyring ex_audit_settings)
    (new_checkpoint_id ex_stamps) (sp_now ex_stamps) (tb_events (ig_audit ex_integrity_store)) = Inr (projr ex_checkpoint_manifest)"
  using ex_manifest_ok by (simp add: ex_checkpoint_manifest_def ex_stamps_def ex_integrity_store_def new_checkpoint_id_def)

lemma ex_reads_back: "read_checkpoint_manifest ex_env (ig_objects ex_anchored) ex_row = Inr (projr ex_checkpoint_manifest)"
proof -
  have "env_parse_manifest ex_env x = Inr (projr ex_checkpoint_manifest)" for x
    using ex_manifest_ok by (simp add: ex_env_def)
  with created_reads_back [OF ex_checkpointed_eq] ex_store_manifest show ?thesis
    by (simp add: ex_crypto_env ex_integrity_store_def ex_anchored_def)
qed

lemma ex_anchored_checkpoints: "ig_checkpoints ex_anchored = [ex_row]"
proof -
  have frame: "record_integrity_event C s a i ty q w p sp st = Inr st' \<Longrightarrow> ig_checkpoints st' = ig_checkpoints st"
    for C s a i ty q w p sp st st' by (auto simp: record_integrity_event_def bindR_eq_Inr)
  show ?thesis
    using ex_checkpointed_eq
    by (auto simp: create_checkpoint_def bindR_eq_Inr Let_def ex_integrity_store_def ex_anchored_def dest!: frame split: if_splits)
qed

lemma ex_extends: "audit_extends ex_crypto (audit_verification_keyring ex_audit_settings) ex_table (ig_audit ex_anchored)"
  using create_checkpoint_extends [OF ex_checkpointed_eq, of "audit_verification_keyring ex_audit_settings"]
  by (simp add: ex_crypto_env ex_integrity_store_def ex_anchored_def audit_verification_keyring_def)

lemma ex_status_valid: "\<exists>status. anchor_status ex_env ex_integrity_settings 30000000 ex_anchored = Inr status
    \<and> st_valid status \<and> st_checkpoint_hash status = Some (ck_checkpoint_hash ex_row)"
proof -
  let ?K = "audit_verification_keyring ex_audit_settings"
  have history: "current_audit_reasons ex_crypto ?K (projr ex_checkpoint_manifest) (tb_events (ig_audit ex_anchored)) = Inr []"
    using honest_accepted [OF audit_reachable_inv [OF ex_table_reachable(1)] _ ex_extends] ex_store_manifest
    by (simp add: ex_integrity_store_def)
  have "find (\<lambda>c. ck_id c = rc_checkpoint_id ex_receipt) (ig_checkpoints ex_anchored) = Some ex_row"
    by (simp add: ex_anchored_checkpoints ex_receipt_def)
  moreover have "ig_receipts ex_anchored = [ex_receipt]" by (simp add: ex_anchored_def)
  moreover have "audit_anchor_configured ex_integrity_settings" "the (audit_anchor_max_age_seconds ex_integrity_settings) = 60"
    by (simp_all add: audit_anchor_configured_def ex_integrity_settings_def audit_settings.defs)
  moreover have "rc_anchored_at ex_receipt = 0" by (simp add: ex_receipt_def)
  ultimately show ?thesis
    using ex_reads_back history ex_anchor_signature
    by (simp add: anchor_status_def manifest_or_reason_def whole_seconds_def ex_crypto_env Let_def)
qed

theorem anchored_history_intact_witness:
  "history_kept ex_crypto (chain_of ''project'' ''p1'' (tb_events ex_table)) (chain_of ''project'' ''p1'' (tb_events (ig_audit ex_anchored)))"
proof -
  obtain status where "anchor_status ex_env ex_integrity_settings 30000000 ex_anchored = Inr status" "st_valid status"
    "st_checkpoint_hash status = Some (ck_checkpoint_hash ex_row)" using ex_status_valid by blast
  from anchored_history_intact [OF ex_checkpointed_eq this] obtain m m' where
    "read_checkpoint_manifest ex_env (ig_objects ex_anchored) ex_row = Inr m'"
    "checkpoint_manifest ex_crypto (audit_verification_keyring ex_audit_settings)
      (new_checkpoint_id ex_stamps) (sp_now ex_stamps) (tb_events (ig_audit ex_integrity_store)) = Inr m"
    and *: "collision ex_crypto (manifest_text m) (manifest_text m')
      \<or> (\<forall>ty i. history_kept ex_crypto (chain_of ty i (tb_events ex_table)) (chain_of ty i (tb_events (ig_audit ex_anchored))))"
    by (auto simp: ex_crypto_env ex_integrity_store_def ex_anchored_checkpoints)
  then have "m = m'" using ex_reads_back ex_store_manifest by simp
  with * show ?thesis by (simp add: collision_def)
qed

theorem honest_history_accepted_witness:
  "current_audit_reasons ex_crypto (audit_verification_keyring ex_audit_settings) (projr ex_checkpoint_manifest)
     (tb_events (ig_audit ex_anchored)) = Inr [] \<and> length (tb_events ex_table) = 1"
  using honest_history_accepted [OF ex_table_reachable(1) ex_manifest_ok [unfolded ex_checkpoint_manifest_def] ex_extends]
    arg_cong [OF ex_table_events, of length]
  by (simp add: ex_checkpoint_manifest_def)

end
