(* ===== verification/TG_Documents.thy ===== *)
theory TG_Documents
  imports TG_Json
begin

text \<open>
  \<open>domain/document_graph.py\<close>: the checks of a document set (one current revision per logical
  document, resolved references, acyclic supersession, one project identity), and
  \<open>domain/reconciliation.py\<close>: agreement of independent observations of a field.
\<close>

subsection \<open>The document graph\<close>

record document_node =
  dn_document_id :: string
  dn_revision_id :: string
  dn_logical_key :: string
  dn_revision_label :: string
  dn_issue_date :: "int option"
  dn_is_current :: bool
  dn_cancelled :: bool
  dn_supersedes_revision_id :: "string option"
  dn_referenced_logical_keys :: "string fset"
  dn_project_code :: "string option"
  dn_object_name :: "string option"

record document_graph_validation =
  dg_passed :: bool
  dg_findings :: "validation_finding list"

definition graph_finding :: "FindingCode \<Rightarrow> string \<Rightarrow> string list \<Rightarrow> validation_finding" where
  "graph_finding code message ids = vfinding code Severity.BLOCKER message ids"

definition current_nodes :: "document_node list \<Rightarrow> document_node list" where
  "current_nodes nodes = filter (\<lambda>n. dn_is_current n \<and> \<not> dn_cancelled n) nodes"

definition ambiguous_findings :: "document_node list \<Rightarrow> validation_finding list" where
  "ambiguous_findings nodes = concat (map (\<lambda>k.
     let current = filter (\<lambda>n. dn_logical_key n = k) (current_nodes nodes) in
     if length current \<noteq> 1
     then [graph_finding FindingCode.DOCUMENT_REVISION_AMBIGUOUS
             (''Logical document has multiple current revisions: '' @ k) (map dn_revision_id current)]
     else []) (sort (remdups (map dn_logical_key (current_nodes nodes)))))"

definition reference_findings :: "document_node list \<Rightarrow> validation_finding list" where
  "reference_findings nodes = concat (map (\<lambda>n.
     let missing = sorted_list_of_fset (dn_referenced_logical_keys n |-| fset_of_list (map dn_logical_key (current_nodes nodes))) in
     if missing \<noteq> []
     then [graph_finding FindingCode.DOCUMENT_REFERENCE_MISSING
             ''Current document references unavailable applications/documents'' (dn_revision_id n # missing)]
     else []) (current_nodes nodes))"

text \<open>The walk along supersession from a revision: \<open>Some visited\<close> when it comes back to a revision
  it has visited, \<open>None\<close> when it leaves the given revisions.\<close>

function walk :: "document_node list \<Rightarrow> string list \<Rightarrow> string option \<Rightarrow> string list option" where
  "walk nodes visited None = None"
| "walk nodes visited (Some cursor) = (case dict_by dn_revision_id nodes cursor of
     None \<Rightarrow> None
   | Some node \<Rightarrow> if cursor \<in> set visited then Some visited
       else walk nodes (cursor # visited) (dn_supersedes_revision_id node))"
  by pat_completeness auto

termination
proof (relation "measure (\<lambda>(nodes, visited, _). card (dn_revision_id ` set nodes - set visited))", goal_cases)
  case (2 nodes visited cursor node)
  then have "cursor \<in> dn_revision_id ` set nodes - set visited" by (auto dest: dict_by_Some)
  then have "dn_revision_id ` set nodes - insert cursor (set visited) \<subset> dn_revision_id ` set nodes - set visited" by auto
  then show ?case by (simp add: psubset_card_mono)
qed simp

definition cycle_findings :: "document_node list \<Rightarrow> validation_finding list" where
  "cycle_findings nodes = concat (map (\<lambda>start. case walk nodes [] (Some start) of
     None \<Rightarrow> []
   | Some visited \<Rightarrow> [graph_finding FindingCode.DOCUMENT_GRAPH_CYCLE ''Document supersession graph contains a cycle'' (sort visited)])
     (from_keys (map dn_revision_id nodes)))"

definition identities :: "(document_node \<Rightarrow> string option) \<Rightarrow> document_node list \<Rightarrow> string fset" where
  "identities f nodes = fset_of_list (List.map_filter (\<lambda>n. if str_true (f n) then Some (normal_text (the (f n))) else None)
     (current_nodes nodes))"

definition identity_findings :: "(document_node \<Rightarrow> string option) \<Rightarrow> string \<Rightarrow> document_node list \<Rightarrow> validation_finding list" where
  "identity_findings f message nodes =
     (if fcard (identities f nodes) > 1
      then [graph_finding FindingCode.DOCUMENT_IDENTITY_MISMATCH message (sorted_list_of_fset (identities f nodes))] else [])"

text \<open>\<open>{key(x): x for x in xs}.values()\<close>.\<close>

definition dedup_by :: "('a \<Rightarrow> 'k) \<Rightarrow> 'a list \<Rightarrow> 'a list" where
  "dedup_by key xs = map (\<lambda>k. the (dict_by key xs k)) (from_keys (map key xs))"

definition validate_document_graph :: "document_node list \<Rightarrow> document_graph_validation" where
  "validate_document_graph nodes =
     (let findings = ambiguous_findings nodes @ reference_findings nodes @ cycle_findings nodes
            @ identity_findings dn_project_code ''Current documents contain different project codes'' nodes
            @ identity_findings dn_object_name ''Current documents contain different object names'' nodes;
          result = dedup_by (\<lambda>f. (vf_code f, vf_entity_ids f)) findings
      in \<lparr>dg_passed = \<not> list_ex (\<lambda>f. vf_severity f = Severity.BLOCKER) result, dg_findings = result\<rparr>)"

subsection \<open>What the graph check decides\<close>

definition supersedes :: "document_node list \<Rightarrow> (string \<times> string) set" where
  "supersedes nodes = {(r, s). \<exists>n. dict_by dn_revision_id nodes r = Some n \<and> dn_supersedes_revision_id n = Some s
     \<and> dict_by dn_revision_id nodes s \<noteq> None}"

lemma supersedes_functional: "(r, s) \<in> supersedes nodes \<Longrightarrow> (r, t) \<in> supersedes nodes \<Longrightarrow> s = t"
  by (auto simp: supersedes_def)

lemma walk_Some_cycle:
  "walk nodes visited cursor = Some ws \<Longrightarrow> (\<And>v. v \<in> set visited \<Longrightarrow> (case cursor of None \<Rightarrow> True
      | Some c \<Rightarrow> dict_by dn_revision_id nodes c = None \<or> (v, c) \<in> (supersedes nodes)\<^sup>+))
   \<Longrightarrow> \<exists>x. (x, x) \<in> (supersedes nodes)\<^sup>+"
proof (induction nodes visited cursor rule: walk.induct)
  case (2 nodes visited cursor)
  then obtain node where node: "dict_by dn_revision_id nodes cursor = Some node"
    by (auto split: option.splits)
  have reach: "v \<in> set visited \<Longrightarrow> (v, cursor) \<in> (supersedes nodes)\<^sup>+" for v
    using 2(3) [of v] node by simp
  show ?case
  proof (cases "cursor \<in> set visited")
    case True
    with reach show ?thesis by blast
  next
    case False
    have w: "walk nodes (cursor # visited) (dn_supersedes_revision_id node) = Some ws"
      using 2(2) False by (simp add: node)
    show ?thesis
    proof (rule 2(1) [OF node False w])
      fix v assume v: "v \<in> set (cursor # visited)"
      show "case dn_supersedes_revision_id node of None \<Rightarrow> True
        | Some c \<Rightarrow> dict_by dn_revision_id nodes c = None \<or> (v, c) \<in> (supersedes nodes)\<^sup>+"
      proof (cases "dn_supersedes_revision_id node")
        case (Some c)
        then have "dict_by dn_revision_id nodes c = None \<or> (cursor, c) \<in> supersedes nodes"
          using node by (auto simp: supersedes_def)
        with Some v reach show ?thesis by (auto intro: trancl_into_trancl)
      qed simp
    qed
  qed
qed simp

lemma walk_None_acyclic: "walk nodes visited (Some c) = None \<Longrightarrow> (c, c) \<notin> (supersedes nodes)\<^sup>+"
proof (induction nodes visited "Some c" arbitrary: c rule: walk.induct)
  case (2 nodes visited cursor)
  show ?case
  proof
    assume cycle: "(cursor, cursor) \<in> (supersedes nodes)\<^sup>+"
    then obtain s where s: "(cursor, s) \<in> supersedes nodes" "(s, cursor) \<in> (supersedes nodes)\<^sup>*"
      by (meson tranclD)
    then obtain node where node: "dict_by dn_revision_id nodes cursor = Some node" "dn_supersedes_revision_id node = Some s"
      by (auto simp: supersedes_def)
    then have "cursor \<notin> set visited" "walk nodes (cursor # visited) (Some s) = None"
      using 2(2) by (auto split: if_splits)
    with 2(1) node have "(s, s) \<notin> (supersedes nodes)\<^sup>+" by simp
    moreover have "(s, s) \<in> (supersedes nodes)\<^sup>+" using s by (rule rtrancl_into_trancl1 [rotated])
    ultimately show False ..
  qed
qed

lemma cycle_findings_Nil: "cycle_findings nodes = [] \<longleftrightarrow> acyclic (supersedes nodes)"
proof
  assume "cycle_findings nodes = []"
  then have none: "r \<in> dn_revision_id ` set nodes \<Longrightarrow> walk nodes [] (Some r) = None" for r
    by (auto simp: cycle_findings_def split: option.splits)
  show "acyclic (supersedes nodes)"
  proof (rule acyclicI, intro allI notI)
    fix x assume "(x, x) \<in> (supersedes nodes)\<^sup>+"
    moreover from this obtain s where "(x, s) \<in> supersedes nodes" by (meson tranclD)
    then have "x \<in> dn_revision_id ` set nodes" by (auto simp: supersedes_def dest: dict_by_Some)
    ultimately show False using none walk_None_acyclic by blast
  qed
next
  assume "acyclic (supersedes nodes)"
  then have "walk nodes [] (Some r) = None" for r
    using walk_Some_cycle [of nodes "[]" "Some r"] by (cases "walk nodes [] (Some r)") (auto simp: acyclic_def)
  then show "cycle_findings nodes = []" by (simp add: cycle_findings_def)
qed

definition single_current :: "document_node list \<Rightarrow> bool" where
  "single_current nodes \<longleftrightarrow> (\<forall>k. length (filter (\<lambda>n. dn_logical_key n = k) (current_nodes nodes)) \<le> 1)"

definition references_resolved :: "document_node list \<Rightarrow> bool" where
  "references_resolved nodes \<longleftrightarrow> (\<forall>n \<in> set (current_nodes nodes). \<forall>k. k |\<in>| dn_referenced_logical_keys n
     \<longrightarrow> (\<exists>m \<in> set (current_nodes nodes). dn_logical_key m = k))"

lemma ambiguous_findings_Nil: "ambiguous_findings nodes = [] \<longleftrightarrow> single_current nodes"
proof -
  have "length (filter (\<lambda>n. dn_logical_key n = k) (current_nodes nodes)) = 0 \<longleftrightarrow> k \<notin> dn_logical_key ` set (current_nodes nodes)" for k
    by (auto simp: filter_empty_conv)
  then have "(\<forall>k \<in> dn_logical_key ` set (current_nodes nodes). length (filter (\<lambda>n. dn_logical_key n = k) (current_nodes nodes)) = 1)
      \<longleftrightarrow> (\<forall>k. length (filter (\<lambda>n. dn_logical_key n = k) (current_nodes nodes)) \<le> 1)"
    by (metis One_nat_def le_Suc_eq le_zero_eq zero_le)
  moreover have "ambiguous_findings nodes = [] \<longleftrightarrow>
      (\<forall>k \<in> dn_logical_key ` set (current_nodes nodes). length (filter (\<lambda>n. dn_logical_key n = k) (current_nodes nodes)) = 1)"
    unfolding ambiguous_findings_def concat_map_Nil Let_def by simp
  ultimately show ?thesis unfolding single_current_def by blast
qed

lemma reference_findings_Nil: "reference_findings nodes = [] \<longleftrightarrow> references_resolved nodes"
proof -
  have "reference_findings nodes = [] \<longleftrightarrow> (\<forall>n \<in> set (current_nodes nodes).
      dn_referenced_logical_keys n |-| fset_of_list (map dn_logical_key (current_nodes nodes)) = {||})"
    unfolding reference_findings_def concat_map_Nil Let_def by (simp add: sorted_list_of_fset_Nil)
  moreover have "A |-| B = {||} \<longleftrightarrow> (\<forall>k. k |\<in>| A \<longrightarrow> k |\<in>| B)" for A B :: "string fset" by auto
  moreover have "k |\<in>| fset_of_list (map dn_logical_key (current_nodes nodes))
      \<longleftrightarrow> (\<exists>m \<in> set (current_nodes nodes). dn_logical_key m = k)" for k
    unfolding fset_of_list_elem by auto
  ultimately show ?thesis by (simp add: references_resolved_def)
qed

definition one_identity :: "(document_node \<Rightarrow> string option) \<Rightarrow> document_node list \<Rightarrow> bool" where
  "one_identity f nodes \<longleftrightarrow> (\<forall>n \<in> set (current_nodes nodes). \<forall>m \<in> set (current_nodes nodes).
     str_true (f n) \<longrightarrow> str_true (f m) \<longrightarrow> normal_text (the (f n)) = normal_text (the (f m)))"

lemma identity_findings_Nil: "identity_findings f message nodes = [] \<longleftrightarrow> one_identity f nodes"
proof -
  have elem: "x |\<in>| identities f nodes \<longleftrightarrow> (\<exists>n \<in> set (current_nodes nodes). str_true (f n) \<and> normal_text (the (f n)) = x)" for x
    by (auto simp: identities_def fset_of_list_elem List.map_filter_def image_iff)
  have small: "fcard A \<le> 1 \<longleftrightarrow> (\<forall>x y. x |\<in>| A \<longrightarrow> y |\<in>| A \<longrightarrow> x = y)" for A :: "string fset"
    unfolding fcard.rep_eq by (simp add: card_le_Suc0_iff_eq) blast
  have "identity_findings f message nodes = [] \<longleftrightarrow> fcard (identities f nodes) \<le> 1"
    by (auto simp: identity_findings_def)
  then show ?thesis unfolding small elem one_identity_def by blast
qed

lemma set_dedup_by: "set (dedup_by key xs) \<subseteq> set xs"
proof
  fix y assume "y \<in> set (dedup_by key xs)"
  then obtain x where x: "x \<in> set xs" "y = the (dict_by key xs (key x))" by (auto simp: dedup_by_def)
  then have "dict_by key xs (key x) \<noteq> None" by (auto simp: dict_by_None)
  with x show "y \<in> set xs" by (auto dest: dict_by_Some)
qed

lemma dedup_by_Nil: "dedup_by key xs = [] \<longleftrightarrow> xs = []"
  by (simp add: dedup_by_def from_keys_def)

lemma dedup_by_distinct: "distinct (map key (dedup_by key xs))"
proof -
  have "key (the (dict_by key xs k)) = k" if "k \<in> set (from_keys (map key xs))" for k
  proof -
    have "dict_by key xs k \<noteq> None" using that by (auto simp: dict_by_None)
    then show ?thesis by (auto dest: dict_by_Some)
  qed
  then have "map key (dedup_by key xs) = from_keys (map key xs)" by (auto simp: dedup_by_def intro: map_idI)
  then show ?thesis by simp
qed

lemma graph_findings_severity:
  "f \<in> set (dg_findings (validate_document_graph nodes)) \<Longrightarrow> vf_severity f = Severity.BLOCKER"
proof -
  assume "f \<in> set (dg_findings (validate_document_graph nodes))"
  then have "f \<in> set (ambiguous_findings nodes @ reference_findings nodes @ cycle_findings nodes
            @ identity_findings dn_project_code ''Current documents contain different project codes'' nodes
            @ identity_findings dn_object_name ''Current documents contain different object names'' nodes)"
    using set_dedup_by by (fastforce simp: validate_document_graph_def Let_def)
  then show ?thesis
    by (auto simp: ambiguous_findings_def reference_findings_def cycle_findings_def identity_findings_def Let_def graph_finding_def
        split: if_splits option.splits)
qed

text \<open>C29. The document graph check is exact: it passes when, and only when, every logical document has at
  most one current revision, every reference of a current document is to a current document, the
  supersession relation among the given revisions has no cycle, and the current documents name at most one
  project code and one object; otherwise it reports blocking findings, no two with the same code and entities.\<close>

theorem document_graph_exact:
  "(dg_passed (validate_document_graph nodes) \<longleftrightarrow>
      single_current nodes \<and> references_resolved nodes \<and> acyclic (supersedes nodes) \<and> one_identity dn_project_code nodes \<and> one_identity dn_object_name nodes)
   \<and> (dg_passed (validate_document_graph nodes) \<longleftrightarrow> dg_findings (validate_document_graph nodes) = [])
   \<and> distinct (map (\<lambda>f. (vf_code f, vf_entity_ids f)) (dg_findings (validate_document_graph nodes)))"
proof -
  let ?all = "ambiguous_findings nodes @ reference_findings nodes @ cycle_findings nodes
            @ identity_findings dn_project_code ''Current documents contain different project codes'' nodes
            @ identity_findings dn_object_name ''Current documents contain different object names'' nodes"
  have f: "dg_findings (validate_document_graph nodes) = dedup_by (\<lambda>f. (vf_code f, vf_entity_ids f)) ?all"
    and p: "dg_passed (validate_document_graph nodes) \<longleftrightarrow> \<not> list_ex (\<lambda>f. vf_severity f = Severity.BLOCKER) (dg_findings (validate_document_graph nodes))"
    by (simp_all add: validate_document_graph_def Let_def)
  have passed: "dg_passed (validate_document_graph nodes) \<longleftrightarrow> dg_findings (validate_document_graph nodes) = []"
    using graph_findings_severity [of _ nodes] by (cases "dg_findings (validate_document_graph nodes)") (auto simp: p)
  moreover have "dg_findings (validate_document_graph nodes) = [] \<longleftrightarrow> ?all = []" unfolding f dedup_by_Nil ..
  moreover have "distinct (map (\<lambda>f. (vf_code f, vf_entity_ids f)) (dg_findings (validate_document_graph nodes)))"
    unfolding f by (rule dedup_by_distinct)
  ultimately show ?thesis
    by (simp only: append_is_Nil_conv ambiguous_findings_Nil reference_findings_Nil cycle_findings_Nil identity_findings_Nil)
qed

definition ex_nodes :: "document_node list" where
  "ex_nodes = [\<lparr>dn_document_id = ''d'', dn_revision_id = ''r1'', dn_logical_key = ''k'', dn_revision_label = ''A'', dn_issue_date = None,
     dn_is_current = True, dn_cancelled = False, dn_supersedes_revision_id = Some ''r1'', dn_referenced_logical_keys = {||},
     dn_project_code = None, dn_object_name = None\<rparr>]"

lemma self_superseding_revision: "map vf_code (dg_findings (validate_document_graph ex_nodes)) = [FindingCode.DOCUMENT_GRAPH_CYCLE]"
  by code_simp

subsection \<open>Reconciliation of observations\<close>
















end
