(* ===== verification/TG_Requirements.thy ===== *)
theory TG_Requirements
  imports TG_Json
begin

text \<open>
  The deterministic checks of what a project must contain: \<open>domain/scope.py\<close> (companion work of a
  work breakdown), \<open>domain/contract.py\<close> (contract terms), \<open>domain/passport.py\<close> (project facts) and
  \<open>domain/nomenclature.py\<close> (catalogue items).
\<close>

subsection \<open>Scope of work\<close>

record scope_rule =
  sr_rule_id :: string
  sr_rule_pack_version_id :: string
  sr_trigger_any_work_codes :: "string fset"
  sr_trigger_all_work_codes :: "string fset"
  sr_required_work_codes :: "string fset"
  sr_required_project_tags :: "string fset"
  sr_severity :: Severity
  sr_rationale :: string

record scope_finding =
  sf_finding_id :: string
  sf_rule_id :: string
  sf_wbs_node_id :: string
  sf_required_work_code :: string
  sf_severity :: Severity
  sf_reason :: string
  sf_supporting_entity_ids :: "string list"
  sf_resolved :: bool
  sf_resolved_by :: "string option"
  sf_resolution_reason :: "string option"

record scope_evaluation =
  se_rule_pack_version_id :: string
  se_evaluated_work_codes :: "string fset"
  se_findings :: "scope_finding list"

definition rule_applies :: "string fset \<Rightarrow> string fset \<Rightarrow> scope_rule \<Rightarrow> bool" where
  "rule_applies present tags r \<longleftrightarrow>
     (sr_trigger_any_work_codes r = {||} \<or> sr_trigger_any_work_codes r |\<inter>| present \<noteq> {||})
     \<and> sr_trigger_all_work_codes r |\<subseteq>| present \<and> sr_required_project_tags r |\<subseteq>| tags"

definition scope_identity :: "scope_rule \<Rightarrow> string \<Rightarrow> string \<Rightarrow> pyval" where
  "scope_identity r wbs_node_id missing_code = PDict [(''rule_id'', PStr (sr_rule_id r)),
     (''wbs_node_id'', PStr wbs_node_id), (''missing_code'', PStr missing_code)]"

definition missing_work :: "(string \<Rightarrow> string) \<Rightarrow> string \<Rightarrow> scope_rule \<Rightarrow> string \<Rightarrow> scope_finding result" where
  "missing_work sha256 wbs_node_id r missing_code =
     bindR (canonical_json (scope_identity r wbs_node_id missing_code)) (\<lambda>text.
       Inr \<lparr>sf_finding_id = ''scope-'' @ take 24 (sha256 text), sf_rule_id = sr_rule_id r, sf_wbs_node_id = wbs_node_id,
            sf_required_work_code = missing_code, sf_severity = sr_severity r, sf_reason = sr_rationale r,
            sf_supporting_entity_ids = [], sf_resolved = False, sf_resolved_by = None, sf_resolution_reason = None\<rparr>)"

definition rule_findings :: "(string \<Rightarrow> string) \<Rightarrow> string \<Rightarrow> string fset \<Rightarrow> string fset \<Rightarrow> scope_rule \<Rightarrow> scope_finding list result" where
  "rule_findings sha256 wbs_node_id present tags r =
     (if rule_applies present tags r
      then mapR (missing_work sha256 wbs_node_id r) (sorted_list_of_fset (sr_required_work_codes r |-| present))
      else Inr [])"

definition evaluate_scope :: "(string \<Rightarrow> string) \<Rightarrow> string \<Rightarrow> string fset \<Rightarrow> string fset \<Rightarrow> scope_rule list
    \<Rightarrow> scope_evaluation result" where
  "evaluate_scope sha256 wbs_node_id present tags rules =
     (if card (sr_rule_pack_version_id ` set rules) \<noteq> 1
      then Inl (ValueError ''Scope evaluation requires exactly one rule-pack version'')
      else bindR (mapR (rule_findings sha256 wbs_node_id present tags) rules) (\<lambda>findings.
        Inr \<lparr>se_rule_pack_version_id = sr_rule_pack_version_id (hd rules), se_evaluated_work_codes = present,
             se_findings = concat findings\<rparr>))"

definition companion_codes :: "string fset" where
  "companion_codes = {|''EARTHWORK_EXCAVATION'', ''TRENCH_SHORING'', ''DEWATERING'', ''BEDDING'', ''MATERIAL_DELIVERY'',
     ''PIPE_INSTALLATION'', ''PIPE_JOINTING'', ''TESTING'', ''FLUSHING'', ''DISINFECTION'', ''BACKFILL'', ''COMPACTION'',
     ''SURPLUS_SOIL_DISPOSAL'', ''SURFACE_REINSTATEMENT'', ''AS_BUILT_DOCUMENTATION''|}"

definition pipeline_companion_rules :: "string \<Rightarrow> scope_rule list" where
  "pipeline_companion_rules rule_pack_version_id =
     [\<lparr>sr_rule_id = ''pipeline-companion-work-completeness'', sr_rule_pack_version_id = rule_pack_version_id,
       sr_trigger_any_work_codes = {|''PIPE_INSTALLATION'', ''PIPELINE_CONSTRUCTION''|}, sr_trigger_all_work_codes = {||},
       sr_required_work_codes = companion_codes, sr_required_project_tags = {||}, sr_severity = Severity.BLOCKER,
       sr_rationale = ''Pipeline work requires each companion activity to be present or explicitly resolved as not applicable with evidence''\<rparr>]"

lemma missing_work_ok: "\<exists>f. missing_work sha256 wbs r code = Inr f \<and> sf_rule_id f = sr_rule_id r \<and> sf_required_work_code f = code
    \<and> sf_severity f = sr_severity r \<and> sf_wbs_node_id f = wbs \<and> \<not> sf_resolved f"
proof -
  have "is_ok (canonical_data (scope_identity r wbs code))" by (simp add: canonical_data_ok scope_identity_def)
  then show ?thesis by (auto simp: missing_work_def canonical_json_def is_ok_iff)
qed

definition scope_gaps :: "string fset \<Rightarrow> string fset \<Rightarrow> scope_rule list \<Rightarrow> (string \<times> string \<times> Severity) list" where
  "scope_gaps present tags rules = concat (map (\<lambda>r. if rule_applies present tags r
     then map (\<lambda>c. (sr_rule_id r, c, sr_severity r)) (sorted_list_of_fset (sr_required_work_codes r |-| present)) else []) rules)"

lemma rule_findings_ok: "\<exists>fs. rule_findings sha256 wbs present tags r = Inr fs
    \<and> map (\<lambda>f. (sf_rule_id f, sf_required_work_code f, sf_severity f)) fs = scope_gaps present tags [r]
    \<and> list_all (\<lambda>f. sf_wbs_node_id f = wbs \<and> \<not> sf_resolved f) fs"
proof -
  have "\<exists>fs. mapR (missing_work sha256 wbs r) cs = Inr fs
      \<and> map (\<lambda>f. (sf_rule_id f, sf_required_work_code f, sf_severity f)) fs = map (\<lambda>c. (sr_rule_id r, c, sr_severity r)) cs
      \<and> list_all (\<lambda>f. sf_wbs_node_id f = wbs \<and> \<not> sf_resolved f) fs" for cs
  proof (induction cs)
    case (Cons c cs)
    then show ?case using missing_work_ok [of sha256 wbs r c] by fastforce
  qed simp
  then show ?thesis by (simp add: rule_findings_def scope_gaps_def)
qed

lemma card_1_hd: "xs \<noteq> [] \<Longrightarrow> (\<forall>x \<in> set xs. f x = v) \<Longrightarrow> card (f ` set xs) = 1"
proof -
  assume "xs \<noteq> []" "\<forall>x \<in> set xs. f x = v"
  then have "f ` set xs = {v}" by (cases xs) auto
  then show ?thesis by simp
qed

text \<open>Scope evaluation against one rule pack is complete: it returns, in rule order, exactly one open
  finding with the rule's severity for every required work code that an applicable rule misses, so it
  is silent precisely when every applicable rule has all its required work; without exactly one rule
  pack version it refuses.\<close>

theorem scope_evaluation_exact:
  assumes "rules \<noteq> []" "\<forall>r \<in> set rules. sr_rule_pack_version_id r = version"
  shows "\<exists>e. evaluate_scope sha256 wbs present tags rules = Inr e \<and> se_rule_pack_version_id e = version
     \<and> map (\<lambda>f. (sf_rule_id f, sf_required_work_code f, sf_severity f)) (se_findings e) = scope_gaps present tags rules
     \<and> list_all (\<lambda>f. sf_wbs_node_id f = wbs \<and> \<not> sf_resolved f) (se_findings e)
     \<and> (se_findings e = [] \<longleftrightarrow> (\<forall>r \<in> set rules. rule_applies present tags r \<longrightarrow> sr_required_work_codes r |\<subseteq>| present))"
proof -
  have gaps: "scope_gaps present tags (r # rs) = scope_gaps present tags [r] @ scope_gaps present tags rs" for r rs
    by (simp add: scope_gaps_def)
  have "\<exists>fss. mapR (rule_findings sha256 wbs present tags) rs = Inr fss
      \<and> map (\<lambda>f. (sf_rule_id f, sf_required_work_code f, sf_severity f)) (concat fss) = scope_gaps present tags rs
      \<and> list_all (\<lambda>f. sf_wbs_node_id f = wbs \<and> \<not> sf_resolved f) (concat fss)" for rs
  proof (induction rs)
    case Nil
    then show ?case by (simp add: scope_gaps_def)
  next
    case (Cons r rs)
    then obtain fss where fss: "mapR (rule_findings sha256 wbs present tags) rs = Inr fss"
      "map (\<lambda>f. (sf_rule_id f, sf_required_work_code f, sf_severity f)) (concat fss) = scope_gaps present tags rs"
      "list_all (\<lambda>f. sf_wbs_node_id f = wbs \<and> \<not> sf_resolved f) (concat fss)" by blast
    obtain fs where "rule_findings sha256 wbs present tags r = Inr fs"
      "map (\<lambda>f. (sf_rule_id f, sf_required_work_code f, sf_severity f)) fs = scope_gaps present tags [r]"
      "list_all (\<lambda>f. sf_wbs_node_id f = wbs \<and> \<not> sf_resolved f) fs"
      using rule_findings_ok [of sha256 wbs present tags r] by blast
    with fss show ?case by (intro exI [of _ "fs # fss"]) (simp add: gaps [of r rs])
  qed
  then obtain fss where fss: "mapR (rule_findings sha256 wbs present tags) rules = Inr fss"
    "map (\<lambda>f. (sf_rule_id f, sf_required_work_code f, sf_severity f)) (concat fss) = scope_gaps present tags rules"
    "list_all (\<lambda>f. sf_wbs_node_id f = wbs \<and> \<not> sf_resolved f) (concat fss)" by blast
  have "concat fss = [] \<longleftrightarrow> scope_gaps present tags rules = []" using fss(2) by (metis map_is_Nil_conv)
  also have "\<dots> \<longleftrightarrow> (\<forall>r \<in> set rules. rule_applies present tags r \<longrightarrow> sr_required_work_codes r |-| present = {||})"
    unfolding scope_gaps_def concat_map_Nil by (auto simp: sorted_list_of_fset_Nil)
  also have "\<dots> \<longleftrightarrow> (\<forall>r \<in> set rules. rule_applies present tags r \<longrightarrow> sr_required_work_codes r |\<subseteq>| present)"
    by auto
  finally have silent: "concat fss = [] \<longleftrightarrow> (\<forall>r \<in> set rules. rule_applies present tags r \<longrightarrow> sr_required_work_codes r |\<subseteq>| present)" .
  have "sr_rule_pack_version_id (hd rules) = version" using assms by simp
  then show ?thesis
    using fss silent card_1_hd [OF assms]
    by (intro exI [of _ "\<lparr>se_rule_pack_version_id = version, se_evaluated_work_codes = present, se_findings = concat fss\<rparr>"])
      (simp add: evaluate_scope_def)
qed

theorem scope_evaluation_exact_witness:
  "\<exists>e. evaluate_scope id ''w'' {|''PIPE_INSTALLATION''|} {||} (pipeline_companion_rules ''v1'') = Inr e
     \<and> length (se_findings e) = 14"
proof -
  have "length (scope_gaps {|''PIPE_INSTALLATION''|} {||} (pipeline_companion_rules ''v1'')) = 14" by code_simp
  moreover obtain e where "evaluate_scope id ''w'' {|''PIPE_INSTALLATION''|} {||} (pipeline_companion_rules ''v1'') = Inr e"
    "map (\<lambda>f. (sf_rule_id f, sf_required_work_code f, sf_severity f)) (se_findings e)
       = scope_gaps {|''PIPE_INSTALLATION''|} {||} (pipeline_companion_rules ''v1'')"
    using scope_evaluation_exact [of "pipeline_companion_rules ''v1''" "''v1''" id "''w''" "{|''PIPE_INSTALLATION''|}" "{||}"]
    by (auto simp: pipeline_companion_rules_def)
  ultimately show ?thesis by (metis length_map)
qed

subsection \<open>Contract terms\<close>

record contract_requirements_policy =
  cp_required_term_kinds :: "ContractTermKind fset"
  cp_independently_verified_term_kinds :: "ContractTermKind fset"
  cp_evidence_field_names :: "(ContractTermKind \<times> string) list"
  cp_review_role :: ActorRole

definition normalized_name :: "string \<Rightarrow> bool" where
  "normalized_name s \<longleftrightarrow> s \<noteq> [] \<and> strip s = s \<and> length s \<le> 200"

definition policy_is_closed_and_reviewable :: "contract_requirements_policy \<Rightarrow> contract_requirements_policy result" where
  "policy_is_closed_and_reviewable p =
     (if \<not> cp_independently_verified_term_kinds p |\<subseteq>| cp_required_term_kinds p
      then Inl (ValueError ''Independent contract terms must be a subset of required terms'')
      else if fset_of_list (map fst (cp_evidence_field_names p)) \<noteq> cp_required_term_kinds p
      then Inl (ValueError ''Every required contract term must have exactly one evidence field'')
      else if list_ex (\<lambda>kv. \<not> normalized_name (snd kv)) (cp_evidence_field_names p)
      then Inl (ValueError ''Contract evidence field names must be normalized'')
      else if \<not> distinct (map snd (cp_evidence_field_names p))
      then Inl (ValueError ''Contract evidence field names must be unique'')
      else if cp_review_role p \<noteq> ActorRole.REVIEWER \<and> cp_review_role p \<noteq> ActorRole.TECHNICAL_EXPERT
      then Inl (ValueError ''Contract review role must be REVIEWER or TECHNICAL_EXPERT'')
      else Inr p)"

record contract_term =
  ct_term_id :: string
  ct_kind :: ContractTermKind
  ct_value :: string
  ct_observation_ids :: "string list"
  ct_independence_source_ids :: "string list"
  ct_verified :: bool
  ct_cost_impact_resolved :: bool
  ct_cost_impact_amount :: "decimal option"
  ct_cost_impact_currency :: "string option"
  ct_cost_input_id :: "string option"
  ct_approved_assumption_id :: "string option"
  ct_derived_cost_model_id :: "string option"

record contract_assessment =
  ca_assessment_version :: string
  ca_terms :: "contract_term list"
  ca_required_term_kinds :: "ContractTermKind fset"





subsection \<open>The project passport\<close>

record passport_requirements_policy =
  pp_required_fields :: "string fset"
  pp_independently_verified_fields :: "string fset"
  pp_optional_fields :: "string fset"
  pp_review_role :: ActorRole

definition fields_are_normalized :: "string fset \<Rightarrow> string fset result" where
  "fields_are_normalized vs = (if list_ex (\<lambda>v. \<not> normalized_name v) (sorted_list_of_fset vs)
     then Inl (ValueError ''Passport field names must be normalized and bounded'') else Inr vs)"

definition declared_fields :: "passport_requirements_policy \<Rightarrow> string fset" where
  "declared_fields p = pp_required_fields p |\<union>| pp_optional_fields p"

definition policy_is_closed :: "passport_requirements_policy \<Rightarrow> passport_requirements_policy result" where
  "policy_is_closed p =
     (if \<not> pp_independently_verified_fields p |\<subseteq>| declared_fields p
      then Inl (ValueError ''Independently verified passport fields must be declared as required or optional'')
      else if pp_required_fields p |\<inter>| pp_optional_fields p \<noteq> {||}
      then Inl (ValueError ''Passport required and optional fields must not overlap'')
      else if pp_review_role p \<noteq> ActorRole.REVIEWER \<and> pp_review_role p \<noteq> ActorRole.TECHNICAL_EXPERT
      then Inl (ValueError ''Passport review role must be REVIEWER or TECHNICAL_EXPERT'')
      else Inr p)"

record passport_fact =
  pf_field_name :: string
  pf_value :: pyval
  pf_unit :: "string option"
  pf_observation_ids :: "string list"
  pf_independence_source_ids :: "string list"
  pf_status :: VerificationStatus

record project_passport =
  pt_project_id :: string
  pt_facts :: "passport_fact list"
  pt_passport_version :: string




subsection \<open>What the two checks decide\<close>









subsection \<open>Catalogue items\<close>

text \<open>\<open>_LEXEME_PATTERN.findall\<close> on ASCII text: a number with an optional decimal part, or a run of
  letters.\<close>

definition is_digit_char :: "char \<Rightarrow> bool" where
  "is_digit_char c = (let n = of_char c :: nat in 48 \<le> n \<and> n \<le> 57)"

definition is_letter_char :: "char \<Rightarrow> bool" where
  "is_letter_char c = (let n = of_char c :: nat in (65 \<le> n \<and> n \<le> 90) \<or> (97 \<le> n \<and> n \<le> 122))"

text \<open>The number a text starts with, and the text after it.\<close>

definition number_prefix :: "string \<Rightarrow> string \<times> string" where
  "number_prefix s = (let w = takeWhile is_digit_char s; t = dropWhile is_digit_char s in
     case t of
       c # d # u \<Rightarrow> if c = CHR ''.'' \<and> is_digit_char d
         then (w @ c # takeWhile is_digit_char (d # u), dropWhile is_digit_char (d # u)) else (w, t)
     | _ \<Rightarrow> (w, t))"

lemma number_prefix_length: "is_digit_char c \<Longrightarrow> length (snd (number_prefix (c # s))) < Suc (length s)"
proof -
  assume "is_digit_char c"
  then have "length (dropWhile is_digit_char (c # s)) \<le> length s" by (simp add: length_dropWhile_le)
  moreover have "length (snd (case t of
       c # d # u \<Rightarrow> if c = CHR ''.'' \<and> is_digit_char d
         then (w @ c # takeWhile is_digit_char (d # u), dropWhile is_digit_char (d # u)) else (w, t)
     | _ \<Rightarrow> (w, t))) \<le> length t" for w t
  proof (cases t rule: remdups_adj.cases)
    case (3 e d u)
    have "length (dropWhile is_digit_char (d # u)) \<le> length (d # u)" by (rule length_dropWhile_le)
    with 3 show ?thesis by (simp del: dropWhile.simps)
  qed simp_all
  ultimately show ?thesis unfolding number_prefix_def Let_def by (meson le_imp_less_Suc order_trans)
qed

function findall_lexemes :: "string \<Rightarrow> string list" where
  "findall_lexemes [] = []"
| "findall_lexemes (c # s) =
     (if is_digit_char c then fst (number_prefix (c # s)) # findall_lexemes (snd (number_prefix (c # s)))
      else if is_letter_char c
      then takeWhile is_letter_char (c # s) # findall_lexemes (dropWhile is_letter_char (c # s))
      else findall_lexemes s)"
  by pat_completeness auto

termination
proof (relation "measure length", goal_cases)
  case (2 c s)
  then show ?case using number_prefix_length by simp
next
  case (3 c s)
  then show ?case using length_dropWhile_le [of is_letter_char s] by (simp add: less_Suc_eq_le)
qed simp_all

definition ordered_lexemes :: "string \<Rightarrow> string list" where
  "ordered_lexemes value = filter (\<lambda>w. length w > 1 \<or> list_all is_digit_char w)
     (findall_lexemes (map (\<lambda>c. if c = CHR '','' then CHR ''.'' else c) (casefold value)))"

definition contains_sequence :: "string list \<Rightarrow> string list \<Rightarrow> bool" where
  "contains_sequence source candidate \<longleftrightarrow> candidate \<noteq> []
     \<and> list_ex (\<lambda>i. take (length candidate) (drop i source) = candidate) [0..<Suc (length source) - length candidate]"

definition is_number :: "string \<Rightarrow> bool" where
  "is_number w \<longleftrightarrow> w \<noteq> [] \<and> is_digit_char (hd w) \<and> number_prefix w = (w, [])"

definition critical_value_mentioned :: "string list \<Rightarrow> string \<Rightarrow> string \<Rightarrow> bool" where
  "critical_value_mentioned source attribute v =
     (let value_terms = ordered_lexemes v in
      if \<not> contains_sequence source value_terms then False
      else if list_ex (\<lambda>w. \<not> is_number w) value_terms then True
      else contains_sequence source (ordered_lexemes attribute))"

record catalog_retrieval =
  ce_exact_identifier_mentioned :: bool
  ce_matched_terms :: "string list"
  ce_matched_critical_attributes :: "string list"

definition catalog_retrieval_evidence :: "string \<Rightarrow> string \<Rightarrow> (string \<times> string) list \<Rightarrow> string list \<Rightarrow> catalog_retrieval result" where
  "catalog_retrieval_evidence source_name canonical_item_id attributes critical_attributes =
     (let source = ordered_lexemes source_name; identifier = ordered_lexemes canonical_item_id;
          attribute_terms = concat (map (\<lambda>kv. ordered_lexemes (fst kv) @ ordered_lexemes (snd kv)) attributes) in
      bindR (mapR (\<lambda>a. case map_of attributes a of None \<Rightarrow> Inl (KeyError a)
               | Some v \<Rightarrow> Inr (a, critical_value_mentioned source a v)) critical_attributes) (\<lambda>mentioned.
        Inr \<lparr>ce_exact_identifier_mentioned = contains_sequence source identifier,
             ce_matched_terms = sort (remdups (filter (\<lambda>w. w \<in> set identifier \<or> w \<in> set attribute_terms) source)),
             ce_matched_critical_attributes = sort (map fst (filter snd mentioned))\<rparr>))"

record nomenclature_match =
  nm_match_id :: string
  nm_source_item_id :: string
  nm_canonical_item_id :: "string option"
  nm_match_class :: MatchClass
  nm_required_critical_attributes :: "string fset"
  nm_source_attributes :: "(string \<times> string) list"
  nm_canonical_attributes :: "(string \<times> string) list"
  nm_mismatched_attributes :: "string fset"
  nm_missing_attributes :: "string fset"
  nm_verified_by :: "string option"
  nm_verified_at :: "int option"

definition attribute_missing :: "(string \<times> string) list \<Rightarrow> (string \<times> string) list \<Rightarrow> string \<Rightarrow> bool" where
  "attribute_missing source catalog a \<longleftrightarrow> \<not> str_true (map_of source a) \<or> \<not> str_true (map_of catalog a)"

definition attribute_mismatched :: "(string \<times> string) list \<Rightarrow> (string \<times> string) list \<Rightarrow> string \<Rightarrow> bool" where
  "attribute_mismatched source catalog a \<longleftrightarrow>
     normal_text (the (map_of source a)) \<noteq> normal_text (the (map_of catalog a))"

definition assess_exact_match :: "string \<Rightarrow> string \<Rightarrow> string \<Rightarrow> string fset \<Rightarrow> (string \<times> string) list \<Rightarrow> (string \<times> string) list
    \<Rightarrow> nomenclature_match" where
  "assess_exact_match match_id source_item_id canonical_item_id required source catalog =
     (let missing = ffilter (attribute_missing source catalog) required;
          mismatched = ffilter (attribute_mismatched source catalog) (required |-| missing);
          match_class = (if missing \<noteq> {||} then MatchClass.INSUFFICIENT_DATA
            else if mismatched \<noteq> {||} then MatchClass.TECHNICALLY_UNACCEPTABLE else MatchClass.EXACT)
      in \<lparr>nm_match_id = match_id, nm_source_item_id = source_item_id, nm_canonical_item_id = Some canonical_item_id,
          nm_match_class = match_class, nm_required_critical_attributes = required, nm_source_attributes = source,
          nm_canonical_attributes = catalog, nm_mismatched_attributes = mismatched, nm_missing_attributes = missing,
          nm_verified_by = None, nm_verified_at = None\<rparr>)"

definition approve_analogue :: "nomenclature_match \<Rightarrow> MatchClass \<Rightarrow> string \<Rightarrow> string \<Rightarrow> int \<Rightarrow> nomenclature_match result" where
  "approve_analogue m analogue_class equivalence_rule_version_id verified_by verified_at =
     (if analogue_class \<noteq> MatchClass.FUNCTIONAL_ANALOGUE \<and> analogue_class \<noteq> MatchClass.CONDITIONALLY_ACCEPTABLE_ANALOGUE
      then Inl (ValueError ''Only an explicit analogue class can be approved'')
      else if equivalence_rule_version_id = [] then Inl (ValueError ''A versioned equivalence rule is required'')
      else if nm_missing_attributes m \<noteq> {||}
      then Inl (ValueError ''An analogue cannot be approved with missing critical attributes'')
      else Inr (m\<lparr>nm_match_class := analogue_class, nm_verified_by := Some verified_by, nm_verified_at := Some verified_at\<rparr>))"

lemma lexemes_example: "ordered_lexemes ''Pipe DN-150,5 x 2'' = [''pipe'', ''dn'', ''150.5'', ''2'']"
  by code_simp

text \<open>A match is exact only when every critical attribute is present on both sides and equal; and only a
  match with nothing missing can later be approved as an analogue, so an item with missing data never
  gets past the catalogue.\<close>

lemma exact_match_iff:
  "nm_match_class (assess_exact_match i s c required source catalog) = MatchClass.EXACT \<longleftrightarrow>
     (\<forall>a. a |\<in>| required \<longrightarrow> (\<exists>v w. map_of source a = Some v \<and> map_of catalog a = Some w
        \<and> v \<noteq> [] \<and> w \<noteq> [] \<and> normal_text v = normal_text w))"
proof -
  have *: "\<not> attribute_missing source catalog a \<and> \<not> attribute_mismatched source catalog a \<longleftrightarrow>
      (\<exists>v w. map_of source a = Some v \<and> map_of catalog a = Some w \<and> v \<noteq> [] \<and> w \<noteq> [] \<and> normal_text v = normal_text w)" for a
    by (cases "map_of source a"; cases "map_of catalog a") (auto simp: attribute_missing_def attribute_mismatched_def)
  have "nm_match_class (assess_exact_match i s c required source catalog) = MatchClass.EXACT \<longleftrightarrow>
      ffilter (attribute_missing source catalog) required = {||}
      \<and> ffilter (attribute_mismatched source catalog) (required |-| ffilter (attribute_missing source catalog) required) = {||}"
    by (auto simp: assess_exact_match_def Let_def)
  also have "\<dots> \<longleftrightarrow> (\<forall>a. a |\<in>| required \<longrightarrow> \<not> attribute_missing source catalog a \<and> \<not> attribute_mismatched source catalog a)"
    by (auto simp: fset_eq_iff)
  finally show ?thesis by (simp add: *)
qed

lemma approve_analogue_complete:
  "is_ok (approve_analogue (assess_exact_match i s c required source catalog) k v u t) \<Longrightarrow>
     \<forall>a. a |\<in>| required \<longrightarrow> str_true (map_of source a) \<and> str_true (map_of catalog a)"
  by (auto simp: approve_analogue_def assess_exact_match_def Let_def fset_eq_iff attribute_missing_def split: if_splits)

end
