(* ===== verification/TG_Decimal_Bounds.thy ===== *)
theory TG_Decimal_Bounds
  imports TG_Decimal
begin

text \<open>
  Inexact decimal arithmetic: how far the context rounding and the division of
  \<open>TG_Decimal\<close> can be from the exact value, and that neither crosses a value the precision
  can represent.  These are the facts behind every threshold the code compares a quotient with.
\<close>

subsection \<open>Context rounding\<close>

lemma fix_ctx_round:
  assumes "10 ^ p \<le> \<bar>coeff x\<bar>" "0 < p"
  obtains k where "1 \<le> k" "10 ^ (p + k - 1) \<le> \<bar>coeff x\<bar>"
    "dval (fix_ctx p x) = of_int (round_rat ROUND_HALF_EVEN (of_int (coeff x) / 10 ^ k)) * pow10 (expn x + int k)"
proof
  define c where "c = coeff x"
  define k where "k = ndigits (nat \<bar>c\<bar>) - p"
  define r where "r = round_div ROUND_HALF_EVEN c (10 ^ k)"
  have "(10::nat) ^ p \<le> nat \<bar>c\<bar>" using assms(1) by (simp add: le_nat_iff c_def)
  then have n: "p < ndigits (nat \<bar>c\<bar>)" by (rule ndigits_gt)
  then show "1 \<le> k" by (simp add: k_def)
  have "0 < (10::int) ^ p" by simp
  with assms(1) have "0 < \<bar>c\<bar>" unfolding c_def by linarith
  then have "(10::nat) ^ (ndigits (nat \<bar>c\<bar>) - 1) \<le> nat \<bar>c\<bar>"
    by (intro ndigits_lower) simp
  then have "(10::int) ^ (ndigits (nat \<bar>c\<bar>) - 1) \<le> \<bar>c\<bar>" by (simp add: le_nat_iff)
  then show "10 ^ (p + k - 1) \<le> \<bar>coeff x\<bar>" using n by (simp add: k_def c_def)
  have r: "r = round_rat ROUND_HALF_EVEN (of_int c / 10 ^ k)"
    by (simp add: r_def round_div_rat)
  have "dval (Dec (r div 10) (expn x + int k + 1)) = dval (Dec r (expn x + int k))" if "\<bar>r\<bar> = 10 ^ p"
  proof -
    have "10 dvd r" using that assms(2) by (metis dvd_abs_iff dvd_power)
    then have "of_int r = of_int (r div 10) * (10::rat)"
      by (metis dvd_div_mult_self of_int_mult of_int_numeral)
    then show ?thesis by (simp add: dval_Dec power_int_add)
  qed
  then have "dval (fix_ctx p x) = dval (Dec r (expn x + int k))"
    using assms(1) by (simp add: fix_ctx_def Let_def c_def [symmetric] k_def [symmetric] r_def [symmetric])
  then show "dval (fix_ctx p x) = of_int (round_rat ROUND_HALF_EVEN (of_int (coeff x) / 10 ^ k)) * pow10 (expn x + int k)"
    by (simp add: dval_Dec r c_def)
qed

lemma scale_error:
  fixes a :: rat
  assumes "2 * a \<le> b" "q * b \<le> d" "0 \<le> q"
  shows "2 * q * a \<le> d"
  using mult_left_mono [OF assms(1,3)] assms(2) by (simp add: algebra_simps)

text \<open>The relative error of one rounding is at most half a unit in the last place.\<close>

lemma fix_ctx_error:
  assumes "0 < p"
  shows "2 * 10 ^ (p - 1) * \<bar>dval (fix_ctx p x) - dval x\<bar> \<le> \<bar>dval x\<bar>"
proof (cases "\<bar>coeff x\<bar> < 10 ^ p")
  case True
  then show ?thesis by (simp add: fix_ctx_def)
next
  case False
  then have "10 ^ p \<le> \<bar>coeff x\<bar>" by simp
  from fix_ctx_round [OF this assms] obtain k where k: "1 \<le> k" "10 ^ (p + k - 1) \<le> \<bar>coeff x\<bar>"
    and v: "dval (fix_ctx p x)
      = of_int (round_rat ROUND_HALF_EVEN (of_int (coeff x) / 10 ^ k)) * pow10 (expn x + int k)" .
  define w :: rat where "w = of_int (coeff x) / 10 ^ k"
  have sh: "pow10 (expn x + int k) = 10 ^ k * pow10 (expn x)" by (simp add: power_int_add)
  have x: "dval x = w * pow10 (expn x + int k)" by (simp add: dval_def w_def sh)
  have "\<bar>dval (fix_ctx p x) - dval x\<bar> = \<bar>of_int (round_rat ROUND_HALF_EVEN w) - w\<bar> * pow10 (expn x + int k)"
    by (simp add: v x w_def [symmetric] abs_mult flip: left_diff_distrib)
  also have "\<dots> \<le> 1 / 2 * pow10 (expn x + int k)"
    by (intro mult_right_mono half_even.nearest) (simp add: less_imp_le)
  finally have e: "2 * \<bar>dval (fix_ctx p x) - dval x\<bar> \<le> 10 ^ k * pow10 (expn x)" by (simp add: sh)
  have "10 ^ (p - 1) * (10 ^ k * pow10 (expn x)) = 10 ^ (p + k - 1) * pow10 (expn x)"
    using assms k(1) by (simp flip: power_add)
  also have "\<dots> \<le> of_int \<bar>coeff x\<bar> * pow10 (expn x)"
  proof (rule mult_right_mono)
    show "(10::rat) ^ (p + k - 1) \<le> of_int \<bar>coeff x\<bar>"
      using k(2) by (metis of_int_le_iff of_int_numeral of_int_power)
  qed (simp add: less_imp_le)
  also have "\<dots> = \<bar>dval x\<bar>" by (simp add: dval_def abs_mult)
  finally have "10 ^ (p - 1) * (10 ^ k * pow10 (expn x)) \<le> \<bar>dval x\<bar>" .
  with e show ?thesis by (rule scale_error) simp
qed

lemma fix_ctx_coeff:
  assumes "0 < p"
  shows "\<bar>coeff (fix_ctx p x)\<bar> < 10 ^ p"
proof (cases "\<bar>coeff x\<bar> < 10 ^ p")
  case True
  then show ?thesis by (simp add: fix_ctx_def)
next
  case False
  define k where "k = ndigits (nat \<bar>coeff x\<bar>) - p"
  define c where "c = round_div ROUND_HALF_EVEN (coeff x) (10 ^ k)"
  have eq: "fix_ctx p x = (if \<bar>c\<bar> = 10 ^ p then Dec (c div 10) (expn x + int k + 1) else Dec c (expn x + int k))"
    using False by (simp add: fix_ctx_def Let_def k_def c_def)
  have "(10::nat) ^ p \<le> nat \<bar>coeff x\<bar>" using False by (simp add: le_nat_iff)
  then have k: "ndigits (nat \<bar>coeff x\<bar>) = p + k" using ndigits_gt [of p "nat \<bar>coeff x\<bar>"] by (simp add: k_def)
  have "nat \<bar>coeff x\<bar> < 10 ^ (p + k)" using ndigits_upper [of "nat \<bar>coeff x\<bar>"] unfolding k .
  then have "\<bar>coeff x\<bar> < 10 ^ (p + k)" by (simp add: nat_less_iff)
  then have "(of_int \<bar>coeff x\<bar> :: rat) \<le> of_int (10 ^ (p + k))" unfolding of_int_le_iff by simp
  then have "\<bar>of_int (coeff x) / 10 ^ k :: rat\<bar> \<le> of_int (10 ^ p)"
    by (simp add: abs_divide divide_le_eq power_add)
  then have "\<bar>c\<bar> \<le> 10 ^ p"
    unfolding c_def by (simp add: round_div_rat rr.abs_le_of_int)
  moreover have "\<bar>c div 10\<bar> < 10 ^ p" if "\<bar>c\<bar> = 10 ^ p"
  proof -
    obtain n where n: "p = Suc n" using assms by (cases p) simp_all
    with that have "c = 10 * 10 ^ n \<or> c = 10 * - (10 ^ n)" by auto
    then have "\<bar>c div 10\<bar> = 10 ^ n" by (elim disjE) (simp_all only: nonzero_mult_div_cancel_left, simp_all)
    then show ?thesis by (simp add: n)
  qed
  ultimately show ?thesis unfolding eq by (cases "\<bar>c\<bar> = 10 ^ p") simp_all
qed

lemma fits_fix_ctx: "0 < p \<Longrightarrow> fits p (dval (fix_ctx p x))"
  by (rule fitsI [OF dval_def fix_ctx_coeff])

text \<open>Rounding to \<open>p\<close> digits does not cross a value of \<open>p\<close> digits.\<close>

lemma fits_grid:
  assumes "m = of_int j * pow10 f" "\<bar>j\<bar> < 10 ^ p" "of_int q * pow10 e \<le> m" "10 ^ (p - 1) \<le> q" "0 < p"
  obtains M where "m = of_int M * pow10 e" "q \<le> M"
proof -
  have "e \<le> f"
  proof (rule ccontr)
    assume "\<not> e \<le> f"
    have "(10::rat) ^ (p - 1) \<le> of_int q" using assms(4) by (metis of_int_le_iff of_int_numeral of_int_power)
    then have q: "10 ^ (p - 1) * pow10 e \<le> of_int q * pow10 e"
      by (intro mult_right_mono) (simp_all add: less_imp_le)
    have "j < 10 ^ p" using assms(2) by linarith
    then have "of_int j < (10::rat) ^ p" by (metis of_int_less_iff of_int_numeral of_int_power)
    then have "of_int j * pow10 f < 10 ^ p * pow10 f" by (rule mult_strict_right_mono) simp
    also have "\<dots> \<le> 10 ^ p * pow10 (e - 1)"
      using \<open>\<not> e \<le> f\<close> by (intro mult_left_mono power_int_increasing) auto
    also have "\<dots> = 10 ^ (p - 1) * pow10 e"
      using assms(5) by (cases p) (simp_all add: power_int_diff)
    finally show False using q assms(1,3) by linarith
  qed
  then have m: "m = of_int (j * 10 ^ nat (f - e)) * pow10 e"
    using assms(1) pow10_shift [of e f] by simp
  have "of_int q * pow10 e \<le> of_int (j * 10 ^ nat (f - e)) * pow10 e" using assms(3) m by simp
  then have "(of_int q :: rat) \<le> of_int (j * 10 ^ nat (f - e))"
    by (rule mult_right_le_imp_le) simp
  then have "q \<le> j * 10 ^ nat (f - e)" by linarith
  with m that show thesis by blast
qed

lemma fix_ctx_le:
  assumes "0 \<le> coeff x" "fits p m" "dval x \<le> m" "0 < p"
  shows "dval (fix_ctx p x) \<le> m"
proof (cases "\<bar>coeff x\<bar> < 10 ^ p")
  case True
  with assms show ?thesis by (simp add: fix_ctx_def)
next
  case False
  then have "10 ^ p \<le> \<bar>coeff x\<bar>" by simp
  from fix_ctx_round [OF this assms(4)] obtain k where k: "1 \<le> k" "10 ^ (p + k - 1) \<le> \<bar>coeff x\<bar>"
    and v: "dval (fix_ctx p x)
      = of_int (round_rat ROUND_HALF_EVEN (of_int (coeff x) / 10 ^ k)) * pow10 (expn x + int k)" .
  obtain j f where j: "m = of_int j * pow10 f" "\<bar>j\<bar> < 10 ^ p" using assms(2) by (auto simp: fits_def)
  define w :: rat where "w = of_int (coeff x) / 10 ^ k"
  have x: "dval x = w * pow10 (expn x + int k)" by (simp add: dval_def w_def power_int_add)
  have "(10::rat) ^ (p + k - 1) \<le> of_int (coeff x)"
    using k(2) assms(1) by (metis abs_of_nonneg of_int_le_iff of_int_numeral of_int_power)
  moreover have "(10::rat) ^ (p + k - 1) = 10 ^ (p - 1) * 10 ^ k"
    using assms(4) by (simp flip: power_add)
  ultimately have "10 ^ (p - 1) * 10 ^ k \<le> (of_int (coeff x) :: rat)" by metis
  then have "10 ^ (p - 1) \<le> w" unfolding w_def by (subst pos_le_divide_eq) simp_all
  then have "of_int (10 ^ (p - 1)) * pow10 (expn x + int k) \<le> dval x"
    unfolding x by (intro mult_right_mono) (simp_all add: less_imp_le)
  with assms(3) obtain M where M: "m = of_int M * pow10 (expn x + int k)"
    using fits_grid [OF j _ order_refl assms(4), of "expn x + int k"] by (metis order_trans)
  have "w * pow10 (expn x + int k) \<le> of_int M * pow10 (expn x + int k)" using assms(3) x M by simp
  then have "w \<le> of_int M" by (rule mult_right_le_imp_le) simp
  then have "round_rat ROUND_HALF_EVEN w \<le> M" by (rule rr.le_of_int)
  then show ?thesis unfolding v w_def [symmetric] M by (intro mult_right_mono) (simp_all add: less_imp_le)
qed

subsection \<open>Division\<close>

lemma strip_zeros_dval:
  "strip_zeros n c e = (c', e') \<Longrightarrow> of_int c' * pow10 e' = of_int c * pow10 e \<and> (0 \<le> c \<longrightarrow> 0 \<le> c')"
proof (induction n c e rule: strip_zeros.induct)
  case (2 n c e)
  show ?case
  proof (cases "c mod 10 = 0")
    case True
    then have "c = (c div 10) * 10" by presburger
    then have "(of_int c :: rat) = of_int (c div 10) * 10" by (metis of_int_mult of_int_numeral)
    then have "of_int c * pow10 e = of_int (c div 10) * pow10 (e + 1)" by (simp add: power_int_add)
    with 2 True show ?thesis by auto
  qed (use 2 in auto)
qed simp

text \<open>
  The quotient of two positive decimals, before the context rounding: exact, or strictly between
  two integers of more than \<open>p\<close> digits with the lower one or its successor taken.
\<close>

lemma ddiv_pos:
  assumes "0 < coeff a" "0 < coeff b"
  obtains y e where "ddiv p a b = Inr (fix_ctx p (Dec y e))" "0 \<le> y"
    "of_int y * pow10 e = dval a / dval b
     \<or> (\<exists>q. 10 ^ p \<le> q \<and> of_int q * pow10 e < dval a / dval b
          \<and> dval a / dval b < of_int (q + 1) * pow10 e \<and> (y = q \<or> y = q + 1))"
proof -
  define ca cb where "ca = coeff a" and "cb = coeff b"
  have pos: "0 < ca" "0 < cb" using assms by (simp_all add: ca_def cb_def)
  define shift where "shift = int (ndigits (nat cb)) - int (ndigits (nat ca)) + int p + 1"
  define e where "e = expn a - expn b - shift"
  define n where "n = (if 0 \<le> shift then ca * 10 ^ nat shift else ca)"
  define d where "d = (if 0 \<le> shift then cb else cb * 10 ^ nat (- shift))"
  define q where "q = n div d"
  have d: "0 < d" and n: "0 < n" using pos by (simp_all add: d_def n_def)
  have nd: "of_int n / of_int d = (of_int ca / of_int cb :: rat) * pow10 shift"
  proof (cases "0 \<le> shift")
    case True
    then have "pow10 shift = 10 ^ nat shift" by (metis int_nat_eq power_int_of_nat)
    with True show ?thesis by (simp add: n_def d_def)
  next
    case False
    then have "shift = - int (nat (- shift))" by simp
    then have "pow10 shift = 1 / 10 ^ nat (- shift)" by (metis power_int_minus power_int_of_nat inverse_eq_divide)
    with False show ?thesis by (simp add: n_def d_def)
  qed
  have quot: "dval a / dval b = of_int n / of_int d * pow10 e"
    using pos by (simp add: nd dval_def ca_def cb_def e_def power_int_diff power_int_add)
  have "(10::rat) ^ p \<le> of_int n / of_int d"
  proof -
    have "nat cb < 10 ^ ndigits (nat cb)" by (rule ndigits_upper)
    then have "cb < 10 ^ ndigits (nat cb)" using pos(2) by (simp add: nat_less_iff)
    then have b: "of_int cb < pow10 (int (ndigits (nat cb)))"
      by (metis of_int_less_iff of_int_numeral of_int_power power_int_of_nat)
    have "10 ^ (ndigits (nat ca) - 1) \<le> nat ca" using pos(1) by (intro ndigits_lower) simp
    then have "10 ^ (ndigits (nat ca) - 1) \<le> ca" using pos(1) by (simp add: le_nat_iff)
    then have "(10::rat) ^ (ndigits (nat ca) - 1) \<le> of_int ca" by (metis of_int_le_iff of_int_numeral of_int_power)
    moreover have "(10::rat) ^ (ndigits (nat ca) - 1) = pow10 (int (ndigits (nat ca)) - 1)"
      using ndigits_pos [of "nat ca"] by (metis One_nat_def Suc_leI int_ops(2) of_nat_diff power_int_of_nat)
    ultimately have a: "pow10 (int (ndigits (nat ca)) - 1) \<le> of_int ca" by metis
    have "pow10 (int p) * of_int cb \<le> pow10 (int p) * pow10 (int (ndigits (nat cb)))"
      using b by (intro mult_left_mono) (simp_all add: less_imp_le)
    also have "\<dots> = pow10 (int (ndigits (nat ca)) - 1) * pow10 shift"
      unfolding shift_def by (subst (1 2) power_int_add [symmetric]) (simp_all add: algebra_simps)
    also have "\<dots> \<le> of_int ca * pow10 shift" using a by (intro mult_right_mono) (simp_all add: less_imp_le)
    finally show ?thesis using pos(2) by (simp add: nd le_divide_eq)
  qed
  then have big: "10 ^ p \<le> q"
    unfolding q_def by (simp add: floor_divide_of_int_eq [where ?'a = rat, symmetric] le_floor_iff)
  have dd: "ddiv p a b = (if n mod d \<noteq> 0 then Inr (fix_ctx p (Dec (if q mod 5 = 0 then q + 1 else q) e))
      else case strip_zeros (nat (expn a - expn b - e)) q e of (q', e') \<Rightarrow> Inr (fix_ctx p (Dec q' e')))"
  proof -
    have "\<bar>coeff a\<bar> = ca" "\<bar>coeff b\<bar> = cb" "(coeff b = 0) = False" "(coeff a = 0) = False"
      "((coeff a < 0) = (coeff b < 0)) = True"
      using assms by (auto simp: ca_def cb_def)
    then show ?thesis
      unfolding ddiv_def Let_def
      by (simp only: if_True if_False mult_1 shift_def [symmetric] e_def [symmetric] n_def [symmetric]
          d_def [symmetric] q_def [symmetric])
  qed
  show thesis
  proof (cases "n mod d = 0")
    case True
    obtain q' e' where s: "strip_zeros (nat (expn a - expn b - e)) q e = (q', e')" by (metis surj_pair)
    have "of_int n / of_int d = (of_int q :: rat)"
      using True d by (metis q_def mod_0_imp_dvd of_int_div dvd_imp_mod_0 less_irrefl of_int_divide_in_Ints dvd_div_eq_iff real_of_int_div)
    moreover have "0 \<le> q" using big by (metis order_trans zero_le_numeral zero_le_power)
    ultimately show thesis
      using that [of q' e'] strip_zeros_dval [OF s] True by (simp add: dd s quot)
  next
    case False
    have "of_int q < (of_int n / of_int d :: rat)" "of_int n / of_int d < (of_int (q + 1) :: rat)"
    proof -
      have "n = q * d + n mod d" "0 < n mod d" "n mod d < d"
        using False d pos_mod_bound [OF d, of n] pos_mod_sign [OF d, of n] by (simp_all add: q_def)
      then have "q * d < n" "n < (q + 1) * d" by (auto simp: distrib_right) 
      then have "of_int q * of_int d < (of_int n :: rat)" "of_int n < (of_int (q + 1) * of_int d :: rat)"
        by (metis of_int_less_iff of_int_mult)+
      then show "of_int q < (of_int n / of_int d :: rat)" "of_int n / of_int d < (of_int (q + 1) :: rat)"
        using d by (simp_all add: less_divide_eq divide_less_eq)
    qed
    then have "of_int q * pow10 e < dval a / dval b" "dval a / dval b < of_int (q + 1) * pow10 e"
      unfolding quot by (intro mult_strict_right_mono; simp)+
    moreover have "0 \<le> q" using big by (metis order_trans zero_le_numeral zero_le_power)
    moreover define y where "y = (if q mod 5 = 0 then q + 1 else q)"
    moreover have "y = q \<or> y = q + 1" by (simp add: y_def)
    moreover have "ddiv p a b = Inr (fix_ctx p (Dec y e))" using False by (simp add: dd y_def)
    ultimately show thesis using that [of y e] big by fastforce
  qed
qed

text \<open>A quotient is never rounded past a bound of \<open>p\<close> digits that it respects.\<close>

lemma ddiv_le:
  assumes "0 < coeff a" "0 < coeff b" "ddiv p a b = Inr s" "fits p m" "dval a / dval b \<le> m" "0 < p"
  shows "dval s \<le> m"
proof -
  from ddiv_pos [OF assms(1,2), of p] obtain y e where ye: "ddiv p a b = Inr (fix_ctx p (Dec y e))" "0 \<le> y"
    "of_int y * pow10 e = dval a / dval b
     \<or> (\<exists>q. 10 ^ p \<le> q \<and> of_int q * pow10 e < dval a / dval b
          \<and> dval a / dval b < of_int (q + 1) * pow10 e \<and> (y = q \<or> y = q + 1))" .
  have "of_int y * pow10 e \<le> m"
  proof (cases "of_int y * pow10 e = dval a / dval b")
    case False
    with ye(3) obtain q where q: "10 ^ p \<le> q" "of_int q * pow10 e < dval a / dval b" "y = q \<or> y = q + 1"
      by blast
    obtain j f where j: "m = of_int j * pow10 f" "\<bar>j\<bar> < 10 ^ p" using assms(4) by (auto simp: fits_def)
    have "(10::int) ^ (p - 1) \<le> 10 ^ p" by (intro power_increasing) auto
    with q assms(5,6) obtain M where M: "m = of_int M * pow10 e" "q \<le> M"
      using fits_grid [OF j, of q e] by (metis less_imp_le order_trans)
    have "of_int q * pow10 e < of_int M * pow10 e" using q(2) assms(5) M(1) by linarith
    then have "(of_int q :: rat) < of_int M" by (rule mult_right_less_imp_less) (simp add: less_imp_le)
    then have "y \<le> M" using q(3) by linarith
    then show ?thesis unfolding M(1) by (intro mult_right_mono) (simp_all add: less_imp_le)
  qed (use assms in simp)
  then have "dval (fix_ctx p (Dec y e)) \<le> m"
    using ye(2) assms(4,6) by (intro fix_ctx_le) (simp_all add: dval_Dec)
  with ye(1) assms(3) show ?thesis by simp
qed

text \<open>The relative error of a quotient is below one unit of the last of \<open>p\<close> digits.\<close>

lemma ddiv_error:
  assumes "0 < coeff a" "0 < coeff b" "ddiv p a b = Inr s" "0 < p"
  shows "10 ^ (p - 1) * \<bar>dval s - dval a / dval b\<bar> \<le> dval a / dval b"
proof -
  define v where "v = dval a / dval b"
  have v: "0 < v" using assms(1,2) by (simp add: v_def dval_def)
  from ddiv_pos [OF assms(1,2), of p] obtain y e where ye: "ddiv p a b = Inr (fix_ctx p (Dec y e))" "0 \<le> y"
    "of_int y * pow10 e = v
     \<or> (\<exists>q. 10 ^ p \<le> q \<and> of_int q * pow10 e < v \<and> v < of_int (q + 1) * pow10 e \<and> (y = q \<or> y = q + 1))"
    unfolding v_def by blast
  define w where "w = of_int y * pow10 e"
  have w: "10 ^ p * \<bar>w - v\<bar> \<le> v"
  proof (cases "w = v")
    case False
    with ye(3) obtain q where q: "10 ^ p \<le> q" "of_int q * pow10 e < v" "v < of_int (q + 1) * pow10 e"
      "y = q \<or> y = q + 1" unfolding w_def by blast
    have "of_int (q + 1) * pow10 e = of_int q * pow10 e + pow10 e" by (simp add: distrib_right)
    with q have "\<bar>w - v\<bar> \<le> pow10 e" unfolding w_def by (elim disjE) (simp_all add: distrib_right)
    then have "10 ^ p * \<bar>w - v\<bar> \<le> 10 ^ p * pow10 e" by (rule mult_left_mono) simp
    also have "\<dots> \<le> of_int q * pow10 e"
    proof (rule mult_right_mono)
      show "(10::rat) ^ p \<le> of_int q" using q(1) by (metis of_int_le_iff of_int_numeral of_int_power)
    qed (simp add: less_imp_le)
    finally show ?thesis using q(2) by linarith
  qed (use v in simp)
  have s: "dval s = dval (fix_ctx p (Dec y e))" using ye(1) assms(3) by simp
  have "2 * 10 ^ (p - 1) * \<bar>dval s - w\<bar> \<le> \<bar>w\<bar>"
    using fix_ctx_error [OF assms(4), of "Dec y e"] by (simp add: s dval_Dec w_def)
  moreover have "(10::rat) ^ p = 10 * 10 ^ (p - 1)" using assms(4) by (cases p) simp_all
  with w have w': "10 * (10 ^ (p - 1) * \<bar>w - v\<bar>) \<le> v" by (simp add: mult.assoc)
  moreover have "\<bar>w\<bar> \<le> v + \<bar>w - v\<bar>" using v by linarith
  moreover have "1 * \<bar>w - v\<bar> \<le> 10 ^ (p - 1) * \<bar>w - v\<bar>" by (rule mult_right_mono) simp_all
  moreover have "10 ^ (p - 1) * \<bar>dval s - v\<bar> \<le> 10 ^ (p - 1) * (\<bar>dval s - w\<bar> + \<bar>w - v\<bar>)"
    by (rule mult_left_mono) (linarith, simp)
  ultimately show ?thesis using v unfolding v_def [symmetric] distrib_left mult.assoc by linarith
qed

subsection \<open>Signs\<close>

lemma dval_pos_iff: "0 < dval x \<longleftrightarrow> 0 < coeff x"
  using mult_less_cancel_right_pos [of "pow10 (expn x)" 0 "of_int (coeff x)"] by (simp add: dval_def)

lemma dval_nonneg_iff: "0 \<le> dval x \<longleftrightarrow> 0 \<le> coeff x"
  using mult_le_cancel_right_pos [of "pow10 (expn x)" 0 "of_int (coeff x)"] by (simp add: dval_def)

lemma dval_zero_iff: "dval x = 0 \<longleftrightarrow> coeff x = 0"
  by (simp add: dval_def)

lemma deq_zero: "deq x d_zero \<longleftrightarrow> coeff x = 0"
  by (simp add: deq_iff dval_def [of x])

lemma ddiv_ok: "coeff b \<noteq> 0 \<Longrightarrow> is_ok (ddiv p a b)"
  unfolding ddiv_def Let_def by (simp only: if_False is_ok_simps simp_thms split: if_split prod.split)

lemma ddiv_zero: "coeff b \<noteq> 0 \<Longrightarrow> coeff a = 0 \<Longrightarrow> ddiv p a b = Inr (Dec 0 (expn a - expn b))"
  by (simp only: ddiv_def if_False if_True simp_thms)

subsection \<open>Rounding to the context does not fall below a power of ten\<close>

lemma fix_ctx_ge:
  assumes "0 \<le> coeff x" "pow10 g \<le> dval x" "0 < p"
  shows "pow10 g \<le> dval (fix_ctx p x)"
proof (cases "\<bar>coeff x\<bar> < 10 ^ p")
  case True
  with assms show ?thesis by (simp add: fix_ctx_def)
next
  case False
  then have "10 ^ p \<le> \<bar>coeff x\<bar>" by simp
  from fix_ctx_round [OF this assms(3)] obtain k where k: "1 \<le> k" "10 ^ (p + k - 1) \<le> \<bar>coeff x\<bar>"
    and v: "dval (fix_ctx p x)
      = of_int (round_rat ROUND_HALF_EVEN (of_int (coeff x) / 10 ^ k)) * pow10 (expn x + int k)" .
  define w :: rat where "w = of_int (coeff x) / 10 ^ k"
  have x: "dval x = w * pow10 (expn x + int k)" by (simp add: dval_def w_def power_int_add)
  have "(10::rat) ^ (p + k - 1) \<le> of_int (coeff x)"
    using k(2) assms(1) by (metis abs_of_nonneg of_int_le_iff of_int_numeral of_int_power)
  moreover have "(10::rat) ^ (p + k - 1) = 10 ^ (p - 1) * 10 ^ k"
    using assms(3) by (simp flip: power_add)
  ultimately have "10 ^ (p - 1) * 10 ^ k \<le> (of_int (coeff x) :: rat)" by metis
  then have w: "of_int (10 ^ (p - 1)) \<le> w" unfolding w_def by (subst pos_le_divide_eq) simp_all
  have "\<exists>M. pow10 g \<le> of_int M * pow10 (expn x + int k) \<and> of_int M \<le> w"
  proof (cases "g \<le> expn x + int k")
    case True
    then have "pow10 g \<le> of_int 1 * pow10 (expn x + int k)"
      by (simp add: power_int_increasing)
    moreover have "(of_int 1 :: rat) \<le> w" using w by (rule order_trans [rotated]) simp
    ultimately show ?thesis by blast
  next
    case False
    then have "pow10 g = of_int (10 ^ nat (g - (expn x + int k))) * pow10 (expn x + int k)"
      by (intro pow10_shift) simp
    moreover from this assms(2) x have "of_int (10 ^ nat (g - (expn x + int k))) \<le> w"
      by (metis mult_right_le_imp_le pow10_pos)
    ultimately show ?thesis by (metis order_refl)
  qed
  then obtain M where M: "pow10 g \<le> of_int M * pow10 (expn x + int k)" "of_int M \<le> w" by blast
  have "M \<le> round_rat ROUND_HALF_EVEN w" using rr.mono [OF M(2)] by (simp add: rr.exact)
  then have "of_int M * pow10 (expn x + int k) \<le> dval (fix_ctx p x)"
    unfolding v w_def [symmetric] by (intro mult_right_mono) (simp_all add: less_imp_le)
  with M(1) show ?thesis by linarith
qed

lemma fix_ctx_nonneg:
  assumes "0 \<le> coeff x" "0 < p"
  shows "0 \<le> dval (fix_ctx p x)"
proof (cases "\<bar>coeff x\<bar> < 10 ^ p")
  case True
  then show ?thesis using assms(1) by (simp add: fix_ctx_def dval_def)
next
  case False
  then have "10 ^ p \<le> \<bar>coeff x\<bar>" by simp
  from fix_ctx_round [OF this assms(2)] obtain k where v: "dval (fix_ctx p x)
      = of_int (round_rat ROUND_HALF_EVEN (of_int (coeff x) / 10 ^ k)) * pow10 (expn x + int k)" by metis
  have "0 \<le> round_rat ROUND_HALF_EVEN (of_int (coeff x) / 10 ^ k)"
    using assms(1) by (intro rr.nonneg) simp
  then show ?thesis unfolding v by (intro mult_nonneg_nonneg) (simp_all add: less_imp_le)
qed

text \<open>The sum before the context rounding.\<close>

lemma dadd_raw:
  obtains c e where "dadd p a b = fix_ctx p (Dec c e)" "dval (Dec c e) = dval a + dval b"
proof (cases "dalign a b")
  case (fields x y e)
  then show ?thesis
    using that [of "x + y" e] dalign_dval [OF fields] by (simp add: dadd_def dval_Dec distrib_right)
qed

lemma dval_nonneg_coeff: "0 \<le> dval (Dec c e) \<longleftrightarrow> 0 \<le> c"
  using dval_nonneg_iff [of "Dec c e"] by simp

lemma dadd_le:
  assumes "0 \<le> dval a + dval b" "dval a + dval b \<le> m" "fits p m" "0 < p"
  shows "0 \<le> dval (dadd p a b)" "dval (dadd p a b) \<le> m"
proof -
  obtain c e where d: "dadd p a b = fix_ctx p (Dec c e)" "dval (Dec c e) = dval a + dval b"
    by (rule dadd_raw)
  then have "0 \<le> coeff (Dec c e)" using assms(1) dval_nonneg_coeff [of c e] by simp
  then show "0 \<le> dval (dadd p a b)" "dval (dadd p a b) \<le> m"
    using fix_ctx_nonneg fix_ctx_le assms d by auto
qed

lemma dmul_le:
  assumes "0 \<le> dval a * dval b" "dval a * dval b \<le> m" "fits p m" "0 < p"
  shows "0 \<le> dval (dmul p a b)" "dval (dmul p a b) \<le> m"
proof -
  let ?x = "Dec (coeff a * coeff b) (expn a + expn b)"
  have v: "dval ?x = dval a * dval b" by (simp add: dval_def power_int_add)
  then have "0 \<le> coeff ?x" using assms(1) dval_nonneg_coeff [of "coeff a * coeff b" "expn a + expn b"] by simp
  then show "0 \<le> dval (dmul p a b)" "dval (dmul p a b) \<le> m"
    using fix_ctx_nonneg fix_ctx_le [of ?x] assms v unfolding dmul_def by auto
qed

text \<open>Non-negative amounts of one scale: a sum that can still be quantized was added exactly.\<close>

lemma sum_exact_or_large:
  assumes "\<forall>x \<in> set xs. \<exists>k. 0 \<le> k \<and> dval x = of_int k / 10 ^ s" "\<exists>k. 0 \<le> k \<and> dval a = of_int k / 10 ^ s"
    "0 < p"
  shows "dval (foldl (dadd p) a xs) = dval a + sum_list (map dval xs)
    \<or> pow10 (int p - int s) \<le> dval (foldl (dadd p) a xs)"
proof -
  let ?L = "pow10 (int p - int s)"
  have large: "?L \<le> dval (dadd p b x)" if "?L \<le> dval b + dval x" for b x
  proof -
    obtain c e where d: "dadd p b x = fix_ctx p (Dec c e)" "dval (Dec c e) = dval b + dval x" by (rule dadd_raw)
    have "0 < ?L" by simp
    then have "0 \<le> dval (Dec c e)" using that d(2) by linarith
    then have "0 \<le> coeff (Dec c e)" by (simp only: dval_nonneg_iff)
    then show ?thesis using fix_ctx_ge [of "Dec c e"] that d assms(3) by simp
  qed
  have exact: "dval (dadd p b x) = dval b + dval x"
    if "\<exists>k. 0 \<le> k \<and> dval b = of_int k / 10 ^ s" "\<exists>k. 0 \<le> k \<and> dval x = of_int k / 10 ^ s"
      "dval b + dval x < ?L" for b x
  proof -
    note h = that
    obtain k l where k: "0 \<le> k" "dval b = of_int k / 10 ^ s" "0 \<le> l" "dval x = of_int l / 10 ^ s"
      using h(1,2) by blast
    then have "dval b + dval x = of_int (k + l) * pow10 (- int s)"
      by (simp add: power_int_minus divide_inverse distrib_right)
    moreover from this h(3) have "of_int (k + l) * pow10 (- int s) < of_int (10 ^ p) * pow10 (- int s)"
      by (simp add: power_int_diff power_int_minus divide_inverse)
    then have "k + l < 10 ^ p" unfolding mult_less_cancel_right of_int_less_iff using pow10_pos [of "- int s"] by linarith
    ultimately have "fits p (dval b + dval x)" using k(1,3) by (intro fitsI [of _ "k + l" "- int s"]) simp_all
    then show ?thesis by (rule dval_dadd)
  qed
  have stay: "?L \<le> dval (foldl (dadd p) b xs)" if "?L \<le> dval b" "\<forall>x \<in> set xs. 0 \<le> dval x" for b xs
    using that
  proof (induction xs arbitrary: b)
    case (Cons x xs)
    then have "?L \<le> dval b + dval x" by simp
    from large [OF this] Cons show ?case by simp
  qed simp
  show ?thesis
    using assms(1,2)
  proof (induction xs arbitrary: a)
    case (Cons x xs)
    have nn: "\<forall>x \<in> set xs. 0 \<le> dval x" using Cons.prems(1) by fastforce
    show ?case
    proof (cases "dval a + dval x < ?L")
      case True
      have "\<exists>k. 0 \<le> k \<and> dval x = of_int k / 10 ^ s" using Cons.prems(1) by simp
      note e = exact [OF Cons.prems(2) this True]
      moreover have "\<exists>k. 0 \<le> k \<and> dval (dadd p a x) = of_int k / 10 ^ s"
        using Cons.prems unfolding e by (auto simp: add_divide_distrib [symmetric] simp flip: of_int_add
          intro!: add_nonneg_nonneg)
      ultimately show ?thesis
        using Cons.IH [of "dadd p a x"] Cons.prems(1) by (simp add: add.assoc)
    next
      case False
      then show ?thesis using stay [OF large nn] by simp
    qed
  qed simp
qed

subsection \<open>Sums on a grid\<close>

lemma div_pow10: "(x::rat) / 10 ^ n = x * pow10 (- int n)"
  by (simp add: power_int_minus divide_inverse)

text \<open>A sum of at most \<open>m\<close> stored amounts of scale \<open>s\<close>.\<close>

definition on_grid :: "nat \<Rightarrow> nat \<Rightarrow> rat \<Rightarrow> bool" where
  "on_grid s m v \<longleftrightarrow> (\<exists>k. v = of_int k / 10 ^ s \<and> \<bar>k\<bar> \<le> int m * 10 ^ 38)"

lemma on_grid_0 [simp]: "on_grid s m 0"
  unfolding on_grid_def by (rule exI [of _ 0]) simp

lemma on_grid_mono:
  assumes "on_grid s m v" "m \<le> n"
  shows "on_grid s n v"
proof -
  have "int m * 10 ^ 38 \<le> int n * 10 ^ 38" using assms(2) by (intro mult_right_mono) simp_all
  with assms(1) show ?thesis unfolding on_grid_def using order_trans by blast
qed

lemma on_grid_add:
  assumes "on_grid s m v" "on_grid s n w"
  shows "on_grid s (m + n) (v + w)"
proof -
  obtain k l where k: "v = of_int k / 10 ^ s" "\<bar>k\<bar> \<le> int m * 10 ^ 38"
    and l: "w = of_int l / 10 ^ s" "\<bar>l\<bar> \<le> int n * 10 ^ 38"
    using assms by (auto simp: on_grid_def)
  have "v + w = of_int (k + l) / 10 ^ s" by (simp add: k l add_divide_distrib)
  moreover have "\<bar>k + l\<bar> \<le> int (m + n) * 10 ^ 38"
    using k(2) l(2) abs_triangle_ineq [of k l] by (simp add: distrib_right)
  ultimately show ?thesis unfolding on_grid_def by blast
qed

lemma on_grid_fits:
  assumes "on_grid s m v" "m \<le> 10 ^ 121"
  shows "fits 160 v"
proof -
  obtain k where k: "v = of_int k / 10 ^ s" "\<bar>k\<bar> \<le> int m * 10 ^ 38" using assms(1) by (auto simp: on_grid_def)
  have "int m \<le> 10 ^ 121" using assms(2) by (metis of_nat_le_iff of_nat_numeral of_nat_power)
  then have "int m * 10 ^ 38 \<le> 10 ^ 121 * 10 ^ 38" by (rule mult_right_mono) simp
  also have "\<dots> < (10::int) ^ 160" by (simp flip: power_add)
  finally have "\<bar>k\<bar> < 10 ^ 160" using k(2) by linarith
  then show ?thesis by (intro fitsI [of _ k "- int s"]) (simp_all only: k(1) div_pow10)
qed

lemma on_grid_multiple: "on_grid s m v \<Longrightarrow> rquantize mode s v = v"
  by (auto simp: on_grid_def intro: rquantize_of_multiple)

lemma sum_grid:
  assumes "\<forall>x \<in> set xs. on_grid s m (dval x)" "(k + length xs) * m \<le> 10 ^ 121" "on_grid s (k * m) (dval a)"
  shows "dval (foldl (dadd 160) a xs) = dval a + sum_list (map dval xs)
    \<and> on_grid s ((k + length xs) * m) (dval a + sum_list (map dval xs))"
  using assms
proof (induction xs arbitrary: a k)
  case (Cons x xs)
  have g: "on_grid s (Suc k * m) (dval a + dval x)"
    using on_grid_add [OF Cons.prems(3), of m "dval x"] Cons.prems(1) by (simp add: add.commute)
  have "Suc k * m \<le> 10 ^ 121" using Cons.prems(2) by (rule order_trans [rotated]) simp
  then have d: "dval (dadd 160 a x) = dval a + dval x" using on_grid_fits [OF g] by (simp add: dval_dadd)
  show ?case
    using Cons.IH [of "Suc k" "dadd 160 a x"] Cons.prems g by (simp add: d add.assoc)
qed simp

end
