(* ===== verification/TG_Decimal_Approx.thy ===== *)
theory TG_Decimal_Approx
  imports TG_Decimal_Bounds
begin

text \<open>
  Chains of decimal operations: a calculus for how far a result is from the exact rational value when
  every step is rounded to the precision of the context, and the exact cases.
\<close>

subsection \<open>Counting roundings\<close>

text \<open>In a context of precision \<open>p\<close>, \<open>x\<close> stands for \<open>v\<close> up to \<open>k\<close> roundings relative to the
  magnitude \<open>M\<close>.\<close>

definition approx :: "nat \<Rightarrow> nat \<Rightarrow> decimal \<Rightarrow> rat \<Rightarrow> rat \<Rightarrow> bool" where
  "approx p k x v M \<longleftrightarrow> \<bar>dval x - v\<bar> * 10 ^ (p - 1) \<le> of_nat k * M \<and> \<bar>v\<bar> \<le> M \<and> k \<le> 10 ^ (p - 1) \<and> 0 < p"

lemma approx_exact: "\<bar>dval x\<bar> \<le> M \<Longrightarrow> 0 < p \<Longrightarrow> approx p 0 x (dval x) M"
  by (simp add: approx_def)

lemma approx_le: "\<bar>w\<bar> * 10 ^ (p - 1) \<le> of_nat k * M \<Longrightarrow> k \<le> 10 ^ (p - 1) \<Longrightarrow> 0 \<le> M \<Longrightarrow> \<bar>w :: rat\<bar> \<le> M"
proof -
  assume a: "\<bar>w\<bar> * 10 ^ (p - 1) \<le> of_nat k * M" "k \<le> 10 ^ (p - 1)" "0 \<le> M"
  have "of_nat k \<le> (10 :: rat) ^ (p - 1)" using a(2) by (metis of_nat_le_iff of_nat_numeral of_nat_power)
  with a(3) have "of_nat k * M \<le> 10 ^ (p - 1) * M" by (intro mult_right_mono)
  with a(1) have "\<bar>w\<bar> * 10 ^ (p - 1) \<le> 10 ^ (p - 1) * M" by (rule order_trans)
  then have "\<bar>w\<bar> * 10 ^ (p - 1) \<le> M * 10 ^ (p - 1)" by (simp only: mult.commute)
  then show ?thesis by (rule mult_right_le_imp_le) simp
qed

lemma approx_abs: "approx p k x v M \<Longrightarrow> \<bar>dval x\<bar> \<le> 2 * M"
proof -
  assume a: "approx p k x v M"
  then have "0 \<le> M" by (auto simp: approx_def)
  with a have "\<bar>dval x - v\<bar> \<le> M" by (intro approx_le [of _ p k]) (simp_all add: approx_def)
  with a show ?thesis by (auto simp: approx_def)
qed

text \<open>One more rounding of a value within twice the magnitude.\<close>

lemma approx_round:
  assumes "\<bar>w - v\<bar> * 10 ^ (p - 1) \<le> of_nat k * M" "\<bar>v\<bar> \<le> M" "k < 10 ^ (p - 1)" "0 < p"
    "2 * 10 ^ (p - 1) * \<bar>dval y - w\<bar> \<le> \<bar>w\<bar>"
  shows "approx p (k + 1) y v M"
proof -
  let ?e = "(10 :: rat) ^ (p - 1)"
  have M: "0 \<le> M" using assms(2) by linarith
  have "\<bar>w - v\<bar> \<le> M" using assms(1,3) M by (intro approx_le [of _ p k]) simp_all
  then have "\<bar>w\<bar> \<le> 2 * M" using assms(2) by linarith
  with assms(5) have "2 * (\<bar>dval y - w\<bar> * ?e) \<le> 2 * M" by (simp add: mult.commute mult.left_commute)
  then have "\<bar>dval y - w\<bar> * ?e \<le> M" by simp
  moreover have "\<bar>dval y - v\<bar> * ?e \<le> \<bar>dval y - w\<bar> * ?e + \<bar>w - v\<bar> * ?e"
    unfolding distrib_right [symmetric] by (intro mult_right_mono) simp_all
  moreover have "of_nat (Suc k) * M = of_nat k * M + M" by (simp add: distrib_right)
  ultimately have "\<bar>dval y - v\<bar> * ?e \<le> of_nat (Suc k) * M" using assms(1) by linarith
  then show ?thesis using assms(2-4) by (simp add: approx_def)
qed

lemma approx_add:
  assumes "approx p k x v M" "approx p l y w N" "max k l < 10 ^ (p - 1)"
  shows "approx p (max k l + 1) (dadd p x y) (v + w) (M + N)"
proof -
  let ?e = "(10 :: rat) ^ (p - 1)"
  obtain c e where r: "dadd p x y = fix_ctx p (Dec c e)" "dval (Dec c e) = dval x + dval y" by (rule dadd_raw)
  have p: "0 < p" and MN: "0 \<le> M" "0 \<le> N" using assms(1,2) by (auto simp: approx_def)
  have "of_nat k * M \<le> of_nat (max k l) * M" "of_nat l * N \<le> of_nat (max k l) * N"
    using MN by (intro mult_right_mono; simp)+
  then have "\<bar>dval x - v\<bar> * ?e \<le> of_nat (max k l) * M" "\<bar>dval y - w\<bar> * ?e \<le> of_nat (max k l) * N"
    using assms(1,2) unfolding approx_def by linarith+
  moreover have "\<bar>(dval x + dval y) - (v + w)\<bar> * ?e \<le> \<bar>dval x - v\<bar> * ?e + \<bar>dval y - w\<bar> * ?e"
    unfolding distrib_right [symmetric] by (intro mult_right_mono) simp_all
  ultimately have "\<bar>(dval x + dval y) - (v + w)\<bar> * ?e \<le> of_nat (max k l) * (M + N)"
    by (simp add: distrib_left)
  moreover have "\<bar>v + w\<bar> \<le> M + N" using assms(1,2) by (auto simp: approx_def)
  ultimately show ?thesis
    using assms(3) p fix_ctx_error [OF p, of "Dec c e"] unfolding r(1) r(2) [symmetric] by (rule approx_round)
qed

lemma approx_add_exact:
  assumes "approx p k x v M" "\<bar>dval d\<bar> \<le> D" "k < 10 ^ (p - 1)"
  shows "approx p (k + 1) (dadd p x d) (v + dval d) (M + D)"
  using approx_add [OF assms(1) approx_exact [OF assms(2)]] assms(1,3) by (simp add: approx_def)

lemma approx_mul:
  assumes "approx p k x v M" "0 \<le> dval w" "k < 10 ^ (p - 1)"
  shows "approx p (k + 1) (dmul p x w) (v * dval w) (M * dval w)"
proof -
  let ?x = "Dec (coeff x * coeff w) (expn x + expn w)"
  have p: "0 < p" using assms(1) by (simp add: approx_def)
  have r: "dval ?x = dval x * dval w" by (simp add: dval_def power_int_add)
  have "\<bar>dval x * dval w - v * dval w\<bar> * 10 ^ (p - 1) = (\<bar>dval x - v\<bar> * 10 ^ (p - 1)) * dval w"
    using assms(2) by (simp add: abs_mult flip: left_diff_distrib)
  also have "\<dots> \<le> (of_nat k * M) * dval w" using assms(1,2) by (intro mult_right_mono) (simp_all add: approx_def)
  finally have "\<bar>dval x * dval w - v * dval w\<bar> * 10 ^ (p - 1) \<le> of_nat k * (M * dval w)" by (simp add: mult.assoc)
  moreover have "\<bar>v * dval w\<bar> \<le> M * dval w" using assms(1,2) by (auto simp: abs_mult approx_def intro: mult_right_mono)
  ultimately show ?thesis
    unfolding dmul_def using assms(3) p fix_ctx_error [OF p, of ?x] r
    by (intro approx_round [of "dval x * dval w"]) simp_all
qed

lemma approx_div:
  assumes "approx p k x v M" "0 \<le> dval x" "0 < dval w" "Suc k < 10 ^ (p - 1)" "ddiv p x w = Inr q"
  shows "approx p (k + 2) q (v / dval w) (M / dval w)"
proof -
  let ?e = "(10 :: rat) ^ (p - 1)"
  have p: "0 < p" using assms(1) by (simp add: approx_def)
  have q: "?e * \<bar>dval q - dval x / dval w\<bar> \<le> dval x / dval w"
  proof (cases "dval x = 0")
    case True
    then have "q = Dec 0 (expn x - expn w)" using assms(3,5) ddiv_zero [of w x p] by (simp add: dval_zero_iff dval_pos_iff)
    with True show ?thesis by simp
  next
    case False
    then show ?thesis using ddiv_error [OF _ _ assms(5) p] assms(2,3) by (simp add: dval_pos_iff [symmetric])
  qed
  have "\<bar>dval x / dval w - v / dval w\<bar> * ?e = \<bar>dval x - v\<bar> * ?e / dval w"
    using assms(3) by (simp add: abs_divide flip: diff_divide_distrib)
  also have "\<dots> \<le> of_nat k * M / dval w" using assms(1,3) by (intro divide_right_mono) (simp_all add: approx_def)
  finally have e: "\<bar>dval x / dval w - v / dval w\<bar> * ?e \<le> of_nat k * (M / dval w)" by simp
  have v: "\<bar>v / dval w\<bar> \<le> M / dval w"
    using assms(1,3) by (simp add: abs_divide approx_def divide_right_mono)
  have "dval x / dval w \<le> 2 * M / dval w" using approx_abs [OF assms(1)] assms(2,3) by (intro divide_right_mono) simp_all
  then have "dval x / dval w \<le> 2 * (M / dval w)" by simp
  with q have "\<bar>dval q - dval x / dval w\<bar> * ?e \<le> 2 * (M / dval w)" by (subst mult.commute) (rule order_trans)
  moreover have "\<bar>dval q - v / dval w\<bar> * ?e
      \<le> \<bar>dval q - dval x / dval w\<bar> * ?e + \<bar>dval x / dval w - v / dval w\<bar> * ?e"
    unfolding distrib_right [symmetric] by (intro mult_right_mono) simp_all
  ultimately have "\<bar>dval q - v / dval w\<bar> * ?e \<le> 2 * (M / dval w) + of_nat k * (M / dval w)" using e by linarith
  also have "\<dots> = of_nat (Suc (Suc k)) * (M / dval w)" by (simp only: of_nat_Suc distrib_right)
  finally show ?thesis using v assms(4) p by (simp add: approx_def)
qed

lemma dmul_nonneg: "0 \<le> dval a \<Longrightarrow> 0 \<le> dval b \<Longrightarrow> 0 < p \<Longrightarrow> 0 \<le> dval (dmul p a b)"
proof -
  assume a: "0 \<le> dval a" "0 \<le> dval b" "0 < p"
  have "dval (Dec (coeff a * coeff b) (expn a + expn b)) = dval a * dval b" by (simp add: dval_def power_int_add)
  then have "0 \<le> coeff (Dec (coeff a * coeff b) (expn a + expn b))" using a(1,2) by (simp only: flip: dval_nonneg_iff) simp
  then show ?thesis unfolding dmul_def using a(3) by (rule fix_ctx_nonneg)
qed

lemma approx_pos:
  assumes "approx p k x v v" "0 < v" "k < 10 ^ (p - 1)"
  shows "0 < dval x"
proof -
  have "\<bar>dval x - v\<bar> * 10 ^ (p - 1) \<le> of_nat k * v" using assms(1) by (simp add: approx_def)
  also have "of_nat k < (10 :: rat) ^ (p - 1)" using assms(3) by (metis of_nat_less_iff of_nat_numeral of_nat_power)
  then have "of_nat k * v < 10 ^ (p - 1) * v" using assms(2) by (rule mult_strict_right_mono)
  finally have "\<bar>dval x - v\<bar> < v" by (simp add: mult.commute [of v])
  then show ?thesis by linarith
qed

lemma approx_weaken:
  assumes "approx p k x v M" "k \<le> l" "M \<le> N" "l \<le> 10 ^ (p - 1)"
  shows "approx p l x v N"
proof -
  have "of_nat k * M \<le> of_nat l * N" using assms by (intro mult_mono) (auto simp: approx_def)
  with assms show ?thesis by (auto simp: approx_def)
qed

subsection \<open>Exact cases\<close>

lemma rquantize_nearest:
  assumes "mode = ROUND_HALF_UP \<or> mode = ROUND_HALF_EVEN"
  shows "\<bar>rquantize mode s v - v\<bar> \<le> 1 / (2 * 10 ^ s)"
proof -
  have "\<bar>rquantize mode s v - v\<bar> = \<bar>of_int (round_rat mode (v * 10 ^ s)) - v * 10 ^ s\<bar> / 10 ^ s"
    by (simp add: rquantize_def abs_divide field_simps)
  also have "\<dots> \<le> 1 / 2 / 10 ^ s" by (intro divide_right_mono round_rat_nearest assms) simp
  finally show ?thesis by simp
qed

lemma abs_sum_list_le: "\<bar>sum_list xs\<bar> \<le> sum_list (map abs (xs :: rat list))"
proof (induction xs)
  case (Cons x xs)
  then show ?case using abs_triangle_ineq [of x "sum_list xs"] by simp
qed simp

lemma ddiv_exact:
  assumes "0 < coeff a" "0 < coeff b" "fits p (dval a / dval b)" "0 < p"
  shows "\<exists>y. ddiv p a b = Inr y \<and> dval y = dval a / dval b"
proof -
  obtain y e where y: "ddiv p a b = Inr (fix_ctx p (Dec y e))"
    "of_int y * pow10 e = dval a / dval b
     \<or> (\<exists>q. 10 ^ p \<le> q \<and> of_int q * pow10 e < dval a / dval b
          \<and> dval a / dval b < of_int (q + 1) * pow10 e \<and> (y = q \<or> y = q + 1))"
    using ddiv_pos [OF assms(1,2)] by metis
  obtain j f where v: "dval a / dval b = of_int j * pow10 f" "\<bar>j\<bar> < 10 ^ p" using assms(3) by (auto simp: fits_def)
  have "\<not> (of_int q * pow10 e < dval a / dval b \<and> dval a / dval b < of_int (q + 1) * pow10 e)" if q: "10 ^ p \<le> q" for q
  proof
    assume b: "of_int q * pow10 e < dval a / dval b \<and> dval a / dval b < of_int (q + 1) * pow10 e"
    have "(10::int) ^ (p - 1) \<le> 10 ^ p" by (rule power_increasing) simp_all
    with q have "10 ^ (p - 1) \<le> q" by linarith
    from fits_grid [OF v less_imp_le this assms(4)] b obtain m where m: "dval a / dval b = of_int m * pow10 e" by blast
    have "q < m \<and> m < q + 1" using b unfolding m mult_less_cancel_right by simp
    then show False by linarith
  qed
  with y(2) have "dval (Dec y e) = dval a / dval b" by (auto simp: dval_Dec)
  with y(1) assms(3) fix_ctx_exact [of p "Dec y e"] show ?thesis by auto
qed

end
