(* ===== verification/TG_Pricing.thy ===== *)
theory TG_Pricing
  imports TG_Json TG_Decimal_Approx
begin

text \<open>
  Prices: \<open>domain/pricing.py\<close>.  A supplier's quote is brought to the commercial basis of the
  estimate (unit, currency, VAT, delivery) in a context of 160 digits and then rounded once; a price
  counts as verified when quotes of every evidence class and source group are in force.
\<close>

subsection \<open>Requests\<close>



definition price_rounding_is_supported :: "string \<Rightarrow> string result" where
  "price_rounding_is_supported v = (if v \<noteq> ''ROUND_HALF_UP'' \<and> v \<noteq> ''ROUND_HALF_EVEN''
     then Inl (ValueError (''Unsupported price normalization rounding mode: '' @ v)) else Inr v)"


subsection \<open>Normalization\<close>
















subsection \<open>The normalized price\<close>





















subsection \<open>Triangulation\<close>

record triangulation_result =
  tr_item_id :: string
  tr_quote_ids :: "string list"
  tr_passed :: bool
  tr_resulting_status :: PriceStatus
  tr_missing_evidence_classes :: "PriceEvidenceClass list"
  tr_missing_source_groups :: "string list"
  tr_reason :: string

definition eligible_quote :: "string \<Rightarrow> int \<Rightarrow> price_quote \<Rightarrow> bool" where
  "eligible_quote item_id as_of quote \<longleftrightarrow> pq_item_id quote = item_id
     \<and> (pq_status quote = PriceStatus.NORMALIZED \<or> pq_status quote = PriceStatus.VERIFIED)
     \<and> pq_available quote = Some True \<and> pq_lead_time_days quote \<noteq> None \<and> pq_quote_date quote \<le> as_of
     \<and> (case pq_valid_until quote of None \<Rightarrow> False | Some d \<Rightarrow> as_of \<le> d)"

definition required_evidence :: "PriceEvidenceClass list" where
  "required_evidence = [PriceEvidenceClass.OFFICIAL_OR_PRIMARY, PriceEvidenceClass.INDEPENDENT_MARKET,
     PriceEvidenceClass.INTERNAL_HISTORY]"

definition source_type_of :: "price_quote \<Rightarrow> PriceSourceType" where
  "source_type_of quote = ps_source_type (pq_source_reference quote)"

definition missing_groups :: "PriceSourceType list \<Rightarrow> string list" where
  "missing_groups source_types =
     (if PriceSourceType.FGIS_CS \<notin> set source_types then [''FGIS_CS''] else [])
     @ (if PriceSourceType.WON_TENDER \<notin> set source_types then [''WON_TENDER''] else [])
     @ (if PriceSourceType.MARKETPLACE \<notin> set source_types \<and> PriceSourceType.SUPPLIER_WEBSITE \<notin> set source_types
        then [''MARKET''] else [])"

definition evaluate_triangulation :: "string \<Rightarrow> price_quote list \<Rightarrow> int \<Rightarrow> bool \<Rightarrow> triangulation_result" where
  "evaluate_triangulation item_id quotes as_of critical =
     (let eligible = filter (eligible_quote item_id as_of) quotes;
          missing = sort_key PriceEvidenceClass_value
            (filter (\<lambda>c. c \<notin> set (map pq_evidence_class eligible)) required_evidence);
          groups = missing_groups (map source_type_of eligible);
          passed = (missing = [] \<and> groups = [])
      in \<lparr>tr_item_id = item_id, tr_quote_ids = map pq_quote_id eligible, tr_passed = passed,
          tr_resulting_status = (if passed then PriceStatus.VERIFIED else PriceStatus.RFQ_REQUIRED),
          tr_missing_evidence_classes = missing, tr_missing_source_groups = groups,
          tr_reason = (if passed then ''FGIS CS, won-tender and independent-market evidence are present''
            else ''Price requires the missing source groups, independent evidence, or an RFQ'')\<rparr>)"

definition evidenced_by :: "string \<Rightarrow> int \<Rightarrow> price_quote list \<Rightarrow> PriceEvidenceClass \<Rightarrow> bool" where
  "evidenced_by item_id as_of quotes c \<longleftrightarrow> list_ex (\<lambda>q. eligible_quote item_id as_of q \<and> pq_evidence_class q = c) quotes"

definition sourced_by :: "string \<Rightarrow> int \<Rightarrow> price_quote list \<Rightarrow> PriceSourceType \<Rightarrow> bool" where
  "sourced_by item_id as_of quotes t \<longleftrightarrow> list_ex (\<lambda>q. eligible_quote item_id as_of q \<and> source_type_of q = t) quotes"

text \<open>The items of a result are those of the quotes that count; the price is verified exactly when
  quotes in force come from every class of evidence and every group of sources, whatever the
  \<open>critical\<close> flag says.\<close>

lemma missing_groups_Nil: "missing_groups ts = [] \<longleftrightarrow> PriceSourceType.FGIS_CS \<in> set ts
    \<and> PriceSourceType.WON_TENDER \<in> set ts \<and> (PriceSourceType.MARKETPLACE \<in> set ts \<or> PriceSourceType.SUPPLIER_WEBSITE \<in> set ts)"
  by (simp add: missing_groups_def)

lemma triangulation_iff:
  "tr_passed (evaluate_triangulation item quotes as_of critical) \<longleftrightarrow>
     evidenced_by item as_of quotes PriceEvidenceClass.OFFICIAL_OR_PRIMARY
     \<and> evidenced_by item as_of quotes PriceEvidenceClass.INDEPENDENT_MARKET
     \<and> evidenced_by item as_of quotes PriceEvidenceClass.INTERNAL_HISTORY
     \<and> sourced_by item as_of quotes PriceSourceType.FGIS_CS \<and> sourced_by item as_of quotes PriceSourceType.WON_TENDER
     \<and> (sourced_by item as_of quotes PriceSourceType.MARKETPLACE
        \<or> sourced_by item as_of quotes PriceSourceType.SUPPLIER_WEBSITE)"
proof -
  have e: "c \<in> set (map pq_evidence_class (filter (eligible_quote item as_of) quotes)) \<longleftrightarrow> evidenced_by item as_of quotes c" for c
    by (auto simp: evidenced_by_def list_ex_iff)
  have t: "c \<in> set (map source_type_of (filter (eligible_quote item as_of) quotes)) \<longleftrightarrow> sourced_by item as_of quotes c" for c
    by (auto simp: sourced_by_def list_ex_iff)
  have n: "sort_key PriceEvidenceClass_value xs = [] \<longleftrightarrow> xs = []" for xs by (metis set_sort set_empty)
  show ?thesis
    by (simp add: evaluate_triangulation_def Let_def missing_groups_Nil e t n required_evidence_def
      del: set_map set_filter list.set_map)
qed

end
