(* ===== verification/TG_Commercial.thy ===== *)
theory TG_Commercial
  imports TG_Json TG_Decimal_Approx
begin

text \<open>
  Commercial cost models: \<open>domain/commercial_costs.py\<close>.  Logistics, mobilisation and contract
  finance are priced line by line and recalculated independently, the interest on a negative cash
  balance once per interval between dated events and once day by day.  All arithmetic is in the default
  context of 28 digits.  Dates are ordinal days.
\<close>

subsection \<open>Logistics\<close>

record transport_leg =
  tl_component_id :: string
  tl_mode :: string
  tl_origin :: string
  tl_destination :: string
  tl_distance_km :: decimal
  tl_charged_distance_factor :: decimal
  tl_cargo_mass_tonnes :: "decimal option"
  tl_vehicle_mass_capacity_tonnes :: "decimal option"
  tl_cargo_volume_m3 :: "decimal option"
  tl_vehicle_volume_capacity_m3 :: "decimal option"
  tl_cargo_units :: "decimal option"
  tl_vehicle_unit_capacity :: "decimal option"
  tl_fixed_cost_per_trip :: decimal
  tl_rate_per_vehicle_km :: decimal
  tl_toll_per_trip :: decimal
  tl_route_observation_ids :: "string list"
  tl_cargo_observation_ids :: "string list"
  tl_rate_observation_ids :: "string list"

definition leg_dimensions :: "transport_leg \<Rightarrow> (decimal option \<times> decimal option \<times> string) list" where
  "leg_dimensions leg = [(tl_cargo_mass_tonnes leg, tl_vehicle_mass_capacity_tonnes leg, ''mass''),
     (tl_cargo_volume_m3 leg, tl_vehicle_volume_capacity_m3 leg, ''volume''),
     (tl_cargo_units leg, tl_vehicle_unit_capacity leg, ''units'')]"

definition dimension_check :: "decimal option \<times> decimal option \<times> string \<Rightarrow> unit result" where
  "dimension_check d = (case d of (cargo, capacity, name) \<Rightarrow>
     if cargo \<noteq> None then
       (if capacity = None then Inl (ValueError (''Transport '' @ name @ '' requires a vehicle capacity'')) else Inr ())
     else if capacity \<noteq> None then Inl (ValueError (''Transport '' @ name @ '' capacity has no cargo quantity''))
     else Inr ())"

definition capacity_dimensions_are_complete :: "transport_leg \<Rightarrow> transport_leg result" where
  "capacity_dimensions_are_complete leg = bindR (mapR dimension_check (leg_dimensions leg)) (\<lambda>_.
     if \<not> list_ex (\<lambda>d. fst d \<noteq> None) (leg_dimensions leg)
     then Inl (ValueError ''Transport leg requires at least one cargo/capacity dimension'')
     else if deq (tl_fixed_cost_per_trip leg) d_zero \<and> deq (tl_rate_per_vehicle_km leg) d_zero
         \<and> deq (tl_toll_per_trip leg) d_zero
     then Inl (ValueError ''Transport leg has no priced cost element'')
     else Inr leg)"

definition leg_observation_ids :: "transport_leg \<Rightarrow> string list" where
  "leg_observation_ids leg =
     from_keys (tl_route_observation_ids leg @ tl_cargo_observation_ids leg @ tl_rate_observation_ids leg)"

record handling_cost =
  hc_component_id :: string
  hc_kind :: LogisticsHandlingKind
  hc_quantity :: decimal
  hc_unit :: string
  hc_operation_count :: int
  hc_unit_rate :: decimal
  hc_observation_ids :: "string list"

record storage_cost =
  sc_component_id :: string
  sc_quantity :: decimal
  sc_unit :: string
  sc_duration_days :: decimal
  sc_rate_per_unit_day :: decimal
  sc_observation_ids :: "string list"

record ancillary_cost =
  ac_component_id :: string
  ac_kind :: LogisticsAncillaryKind
  ac_quantity :: decimal
  ac_unit :: string
  ac_unit_rate :: decimal
  ac_observation_ids :: "string list"

record logistics_plan =
  lp_transport_legs :: "transport_leg list"
  lp_handling_costs :: "handling_cost list"
  lp_storage_costs :: "storage_cost list"
  lp_ancillary_costs :: "ancillary_cost list"

definition logistics_ids :: "logistics_plan \<Rightarrow> string list" where
  "logistics_ids p = map tl_component_id (lp_transport_legs p) @ map hc_component_id (lp_handling_costs p)
     @ map sc_component_id (lp_storage_costs p) @ map ac_component_id (lp_ancillary_costs p)"

definition components_are_nonempty_and_unique :: "logistics_plan \<Rightarrow> logistics_plan result" where
  "components_are_nonempty_and_unique p =
     (if logistics_ids p = [] then Inl (ValueError ''Logistics plan requires at least one detailed component'')
      else if \<not> distinct (logistics_ids p) then Inl (ValueError ''Logistics component identifiers must be unique'')
      else Inr p)"

subsection \<open>Mobilisation\<close>

record mobilisation_cost =
  mc_component_id :: string
  mc_kind :: MobilisationComponentKind
  mc_description :: string
  mc_quantity :: decimal
  mc_unit :: string
  mc_occurrence_count :: decimal
  mc_duration_days :: decimal
  mc_unit_rate :: decimal
  mc_observation_ids :: "string list"

definition component_ids_are_unique :: "mobilisation_cost list \<Rightarrow> mobilisation_cost list result" where
  "component_ids_are_unique cs = (if \<not> distinct (map mc_component_id cs)
     then Inl (ValueError ''Mobilisation component identifiers must be unique'') else Inr cs)"

subsection \<open>Contract finance\<close>

record contract_cash_flow =
  cf_cash_flow_id :: string
  cf_kind :: ContractCashFlowKind
  cf_cash_date :: int
  cf_amount :: decimal
  cf_observation_ids :: "string list"
  cf_contract_term_ids :: "string list"

definition amount_is_not_zero :: "contract_cash_flow \<Rightarrow> contract_cash_flow result" where
  "amount_is_not_zero f = (if deq (cf_amount f) d_zero
     then Inl (ValueError ''Contract cash-flow amount cannot be zero'') else Inr f)"

record funding_rate_period =
  fr_rate_period_id :: string
  fr_starts_on :: int
  fr_ends_on :: int
  fr_annual_rate :: decimal
  fr_observation_ids :: "string list"

definition rate_period_is_positive :: "funding_rate_period \<Rightarrow> funding_rate_period result" where
  "rate_period_is_positive f = (if fr_ends_on f \<le> fr_starts_on f
     then Inl (ValueError ''Funding rate period must have positive duration'') else Inr f)"

record guarantee_fee =
  gf_guarantee_id :: string
  gf_kind :: GuaranteeKind
  gf_notional_amount :: decimal
  gf_annual_rate :: decimal
  gf_starts_on :: int
  gf_ends_on :: int
  gf_observation_ids :: "string list"
  gf_contract_term_ids :: "string list"

definition guarantee_period_is_positive :: "guarantee_fee \<Rightarrow> guarantee_fee result" where
  "guarantee_period_is_positive f = (if gf_ends_on f \<le> gf_starts_on f
     then Inl (ValueError ''Guarantee fee period must have positive duration'') else Inr f)"

record contract_finance_plan =
  fp_valuation_start :: int
  fp_valuation_end :: int
  fp_cash_flows :: "contract_cash_flow list"
  fp_funding_rate_periods :: "funding_rate_period list"
  fp_guarantee_fees :: "guarantee_fee list"

fun adjacent_pairs :: "'a list \<Rightarrow> ('a \<times> 'a) list" where
  "adjacent_pairs (x # y # xs) = (x, y) # adjacent_pairs (y # xs)"
| "adjacent_pairs _ = []"

definition timeline_is_valid :: "contract_finance_plan \<Rightarrow> contract_finance_plan result" where
  "timeline_is_valid p =
     (let vs = fp_valuation_start p; ve = fp_valuation_end p in
      if ve \<le> vs then Inl (ValueError ''Contract finance horizon must have positive duration'')
      else if \<not> distinct (map cf_cash_flow_id (fp_cash_flows p))
      then Inl (ValueError ''Contract cash-flow identifiers must be unique'')
      else if \<not> distinct (map fr_rate_period_id (fp_funding_rate_periods p))
      then Inl (ValueError ''Funding rate-period identifiers must be unique'')
      else if \<not> distinct (map gf_guarantee_id (fp_guarantee_fees p))
      then Inl (ValueError ''Guarantee identifiers must be unique'')
      else if list_ex (\<lambda>f. cf_cash_date f < vs \<or> ve < cf_cash_date f) (fp_cash_flows p)
      then Inl (ValueError ''Contract cash flow lies outside the valuation horizon'')
      else if list_ex (\<lambda>f. fr_starts_on f < vs \<or> ve < fr_ends_on f) (fp_funding_rate_periods p)
      then Inl (ValueError ''Funding rate period lies outside the valuation horizon'')
      else if list_ex (\<lambda>f. gf_starts_on f < vs \<or> ve < gf_ends_on f) (fp_guarantee_fees p)
      then Inl (ValueError ''Guarantee period lies outside the valuation horizon'')
      else if list_ex (\<lambda>(l, r). fr_starts_on r < fr_ends_on l)
          (adjacent_pairs (sort_key fr_starts_on (sort_key fr_ends_on (sort_key fr_rate_period_id (fp_funding_rate_periods p)))))
      then Inl (ValueError ''Funding rate periods overlap'')
      else Inr p)"

subsection \<open>Models and policies\<close>

record commercial_cost_model =
  cm_model_kind :: CommercialCostModelKind
  cm_currency :: string
  cm_target_line_id :: string
  cm_target_semantic_key :: string
  cm_related_contract_term_ids :: "string list"
  cm_logistics :: "logistics_plan option"
  cm_mobilisation :: "mobilisation_cost list option"
  cm_contract_finance :: "contract_finance_plan option"

definition payload_present :: "commercial_cost_model \<Rightarrow> CommercialCostModelKind \<Rightarrow> bool" where
  "payload_present m kind = (case kind of
     CommercialCostModelKind.LOGISTICS \<Rightarrow> cm_logistics m \<noteq> None
   | CommercialCostModelKind.MOBILISATION \<Rightarrow> cm_mobilisation m \<noteq> None
   | CommercialCostModelKind.CONTRACT_FINANCE \<Rightarrow> cm_contract_finance m \<noteq> None)"

definition exactly_one_matching_payload_exists :: "commercial_cost_model \<Rightarrow> commercial_cost_model result" where
  "exactly_one_matching_payload_exists m =
     (if \<not> payload_present m (cm_model_kind m)
      then Inl (ValueError ''Commercial cost model payload does not match its kind'')
      else if length (filter (payload_present m) [CommercialCostModelKind.LOGISTICS, CommercialCostModelKind.MOBILISATION,
          CommercialCostModelKind.CONTRACT_FINANCE]) \<noteq> 1
      then Inl (ValueError ''Commercial cost model must contain exactly one typed payload'')
      else if \<not> distinct (cm_related_contract_term_ids m)
      then Inl (ValueError ''Related contract term identifiers must be unique'')
      else Inr m)"

definition model_observation_ids :: "commercial_cost_model \<Rightarrow> string list" where
  "model_observation_ids m = from_keys (
     (case cm_logistics m of None \<Rightarrow> [] | Some p \<Rightarrow> concat (map leg_observation_ids (lp_transport_legs p))
        @ concat (map hc_observation_ids (lp_handling_costs p)) @ concat (map sc_observation_ids (lp_storage_costs p))
        @ concat (map ac_observation_ids (lp_ancillary_costs p)))
     @ (case cm_mobilisation m of None \<Rightarrow> [] | Some cs \<Rightarrow> concat (map mc_observation_ids cs))
     @ (case cm_contract_finance m of None \<Rightarrow> [] | Some p \<Rightarrow> concat (map cf_observation_ids (fp_cash_flows p))
        @ concat (map fr_observation_ids (fp_funding_rate_periods p)) @ concat (map gf_observation_ids (fp_guarantee_fees p))))"

record commercial_cost_policy =
  cq_policy_version :: string
  cq_currency :: string
  cq_line_rounding_scale :: nat
  cq_total_rounding_scale :: nat
  cq_rounding_mode :: string
  cq_independent_tolerance :: decimal
  cq_day_count_basis :: int
  cq_max_finance_horizon_days :: int
  cq_max_model_components :: int
  cq_allow_zero_total :: bool
  cq_required_model_kinds :: "CommercialCostModelKind fset"
  cq_required_logistics_sections :: "string fset"
  cq_required_mobilisation_kinds :: "MobilisationComponentKind fset"
  cq_required_cash_flow_kinds :: "ContractCashFlowKind fset"
  cq_required_contract_term_kinds :: "ContractTermKind fset"

definition commercial_rounding_is_supported :: "commercial_cost_policy \<Rightarrow> commercial_cost_policy result" where
  "commercial_rounding_is_supported p = (case ROUNDING_MODES (cq_rounding_mode p) of
     None \<Rightarrow> Inl (ValueError (''Unsupported commercial cost rounding mode: '' @ cq_rounding_mode p)) | Some _ \<Rightarrow> Inr p)"

definition round_with :: "nat \<Rightarrow> commercial_cost_policy \<Rightarrow> decimal \<Rightarrow> decimal result" where
  "round_with scale p v = (case ROUNDING_MODES (cq_rounding_mode p) of
     None \<Rightarrow> Inl (KeyError (cq_rounding_mode p)) | Some mode \<Rightarrow> quantize 28 mode scale v)"

definition round_line :: "commercial_cost_policy \<Rightarrow> decimal \<Rightarrow> decimal result" where
  "round_line p = round_with (cq_line_rounding_scale p) p"

definition round_total :: "commercial_cost_policy \<Rightarrow> decimal \<Rightarrow> decimal result" where
  "round_total p = round_with (cq_total_rounding_scale p) p"

record cost_line_result =
  cl_component_id :: string
  cl_component_type :: string
  cl_amount :: decimal
  cl_currency :: string
  cl_details :: "(string \<times> pyval) list"

record commercial_cost_calculation =
  cc_engine_version :: string
  cc_model_kind :: CommercialCostModelKind
  cc_currency :: string
  cc_lines :: "cost_line_result list"
  cc_total :: decimal

record commercial_cost_validation =
  cx_validator_version :: string
  cx_passed :: bool
  cx_independently_calculated_total :: decimal
  cx_primary_total :: decimal
  cx_difference :: decimal
  cx_tolerance :: decimal
  cx_findings :: "validation_finding list"

record commercial_cost_evaluation =
  ce_input_hash :: string
  ce_primary :: commercial_cost_calculation
  ce_independent :: commercial_cost_validation

definition cost_line :: "commercial_cost_policy \<Rightarrow> string \<Rightarrow> string \<Rightarrow> decimal \<Rightarrow> (string \<times> pyval) list
    \<Rightarrow> cost_line_result result" where
  "cost_line p component_id component_type amount details = bindR (round_line p amount) (\<lambda>a.
     Inr \<lparr>cl_component_id = component_id, cl_component_type = component_type, cl_amount = a,
          cl_currency = cq_currency p, cl_details = details\<rparr>)"

subsection \<open>Trips\<close>

definition dimension_ratios :: "transport_leg \<Rightarrow> decimal list result" where
  "dimension_ratios leg = mapR (\<lambda>(cargo, capacity). ddiv 28 cargo capacity)
     (List.map_filter (\<lambda>(cargo, capacity, _). case (cargo, capacity) of
        (Some a, Some b) \<Rightarrow> Some (a, b) | _ \<Rightarrow> None) (leg_dimensions leg))"

text \<open>\<open>int(value.to_integral_value(rounding=ROUND_UP))\<close> and \<open>int(value)\<close>.\<close>

definition ceil_int :: "decimal \<Rightarrow> int" where
  "ceil_int x = coeff (rescale ROUND_UP 0 x)"

definition trunc_int :: "decimal \<Rightarrow> int" where
  "trunc_int x = coeff (rescale ROUND_DOWN 0 x)"

definition trip_count :: "transport_leg \<Rightarrow> int result" where
  "trip_count leg = bindR (dimension_ratios leg) (\<lambda>ratios.
     if ratios = [] then Inl (ValueError ''max() arg is an empty sequence'') else Inr (Max (set (map ceil_int ratios))))"

definition trips_of_ratio :: "decimal \<Rightarrow> int" where
  "trips_of_ratio ratio = (let whole = trunc_int ratio in
     if deq ratio (dec_of_int whole) then whole else whole + 1)"

definition independent_trip_count :: "transport_leg \<Rightarrow> int result" where
  "independent_trip_count leg = bindR (dimension_ratios leg) (\<lambda>ratios.
     Inr (foldl (\<lambda>trips q. max trips (trips_of_ratio q)) 1 ratios))"

subsection \<open>The primary calculation\<close>

definition leg_amount :: "transport_leg \<Rightarrow> int \<Rightarrow> decimal" where
  "leg_amount leg trips = dmul 28 (dec_of_int trips)
     (dadd 28 (dadd 28 (tl_fixed_cost_per_trip leg)
        (dmul 28 (dmul 28 (tl_distance_km leg) (tl_charged_distance_factor leg)) (tl_rate_per_vehicle_km leg)))
        (tl_toll_per_trip leg))"

definition transport_line :: "commercial_cost_policy \<Rightarrow> transport_leg \<Rightarrow> cost_line_result result" where
  "transport_line p leg = bindR (trip_count leg) (\<lambda>trips.
     cost_line p (tl_component_id leg) ''TRANSPORT'' (leg_amount leg trips)
       [(''trip_count'', PInt trips), (''distance_km'', PDec (tl_distance_km leg)),
        (''charged_distance_factor'', PDec (tl_charged_distance_factor leg)), (''mode'', PStr (tl_mode leg)),
        (''origin'', PStr (tl_origin leg)), (''destination'', PStr (tl_destination leg))])"

definition handling_line :: "commercial_cost_policy \<Rightarrow> handling_cost \<Rightarrow> cost_line_result result" where
  "handling_line p h = cost_line p (hc_component_id h) (''HANDLING:'' @ LogisticsHandlingKind_value (hc_kind h))
     (dmul 28 (dmul 28 (hc_quantity h) (dec_of_int (hc_operation_count h))) (hc_unit_rate h))
     [(''quantity'', PDec (hc_quantity h)), (''operation_count'', PInt (hc_operation_count h))]"

definition storage_line :: "commercial_cost_policy \<Rightarrow> storage_cost \<Rightarrow> cost_line_result result" where
  "storage_line p s = cost_line p (sc_component_id s) ''STORAGE''
     (dmul 28 (dmul 28 (sc_quantity s) (sc_duration_days s)) (sc_rate_per_unit_day s))
     [(''quantity'', PDec (sc_quantity s)), (''duration_days'', PDec (sc_duration_days s))]"

definition ancillary_line :: "commercial_cost_policy \<Rightarrow> ancillary_cost \<Rightarrow> cost_line_result result" where
  "ancillary_line p a = cost_line p (ac_component_id a) (''ANCILLARY:'' @ LogisticsAncillaryKind_value (ac_kind a))
     (dmul 28 (ac_quantity a) (ac_unit_rate a)) [(''quantity'', PDec (ac_quantity a))]"

definition primary_logistics :: "commercial_cost_policy \<Rightarrow> logistics_plan \<Rightarrow> cost_line_result list result" where
  "primary_logistics p plan =
     bindR (mapR (transport_line p) (sort_key tl_component_id (lp_transport_legs plan))) (\<lambda>ts.
     bindR (mapR (handling_line p) (sort_key hc_component_id (lp_handling_costs plan))) (\<lambda>hs.
     bindR (mapR (storage_line p) (sort_key sc_component_id (lp_storage_costs plan))) (\<lambda>ss.
     bindR (mapR (ancillary_line p) (sort_key ac_component_id (lp_ancillary_costs plan))) (\<lambda>as.
       Inr (ts @ hs @ ss @ as)))))"

definition mobilisation_line :: "commercial_cost_policy \<Rightarrow> mobilisation_cost \<Rightarrow> cost_line_result result" where
  "mobilisation_line p c = cost_line p (mc_component_id c) (MobilisationComponentKind_value (mc_kind c))
     (dmul 28 (dmul 28 (dmul 28 (mc_quantity c) (mc_occurrence_count c)) (mc_duration_days c)) (mc_unit_rate c))
     [(''quantity'', PDec (mc_quantity c)), (''occurrence_count'', PDec (mc_occurrence_count c)),
      (''duration_days'', PDec (mc_duration_days c))]"

definition primary_mobilisation :: "commercial_cost_policy \<Rightarrow> mobilisation_cost list \<Rightarrow> cost_line_result list result" where
  "primary_mobilisation p cs = mapR (mobilisation_line p) (sort_key mc_component_id cs)"

text \<open>The cash movement of a date, and the dates at which balance or rate may change.\<close>

definition cash_event :: "contract_finance_plan \<Rightarrow> int \<Rightarrow> decimal" where
  "cash_event plan day = dsum 28 (map cf_amount (filter (\<lambda>f. cf_cash_date f = day) (fp_cash_flows plan)))"

definition finance_boundaries :: "contract_finance_plan \<Rightarrow> int list" where
  "finance_boundaries plan = sort (remdups (fp_valuation_start plan # fp_valuation_end plan
     # map cf_cash_date (fp_cash_flows plan) @ map fr_starts_on (fp_funding_rate_periods plan)
     @ map fr_ends_on (fp_funding_rate_periods plan)))"

definition single_rate :: "funding_rate_period list \<Rightarrow> decimal result" where
  "single_rate matches = (if length matches \<noteq> 1
     then Inl (ValueError ''Negative cash balance is not covered by exactly one funding-rate period'')
     else Inr (fr_annual_rate (hd matches)))"

definition funding_rate_for_interval :: "contract_finance_plan \<Rightarrow> int \<Rightarrow> int \<Rightarrow> decimal result" where
  "funding_rate_for_interval plan start till = single_rate
     (filter (\<lambda>f. fr_starts_on f \<le> start \<and> till \<le> fr_ends_on f) (fp_funding_rate_periods plan))"

definition funding_rate_for_day :: "contract_finance_plan \<Rightarrow> int \<Rightarrow> decimal result" where
  "funding_rate_for_day plan day = single_rate
     (filter (\<lambda>f. fr_starts_on f \<le> day \<and> day < fr_ends_on f) (fp_funding_rate_periods plan))"

text \<open>One pass of the loop over the intervals; the state is the balance and the raw interest.\<close>

definition interval_step :: "contract_finance_plan \<Rightarrow> int \<Rightarrow> decimal \<times> decimal \<Rightarrow> int \<times> int \<Rightarrow> (decimal \<times> decimal) result" where
  "interval_step plan basis st interval = (case st of (balance, raw_interest) \<Rightarrow> case interval of (start, till) \<Rightarrow>
     let balance = dadd 28 balance (cash_event plan start); days = till - start in
     if days \<le> 0 \<or> dle d_zero balance then Inr (balance, raw_interest)
     else bindR (funding_rate_for_interval plan start till) (\<lambda>rate.
       bindR (ddiv 28 (dmul 28 (dmul 28 (dneg 28 balance) rate) (dec_of_int days)) (dec_of_int basis)) (\<lambda>i.
         Inr (balance, dadd 28 raw_interest i))))"

definition primary_interest :: "contract_finance_plan \<Rightarrow> int \<Rightarrow> decimal result" where
  "primary_interest plan basis =
     bindR (foldR (interval_step plan basis) (d_zero, d_zero) (adjacent_pairs (finance_boundaries plan))) (\<lambda>st. Inr (snd st))"

definition fee_amount :: "guarantee_fee \<Rightarrow> int \<Rightarrow> decimal result" where
  "fee_amount f basis = ddiv 28 (dmul 28 (dmul 28 (gf_notional_amount f) (gf_annual_rate f))
     (dec_of_int (gf_ends_on f - gf_starts_on f))) (dec_of_int basis)"

definition fee_line :: "commercial_cost_policy \<Rightarrow> guarantee_fee \<Rightarrow> cost_line_result result" where
  "fee_line p f = bindR (fee_amount f (cq_day_count_basis p)) (\<lambda>amount.
     cost_line p (gf_guarantee_id f) (''GUARANTEE:'' @ GuaranteeKind_value (gf_kind f)) amount
       [(''notional_amount'', PDec (gf_notional_amount f)), (''annual_rate'', PDec (gf_annual_rate f)),
        (''duration_days'', PDec (dec_of_int (gf_ends_on f - gf_starts_on f))),
        (''day_count_basis'', PInt (cq_day_count_basis p))])"

definition interest_lines :: "commercial_cost_policy \<Rightarrow> contract_finance_plan \<Rightarrow> decimal \<Rightarrow> cost_line_result list result" where
  "interest_lines p plan raw_interest = (if deq raw_interest d_zero then Inr []
     else bindR (cost_line p ''working-capital-interest'' ''WORKING_CAPITAL_INTEREST'' raw_interest
       [(''valuation_start'', PStr (date_iso (fp_valuation_start plan))),
        (''valuation_end'', PStr (date_iso (fp_valuation_end plan))), (''day_count_basis'', PInt (cq_day_count_basis p))])
       (\<lambda>l. Inr [l]))"

definition primary_contract_finance :: "commercial_cost_policy \<Rightarrow> contract_finance_plan \<Rightarrow> cost_line_result list result" where
  "primary_contract_finance p plan =
     bindR (primary_interest plan (cq_day_count_basis p)) (\<lambda>raw_interest.
     bindR (interest_lines p plan raw_interest) (\<lambda>is.
     bindR (mapR (fee_line p) (sort_key gf_guarantee_id (fp_guarantee_fees plan))) (\<lambda>fs.
       Inr (is @ fs))))"

definition primary_lines :: "commercial_cost_policy \<Rightarrow> commercial_cost_model \<Rightarrow> cost_line_result list result" where
  "primary_lines p m = (case cm_logistics m of Some plan \<Rightarrow> primary_logistics p plan
   | None \<Rightarrow> (case cm_mobilisation m of Some cs \<Rightarrow> primary_mobilisation p cs
   | None \<Rightarrow> (case cm_contract_finance m of Some plan \<Rightarrow> primary_contract_finance p plan
   | None \<Rightarrow> Inl (ValueError ''Commercial cost model has no typed payload''))))"

definition calculate_primary :: "commercial_cost_policy \<Rightarrow> commercial_cost_model \<Rightarrow> string \<Rightarrow> commercial_cost_calculation result" where
  "calculate_primary p m engine_version =
     bindR (primary_lines p m) (\<lambda>lines.
     bindR (round_total p (dsum 28 (map cl_amount lines))) (\<lambda>total.
       Inr \<lparr>cc_engine_version = engine_version, cc_model_kind = cm_model_kind m, cc_currency = cm_currency m,
            cc_lines = lines, cc_total = total\<rparr>))"

subsection \<open>The independent calculation\<close>

definition independent_leg_amount :: "transport_leg \<Rightarrow> int \<Rightarrow> decimal" where
  "independent_leg_amount leg trips = (let t = dec_of_int trips;
     raw = dmul 28 t (tl_fixed_cost_per_trip leg);
     raw = dadd 28 raw (dmul 28 (dmul 28 (dmul 28 t (tl_distance_km leg)) (tl_charged_distance_factor leg))
       (tl_rate_per_vehicle_km leg))
     in dadd 28 raw (dmul 28 t (tl_toll_per_trip leg)))"

definition independent_logistics :: "commercial_cost_policy \<Rightarrow> logistics_plan \<Rightarrow> decimal list result" where
  "independent_logistics p plan =
     bindR (mapR (\<lambda>leg. bindR (independent_trip_count leg) (\<lambda>trips. round_line p (independent_leg_amount leg trips)))
       (lp_transport_legs plan)) (\<lambda>ts.
     bindR (mapR (\<lambda>h. round_line p (dmul 28 (dmul 28 (hc_unit_rate h) (hc_quantity h)) (dec_of_int (hc_operation_count h))))
       (lp_handling_costs plan)) (\<lambda>hs.
     bindR (mapR (\<lambda>s. round_line p (dmul 28 (dmul 28 (sc_rate_per_unit_day s) (sc_duration_days s)) (sc_quantity s)))
       (lp_storage_costs plan)) (\<lambda>ss.
     bindR (mapR (\<lambda>a. round_line p (dmul 28 (ac_unit_rate a) (ac_quantity a))) (lp_ancillary_costs plan)) (\<lambda>as.
       Inr (ts @ hs @ ss @ as)))))"

definition independent_mobilisation :: "commercial_cost_policy \<Rightarrow> mobilisation_cost list \<Rightarrow> decimal list result" where
  "independent_mobilisation p cs = mapR (\<lambda>c. round_line p
     (dmul 28 (dmul 28 (dmul 28 (mc_unit_rate c) (mc_duration_days c)) (mc_occurrence_count c)) (mc_quantity c))) cs"

text \<open>The days of \<open>while current < till: ...; current += timedelta(days=1)\<close>.\<close>

definition days_between :: "int \<Rightarrow> int \<Rightarrow> int list" where
  "days_between start till = map (\<lambda>i. start + int i) [0..<nat (till - start)]"

definition daily_step :: "contract_finance_plan \<Rightarrow> int \<Rightarrow> decimal \<times> decimal \<Rightarrow> int \<Rightarrow> (decimal \<times> decimal) result" where
  "daily_step plan basis st current = (case st of (balance, daily_interest) \<Rightarrow>
     let balance = dadd 28 balance (cash_event plan current) in
     if dlt balance d_zero
     then bindR (funding_rate_for_day plan current) (\<lambda>rate.
       bindR (ddiv 28 (dmul 28 (dneg 28 balance) rate) (dec_of_int basis)) (\<lambda>i.
         Inr (balance, dadd 28 daily_interest i)))
     else Inr (balance, daily_interest))"

definition daily_interest :: "contract_finance_plan \<Rightarrow> int \<Rightarrow> decimal result" where
  "daily_interest plan basis = bindR (foldR (daily_step plan basis) (d_zero, d_zero)
     (days_between (fp_valuation_start plan) (fp_valuation_end plan))) (\<lambda>st. Inr (snd st))"

definition daily_fee :: "guarantee_fee \<Rightarrow> int \<Rightarrow> decimal result" where
  "daily_fee f basis = foldR (\<lambda>total _. bindR (ddiv 28 (dmul 28 (gf_notional_amount f) (gf_annual_rate f)) (dec_of_int basis))
     (\<lambda>i. Inr (dadd 28 total i))) d_zero (days_between (gf_starts_on f) (gf_ends_on f))"

definition independent_contract_finance :: "commercial_cost_policy \<Rightarrow> contract_finance_plan \<Rightarrow> decimal list result" where
  "independent_contract_finance p plan =
     bindR (daily_interest plan (cq_day_count_basis p)) (\<lambda>interest.
     bindR (if deq interest d_zero then Inr [] else bindR (round_line p interest) (\<lambda>i. Inr [i])) (\<lambda>is.
     bindR (mapR (\<lambda>f. bindR (daily_fee f (cq_day_count_basis p)) (round_line p)) (fp_guarantee_fees plan)) (\<lambda>fs.
       Inr (is @ fs))))"

definition independent_amounts :: "commercial_cost_policy \<Rightarrow> commercial_cost_model \<Rightarrow> decimal list result" where
  "independent_amounts p m = (case cm_logistics m of Some plan \<Rightarrow> independent_logistics p plan
   | None \<Rightarrow> (case cm_mobilisation m of Some cs \<Rightarrow> independent_mobilisation p cs
   | None \<Rightarrow> (case cm_contract_finance m of Some plan \<Rightarrow> independent_contract_finance p plan
   | None \<Rightarrow> Inr [])))"

definition calculate_independently :: "commercial_cost_policy \<Rightarrow> commercial_cost_model \<Rightarrow> decimal result" where
  "calculate_independently p m = bindR (independent_amounts p m) (\<lambda>amounts. round_total p (dsum 28 amounts))"

subsection \<open>Evaluation\<close>

definition logistics_sections :: "logistics_plan \<Rightarrow> string list" where
  "logistics_sections plan = (if lp_transport_legs plan \<noteq> [] then [''TRANSPORT''] else [])
     @ (if lp_handling_costs plan \<noteq> [] then [''HANDLING''] else [])
     @ (if lp_storage_costs plan \<noteq> [] then [''STORAGE''] else [])
     @ (if lp_ancillary_costs plan \<noteq> [] then [''ANCILLARY''] else [])"

definition missing_parts :: "commercial_cost_policy \<Rightarrow> commercial_cost_model \<Rightarrow> string list" where
  "missing_parts p m = (case cm_logistics m of
     Some plan \<Rightarrow> map (\<lambda>x. ''LOGISTICS:'' @ x)
       (filter (\<lambda>x. x \<notin> set (logistics_sections plan)) (sorted_list_of_fset (cq_required_logistics_sections p)))
   | None \<Rightarrow> (case cm_mobilisation m of
     Some cs \<Rightarrow> map (\<lambda>k. ''MOBILISATION:'' @ MobilisationComponentKind_value k)
       (sort_key MobilisationComponentKind_value (filter (\<lambda>k. k |\<in>| cq_required_mobilisation_kinds p \<and> k \<notin> mc_kind ` set cs)
         all_MobilisationComponentKind))
   | None \<Rightarrow> (case cm_contract_finance m of
     Some plan \<Rightarrow> map (\<lambda>k. ''CONTRACT_FINANCE:'' @ ContractCashFlowKind_value k)
       (sort_key ContractCashFlowKind_value (filter (\<lambda>k. k |\<in>| cq_required_cash_flow_kinds p
         \<and> k \<notin> cf_kind ` set (fp_cash_flows plan)) all_ContractCashFlowKind))
   | None \<Rightarrow> [])))"

definition completeness_findings :: "commercial_cost_policy \<Rightarrow> commercial_cost_model \<Rightarrow> validation_finding list" where
  "completeness_findings p m = (if missing_parts p m = [] then []
     else [vfinding FindingCode.COST_WITHOUT_BASIS Severity.BLOCKER ''Controlled commercial cost model is incomplete''
       (missing_parts p m)])"

definition component_count :: "commercial_cost_model \<Rightarrow> int" where
  "component_count m = (case cm_logistics m of Some plan \<Rightarrow> int (length (logistics_ids plan))
   | None \<Rightarrow> (case cm_mobilisation m of Some cs \<Rightarrow> int (length cs)
   | None \<Rightarrow> (case cm_contract_finance m of
       Some plan \<Rightarrow> int (length (fp_cash_flows plan)) + int (length (fp_funding_rate_periods plan))
         + int (length (fp_guarantee_fees plan))
   | None \<Rightarrow> 0)))"

definition mismatch_finding :: "commercial_cost_policy \<Rightarrow> decimal \<Rightarrow> decimal \<Rightarrow> decimal \<Rightarrow> validation_finding" where
  "mismatch_finding p primary_total independent_total difference =
     (vfinding FindingCode.INDEPENDENT_RECALCULATION_MISMATCH Severity.BLOCKER
        ''Independent commercial cost recalculation differs from primary'' [])
     \<lparr>vf_details := [(''primary_total'', PDec primary_total), (''independent_total'', PDec independent_total),
        (''difference'', PDec difference), (''tolerance'', PDec (cq_independent_tolerance p))]\<rparr>"

definition evaluation_findings :: "commercial_cost_policy \<Rightarrow> commercial_cost_model \<Rightarrow> decimal \<Rightarrow> decimal \<Rightarrow> validation_finding list" where
  "evaluation_findings p m primary_total independent_total =
     (let difference = dabs 28 (dsub 28 primary_total independent_total) in
      completeness_findings p m
      @ (if deq primary_total d_zero \<and> \<not> cq_allow_zero_total p
         then [vfinding FindingCode.COST_WITHOUT_BASIS Severity.BLOCKER ''Controlled commercial model policy forbids a zero total''
           [cm_target_line_id m, cm_target_semantic_key m]] else [])
      @ (if dlt (cq_independent_tolerance p) difference then [mismatch_finding p primary_total independent_total difference] else []))"

text \<open>The dumped model and policy, of which the input hash is taken; a date is its ISO text there.\<close>

abbreviation text_list :: "string list \<Rightarrow> pyval" where
  "text_list xs \<equiv> PList (map PStr xs)"

definition leg_value :: "transport_leg \<Rightarrow> pyval" where
  "leg_value l = PDict [(''component_id'', PStr (tl_component_id l)), (''mode'', PStr (tl_mode l)),
     (''origin'', PStr (tl_origin l)), (''destination'', PStr (tl_destination l)), (''distance_km'', PDec (tl_distance_km l)),
     (''charged_distance_factor'', PDec (tl_charged_distance_factor l)),
     (''cargo_mass_tonnes'', opt_value PDec (tl_cargo_mass_tonnes l)),
     (''vehicle_mass_capacity_tonnes'', opt_value PDec (tl_vehicle_mass_capacity_tonnes l)),
     (''cargo_volume_m3'', opt_value PDec (tl_cargo_volume_m3 l)),
     (''vehicle_volume_capacity_m3'', opt_value PDec (tl_vehicle_volume_capacity_m3 l)),
     (''cargo_units'', opt_value PDec (tl_cargo_units l)), (''vehicle_unit_capacity'', opt_value PDec (tl_vehicle_unit_capacity l)),
     (''fixed_cost_per_trip'', PDec (tl_fixed_cost_per_trip l)), (''rate_per_vehicle_km'', PDec (tl_rate_per_vehicle_km l)),
     (''toll_per_trip'', PDec (tl_toll_per_trip l)), (''route_observation_ids'', text_list (tl_route_observation_ids l)),
     (''cargo_observation_ids'', text_list (tl_cargo_observation_ids l)),
     (''rate_observation_ids'', text_list (tl_rate_observation_ids l))]"

definition handling_value :: "handling_cost \<Rightarrow> pyval" where
  "handling_value h = PDict [(''component_id'', PStr (hc_component_id h)), (''kind'', PStr (LogisticsHandlingKind_value (hc_kind h))),
     (''quantity'', PDec (hc_quantity h)), (''unit'', PStr (hc_unit h)), (''operation_count'', PInt (hc_operation_count h)),
     (''unit_rate'', PDec (hc_unit_rate h)), (''observation_ids'', text_list (hc_observation_ids h))]"

definition storage_value :: "storage_cost \<Rightarrow> pyval" where
  "storage_value s = PDict [(''component_id'', PStr (sc_component_id s)), (''quantity'', PDec (sc_quantity s)),
     (''unit'', PStr (sc_unit s)), (''duration_days'', PDec (sc_duration_days s)),
     (''rate_per_unit_day'', PDec (sc_rate_per_unit_day s)), (''observation_ids'', text_list (sc_observation_ids s))]"

definition ancillary_value :: "ancillary_cost \<Rightarrow> pyval" where
  "ancillary_value a = PDict [(''component_id'', PStr (ac_component_id a)), (''kind'', PStr (LogisticsAncillaryKind_value (ac_kind a))),
     (''quantity'', PDec (ac_quantity a)), (''unit'', PStr (ac_unit a)), (''unit_rate'', PDec (ac_unit_rate a)),
     (''observation_ids'', text_list (ac_observation_ids a))]"

definition logistics_value :: "logistics_plan \<Rightarrow> pyval" where
  "logistics_value p = PDict [(''transport_legs'', PList (map leg_value (lp_transport_legs p))),
     (''handling_costs'', PList (map handling_value (lp_handling_costs p))),
     (''storage_costs'', PList (map storage_value (lp_storage_costs p))),
     (''ancillary_costs'', PList (map ancillary_value (lp_ancillary_costs p)))]"

definition mobilisation_value :: "mobilisation_cost \<Rightarrow> pyval" where
  "mobilisation_value c = PDict [(''component_id'', PStr (mc_component_id c)),
     (''kind'', PStr (MobilisationComponentKind_value (mc_kind c))), (''description'', PStr (mc_description c)),
     (''quantity'', PDec (mc_quantity c)), (''unit'', PStr (mc_unit c)), (''occurrence_count'', PDec (mc_occurrence_count c)),
     (''duration_days'', PDec (mc_duration_days c)), (''unit_rate'', PDec (mc_unit_rate c)),
     (''observation_ids'', text_list (mc_observation_ids c))]"

definition cash_flow_value :: "contract_cash_flow \<Rightarrow> pyval" where
  "cash_flow_value f = PDict [(''cash_flow_id'', PStr (cf_cash_flow_id f)), (''kind'', PStr (ContractCashFlowKind_value (cf_kind f))),
     (''cash_date'', PStr (date_iso (cf_cash_date f))), (''amount'', PDec (cf_amount f)),
     (''observation_ids'', text_list (cf_observation_ids f)), (''contract_term_ids'', text_list (cf_contract_term_ids f))]"

definition rate_period_value :: "funding_rate_period \<Rightarrow> pyval" where
  "rate_period_value f = PDict [(''rate_period_id'', PStr (fr_rate_period_id f)), (''starts_on'', PStr (date_iso (fr_starts_on f))),
     (''ends_on'', PStr (date_iso (fr_ends_on f))), (''annual_rate'', PDec (fr_annual_rate f)),
     (''observation_ids'', text_list (fr_observation_ids f))]"

definition fee_value :: "guarantee_fee \<Rightarrow> pyval" where
  "fee_value f = PDict [(''guarantee_id'', PStr (gf_guarantee_id f)), (''kind'', PStr (GuaranteeKind_value (gf_kind f))),
     (''notional_amount'', PDec (gf_notional_amount f)), (''annual_rate'', PDec (gf_annual_rate f)),
     (''starts_on'', PStr (date_iso (gf_starts_on f))), (''ends_on'', PStr (date_iso (gf_ends_on f))),
     (''observation_ids'', text_list (gf_observation_ids f)), (''contract_term_ids'', text_list (gf_contract_term_ids f))]"

definition finance_value :: "contract_finance_plan \<Rightarrow> pyval" where
  "finance_value p = PDict [(''valuation_start'', PStr (date_iso (fp_valuation_start p))),
     (''valuation_end'', PStr (date_iso (fp_valuation_end p))), (''cash_flows'', PList (map cash_flow_value (fp_cash_flows p))),
     (''funding_rate_periods'', PList (map rate_period_value (fp_funding_rate_periods p))),
     (''guarantee_fees'', PList (map fee_value (fp_guarantee_fees p)))]"

definition cost_model_value :: "commercial_cost_model \<Rightarrow> pyval" where
  "cost_model_value m = PDict [(''model_kind'', PStr (CommercialCostModelKind_value (cm_model_kind m))),
     (''currency'', PStr (cm_currency m)), (''target_line_id'', PStr (cm_target_line_id m)),
     (''target_semantic_key'', PStr (cm_target_semantic_key m)),
     (''related_contract_term_ids'', text_list (cm_related_contract_term_ids m)),
     (''logistics'', opt_value logistics_value (cm_logistics m)),
     (''mobilisation'', opt_value (\<lambda>cs. PDict [(''components'', PList (map mobilisation_value cs))]) (cm_mobilisation m)),
     (''contract_finance'', opt_value finance_value (cm_contract_finance m))]"

definition cost_policy_value :: "commercial_cost_policy \<Rightarrow> pyval" where
  "cost_policy_value p = PDict [(''policy_version'', PStr (cq_policy_version p)), (''currency'', PStr (cq_currency p)),
     (''line_rounding_scale'', PInt (int (cq_line_rounding_scale p))), (''total_rounding_scale'', PInt (int (cq_total_rounding_scale p))),
     (''rounding_mode'', PStr (cq_rounding_mode p)), (''independent_tolerance'', PDec (cq_independent_tolerance p)),
     (''day_count_basis'', PInt (cq_day_count_basis p)), (''max_finance_horizon_days'', PInt (cq_max_finance_horizon_days p)),
     (''max_model_components'', PInt (cq_max_model_components p)), (''allow_zero_total'', PBool (cq_allow_zero_total p)),
     (''required_model_kinds'', PSet (map (PStr \<circ> CommercialCostModelKind_value)
        (filter (\<lambda>k. k |\<in>| cq_required_model_kinds p) [CommercialCostModelKind.LOGISTICS, CommercialCostModelKind.MOBILISATION,
          CommercialCostModelKind.CONTRACT_FINANCE]))),
     (''required_logistics_sections'', PSet (map PStr (sorted_list_of_fset (cq_required_logistics_sections p)))),
     (''required_mobilisation_kinds'', PSet (map (PStr \<circ> MobilisationComponentKind_value)
        (filter (\<lambda>k. k |\<in>| cq_required_mobilisation_kinds p) all_MobilisationComponentKind))),
     (''required_cash_flow_kinds'', PSet (map (PStr \<circ> ContractCashFlowKind_value)
        (filter (\<lambda>k. k |\<in>| cq_required_cash_flow_kinds p) all_ContractCashFlowKind))),
     (''required_contract_term_kinds'', PSet (map (PStr \<circ> ContractTermKind_value)
        (filter (\<lambda>k. k |\<in>| cq_required_contract_term_kinds p) all_ContractTermKind)))]"

definition evaluate_commercial_cost :: "(string \<Rightarrow> string) \<Rightarrow> commercial_cost_model
    \<Rightarrow> commercial_cost_policy \<Rightarrow> string \<Rightarrow> string \<Rightarrow> commercial_cost_evaluation result" where
  "evaluate_commercial_cost sha256 m p engine_version validator_version =
     (if cm_currency m \<noteq> cq_currency p
      then Inl (ValueError ''Commercial cost model currency differs from controlled policy'')
      else if cq_max_model_components p < component_count m
      then Inl (ValueError ''Commercial cost model exceeds the controlled component-count limit'')
      else if (case cm_contract_finance m of None \<Rightarrow> False
          | Some plan \<Rightarrow> cq_max_finance_horizon_days p < fp_valuation_end plan - fp_valuation_start plan)
      then Inl (ValueError ''Contract finance horizon exceeds the controlled operational limit'')
      else bindR (calculate_primary p m engine_version) (\<lambda>primary.
        bindR (calculate_independently p m) (\<lambda>independent_total.
        bindR (canonical_json (PDict [(''model'', cost_model_value m), (''policy'', cost_policy_value p)])) (\<lambda>text.
          let findings = evaluation_findings p m (cc_total primary) independent_total
          in Inr \<lparr>ce_input_hash = sha256 text, ce_primary = primary,
               ce_independent = \<lparr>cx_validator_version = validator_version,
                 cx_passed = \<not> list_ex (\<lambda>f. vf_severity f = Severity.BLOCKER) findings,
                 cx_independently_calculated_total = independent_total, cx_primary_total = cc_total primary,
                 cx_difference = dabs 28 (dsub 28 (cc_total primary) independent_total),
                 cx_tolerance = cq_independent_tolerance p, cx_findings = findings\<rparr>\<rparr>))))"

subsection \<open>Exact balances\<close>

text \<open>The cash flows lie on one decimal grid and their volume fits the 28 digits of the context, so every
  balance is computed exactly.\<close>

definition flow_total :: "(contract_cash_flow \<Rightarrow> bool) \<Rightarrow> contract_finance_plan \<Rightarrow> rat" where
  "flow_total P plan = sum_list (map (dval \<circ> cf_amount) (filter P (fp_cash_flows plan)))"

definition cash_grid :: "nat \<Rightarrow> contract_finance_plan \<Rightarrow> bool" where
  "cash_grid s plan \<longleftrightarrow> list_all (\<lambda>f. column_ok 28 s (cf_amount f)) (fp_cash_flows plan)
     \<and> sum_list (map (\<lambda>f. \<bar>dval (cf_amount f)\<bar>) (fp_cash_flows plan)) * 10 ^ s < 10 ^ 28"

definition on_decimals :: "nat \<Rightarrow> rat \<Rightarrow> bool" where
  "on_decimals s v \<longleftrightarrow> (\<exists>k. v = of_int k / 10 ^ s)"

lemma on_decimals_add: "on_decimals s v \<Longrightarrow> on_decimals s w \<Longrightarrow> on_decimals s (v + w)"
  unfolding on_decimals_def by (metis add_divide_distrib of_int_add)

lemma on_decimals_0: "on_decimals s 0"
  unfolding on_decimals_def by (rule exI [of _ 0]) simp

lemma on_decimals_fits:
  assumes "on_decimals s v" "\<bar>v\<bar> * 10 ^ s < 10 ^ p"
  shows "fits p v"
proof -
  obtain k where k: "v = of_int k / 10 ^ s" using assms(1) by (auto simp: on_decimals_def)
  then have "\<bar>of_int k\<bar> < (10 ^ p :: rat)" using assms(2) by (simp add: abs_divide)
  then have "\<bar>k\<bar> < 10 ^ p" by (metis of_int_abs of_int_less_iff of_int_numeral of_int_power)
  then show ?thesis by (intro fitsI [of _ k "- int s"]) (simp_all only: k div_pow10)
qed

lemma foldl_dadd_exact:
  assumes "\<forall>x \<in> set xs. on_decimals s (dval x)" "on_decimals s (dval a)"
    "(\<bar>dval a\<bar> + sum_list (map (\<lambda>x. \<bar>dval x\<bar>) xs)) * 10 ^ s < 10 ^ p"
  shows "dval (foldl (dadd p) a xs) = dval a + sum_list (map dval xs)"
  using assms
proof (induction xs arbitrary: a)
  case (Cons x xs)
  let ?t = "sum_list (map (\<lambda>x. \<bar>dval x\<bar>) xs)"
  have d: "on_decimals s (dval a + dval x)" using Cons.prems by (intro on_decimals_add) simp_all
  have t: "0 \<le> ?t" by (intro sum_list_nonneg) auto
  have "\<bar>dval a + dval x\<bar> + ?t \<le> \<bar>dval a\<bar> + sum_list (map (\<lambda>x. \<bar>dval x\<bar>) (x # xs))" by simp
  then have "(\<bar>dval a + dval x\<bar> + ?t) * 10 ^ s \<le> (\<bar>dval a\<bar> + sum_list (map (\<lambda>x. \<bar>dval x\<bar>) (x # xs))) * 10 ^ s"
    by (intro mult_right_mono) simp_all
  then have b: "(\<bar>dval a + dval x\<bar> + ?t) * 10 ^ s < 10 ^ p" using Cons.prems(3) by linarith
  have "\<bar>dval a + dval x\<bar> * 10 ^ s \<le> (\<bar>dval a + dval x\<bar> + ?t) * 10 ^ s" using t by (intro mult_right_mono) simp_all
  then have "\<bar>dval a + dval x\<bar> * 10 ^ s < 10 ^ p" using b by linarith
  then have e: "dval (dadd p a x) = dval a + dval x" using on_decimals_fits [OF d] by (simp add: dval_dadd)
  show ?case using Cons.IH [of "dadd p a x"] Cons.prems(1) d b by (simp add: e add.assoc)
qed simp

lemma column_on_decimals: "column_ok m s x \<Longrightarrow> on_decimals s (dval x)"
  using column_ok_dval unfolding on_decimals_def by blast

lemma flow_total_grid:
  assumes "cash_grid s plan"
  shows "on_decimals s (flow_total P plan)" "\<bar>flow_total P plan\<bar> * 10 ^ s < 10 ^ 28"
proof -
  let ?v = "\<lambda>fs. sum_list (map (\<lambda>f. \<bar>dval (cf_amount f)\<bar>) fs)"
  have g: "on_decimals s (sum_list (map (dval \<circ> cf_amount) (filter P fs))) \<and>
      \<bar>sum_list (map (dval \<circ> cf_amount) (filter P fs))\<bar> \<le> ?v fs"
    if "list_all (\<lambda>f. column_ok 28 s (cf_amount f)) fs" for fs
    using that
  proof (induction fs)
    case (Cons f fs)
    then show ?case using on_decimals_add [OF column_on_decimals [of 28 s "cf_amount f"]] by auto
  qed (simp add: on_decimals_0)
  have c: "list_all (\<lambda>f. column_ok 28 s (cf_amount f)) (fp_cash_flows plan)" "?v (fp_cash_flows plan) * 10 ^ s < 10 ^ 28"
    using assms by (simp_all add: cash_grid_def)
  show "on_decimals s (flow_total P plan)" using g [OF c(1)] by (simp add: flow_total_def)
  have "\<bar>flow_total P plan\<bar> * 10 ^ s \<le> ?v (fp_cash_flows plan) * 10 ^ s"
    using g [OF c(1)] by (intro mult_right_mono) (simp_all add: flow_total_def)
  with c(2) show "\<bar>flow_total P plan\<bar> * 10 ^ s < 10 ^ 28" by linarith
qed

lemma sum_list_filter_le: "(\<And>x. 0 \<le> g x) \<Longrightarrow> sum_list (map g (filter P xs)) \<le> sum_list (map (g :: _ \<Rightarrow> rat) xs)"
proof (induction xs)
  case (Cons x xs)
  then show ?case using add_mono [of 0 "g x"] by (simp add: add_increasing)
qed simp

lemma cash_event_exact:
  assumes "cash_grid s plan"
  shows "dval (cash_event plan d) = flow_total (\<lambda>f. cf_cash_date f = d) plan"
proof -
  let ?fs = "filter (\<lambda>f. cf_cash_date f = d) (fp_cash_flows plan)"
  have c: "\<forall>x \<in> set (map cf_amount ?fs). on_decimals s (dval x)"
    using assms by (auto simp: cash_grid_def list_all_iff intro: column_on_decimals)
  have "sum_list (map (\<lambda>f. \<bar>dval (cf_amount f)\<bar>) ?fs) \<le> sum_list (map (\<lambda>f. \<bar>dval (cf_amount f)\<bar>) (fp_cash_flows plan))"
    by (rule sum_list_filter_le) simp
  then have "sum_list (map (\<lambda>f. \<bar>dval (cf_amount f)\<bar>) ?fs) * 10 ^ s
      \<le> sum_list (map (\<lambda>f. \<bar>dval (cf_amount f)\<bar>) (fp_cash_flows plan)) * 10 ^ s"
    by (intro mult_right_mono) simp_all
  also have "\<dots> < 10 ^ 28" using assms by (simp add: cash_grid_def)
  finally have "(\<bar>dval d_zero\<bar> + sum_list (map (\<lambda>x. \<bar>dval x\<bar>) (map cf_amount ?fs))) * 10 ^ s < 10 ^ 28"
    by (simp add: comp_def)
  from foldl_dadd_exact [OF c _ this] show ?thesis
    by (simp add: cash_event_def dsum_def flow_total_def on_decimals_0 comp_def)
qed

lemma balance_exact:
  assumes "cash_grid s plan" "dval b = flow_total (\<lambda>f. cf_cash_date f < d) plan"
  shows "dval (dadd 28 b (cash_event plan d)) = flow_total (\<lambda>f. cf_cash_date f < d + 1) plan"
proof -
  have "sum_list (map g (filter (\<lambda>f. cf_cash_date f < d) fs)) + sum_list (map g (filter (\<lambda>f. cf_cash_date f = d) fs))
      = sum_list (map g (filter (\<lambda>f. cf_cash_date f < d + 1) fs))" for g :: "contract_cash_flow \<Rightarrow> rat" and fs
    by (induction fs) auto
  then have t: "dval b + dval (cash_event plan d) = flow_total (\<lambda>f. cf_cash_date f < d + 1) plan"
    unfolding cash_event_exact [OF assms(1)] assms(2) flow_total_def .
  then show ?thesis
    using on_decimals_fits [OF flow_total_grid [OF assms(1)]] by (subst dval_dadd) simp_all
qed

lemma negative_balance:
  assumes "cash_grid s plan" "dval b = flow_total P plan"
  shows "dval (dneg 28 b) = - flow_total P plan"
  using dval_dneg [of 28 b] assms on_decimals_fits [OF flow_total_grid [OF assms(1)]] by simp

subsection \<open>Loops that accumulate interest\<close>

fun sumR :: "('a \<Rightarrow> rat result) \<Rightarrow> 'a list \<Rightarrow> rat result" where
  "sumR f [] = Inr 0"
| "sumR f (x # xs) = bindR (f x) (\<lambda>t. bindR (sumR f xs) (\<lambda>r. Inr (t + r)))"

lemma sumR_append: "sumR f (xs @ ys) = bindR (sumR f xs) (\<lambda>a. bindR (sumR f ys) (\<lambda>b. Inr (a + b)))"
proof (induction xs)
  case Nil
  then show ?case by (cases "sumR f ys") simp_all
next
  case (Cons x xs)
  then show ?case by (cases "f x"; cases "sumR f xs"; cases "sumR f ys") simp_all
qed

fun linked :: "('x \<Rightarrow> rat) \<Rightarrow> ('x \<Rightarrow> rat) \<Rightarrow> rat \<Rightarrow> 'x list \<Rightarrow> bool" where
  "linked before after b [] = True"
| "linked before after b (x # xs) \<longleftrightarrow> before x = b \<and> linked before after (after x) xs"

text \<open>
  A loop over dated items: its step turns the exact balance before an item into the exact balance after
  it, and adds the item's interest up to four roundings, or raises exactly when the interest is
  undefined.
\<close>

locale interest_loop =
  fixes inputs :: "'p \<Rightarrow> bool"
    and item :: "'p \<Rightarrow> 'x \<Rightarrow> bool"
    and step :: "'p \<Rightarrow> decimal \<times> decimal \<Rightarrow> 'x \<Rightarrow> (decimal \<times> decimal) result"
    and before :: "'p \<Rightarrow> 'x \<Rightarrow> rat"
    and after :: "'p \<Rightarrow> 'x \<Rightarrow> rat"
    and interest :: "'p \<Rightarrow> 'x \<Rightarrow> rat result"
  assumes raises: "inputs p \<Longrightarrow> item p x \<Longrightarrow> dval b = before p x \<Longrightarrow> interest p x = Inl e \<Longrightarrow> step p (b, r) x = Inl e"
    and steps: "inputs p \<Longrightarrow> item p x \<Longrightarrow> dval b = before p x \<Longrightarrow> interest p x = Inr t \<Longrightarrow>
      \<exists>b' r'. step p (b, r) x = Inr (b', r') \<and> dval b' = after p x \<and> 0 \<le> t
        \<and> (r' = r \<and> t = 0 \<or> (\<exists>i. r' = dadd 28 r i \<and> approx 28 4 i t t))"
begin

lemma run:
  assumes "inputs p" "list_all (item p) xs" "linked (before p) (after p) (dval b) xs"
    "approx 28 k r v v" "4 \<le> k" "k + length xs \<le> 10 ^ 27"
  shows "case sumR (interest p) xs of Inl e \<Rightarrow> foldR (step p) (b, r) xs = Inl e
    | Inr t \<Rightarrow> \<exists>b' r'. foldR (step p) (b, r) xs = Inr (b', r') \<and> approx 28 (k + length xs) r' (v + t) (v + t)"
  using assms(2-)
proof (induction xs arbitrary: b r k v)
  case (Cons x xs)
  have x: "item p x" "dval b = before p x" using Cons.prems(1,2) by simp_all
  show ?case
  proof (cases "interest p x")
    case (Inl e)
    then show ?thesis using raises [OF assms(1) x Inl] by simp
  next
    case (Inr t)
    obtain b' r' where s: "step p (b, r) x = Inr (b', r')" "dval b' = after p x" "0 \<le> t"
      "r' = r \<and> t = 0 \<or> (\<exists>i. r' = dadd 28 r i \<and> approx 28 4 i t t)"
      using steps [OF assms(1) x Inr] by blast
    have "approx 28 (k + 1) r' (v + t) (v + t)"
      using s(4)
    proof
      assume "r' = r \<and> t = 0"
      then show ?thesis using approx_weaken [OF Cons.prems(3), of "k + 1" v] Cons.prems(5) by simp
    next
      assume "\<exists>i. r' = dadd 28 r i \<and> approx 28 4 i t t"
      then obtain i where i: "r' = dadd 28 r i" "approx 28 4 i t t" by blast
      have "max k 4 = k" using Cons.prems(4) by simp
      then show ?thesis using approx_add [OF Cons.prems(3) i(2)] Cons.prems(4,5) unfolding i(1) by simp
    qed
    then have "case sumR (interest p) xs of Inl e \<Rightarrow> foldR (step p) (b', r') xs = Inl e
      | Inr u \<Rightarrow> \<exists>b2 r2. foldR (step p) (b', r') xs = Inr (b2, r2)
          \<and> approx 28 (k + 1 + length xs) r2 (v + t + u) (v + t + u)"
      using Cons.IH [of b' "k + 1" r' "v + t"] Cons.prems s(2) by simp
    then show ?thesis using s(1) Inr by (cases "sumR (interest p) xs") (simp_all add: add.assoc)
  qed
next
  case Nil
  then show ?case by simp
qed

end

subsection \<open>The two loops over the horizon\<close>

lemma pairwise_adjacent:
  "sorted_wrt (<) xs \<Longrightarrow> (a, b) \<in> set (adjacent_pairs xs) \<Longrightarrow>
    a \<in> set xs \<and> b \<in> set xs \<and> a < b \<and> (\<forall>c \<in> set xs. c \<le> a \<or> b \<le> (c :: int))"
proof (induction xs rule: adjacent_pairs.induct)
  case (1 x y xs)
  have lt: "x < y" "\<forall>c \<in> set xs. y < c" "sorted_wrt (<) (y # xs)" using 1(2) by auto
  consider "(a, b) = (x, y)" | "(a, b) \<in> set (adjacent_pairs (y # xs))" using 1(3) by auto
  then show ?case
  proof cases
    case 1
    have "\<forall>c \<in> set (x # y # xs). c \<le> x \<or> y \<le> c" using lt(2) by (auto intro: less_imp_le)
    with 1 lt(1) show ?thesis by simp
  next
    case 2
    have ih: "a \<in> set (y # xs) \<and> b \<in> set (y # xs) \<and> a < b \<and> (\<forall>c \<in> set (y # xs). c \<le> a \<or> b \<le> c)" by (rule "1.IH" [OF lt(3) 2])
    then have "y \<le> a" using lt(2) by (auto intro: less_imp_le)
    then have "x \<le> a" using lt(1) by simp
    with ih show ?thesis by simp
  qed
qed simp_all

lemma pairwise_length: "length (adjacent_pairs xs) = length xs - 1"
  by (induction xs rule: adjacent_pairs.induct) simp_all

lemma pairwise_linked:
  assumes "\<And>a b. (a, b) \<in> set (adjacent_pairs xs) \<Longrightarrow> before (a, b) = g a \<and> after (a, b) = g b" "xs \<noteq> []"
  shows "linked before after (g (hd xs)) (adjacent_pairs xs)"
  using assms by (induction xs rule: adjacent_pairs.induct) simp_all

lemma days_between_append: "a \<le> b \<Longrightarrow> b \<le> c \<Longrightarrow> days_between a c = days_between a b @ days_between b c"
proof -
  assume a: "a \<le> b" "b \<le> c"
  have n: "nat (c - a) = nat (b - a) + nat (c - b)" using a by simp
  have "map (\<lambda>i. a + int i) [nat (b - a)..<nat (b - a) + nat (c - b)] = map (\<lambda>i. b + int i) [0..<nat (c - b)]"
    using a(1) by (intro nth_equalityI) simp_all
  moreover have "[0..<nat (b - a) + nat (c - b)] = [0..<nat (b - a)] @ [nat (b - a)..<nat (b - a) + nat (c - b)]"
    by (rule upt_add_eq_append) simp
  ultimately show ?thesis unfolding days_between_def n by (simp only: map_append)
qed

lemma days_between_Cons: "a < c \<Longrightarrow> days_between a c = a # days_between (a + 1) c"
  using days_between_append [of a "a + 1" c] by (simp add: days_between_def)

lemma days_between_Nil [simp]: "days_between a a = []"
  by (simp add: days_between_def)

lemma set_days_between [simp]: "set (days_between a b) = {a..<b}"
proof -
  have "x \<in> (\<lambda>i. a + int i) ` {0..<nat (b - a)}" if "a \<le> x" "x < b" for x
    by (rule image_eqI [of _ _ "nat (x - a)"]) (use that in simp_all)
  then show ?thesis by (auto simp: days_between_def)
qed

lemma days_linked:
  assumes "\<And>d. before d = g d" "\<And>d. after d = g (d + 1)"
  shows "linked before after (g a) (days_between a b)"
proof (induction "nat (b - a)" arbitrary: a)
  case (Suc n)
  then have "a < b" by simp
  then show ?case using Suc(1) [of "a + 1"] Suc(2) by (simp add: days_between_Cons assms)
qed (simp add: days_between_def)

lemma sumR_days:
  assumes "sorted_wrt (<) xs" "xs \<noteq> []" "\<And>a b. (a, b) \<in> set (adjacent_pairs xs) \<Longrightarrow> sumR f (days_between a b) = g (a, b)"
  shows "sumR f (days_between (hd xs) (last xs)) = sumR g (adjacent_pairs xs)"
  using assms
proof (induction xs rule: adjacent_pairs.induct)
  case (1 x y xs)
  have lt: "x \<le> y" "y \<le> last (y # xs)" "sorted_wrt (<) (y # xs)" using 1(2) by (auto intro: less_imp_le)
  have "sumR f (days_between y (last (y # xs))) = sumR g (adjacent_pairs (y # xs))" using 1(1) lt(3) 1(4) by simp
  moreover have "sumR f (days_between x y) = g (x, y)" using 1(4) by simp
  moreover have "days_between x (last (y # xs)) = days_between x y @ days_between y (last (y # xs))"
    by (rule days_between_append [OF lt(1,2)])
  ultimately show ?case by (simp only: adjacent_pairs.simps sumR.simps list.sel last_ConsR list.distinct sumR_append simp_thms)
qed simp_all

lemma sumR_const:
  assumes "xs \<noteq> []" "\<forall>x \<in> set xs. f x = c"
  shows "sumR f xs = bindR c (\<lambda>t. Inr (of_nat (length xs) * t))"
  using assms
proof (induction xs rule: list_nonempty_induct)
  case (cons x xs)
  then show ?case by (cases c) (simp_all add: distrib_right)
qed (cases c; simp)

subsection \<open>Interest accrued exactly\<close>

type_synonym finance = "nat \<times> contract_finance_plan \<times> int"

text \<open>A valid plan whose rates are not negative, on a decimal grid of its cash flows, for at most some
  27,000 years.\<close>

definition finance_inputs :: "finance \<Rightarrow> bool" where
  "finance_inputs fi \<longleftrightarrow> (case fi of (s, plan, basis) \<Rightarrow> is_ok (timeline_is_valid plan)
     \<and> list_all (\<lambda>f. fr_starts_on f < fr_ends_on f \<and> 0 \<le> dval (fr_annual_rate f)) (fp_funding_rate_periods plan)
     \<and> cash_grid s plan \<and> 0 < basis \<and> fp_valuation_end plan - fp_valuation_start plan \<le> 10 ^ 7)"

text \<open>The balance before a day, and what a balance held for some days costs.\<close>

definition balance_before :: "finance \<Rightarrow> int \<Rightarrow> rat" where
  "balance_before fi day = (case fi of (s, plan, basis) \<Rightarrow> flow_total (\<lambda>f. cf_cash_date f < day) plan)"

definition accrued :: "finance \<Rightarrow> decimal result \<Rightarrow> int \<Rightarrow> int \<Rightarrow> rat result" where
  "accrued fi rate day days = (case fi of (s, plan, basis) \<Rightarrow>
     if balance_before fi (day + 1) < 0
     then bindR rate (\<lambda>r. Inr (- balance_before fi (day + 1) * dval r * of_int days / of_int basis)) else Inr 0)"

definition day_interest :: "finance \<Rightarrow> int \<Rightarrow> rat result" where
  "day_interest fi day = accrued fi (funding_rate_for_day (fst (snd fi)) day) day 1"

definition interval_interest :: "finance \<Rightarrow> int \<times> int \<Rightarrow> rat result" where
  "interval_interest fi i = accrued fi (funding_rate_for_interval (fst (snd fi)) (fst i) (snd i)) (fst i) (snd i - fst i)"

text \<open>The interest of the plan: every day of the horizon charged on its balance.\<close>

definition exact_interest :: "finance \<Rightarrow> rat result" where
  "exact_interest fi = sumR (day_interest fi)
     (days_between (fp_valuation_start (fst (snd fi))) (fp_valuation_end (fst (snd fi))))"

lemma single_rate_nonneg:
  assumes "finance_inputs (s, plan, basis)" "single_rate (filter P (fp_funding_rate_periods plan)) = Inr r"
  shows "0 \<le> dval r"
proof -
  have "length (filter P (fp_funding_rate_periods plan)) = 1" and r: "r = fr_annual_rate (hd (filter P (fp_funding_rate_periods plan)))"
    using assms(2) by (auto simp: single_rate_def split: if_splits)
  then have "hd (filter P (fp_funding_rate_periods plan)) \<in> set (filter P (fp_funding_rate_periods plan))"
    by (intro hd_in_set) auto
  then show ?thesis using assms(1) by (auto simp: finance_inputs_def list_all_iff r)
qed

text \<open>One accrual in decimal arithmetic, over several days and over one.\<close>

lemma accrual_approx:
  assumes "finance_inputs (s, plan, basis)" "dval b = flow_total P plan" "dval b < 0" "0 \<le> dval r" "0 < n"
  shows "\<exists>i. ddiv 28 (dmul 28 (dmul 28 (dneg 28 b) r) (dec_of_int n)) (dec_of_int basis) = Inr i
      \<and> approx 28 4 i (- dval b * dval r * of_int n / of_int basis) (- dval b * dval r * of_int n / of_int basis)"
    and "\<exists>i. ddiv 28 (dmul 28 (dneg 28 b) r) (dec_of_int basis) = Inr i
      \<and> approx 28 4 i (- dval b * dval r * of_int 1 / of_int basis) (- dval b * dval r * of_int 1 / of_int basis)"
    and "0 \<le> - dval b * dval r * of_int n / of_int basis"
proof -
  have g: "cash_grid s plan" "0 < basis" using assms(1) by (simp_all add: finance_inputs_def)
  have n: "dval (dneg 28 b) = - dval b" using negative_balance [OF g(1) assms(2)] assms(2) by simp
  have a0: "approx 28 0 (dneg 28 b) (- dval b) (- dval b)"
    using approx_exact [of "dneg 28 b" "- dval b" 28] assms(3) n by simp
  have a1: "approx 28 1 (dmul 28 (dneg 28 b) r) (- dval b * dval r) (- dval b * dval r)"
    using approx_mul [OF a0 assms(4)] by simp
  have a2: "approx 28 2 (dmul 28 (dmul 28 (dneg 28 b) r) (dec_of_int n)) (- dval b * dval r * of_int n) (- dval b * dval r * of_int n)"
    using approx_mul [OF a1, of "dec_of_int n"] assms(5) by (simp add: numeral_2_eq_2)
  have p1: "0 \<le> dval (dmul 28 (dneg 28 b) r)" using assms(3,4) n by (intro dmul_nonneg) simp_all
  have p2: "0 \<le> dval (dmul 28 (dmul 28 (dneg 28 b) r) (dec_of_int n))"
    by (rule dmul_nonneg [OF p1]) (use assms(5) in simp_all)
  have d: "\<exists>i. ddiv 28 x (dec_of_int basis) = Inr i" for x
    unfolding is_ok_iff [symmetric] using g(2) by (intro ddiv_ok) (simp add: dec_of_int_def)
  have basis: "0 < dval (dec_of_int basis)" using g(2) by simp
  show "\<exists>i. ddiv 28 (dmul 28 (dmul 28 (dneg 28 b) r) (dec_of_int n)) (dec_of_int basis) = Inr i
      \<and> approx 28 4 i (- dval b * dval r * of_int n / of_int basis) (- dval b * dval r * of_int n / of_int basis)"
  proof -
    obtain i where i: "ddiv 28 (dmul 28 (dmul 28 (dneg 28 b) r) (dec_of_int n)) (dec_of_int basis) = Inr i"
      using d by blast
    have k: "(2::nat) + 2 = 4" and l: "Suc 2 < 10 ^ (28 - 1)" by simp_all
    have "approx 28 4 i (- dval b * dval r * of_int n / of_int basis) (- dval b * dval r * of_int n / of_int basis)"
      using approx_div [OF a2 p2 basis l i] unfolding dval_dec_of_int k .
    with i show ?thesis by blast
  qed
  show "\<exists>i. ddiv 28 (dmul 28 (dneg 28 b) r) (dec_of_int basis) = Inr i
      \<and> approx 28 4 i (- dval b * dval r * of_int 1 / of_int basis) (- dval b * dval r * of_int 1 / of_int basis)"
  proof -
    obtain i where i: "ddiv 28 (dmul 28 (dneg 28 b) r) (dec_of_int basis) = Inr i" using d by blast
    have k: "(1::nat) + 2 = 3" and l: "Suc 1 < 10 ^ (28 - 1)" by simp_all
    have "approx 28 3 i (- dval b * dval r / of_int basis) (- dval b * dval r / of_int basis)"
      using approx_div [OF a1 p1 basis l i] unfolding dval_dec_of_int k .
    then have "approx 28 4 i (- dval b * dval r / of_int basis) (- dval b * dval r / of_int basis)"
      by (rule approx_weaken) simp_all
    with i show ?thesis unfolding of_int_1 mult_1_right by blast
  qed
  show "0 \<le> - dval b * dval r * of_int n / of_int basis"
    using assms(3-5) g(2) by (intro divide_nonneg_nonneg mult_nonneg_nonneg) simp_all
qed

definition adjacent_boundaries :: "finance \<Rightarrow> int \<times> int \<Rightarrow> bool" where
  "adjacent_boundaries fi i \<longleftrightarrow> i \<in> set (adjacent_pairs (finance_boundaries (fst (snd fi))))"

lemma boundaries_sorted: "sorted_wrt (<) (finance_boundaries plan)"
  by (simp add: finance_boundaries_def strict_sorted_iff)

lemma adjacent_facts:
  assumes "adjacent_boundaries (s, plan, basis) (a, b)"
  shows "a < b" "c \<in> set (finance_boundaries plan) \<Longrightarrow> c \<le> a \<or> b \<le> c"
  using pairwise_adjacent [OF boundaries_sorted, of a b plan] assms by (auto simp: adjacent_boundaries_def)

lemma between_boundaries:
  assumes "adjacent_boundaries (s, plan, basis) (a, b)" "a \<le> d" "d < b"
  shows "balance_before (s, plan, basis) (d + 1) = balance_before (s, plan, basis) b"
    and "funding_rate_for_day plan d = funding_rate_for_interval plan a b"
proof -
  have m: "set (finance_boundaries plan) = {fp_valuation_start plan, fp_valuation_end plan}
      \<union> cf_cash_date ` set (fp_cash_flows plan) \<union> fr_starts_on ` set (fp_funding_rate_periods plan)
      \<union> fr_ends_on ` set (fp_funding_rate_periods plan)"
    by (auto simp: finance_boundaries_def)
  have f: "cf_cash_date f < d + 1 \<longleftrightarrow> cf_cash_date f < b" if "f \<in> set (fp_cash_flows plan)" for f
    using adjacent_facts(2) [OF assms(1), of "cf_cash_date f"] assms(2,3) that by (auto simp: m)
  have "filter (\<lambda>f. cf_cash_date f < d + 1) (fp_cash_flows plan) = filter (\<lambda>f. cf_cash_date f < b) (fp_cash_flows plan)"
    by (rule filter_cong) (use f in simp_all)
  then show "balance_before (s, plan, basis) (d + 1) = balance_before (s, plan, basis) b"
    by (simp add: balance_before_def flow_total_def)
  have p: "fr_starts_on f \<le> d \<and> d < fr_ends_on f \<longleftrightarrow> fr_starts_on f \<le> a \<and> b \<le> fr_ends_on f"
    if "f \<in> set (fp_funding_rate_periods plan)" for f
    using adjacent_facts(2) [OF assms(1), of "fr_starts_on f"] adjacent_facts(2) [OF assms(1), of "fr_ends_on f"]
      assms(2,3) that by (auto simp: m)
  have "filter (\<lambda>f. fr_starts_on f \<le> d \<and> d < fr_ends_on f) (fp_funding_rate_periods plan)
      = filter (\<lambda>f. fr_starts_on f \<le> a \<and> b \<le> fr_ends_on f) (fp_funding_rate_periods plan)"
    by (rule filter_cong) (use p in simp_all)
  then show "funding_rate_for_day plan d = funding_rate_for_interval plan a b"
    by (simp add: funding_rate_for_day_def funding_rate_for_interval_def)
qed

interpretation daily_loop: interest_loop finance_inputs "\<lambda>fi day. True"
  "\<lambda>fi. daily_step (fst (snd fi)) (snd (snd fi))" balance_before "\<lambda>fi day. balance_before fi (day + 1)" day_interest
proof
  fix fi :: finance and x b r e t
  obtain s plan basis where fi: "fi = (s, plan, basis)" by (cases fi)
  assume i: "finance_inputs fi" and b: "dval b = balance_before fi x"
  have g: "cash_grid s plan" using i fi by (simp add: finance_inputs_def)
  let ?b = "dadd 28 b (cash_event plan x)"
  have e: "dval ?b = balance_before fi (x + 1)"
    using balance_exact [OF g] b by (simp add: balance_before_def fi)
  show "daily_step (fst (snd fi)) (snd (snd fi)) (b, r) x = Inl e" if "day_interest fi x = Inl e"
    using that e by (auto simp: fi day_interest_def accrued_def daily_step_def Let_def dlt_iff result_simps split: if_splits)
  show "\<exists>b' r'. daily_step (fst (snd fi)) (snd (snd fi)) (b, r) x = Inr (b', r') \<and> dval b' = balance_before fi (x + 1)
      \<and> 0 \<le> t \<and> (r' = r \<and> t = 0 \<or> (\<exists>i. r' = dadd 28 r i \<and> approx 28 4 i t t))" if d: "day_interest fi x = Inr t"
  proof (cases "balance_before fi (x + 1) < 0")
    case True
    then obtain c where c: "funding_rate_for_day plan x = Inr c" "t = - dval ?b * dval c * of_int 1 / of_int basis"
      using d e by (auto simp: fi day_interest_def accrued_def result_simps)
    have f: "dval ?b = flow_total (\<lambda>f. cf_cash_date f < x + 1) plan" using e by (simp add: fi balance_before_def)
    have n: "0 \<le> dval c" using single_rate_nonneg [OF i [unfolded fi]] c(1) by (simp add: funding_rate_for_day_def)
    have neg: "dval ?b < 0" using True e by simp
    obtain j where "ddiv 28 (dmul 28 (dneg 28 ?b) c) (dec_of_int basis) = Inr j" "approx 28 4 j t t"
      using accrual_approx(2) [OF i [unfolded fi] f neg n, of 1] c(2) by auto
    moreover have "0 \<le> t" using accrual_approx(3) [OF i [unfolded fi] f neg n, of 1] c(2) by simp
    ultimately show ?thesis using e neg c(1) by (auto simp: fi daily_step_def Let_def dlt_iff)
  next
    case False
    then show ?thesis using d e by (auto simp: fi day_interest_def accrued_def daily_step_def Let_def dlt_iff)
  qed
qed

interpretation interval_loop: interest_loop finance_inputs adjacent_boundaries
  "\<lambda>fi. interval_step (fst (snd fi)) (snd (snd fi))" "\<lambda>fi i. balance_before fi (fst i)" "\<lambda>fi i. balance_before fi (snd i)"
  interval_interest
proof
  fix fi :: finance and x :: "int \<times> int" and b r e t
  obtain s plan basis where fi: "fi = (s, plan, basis)" by (cases fi)
  obtain start till where x: "x = (start, till)" by (cases x)
  assume i: "finance_inputs fi" and a: "adjacent_boundaries fi x" and b: "dval b = balance_before fi (fst x)"
  have g: "cash_grid s plan" using i fi by (simp add: finance_inputs_def)
  have lt: "start < till" using adjacent_facts(1) a by (simp add: fi x)
  let ?b = "dadd 28 b (cash_event plan start)"
  have e: "dval ?b = balance_before fi (start + 1)" "balance_before fi (start + 1) = balance_before fi till"
    using balance_exact [OF g] b between_boundaries(1) [OF a [unfolded fi x], of start] lt
    by (simp_all add: balance_before_def fi x)
  have neg: "dle d_zero ?b \<longleftrightarrow> \<not> balance_before fi (start + 1) < 0" using e by (simp add: dle_iff not_less)
  show "interval_step (fst (snd fi)) (snd (snd fi)) (b, r) x = Inl e" if "interval_interest fi x = Inl e"
    using that lt neg
    by (auto simp: fi x interval_interest_def accrued_def interval_step_def Let_def result_simps split: if_splits)
  show "\<exists>b' r'. interval_step (fst (snd fi)) (snd (snd fi)) (b, r) x = Inr (b', r') \<and> dval b' = balance_before fi (snd x)
      \<and> 0 \<le> t \<and> (r' = r \<and> t = 0 \<or> (\<exists>i. r' = dadd 28 r i \<and> approx 28 4 i t t))" if d: "interval_interest fi x = Inr t"
  proof (cases "balance_before fi (start + 1) < 0")
    case True
    then obtain c where c: "funding_rate_for_interval plan start till = Inr c"
      "t = - dval ?b * dval c * of_int (till - start) / of_int basis"
      using d e(1) by (auto simp: fi x interval_interest_def accrued_def result_simps)
    have f: "dval ?b = flow_total (\<lambda>f. cf_cash_date f < start + 1) plan" using e by (simp add: fi balance_before_def)
    have n: "0 \<le> dval c" using single_rate_nonneg [OF i [unfolded fi]] c(1) by (simp add: funding_rate_for_interval_def)
    have b0: "dval ?b < 0" using True e by simp
    have days: "0 < till - start" using lt by simp
    obtain j where j: "ddiv 28 (dmul 28 (dmul 28 (dneg 28 ?b) c) (dec_of_int (till - start))) (dec_of_int basis) = Inr j"
      "approx 28 4 j t t"
      using accrual_approx(1) [OF i [unfolded fi] f b0 n days] unfolding c(2) by blast
    have "0 \<le> t" using accrual_approx(3) [OF i [unfolded fi] f b0 n days] unfolding c(2) .
    moreover have "interval_step (fst (snd fi)) (snd (snd fi)) (b, r) x = Inr (?b, dadd 28 r j)"
      using neg True c(1) j(1) lt by (simp add: fi x interval_step_def Let_def)
    moreover have "dval ?b = balance_before fi (snd x)" using e by (simp add: x)
    ultimately show ?thesis using j(2) by blast
  next
    case False
    moreover have "dval ?b = balance_before fi (snd x)" using e by (simp add: x)
    ultimately show ?thesis
      using d neg by (auto simp: fi x interval_interest_def accrued_def interval_step_def Let_def)
  qed
qed

text \<open>The intervals charge exactly what their days do.\<close>

lemma interval_days:
  assumes "adjacent_boundaries (s, plan, basis) (a, b)"
  shows "sumR (day_interest (s, plan, basis)) (days_between a b) = interval_interest (s, plan, basis) (a, b)"
proof -
  let ?c = "accrued (s, plan, basis) (funding_rate_for_interval plan a b) a 1"
  have lt: "a < b" by (rule adjacent_facts(1) [OF assms])
  have bal: "balance_before (s, plan, basis) (d + 1) = balance_before (s, plan, basis) (a + 1)" if "a \<le> d" "d < b" for d
    using between_boundaries(1) [OF assms that] between_boundaries(1) [OF assms order_refl lt] by simp
  have "day_interest (s, plan, basis) d = ?c" if "d \<in> set (days_between a b)" for d
    using that bal [of d] between_boundaries(2) [OF assms, of d]
    unfolding day_interest_def accrued_def by simp
  moreover have "days_between a b \<noteq> []" using lt by (simp add: days_between_Cons)
  ultimately have "sumR (day_interest (s, plan, basis)) (days_between a b)
      = bindR ?c (\<lambda>t. Inr (of_nat (length (days_between a b)) * t))"
    by (intro sumR_const) simp_all
  also have "of_nat (length (days_between a b)) = (of_int (b - a) :: rat)" using lt by (simp add: days_between_def)
  also have "bindR ?c (\<lambda>t. Inr (of_int (b - a) * t)) = interval_interest (s, plan, basis) (a, b)"
    by (cases "funding_rate_for_interval plan a b") (simp_all add: interval_interest_def accrued_def)
  finally show ?thesis .
qed

lemma boundaries_ends:
  assumes "finance_inputs (s, plan, basis)"
  shows "finance_boundaries plan \<noteq> []" "hd (finance_boundaries plan) = fp_valuation_start plan"
    "last (finance_boundaries plan) = fp_valuation_end plan"
proof -
  let ?xs = "finance_boundaries plan" and ?vs = "fp_valuation_start plan" and ?ve = "fp_valuation_end plan"
  have v: "is_ok (timeline_is_valid plan)"
    "list_all (\<lambda>f. fr_starts_on f < fr_ends_on f \<and> 0 \<le> dval (fr_annual_rate f)) (fp_funding_rate_periods plan)"
    using assms by (simp_all add: finance_inputs_def)
  from v(1) have t: "?vs < ?ve" "\<forall>f \<in> set (fp_cash_flows plan). ?vs \<le> cf_cash_date f \<and> cf_cash_date f \<le> ?ve"
    "\<forall>f \<in> set (fp_funding_rate_periods plan). ?vs \<le> fr_starts_on f \<and> fr_ends_on f \<le> ?ve"
    by (auto simp: timeline_is_valid_def Let_def list_ex_iff not_less split: if_splits)
  have r: "\<forall>f \<in> set (fp_funding_rate_periods plan). fr_starts_on f \<le> ?ve \<and> ?vs \<le> fr_ends_on f"
    using v(2) t(3) by (force simp: list_all_iff)
  have m: "?vs \<in> set ?xs" "?ve \<in> set ?xs" "\<forall>x \<in> set ?xs. ?vs \<le> x \<and> x \<le> ?ve"
    using t r by (auto simp: finance_boundaries_def)
  show ne: "?xs \<noteq> []" using m(1) by auto
  have "?vs \<le> hd ?xs" "last ?xs \<le> ?ve" using m(3) ne by simp_all
  moreover have "hd ?xs \<le> ?vs" using boundaries_sorted [of plan] m(1) ne
    by (cases ?xs) (auto intro: less_imp_le)
  moreover have "?ve \<le> last ?xs"
  proof -
    have "sorted ?xs" using boundaries_sorted [of plan] by (simp add: strict_sorted_iff)
    moreover obtain i where "i < length ?xs" "?xs ! i = ?ve" using m(2) by (auto simp: in_set_conv_nth)
    ultimately have "?ve \<le> ?xs ! (length ?xs - 1)" using sorted_nth_mono [of ?xs i "length ?xs - 1"] by simp
    then show ?thesis using ne by (simp add: last_conv_nth)
  qed
  ultimately show "hd ?xs = ?vs" "last ?xs = ?ve" by simp_all
qed

lemma boundaries_length:
  assumes "finance_inputs (s, plan, basis)"
  shows "length (adjacent_pairs (finance_boundaries plan)) \<le> nat (fp_valuation_end plan - fp_valuation_start plan)"
proof -
  let ?xs = "finance_boundaries plan"
  note e = boundaries_ends [OF assms]
  have s: "sorted ?xs" "distinct ?xs" using boundaries_sorted [of plan] by (simp_all add: strict_sorted_iff)
  have "x \<in> {hd ?xs..last ?xs}" if x: "x \<in> set ?xs" for x
  proof -
    obtain i where "i < length ?xs" "?xs ! i = x" using x by (auto simp: in_set_conv_nth)
    then show ?thesis
      using sorted_nth_mono [OF s(1), of 0 i] sorted_nth_mono [OF s(1), of i "length ?xs - 1"] e(1)
      by (simp add: hd_conv_nth last_conv_nth)
  qed
  then have "card (set ?xs) \<le> card {hd ?xs..last ?xs}" by (intro card_mono) auto
  then have "length ?xs \<le> nat (last ?xs - hd ?xs + 1)" using s(2) by (simp add: distinct_card)
  moreover have "hd ?xs \<le> last ?xs" using sorted_nth_mono [OF s(1), of 0 "length ?xs - 1"] e(1)
    by (simp add: hd_conv_nth last_conv_nth)
  ultimately show ?thesis unfolding pairwise_length e(2,3) by linarith
qed

lemma no_flow_before:
  assumes "finance_inputs (s, plan, basis)"
  shows "balance_before (s, plan, basis) (fp_valuation_start plan) = 0"
proof -
  have "is_ok (timeline_is_valid plan)" using assms by (simp add: finance_inputs_def)
  then have "\<forall>f \<in> set (fp_cash_flows plan). fp_valuation_start plan \<le> cf_cash_date f"
    by (auto simp: timeline_is_valid_def Let_def list_ex_iff not_less split: if_splits)
  then have "filter (\<lambda>f. cf_cash_date f < fp_valuation_start plan) (fp_cash_flows plan) = []"
    by (auto simp: filter_empty_conv)
  then show ?thesis by (simp add: balance_before_def flow_total_def)
qed

lemma approx_zero: "approx 28 4 d_zero 0 0"
  by (simp add: approx_def)

text \<open>C33. The interest of a contract-finance plan is computed twice, once per interval between dated
  events and once day by day.  Both computations raise exactly when some day with a negative balance
  is not covered by exactly one funding-rate period, and with the same error; otherwise both return,
  and each is within (days of the horizon + 4) roundings of the 28-digit context of the exact interest,
  in which every day is charged on its exact balance.\<close>

theorem funding_interest_agrees:
  assumes "finance_inputs (s, plan, basis)"
  shows "case exact_interest (s, plan, basis) of
      Inl e \<Rightarrow> primary_interest plan basis = Inl e \<and> daily_interest plan basis = Inl e
    | Inr v \<Rightarrow> \<exists>a b. primary_interest plan basis = Inr a \<and> daily_interest plan basis = Inr b
        \<and> \<bar>dval a - v\<bar> * 10 ^ 27 \<le> of_int (fp_valuation_end plan - fp_valuation_start plan + 4) * v
        \<and> \<bar>dval b - v\<bar> * 10 ^ 27 \<le> of_int (fp_valuation_end plan - fp_valuation_start plan + 4) * v"
proof -
  let ?fi = "(s, plan, basis)" and ?ds = "days_between (fp_valuation_start plan) (fp_valuation_end plan)"
    and ?is = "adjacent_pairs (finance_boundaries plan)" and ?n = "nat (fp_valuation_end plan - fp_valuation_start plan)"
  note ends = boundaries_ends [OF assms]
  have n: "fp_valuation_end plan - fp_valuation_start plan \<le> 10 ^ 7" "length ?ds = ?n" "length ?is \<le> ?n"
    using assms boundaries_length [OF assms] by (simp_all add: finance_inputs_def days_between_def)
  then have small: "4 + length ?ds \<le> 10 ^ 27" "4 + length ?is \<le> 10 ^ 27" by simp_all
  have pos: "0 \<le> fp_valuation_end plan - fp_valuation_start plan"
    using assms by (auto simp: finance_inputs_def timeline_is_valid_def Let_def split: if_splits)
  have b0: "dval d_zero = balance_before ?fi (fp_valuation_start plan)" using no_flow_before [OF assms] by simp
  have ld: "linked (balance_before ?fi) (\<lambda>d. balance_before ?fi (d + 1)) (dval d_zero) ?ds"
    unfolding b0 by (rule days_linked) simp_all
  have li: "linked (\<lambda>i. balance_before ?fi (fst i)) (\<lambda>i. balance_before ?fi (snd i)) (dval d_zero) ?is"
    unfolding b0 ends(2) [symmetric] by (rule pairwise_linked) (simp_all add: ends(1))
  have same: "sumR (interval_interest ?fi) ?is = exact_interest ?fi"
    unfolding exact_interest_def fst_conv snd_conv ends(2,3) [symmetric]
    by (rule sumR_days [OF boundaries_sorted ends(1), symmetric]) (rule interval_days, simp add: adjacent_boundaries_def)
  have la: "list_all (\<lambda>d. True) ?ds" "list_all (adjacent_boundaries ?fi) ?is"
    by (simp_all add: list_all_iff adjacent_boundaries_def)
  have d: "case exact_interest ?fi of Inl e \<Rightarrow> foldR (daily_step plan basis) (d_zero, d_zero) ?ds = Inl e
    | Inr t \<Rightarrow> \<exists>b' r'. foldR (daily_step plan basis) (d_zero, d_zero) ?ds = Inr (b', r') \<and> approx 28 (4 + length ?ds) r' t t"
    using daily_loop.run [OF assms la(1) ld approx_zero order_refl small(1)]
    unfolding exact_interest_def fst_conv snd_conv add_0_left .
  have i: "case exact_interest ?fi of Inl e \<Rightarrow> foldR (interval_step plan basis) (d_zero, d_zero) ?is = Inl e
    | Inr t \<Rightarrow> \<exists>b' r'. foldR (interval_step plan basis) (d_zero, d_zero) ?is = Inr (b', r') \<and> approx 28 (4 + length ?is) r' t t"
    using interval_loop.run [OF assms la(2) li approx_zero order_refl small(2)]
    unfolding same fst_conv snd_conv add_0_left .
  show ?thesis
  proof (cases "exact_interest ?fi")
    case (Inl e)
    then show ?thesis using d i by (simp add: primary_interest_def daily_interest_def)
  next
    case (Inr v)
    obtain b1 a b2 b where r: "foldR (interval_step plan basis) (d_zero, d_zero) ?is = Inr (b1, a)"
      "foldR (daily_step plan basis) (d_zero, d_zero) ?ds = Inr (b2, b)"
      "approx 28 (4 + length ?is) a v v" "approx 28 (4 + length ?ds) b v v"
      using d i Inr by auto
    have eq: "of_nat (4 + ?n) = (of_int (fp_valuation_end plan - fp_valuation_start plan + 4) :: rat)" using pos by simp
    have "approx 28 (4 + ?n) a v v" using r(3) by (rule approx_weaken) (use n in simp_all)
    moreover have "approx 28 (4 + ?n) b v v" using r(4) unfolding n(2) .
    ultimately have "\<bar>dval a - v\<bar> * 10 ^ 27 \<le> of_int (fp_valuation_end plan - fp_valuation_start plan + 4) * v"
      "\<bar>dval b - v\<bar> * 10 ^ 27 \<le> of_int (fp_valuation_end plan - fp_valuation_start plan + 4) * v"
      unfolding approx_def eq by simp_all
    then show ?thesis using r(1,2) Inr by (simp add: primary_interest_def daily_interest_def)
  qed
qed

definition ex_finance :: contract_finance_plan where
  "ex_finance = \<lparr>fp_valuation_start = 0, fp_valuation_end = 2,
     fp_cash_flows = [\<lparr>cf_cash_flow_id = ''f1'', cf_kind = ContractCashFlowKind.DIRECT_COST, cf_cash_date = 0,
       cf_amount = Dec (-1000) 0, cf_observation_ids = [''o''], cf_contract_term_ids = []\<rparr>],
     fp_funding_rate_periods = [\<lparr>fr_rate_period_id = ''p1'', fr_starts_on = 0, fr_ends_on = 2,
       fr_annual_rate = Dec 36 (-2), fr_observation_ids = [''o'']\<rparr>], fp_guarantee_fees = []\<rparr>"

lemma ex_finance_facts:
  "finance_inputs (0, ex_finance, 360)" "exact_interest (0, ex_finance, 360) = Inr 2"
proof -
  show "finance_inputs (0, ex_finance, 360)"
    by (simp add: finance_inputs_def ex_finance_def timeline_is_valid_def cash_grid_def column_ok_def dval_Dec)
  have "days_between 0 2 = [0, 1]" by (simp add: days_between_def upt_rec)
  then show "exact_interest (0, ex_finance, 360) = Inr 2"
    by (simp add: exact_interest_def ex_finance_def day_interest_def accrued_def balance_before_def flow_total_def
      funding_rate_for_day_def single_rate_def dval_Dec power_int_minus)
qed

theorem funding_interest_agrees_witness:
  "\<exists>a b. primary_interest ex_finance 360 = Inr a \<and> daily_interest ex_finance 360 = Inr b
     \<and> \<bar>dval a - 2\<bar> * 10 ^ 27 \<le> 12 \<and> \<bar>dval b - 2\<bar> * 10 ^ 27 \<le> 12"
  using funding_interest_agrees [OF ex_finance_facts(1)] unfolding ex_finance_facts(2)
  by (simp add: ex_finance_def)

subsection \<open>Guarantee fees and trips\<close>

lemma fold_fee:
  assumes "approx 28 3 i t t" "approx 28 k r v v" "3 \<le> k" "k + length ds \<le> 10 ^ 27"
  shows "\<exists>r'. foldR (\<lambda>sum _. bindR (Inr i) (\<lambda>j. Inr (dadd 28 sum j))) r ds = Inr r'
    \<and> approx 28 (k + length ds) r' (v + of_nat (length ds) * t) (v + of_nat (length ds) * t)"
  using assms(2-)
proof (induction ds arbitrary: r k v)
  case (Cons d ds)
  have "max k 3 = k" using Cons.prems(2) by simp
  then have "approx 28 (k + 1) (dadd 28 r i) (v + t) (v + t)"
    using approx_add [OF Cons.prems(1) assms(1)] Cons.prems(2,3) by simp
  from Cons.IH [OF this] Cons.prems(2,3) show ?case by (simp add: distrib_right add.assoc)
qed simp

text \<open>A guarantee fee, charged once for its period and once per day.\<close>

lemma guarantee_fee_agrees:
  assumes "0 < dval (gf_notional_amount f)" "0 \<le> dval (gf_annual_rate f)" "0 < basis"
    "gf_starts_on f < gf_ends_on f" "gf_ends_on f - gf_starts_on f \<le> 10 ^ 7"
    "v = dval (gf_notional_amount f) * dval (gf_annual_rate f) * of_int (gf_ends_on f - gf_starts_on f) / of_int basis"
  shows "\<exists>a b. fee_amount f basis = Inr a \<and> daily_fee f basis = Inr b \<and> approx 28 4 a v v
    \<and> approx 28 (3 + nat (gf_ends_on f - gf_starts_on f)) b v v"
proof -
  let ?n = "gf_notional_amount f" and ?r = "gf_annual_rate f" and ?d = "gf_ends_on f - gf_starts_on f"
  have bs: "0 < dval (dec_of_int basis)" using assms(3) by simp
  have a0: "approx 28 0 ?n (dval ?n) (dval ?n)" using approx_exact [of ?n "dval ?n" 28] assms(1) by simp
  have a1: "approx 28 1 (dmul 28 ?n ?r) (dval ?n * dval ?r) (dval ?n * dval ?r)" using approx_mul [OF a0 assms(2)] by simp
  have a2: "approx 28 2 (dmul 28 (dmul 28 ?n ?r) (dec_of_int ?d)) (dval ?n * dval ?r * of_int ?d) (dval ?n * dval ?r * of_int ?d)"
    using approx_mul [OF a1, of "dec_of_int ?d"] assms(4) by (simp add: numeral_2_eq_2)
  have p1: "0 \<le> dval (dmul 28 ?n ?r)" using assms(1,2) by (intro dmul_nonneg) simp_all
  have p2: "0 \<le> dval (dmul 28 (dmul 28 ?n ?r) (dec_of_int ?d))" by (rule dmul_nonneg [OF p1]) (use assms(4) in simp_all)
  have ok: "\<exists>i. ddiv 28 x (dec_of_int basis) = Inr i" for x
    unfolding is_ok_iff [symmetric] using assms(3) by (intro ddiv_ok) (simp add: dec_of_int_def)
  obtain a where a: "ddiv 28 (dmul 28 (dmul 28 ?n ?r) (dec_of_int ?d)) (dec_of_int basis) = Inr a" using ok by blast
  obtain i where i: "ddiv 28 (dmul 28 ?n ?r) (dec_of_int basis) = Inr i" using ok by blast
  have k: "(2::nat) + 2 = 4" "(1::nat) + 2 = 3" and l: "Suc 2 < 10 ^ (28 - 1)" "Suc 1 < 10 ^ (28 - 1)" by simp_all
  have 1: "approx 28 4 a v v" using approx_div [OF a2 p2 bs l(1) a] unfolding dval_dec_of_int k assms(6) .
  have 2: "approx 28 3 i (dval ?n * dval ?r / of_int basis) (dval ?n * dval ?r / of_int basis)"
    using approx_div [OF a1 p1 bs l(2) i] unfolding dval_dec_of_int k .
  have z: "approx 28 3 d_zero 0 0" by (simp add: approx_def)
  have len: "length (days_between (gf_starts_on f) (gf_ends_on f)) = nat ?d" by (simp add: days_between_def)
  have small: "3 + length (days_between (gf_starts_on f) (gf_ends_on f)) \<le> 10 ^ 27" using assms(5) len by simp
  obtain b where b: "daily_fee f basis = Inr b"
    "approx 28 (3 + nat ?d) b (of_nat (nat ?d) * (dval ?n * dval ?r / of_int basis)) (of_nat (nat ?d) * (dval ?n * dval ?r / of_int basis))"
    using fold_fee [OF 2 z order_refl small] i by (auto simp: daily_fee_def len)
  moreover have "of_nat (nat ?d) * (dval ?n * dval ?r / of_int basis) = v" using assms(4,6) by simp
  ultimately show ?thesis using 1 a by (simp add: fee_amount_def)
qed

lemma ceil_int_eq: "0 \<le> dval x \<Longrightarrow> ceil_int x = \<lceil>dval x\<rceil>"
proof -
  assume x: "0 \<le> dval x"
  have "ceil_int x = round_rat ROUND_UP (dval x)" using rescale_eq [of ROUND_UP 0 x] by (simp add: ceil_int_def)
  also have "\<dots> = \<lceil>dval x\<rceil>"
    using x of_int_floor_le [of "dval x"] by (auto simp: round_rat_def Let_def ceiling_altdef not_less intro: antisym)
  finally show ?thesis .
qed

lemma trips_of_ratio_eq: "0 \<le> dval x \<Longrightarrow> trips_of_ratio x = \<lceil>dval x\<rceil>"
proof -
  assume x: "0 \<le> dval x"
  have "trunc_int x = round_rat ROUND_DOWN (dval x)" using rescale_eq [of ROUND_DOWN 0 x] by (simp add: trunc_int_def)
  also have "\<dots> = \<lfloor>dval x\<rfloor>" using x by (simp add: round_rat_def Let_def)
  finally show ?thesis by (auto simp: trips_of_ratio_def Let_def deq_iff ceiling_altdef)
qed

text \<open>Both ways of counting trips agree on a validated leg.\<close>

lemma foldl_max: "foldl (\<lambda>n x. max n (f x)) a xs = Max (insert (a :: int) (f ` set xs))"
proof (induction xs arbitrary: a)
  case (Cons x xs)
  then show ?case by (cases "xs = []") (simp_all add: max.assoc)
qed simp

lemma trip_counts_agree:
  assumes "dimension_ratios leg = Inr ratios" "ratios \<noteq> []" "list_all (\<lambda>x. 0 < dval x) ratios"
  shows "trip_count leg = Inr (Max (set (map (\<lambda>x. \<lceil>dval x\<rceil>) ratios)))
    \<and> independent_trip_count leg = trip_count leg"
proof -
  have p: "0 < dval x" if "x \<in> set ratios" for x using assms(3) that by (simp add: list_all_iff)
  have c: "map ceil_int ratios = map (\<lambda>x. \<lceil>dval x\<rceil>) ratios" 
    by (rule map_cong [OF refl]) (rule ceil_int_eq, rule less_imp_le, rule p)
  have t: "trips_of_ratio ` set ratios = (\<lambda>x. \<lceil>dval x\<rceil>) ` set ratios" 
    by (rule image_cong [OF refl]) (rule trips_of_ratio_eq, rule less_imp_le, rule p)
  let ?S = "(\<lambda>x. \<lceil>dval x\<rceil>) ` set ratios"
  have "1 \<le> Max ?S"
  proof -
    obtain x where x: "x \<in> set ratios" using assms(2) by (cases ratios) auto
    then have "1 \<le> \<lceil>dval x\<rceil>" using p [OF x] by simp
    also have "\<dots> \<le> Max ?S" using x by (intro Max_ge) auto
    finally show ?thesis .
  qed
  then have m: "Max (insert 1 ?S) = Max ?S" using assms(2) by simp
  have i: "foldl (\<lambda>n q. max n (trips_of_ratio q)) 1 ratios = Max ?S" unfolding foldl_max t m ..
  have s: "set (map (\<lambda>x. \<lceil>dval x\<rceil>) ratios) = ?S" by (rule set_map)
  show ?thesis
    unfolding trip_count_def independent_trip_count_def assms(1) bindR_Inr i c s by (simp only: assms(2) if_False simp_thms)
qed

end
