(* ===== verification/TG_Membership.thy ===== *)
theory TG_Membership
  imports TG_Project_Store
begin

text \<open>
  Project membership in \<open>application/projects.py\<close>: an append-only table of membership
  revisions per principal, the access check \<open>get_project\<close> every operation starts with,
  and the operations that create a project, grant, revoke and list memberships.  The
  invariant \<open>membership_inv\<close> says that every revision carries reproducible role evidence,
  that the revisions of a principal are numbered \<open>1, 2, \<dots>\<close>, and that a project always
  has an active owner.
\<close>

subsection \<open>Current memberships\<close>

text \<open>\<open>ORDER BY version DESC LIMIT 1\<close>.\<close>

fun latest :: "membership list \<Rightarrow> membership option" where
  "latest [] = None"
| "latest (r # rs) = (case latest rs of
     None \<Rightarrow> Some r
   | Some q \<Rightarrow> if mb_version q < mb_version r then Some r else Some q)"

definition rows_of :: "membership list \<Rightarrow> string \<Rightarrow> string \<Rightarrow> membership list" where
  "rows_of ms project_id principal_id =
     filter (\<lambda>m. mb_project_id m = project_id \<and> mb_principal_id m = principal_id) ms"

definition current_membership :: "store \<Rightarrow> string \<Rightarrow> string \<Rightarrow> membership option" where
  "current_membership st project_id principal_id = latest (rows_of (st_memberships st) project_id principal_id)"

definition current_memberships :: "store \<Rightarrow> string \<Rightarrow> membership list" where
  "current_memberships st project_id =
     List.map_filter (current_membership st project_id)
       (sort (remdups (map mb_principal_id (filter (\<lambda>m. mb_project_id m = project_id) (st_memberships st)))))"

definition membership_roles :: "membership \<Rightarrow> ActorRole fset result" where
  "membership_roles row =
     (case validate_project_role_evidence (PList (map PStr (mb_roles row))) (PInt (mb_role_mask row)) of
        Inl _ \<Rightarrow> Inl (RuntimeError ''Project membership role evidence is invalid'')
      | Inr R \<Rightarrow> Inr R)"

subsection \<open>The access check\<close>

definition deny_system_access :: error where
  "deny_system_access = HTTPException 403 ''Qualified service access is denied''"

text \<open>\<open>SystemProjectAccess\<close> is the pair of a qualification identifier and a capability.\<close>

definition require_system_access ::
  "settings \<Rightarrow> int \<Rightarrow> store \<Rightarrow> actor \<Rightarrow> string \<times> string \<Rightarrow> unit result" where
  "require_system_access cfg today st a access =
     (case find (\<lambda>q. aq_id q = fst access \<and> aq_status q = ''APPROVED'') (st_qualifications st) of
        None \<Rightarrow> Inl deny_system_access
      | Some q \<Rightarrow>
          if (case aq_valid_until q of None \<Rightarrow> False | Some d \<Rightarrow> d < today) then Inl deny_system_access
          else if aq_organization_id q \<noteq> Some (actor_organization_id a)
             \<or> aq_service_actor_id q \<noteq> Some (actor_id a)
             \<or> snd access \<notin> set (aq_supported_methods q) then Inl deny_system_access
          else let configured =
                 (if snd access = ''MALWARE_SCAN''
                  then Some (malware_scanner_qualification_id cfg, malware_scanner_adapter cfg)
                  else if snd access = ''DOCUMENT_INTAKE''
                  then Some (document_processor_qualification_id cfg, document_processor_adapter cfg)
                  else if snd access = ''FINAL_REVIEW_REWORK''
                  then Some (automation_rework_qualification_id cfg, automation_rework_adapter cfg)
                  else None)
               in case configured of
                    None \<Rightarrow> Inr ()
                  | Some (qid, adapter) \<Rightarrow>
                      if Some (aq_id q) \<noteq> qid \<or> Some (aq_adapter_name q) \<noteq> adapter
                      then Inl deny_system_access else Inr ())"

definition get_project ::
  "settings \<Rightarrow> int \<Rightarrow> store \<Rightarrow> actor \<Rightarrow> string \<Rightarrow> ActorRole list \<Rightarrow> bool \<Rightarrow> (string \<times> string) option
     \<Rightarrow> project result" where
  "get_project cfg today st a project_id required_roles require_owner system_access =
     bindR
       (if ActorRole.SYSTEM |\<in>| actor_roles a
        then (if actor_roles a \<noteq> {|ActorRole.SYSTEM|} \<or> system_access = None
              then Inl (ProjectNotFoundError project_id) else Inr ())
        else if system_access \<noteq> None
             then Inl (HTTPException 403 ''Service access can only be used by a SYSTEM actor'')
        else if required_roles \<noteq> [] then require_any a required_roles else Inr ())
     (\<lambda>_. case find_project st project_id (actor_organization_id a) of
        None \<Rightarrow> Inl (ProjectNotFoundError project_id)
      | Some project \<Rightarrow>
        (case system_access of
           Some access \<Rightarrow> bindR (require_system_access cfg today st a access) (\<lambda>_. Inr project)
         | None \<Rightarrow>
           (case current_membership st (pr_id project) (actor_id a) of
              None \<Rightarrow> Inl (ProjectNotFoundError project_id)
            | Some m \<Rightarrow>
              if mb_status m \<noteq> ProjectMembershipStatus.ACTIVE then Inl (ProjectNotFoundError project_id)
              else bindR (membership_roles m) (\<lambda>scoped_roles.
                let effective_roles =
                  (if required_roles \<noteq> []
                   then actor_roles a |\<inter>| scoped_roles |\<inter>| fset_of_list required_roles
                   else actor_roles a |\<inter>| scoped_roles)
                in if effective_roles = {||}
                   then Inl (HTTPException 403 ''Required project role is missing'')
                   else if require_owner \<and> mb_access_level m \<noteq> ProjectAccessLevel.OWNER
                   then Inl (HTTPException 403 ''Project owner access is required'')
                   else Inr project))))"

subsection \<open>Membership revisions\<close>

definition require_another_active_owner :: "store \<Rightarrow> string \<Rightarrow> string \<Rightarrow> unit result" where
  "require_another_active_owner st project_id excluding =
     (if filter (\<lambda>m. mb_principal_id m \<noteq> excluding
           \<and> mb_status m = ProjectMembershipStatus.ACTIVE
           \<and> mb_access_level m = ProjectAccessLevel.OWNER) (current_memberships st project_id) = []
      then Inl (ValueError ''The last active project owner cannot be removed or downgraded'')
      else Inr ())"

definition append_membership ::
  "store \<Rightarrow> string \<Rightarrow> string \<Rightarrow> string \<Rightarrow> ActorRole list \<Rightarrow> ProjectAccessLevel \<Rightarrow> ProjectMembershipStatus
     \<Rightarrow> string \<Rightarrow> string \<Rightarrow> membership option \<Rightarrow> int \<Rightarrow> (membership \<times> store) result" where
  "append_membership st uuid project_id principal_id roles access_level status changed_by reason
       previous now =
     bindR (project_role_mask roles) (\<lambda>m.
       let row = \<lparr>mb_id = ''membership-'' @ uuid, mb_project_id = project_id,
             mb_principal_id = principal_id, mb_roles = sort (map ActorRole_value roles),
             mb_role_mask = m, mb_access_level = access_level, mb_status = status,
             mb_version = (case previous of None \<Rightarrow> 1 | Some p \<Rightarrow> mb_version p + 1),
             mb_supersedes = map_option mb_id previous, mb_changed_by = changed_by,
             mb_reason = reason, mb_created_at = now\<rparr>
       in Inr (row, st\<lparr>st_memberships := st_memberships st @ [row]\<rparr>))"

definition opt_str :: "string option \<Rightarrow> pyval" where
  "opt_str s = (case s of None \<Rightarrow> PNone | Some t \<Rightarrow> PStr t)"

definition record_membership_change ::
  "actor \<Rightarrow> string \<Rightarrow> membership \<Rightarrow> string \<Rightarrow> string \<Rightarrow> string \<Rightarrow> store \<Rightarrow> store" where
  "record_membership_change a project_id row request_id reason event_type st =
     (let payload = [(''membership_revision_id'', PStr (mb_id row)),
            (''principal_id'', PStr (mb_principal_id row)),
            (''roles'', PList (map PStr (mb_roles row))),
            (''access_level'', PStr (ProjectAccessLevel_value (mb_access_level row))),
            (''status'', PStr (ProjectMembershipStatus_value (mb_status row))),
            (''version'', PInt (mb_version row)),
            (''supersedes_membership_id'', opt_str (mb_supersedes row))]
      in outbox ''project.membership.changed'' project_id ((''project_id'', PStr project_id) # payload)
           (audit a ''project'' project_id event_type request_id reason payload st))"

record membership_view =
  mv_membership_revision_id :: string
  mv_project_id :: string
  mv_principal_id :: string
  mv_roles :: "ActorRole list"
  mv_access_level :: ProjectAccessLevel
  mv_status :: ProjectMembershipStatus
  mv_version :: int
  mv_supersedes :: "string option"
  mv_changed_by :: string
  mv_reason :: string
  mv_created_at :: int

definition membership_view_of :: "membership \<Rightarrow> membership_view result" where
  "membership_view_of row = bindR (membership_roles row) (\<lambda>R.
     Inr \<lparr>mv_membership_revision_id = mb_id row, mv_project_id = mb_project_id row,
       mv_principal_id = mb_principal_id row, mv_roles = sorted_list_of_fset R,
       mv_access_level = mb_access_level row, mv_status = mb_status row,
       mv_version = mb_version row, mv_supersedes = mb_supersedes row,
       mv_changed_by = mb_changed_by row, mv_reason = mb_reason row,
       mv_created_at = mb_created_at row\<rparr>)"

subsection \<open>Operations\<close>

definition create_project ::
  "store \<Rightarrow> string \<Rightarrow> string \<Rightarrow> int \<Rightarrow> actor \<Rightarrow> string \<Rightarrow> string \<Rightarrow> string \<Rightarrow> string \<Rightarrow> (project \<times> store) result" where
  "create_project st project_uuid membership_uuid now a code name request_id reason =
     bindR (require_any a [ActorRole.ESTIMATOR, ActorRole.ADMIN]) (\<lambda>_.
     if ActorRole.SYSTEM |\<in>| actor_roles a
     then Inl (HTTPException 403 ''SYSTEM identities cannot create projects'')
     else bindR (required_text code ''code'' 128) (\<lambda>code'.
     bindR (required_text name ''name'' 500) (\<lambda>name'.
     bindR (required_text reason ''reason'' 2000) (\<lambda>reason'.
     if list_ex py_isspace code'
     then Inl (ValueError ''Project code must not contain whitespace'')
     else if list_ex (\<lambda>p. pr_organization_id p = actor_organization_id a \<and> pr_code p = code') (st_projects st)
     then Inl (RuntimeError ''IntegrityError: organization_id, code'')
     else
       let project = \<lparr>pr_id = ''project-'' @ project_uuid, pr_organization_id = actor_organization_id a,
             pr_code = code', pr_name = name', pr_state = ApprovalState.DRAFT,
             pr_blocked_resume_state = None, pr_current_document_set_revision_id = None,
             pr_row_version = 1, pr_updated_at = now\<rparr>;
           st1 = st\<lparr>st_projects := st_projects st @ [project]\<rparr>
       in bindR (append_membership st1 membership_uuid (pr_id project) (actor_id a)
             (sorted_list_of_fset (ffilter (\<lambda>r. r \<noteq> ActorRole.SYSTEM) (actor_roles a)))
             ProjectAccessLevel.OWNER ProjectMembershipStatus.ACTIVE (actor_id a) reason' None now)
          (\<lambda>(row, st2). Inr (project,
             outbox ''project.created'' (pr_id project) [(''project_id'', PStr (pr_id project))]
              (audit a ''project'' (pr_id project) ''project_membership_bootstrapped'' request_id reason'
                 [(''membership_revision_id'', PStr (mb_id row)),
                  (''principal_id'', PStr (actor_id a)),
                  (''roles'', PList (map PStr (mb_roles row))),
                  (''access_level'', PStr (ProjectAccessLevel_value (mb_access_level row))),
                  (''version'', PInt (mb_version row))]
               (audit a ''project'' (pr_id project) ''project_created'' request_id reason'
                 [(''code'', PStr code'), (''name'', PStr name'),
                  (''state'', PStr (ApprovalState_value ApprovalState.DRAFT)),
                  (''owner_membership_revision_id'', PStr (mb_id row))] st2))))))))"

definition normalized_roles :: "ActorRole list \<Rightarrow> ActorRole list" where
  "normalized_roles roles = sort (remdups roles)"

definition grant_project_membership ::
  "settings \<Rightarrow> int \<Rightarrow> store \<Rightarrow> string \<Rightarrow> int \<Rightarrow> actor \<Rightarrow> string \<Rightarrow> string \<Rightarrow> ActorRole list \<Rightarrow> ProjectAccessLevel
     \<Rightarrow> string \<Rightarrow> string \<Rightarrow> (membership_view \<times> store) result" where
  "grant_project_membership cfg today st uuid now a project_id raw_principal roles access_level
       request_id reason =
     bindR (required_text raw_principal ''principal_id'' 128) (\<lambda>principal_id.
     bindR (required_text reason ''reason'' 2000) (\<lambda>reason'.
     let nroles = normalized_roles roles in
     if nroles = [] then Inl (ValueError ''At least one project role is required'')
     else if ActorRole.SYSTEM \<in> set nroles
     then Inl (ValueError ''SYSTEM identities use qualified service access, not project membership'')
     else if principal_id = actor_id a \<and> access_level = ProjectAccessLevel.OWNER
        \<and> actor_roles a |\<inter>| fset_of_list nroles = {||}
     then Inl (ValueError ''An owner cannot remove every currently usable project role'')
     else bindR (get_project cfg today st a project_id [] True None) (\<lambda>project.
     let previous = current_membership st (pr_id project) principal_id in
     if (case previous of None \<Rightarrow> False | Some p \<Rightarrow> mb_status p = ProjectMembershipStatus.ACTIVE
           \<and> mb_access_level p = access_level \<and> mb_roles p = map ActorRole_value nroles)
     then bindR (membership_view_of (the previous)) (\<lambda>v. Inr (v, st))
     else bindR
       (if (case previous of None \<Rightarrow> False | Some p \<Rightarrow> mb_status p = ProjectMembershipStatus.ACTIVE
              \<and> mb_access_level p = ProjectAccessLevel.OWNER) \<and> access_level \<noteq> ProjectAccessLevel.OWNER
        then require_another_active_owner st (pr_id project) principal_id else Inr ())
     (\<lambda>_. bindR (append_membership st uuid (pr_id project) principal_id nroles access_level
            ProjectMembershipStatus.ACTIVE (actor_id a) reason' previous now)
     (\<lambda>(row, st1). bindR (membership_view_of row) (\<lambda>v.
        Inr (v, record_membership_change a (pr_id project) row request_id reason'
                  ''project_membership_granted'' st1)))))))"

definition revoke_project_membership ::
  "settings \<Rightarrow> int \<Rightarrow> store \<Rightarrow> string \<Rightarrow> int \<Rightarrow> actor \<Rightarrow> string \<Rightarrow> string \<Rightarrow> string \<Rightarrow> string
     \<Rightarrow> (membership_view \<times> store) result" where
  "revoke_project_membership cfg today st uuid now a project_id raw_principal request_id reason =
     bindR (required_text raw_principal ''principal_id'' 128) (\<lambda>principal_id.
     bindR (required_text reason ''reason'' 2000) (\<lambda>reason'.
     bindR (get_project cfg today st a project_id [] True None) (\<lambda>project.
     case current_membership st (pr_id project) principal_id of
       None \<Rightarrow> Inl (LookupError principal_id)
     | Some previous \<Rightarrow>
       if mb_status previous \<noteq> ProjectMembershipStatus.ACTIVE then Inl (LookupError principal_id)
       else bindR
         (if mb_access_level previous = ProjectAccessLevel.OWNER
          then require_another_active_owner st (pr_id project) principal_id else Inr ())
       (\<lambda>_. bindR (membership_roles previous) (\<lambda>R.
         bindR (append_membership st uuid (pr_id project) principal_id (sorted_list_of_fset R)
            (mb_access_level previous) ProjectMembershipStatus.REVOKED (actor_id a) reason'
            (Some previous) now)
       (\<lambda>(row, st1). bindR (membership_view_of row) (\<lambda>v.
          Inr (v, record_membership_change a (pr_id project) row request_id reason'
                    ''project_membership_revoked'' st1))))))))"

definition list_project_memberships ::
  "settings \<Rightarrow> int \<Rightarrow> store \<Rightarrow> actor \<Rightarrow> string \<Rightarrow> membership_view list result" where
  "list_project_memberships cfg today st a project_id =
     bindR (get_project cfg today st a project_id [] True None) (\<lambda>project.
       mapR membership_view_of
         (filter (\<lambda>m. mb_status m = ProjectMembershipStatus.ACTIVE)
           (sort_key mb_principal_id (current_memberships st (pr_id project)))))"

subsection \<open>Revision chains\<close>

text \<open>
  The revisions of one principal, oldest first: numbered from 1 without a gap, each naming the
  one before it as superseded.
\<close>

definition revision_chain :: "membership list \<Rightarrow> bool" where
  "revision_chain rs \<longleftrightarrow> (\<forall>i < length rs. mb_version (rs ! i) = int i + 1
     \<and> mb_supersedes (rs ! i) = (if i = 0 then None else Some (mb_id (rs ! (i - 1)))))"

lemma revision_chain_Nil [simp]: "revision_chain []"
  by (simp add: revision_chain_def)

lemma revision_chain_snoc:
  "revision_chain (rs @ [r]) \<longleftrightarrow> revision_chain rs \<and> mb_version r = int (length rs) + 1
     \<and> mb_supersedes r = (if rs = [] then None else Some (mb_id (last rs)))"
proof -
  let ?ok = "\<lambda>rs i. mb_version (rs ! i) = int i + 1
     \<and> mb_supersedes (rs ! i) = (if i = 0 then None else Some (mb_id (rs ! (i - 1))))"
  have "?ok (rs @ [r]) i = ?ok rs i" if "i < length rs" for i
    using that by (cases i) (simp_all add: nth_append)
  moreover have "?ok (rs @ [r]) (length rs) \<longleftrightarrow> mb_version r = int (length rs) + 1
     \<and> mb_supersedes r = (if rs = [] then None else Some (mb_id (last rs)))"
    by (simp add: nth_append last_conv_nth)
  ultimately show ?thesis
    unfolding revision_chain_def by (auto simp: All_less_Suc simp del: One_nat_def)
qed

lemma revision_chain_last: "revision_chain rs \<Longrightarrow> rs \<noteq> [] \<Longrightarrow> mb_version (last rs) = int (length rs)"
  by (cases rs rule: rev_cases) (simp_all add: revision_chain_snoc)

lemma latest_snoc:
  "latest (rs @ [r]) = (case latest rs of None \<Rightarrow> Some r
     | Some q \<Rightarrow> if mb_version r < mb_version q then Some q else Some r)"
proof (induction rs)
  case (Cons a rs)
  then show ?case by (cases "latest rs") auto
qed simp

lemma latest_None [simp]: "latest rs = None \<longleftrightarrow> rs = []"
  by (cases rs) (auto split: option.splits)

lemma latest_in_set: "latest rs = Some m \<Longrightarrow> m \<in> set rs"
  by (induction rs arbitrary: m) (auto split: option.splits if_splits)

lemma latest_chain: "revision_chain rs \<Longrightarrow> latest rs = (if rs = [] then None else Some (last rs))"
proof (induction rs rule: rev_induct)
  case (snoc r rs)
  show ?case
  proof (cases "rs = []")
    case True
    then show ?thesis by simp
  next
    case False
    obtain qs q where rs: "rs = qs @ [q]" using False by (metis append_butlast_last_id)
    have c: "revision_chain rs" "mb_version r = int (length rs) + 1"
      using snoc.prems by (simp_all add: revision_chain_snoc)
    have "latest rs = Some q" using snoc.IH [OF c(1)] by (simp add: rs)
    moreover have "mb_version q = int (length qs) + 1"
      using c(1) by (simp add: rs revision_chain_snoc)
    moreover have "mb_version r = int (length qs) + 2" using c(2) by (simp add: rs)
    ultimately
    show ?thesis by (simp add: latest_snoc)
  qed
qed simp

lemma rows_of_snoc:
  "rows_of (ms @ [m]) pid p =
     (if mb_project_id m = pid \<and> mb_principal_id m = p then rows_of ms pid p @ [m] else rows_of ms pid p)"
  by (simp add: rows_of_def)

lemma rows_of_set: "m \<in> set (rows_of ms pid p) \<longleftrightarrow> m \<in> set ms \<and> mb_project_id m = pid \<and> mb_principal_id m = p"
  by (auto simp: rows_of_def)

lemma current_membership_Some:
  "current_membership st pid p = Some m \<Longrightarrow>
     m \<in> set (st_memberships st) \<and> mb_project_id m = pid \<and> mb_principal_id m = p"
  unfolding current_membership_def by (drule latest_in_set) (simp add: rows_of_set)

lemma map_filter_set: "set (List.map_filter f xs) = {y. \<exists>x \<in> set xs. f x = Some y}"
  by (induction xs) (auto simp: List.map_filter_simps split: option.splits)

lemma current_memberships_iff:
  "m \<in> set (current_memberships st pid) \<longleftrightarrow> (\<exists>p. current_membership st pid p = Some m)"
  by (auto simp: current_memberships_def map_filter_set)
    (auto dest: current_membership_Some)

lemma require_another_active_owner_Inr:
  "require_another_active_owner st pid excl = Inr u \<longleftrightarrow>
     (\<exists>p m. p \<noteq> excl \<and> current_membership st pid p = Some m
        \<and> mb_status m = ProjectMembershipStatus.ACTIVE \<and> mb_access_level m = ProjectAccessLevel.OWNER)"
  by (auto simp: require_another_active_owner_def filter_empty_conv current_memberships_iff
      dest: current_membership_Some) (metis current_membership_Some)

subsection \<open>What the operations do\<close>

lemma get_project_Inr:
  assumes "system_access = None"
  shows "get_project cfg today st a pid rs owner system_access = Inr p \<longleftrightarrow>
    ActorRole.SYSTEM |\<notin>| actor_roles a
    \<and> find_project st pid (actor_organization_id a) = Some p
    \<and> (\<exists>m R. current_membership st pid (actor_id a) = Some m
        \<and> mb_status m = ProjectMembershipStatus.ACTIVE \<and> membership_roles m = Inr R
        \<and> (\<exists>r. r |\<in>| actor_roles a \<and> r |\<in>| R \<and> (rs = [] \<or> r \<in> set rs))
        \<and> (owner \<longrightarrow> mb_access_level m = ProjectAccessLevel.OWNER))"
proof (cases "ActorRole.SYSTEM |\<in>| actor_roles a \<or> find_project st pid (actor_organization_id a) = None
    \<or> current_membership st pid (actor_id a) = None")
  case True
  then consider "ActorRole.SYSTEM |\<in>| actor_roles a" | "find_project st pid (actor_organization_id a) = None"
    | q where "find_project st pid (actor_organization_id a) = Some q" "current_membership st pid (actor_id a) = None"
    by auto
  then show ?thesis
  proof cases
    case 3
    then have "pr_id q = pid" by (auto dest: find_project_Some)
    with 3 show ?thesis by (simp add: get_project_def assms bindR_eq_Inr)
  qed (simp_all add: get_project_def assms bindR_eq_Inr)
next
  case False
  then obtain q m where sys: "ActorRole.SYSTEM |\<notin>| actor_roles a"
    and q: "find_project st pid (actor_organization_id a) = Some q"
    and m: "current_membership st pid (actor_id a) = Some m" by auto
  have id: "pr_id q = pid" using q by (auto dest: find_project_Some)
  have none: "A |\<inter>| B = {||} \<longleftrightarrow> \<not> (\<exists>r. r |\<in>| A \<and> r |\<in>| B)" for A B :: "ActorRole fset"
    by (auto simp: fset_eq_iff)
  show ?thesis
  proof (cases "rs = []")
    case True
    show ?thesis
      by (cases "membership_roles m")
        (simp_all add: get_project_def assms Let_def sys q m id True none)
  next
    case False
    show ?thesis
      by (cases "membership_roles m")
        (simp_all add: get_project_def assms require_any_def Let_def sys q m id False none
          fset_of_list_elem, auto)
  qed
qed

lemma append_membership_Inr:
  "append_membership st u pid p roles lvl stat chg reason prev now = Inr (row, st') \<longleftrightarrow>
     (\<exists>m. project_role_mask roles = Inr m \<and>
       row = \<lparr>mb_id = ''membership-'' @ u, mb_project_id = pid, mb_principal_id = p,
         mb_roles = sort (map ActorRole_value roles), mb_role_mask = m, mb_access_level = lvl,
         mb_status = stat, mb_version = (case prev of None \<Rightarrow> 1 | Some q \<Rightarrow> mb_version q + 1),
         mb_supersedes = map_option mb_id prev, mb_changed_by = chg, mb_reason = reason,
         mb_created_at = now\<rparr>
       \<and> st' = st\<lparr>st_memberships := st_memberships st @ [row]\<rparr>)"
  by (auto simp: append_membership_def result_simps Let_def)

lemma sort_ActorRole_values: "sort (map ActorRole_value rs) = map ActorRole_value (sort rs)"
proof (rule properties_for_sort)
  have "sorted (sort rs)" by simp
  then show "sorted (map ActorRole_value (sort rs))"
    by (simp add: sorted_wrt_map less_eq_ActorRole_def [abs_def])
qed simp

lemma membership_roles_Inr:
  "membership_roles m = Inr R \<longleftrightarrow>
     (\<exists>rs. mb_roles m = map ActorRole_value rs \<and> rs \<noteq> [] \<and> distinct rs \<and> ActorRole.SYSTEM \<notin> set rs
        \<and> mb_role_mask m = or_bits 0 rs \<and> R = fset_of_list rs)"
proof -
  have inj: "map PStr xs = map (PStr \<circ> ActorRole_value) rs \<longleftrightarrow> xs = map ActorRole_value rs" for xs rs
    by (metis (no_types, lifting) inj_map_eq_map inj_onI list.map_comp pyval.inject(5))
  have "membership_roles m = Inr R \<longleftrightarrow>
      validate_project_role_evidence (PList (map PStr (mb_roles m))) (PInt (mb_role_mask m)) = Inr R"
    by (simp add: membership_roles_def split: sum.split)
  then show ?thesis by (simp add: validate_project_role_evidence_Inr inj)
qed

lemma append_membership_roles:
  assumes "append_membership st u pid p roles lvl stat chg reason prev now = Inr (row, st')" "distinct roles"
  shows "membership_roles row = Inr (fset_of_list roles)"
proof -
  have "or_bits 0 roles = or_bits 0 (sort roles)" by (simp add: or_bits_inj)
  with assms show ?thesis
    by (auto simp: append_membership_Inr project_role_mask_Inr membership_roles_Inr sort_ActorRole_values
        intro!: exI [of _ "sort roles"])
qed

lemma membership_view_of_Inr:
  "membership_view_of row = Inr v \<Longrightarrow>
     mv_principal_id v = mb_principal_id row \<and> mv_status v = mb_status row
     \<and> mv_access_level v = mb_access_level row \<and> mv_version v = mb_version row
     \<and> membership_roles row = Inr (fset_of_list (mv_roles v))"
  by (auto simp: membership_view_of_def result_simps fset_eq_iff fset_of_list_elem)

lemma record_membership_change_frame [simp]:
  "st_projects (record_membership_change a pid row req reason ev st) = st_projects st"
  "st_memberships (record_membership_change a pid row req reason ev st) = st_memberships st"
  "st_qualifications (record_membership_change a pid row req reason ev st) = st_qualifications st"
  "st_transitions (record_membership_change a pid row req reason ev st) = st_transitions st"
  "st_decisions (record_membership_change a pid row req reason ev st) = st_decisions st"
  by (simp_all add: record_membership_change_def Let_def)

subsection \<open>The invariant of the membership table\<close>

definition active_owner :: "membership \<Rightarrow> bool" where
  "active_owner m \<longleftrightarrow> mb_status m = ProjectMembershipStatus.ACTIVE \<and> mb_access_level m = ProjectAccessLevel.OWNER"

definition membership_inv :: "store \<Rightarrow> bool" where
  "membership_inv st \<longleftrightarrow>
     distinct (map pr_id (st_projects st))
     \<and> (\<forall>m \<in> set (st_memberships st). is_ok (membership_roles m) \<and> mb_project_id m \<in> pr_id ` set (st_projects st))
     \<and> (\<forall>pid p. revision_chain (rows_of (st_memberships st) pid p))
     \<and> (\<forall>p \<in> set (st_projects st). \<exists>m \<in> set (current_memberships st (pr_id p)). active_owner m)"

text \<open>
  One appended revision: the new row is well formed, continues the chain of its principal and
  does not remove the last active owner.
\<close>

definition revision_step :: "store \<Rightarrow> membership \<Rightarrow> store \<Rightarrow> bool" where
  "revision_step st row st' \<longleftrightarrow>
     st_memberships st' = st_memberships st @ [row]
     \<and> is_ok (membership_roles row)
     \<and> (let prev = current_membership st (mb_project_id row) (mb_principal_id row) in
          mb_version row = (case prev of None \<Rightarrow> 1 | Some q \<Rightarrow> mb_version q + 1)
          \<and> mb_supersedes row = map_option mb_id prev)"

lemma current_membership_snoc:
  assumes "st_memberships st' = st_memberships st @ [row]"
    and "revision_chain (rows_of (st_memberships st') (mb_project_id row) (mb_principal_id row))"
  shows "current_membership st' pid p =
    (if pid = mb_project_id row \<and> p = mb_principal_id row then Some row else current_membership st pid p)"
  using assms by (auto simp: current_membership_def rows_of_snoc latest_chain)

lemma revision_step_chain:
  assumes "revision_step st row st'" "\<forall>pid p. revision_chain (rows_of (st_memberships st) pid p)"
  shows "revision_chain (rows_of (st_memberships st') pid p)"
proof (cases "mb_project_id row = pid \<and> mb_principal_id row = p")
  case True
  let ?rs = "rows_of (st_memberships st) pid p"
  have c: "revision_chain ?rs" using assms(2) by simp
  then have "current_membership st pid p = (if ?rs = [] then None else Some (last ?rs))"
    by (simp add: current_membership_def latest_chain)
  moreover have "mb_version (last ?rs) = int (length ?rs)" if "?rs \<noteq> []"
    using c that by (rule revision_chain_last)
  ultimately show ?thesis
    using assms True by (auto simp: revision_step_def Let_def rows_of_snoc revision_chain_snoc)
next
  case False
  with assms show ?thesis by (auto simp: revision_step_def rows_of_snoc)
qed

lemma membership_inv_revision:
  assumes inv: "membership_inv st" and step: "revision_step st row st'"
    and same: "st_projects st' = st_projects st"
    and proj: "mb_project_id row \<in> pr_id ` set (st_projects st)"
    and owner: "active_owner row
      \<or> (\<forall>q. current_membership st (mb_project_id row) (mb_principal_id row) = Some q \<longrightarrow> \<not> active_owner q)
      \<or> (\<exists>p m. p \<noteq> mb_principal_id row \<and> current_membership st (mb_project_id row) p = Some m \<and> active_owner m)"
  shows "membership_inv st'"
proof -
  have chain: "revision_chain (rows_of (st_memberships st') pid p)" for pid p
    using revision_step_chain [OF step] inv by (simp add: membership_inv_def)
  have rows: "st_memberships st' = st_memberships st @ [row]" and ok: "is_ok (membership_roles row)"
    using step by (simp_all add: revision_step_def)
  note cur = current_membership_snoc [OF rows chain]
  have "\<exists>m \<in> set (current_memberships st' (pr_id p)). active_owner m" if "p \<in> set (st_projects st)" for p
  proof -
    from inv that have "\<exists>m \<in> set (current_memberships st (pr_id p)). active_owner m"
      by (simp add: membership_inv_def)
    then obtain q m where m: "current_membership st (pr_id p) q = Some m" "active_owner m"
      by (blast dest: current_memberships_iff [THEN iffD1])
    have "\<exists>q m. current_membership st' (pr_id p) q = Some m \<and> active_owner m"
    proof (cases "pr_id p = mb_project_id row \<and> q = mb_principal_id row")
      case False
      with m cur show ?thesis by (metis (no_types))
    next
      case True
      with owner m have "active_owner row
        \<or> (\<exists>p' m. p' \<noteq> mb_principal_id row \<and> current_membership st (mb_project_id row) p' = Some m \<and> active_owner m)"
        by auto
      with True cur show ?thesis by metis
    qed
    then show ?thesis by (blast intro: current_memberships_iff [THEN iffD2])
  qed
  with inv chain ok proj show ?thesis by (auto simp: membership_inv_def same rows)
qed

text \<open>What a successful append by one of the operations amounts to.\<close>

lemma append_revision_step:
  assumes "append_membership st u pid p roles lvl stat chg reason prev now = Inr (row, st1)"
    and "distinct roles" "prev = current_membership st pid p"
  shows "revision_step st row (record_membership_change a pid row req reason ev st1)"
    and "st_projects (record_membership_change a pid row req reason ev st1) = st_projects st"
    and "st_qualifications (record_membership_change a pid row req reason ev st1) = st_qualifications st"
    and "st_transitions (record_membership_change a pid row req reason ev st1) = st_transitions st"
    and "st_decisions (record_membership_change a pid row req reason ev st1) = st_decisions st"
    and "mb_project_id row = pid" "mb_principal_id row = p" "mb_status row = stat"
    and "mb_access_level row = lvl" "membership_roles row = Inr (fset_of_list roles)"
  using assms(1) append_membership_roles [OF assms(1,2)] assms(3)
  by (auto simp: revision_step_def append_membership_Inr is_ok_iff)

lemma grant_cases:
  assumes "grant_project_membership cfg today st u now a pid raw roles lvl req reason = Inr (v, st')"
  obtains (unchanged) project q where "get_project cfg today st a pid [] True None = Inr project"
      "current_membership st pid (strip raw) = Some q" "mb_status q = ProjectMembershipStatus.ACTIVE"
      "mb_access_level q = lvl" "mb_roles q = map ActorRole_value (normalized_roles roles)"
      "st' = st" "membership_view_of q = Inr v"
  | (appended) project row where "get_project cfg today st a pid [] True None = Inr project"
      "revision_step st row st'" "st_projects st' = st_projects st"
      "st_qualifications st' = st_qualifications st"
      "st_transitions st' = st_transitions st" "st_decisions st' = st_decisions st"
      "mb_project_id row = pid" "mb_principal_id row = strip raw"
      "mb_status row = ProjectMembershipStatus.ACTIVE" "mb_access_level row = lvl"
      "membership_roles row = Inr (fset_of_list roles)" "membership_view_of row = Inr v"
      "lvl = ProjectAccessLevel.OWNER
        \<or> (\<forall>q. current_membership st pid (strip raw) = Some q \<longrightarrow> \<not> active_owner q)
        \<or> (\<exists>p m. p \<noteq> strip raw \<and> current_membership st pid p = Some m \<and> active_owner m)"
proof -
  let ?nr = "normalized_roles roles"
  let ?prev = "current_membership st pid (strip raw)"
  from assms obtain project where project: "get_project cfg today st a pid [] True None = Inr project"
    by (auto simp: grant_project_membership_def result_simps Let_def split: if_splits)
  then have id: "pr_id project = pid"
    by (auto simp: get_project_Inr dest: find_project_Some)
  note rest = assms [unfolded grant_project_membership_def bindR_eq_Inr Let_def]
  have nr: "distinct ?nr" "fset_of_list ?nr = fset_of_list roles"
    by (simp_all add: normalized_roles_def fset_eq_iff fset_of_list_elem)
  show thesis
  proof (cases "\<exists>q. ?prev = Some q \<and> mb_status q = ProjectMembershipStatus.ACTIVE
      \<and> mb_access_level q = lvl \<and> mb_roles q = map ActorRole_value ?nr")
    case True
    then obtain q where "?prev = Some q" "mb_status q = ProjectMembershipStatus.ACTIVE"
      "mb_access_level q = lvl" "mb_roles q = map ActorRole_value ?nr" by blast
    moreover from this rest project id have "st' = st" "membership_view_of q = Inr v"
      by (auto simp: required_text_Inr result_simps split: if_splits)
    ultimately show thesis using project unchanged by blast
  next
    case False
    with rest project id obtain row st1 where app:
      "append_membership st u pid (strip raw) ?nr lvl ProjectMembershipStatus.ACTIVE (actor_id a) (strip reason)
         ?prev now = Inr (row, st1)"
      and v: "membership_view_of row = Inr v"
      and st': "st' = record_membership_change a pid row req (strip reason) ''project_membership_granted'' st1"
      and own: "(case ?prev of None \<Rightarrow> False | Some p \<Rightarrow> active_owner p) \<and> lvl \<noteq> ProjectAccessLevel.OWNER \<longrightarrow>
        require_another_active_owner st pid (strip raw) = Inr ()"
      by (auto simp: required_text_Inr result_simps active_owner_def split: if_splits option.splits)
    have "lvl = ProjectAccessLevel.OWNER \<or> (\<forall>q. ?prev = Some q \<longrightarrow> \<not> active_owner q)
        \<or> (\<exists>p m. p \<noteq> strip raw \<and> current_membership st pid p = Some m \<and> active_owner m)"
      using own by (auto simp: require_another_active_owner_Inr active_owner_def)
    with append_revision_step [OF app nr(1) refl] v st' project nr(2) appended show thesis by metis
  qed
qed

lemma revoke_cases:
  assumes "revoke_project_membership cfg today st u now a pid raw req reason = Inr (v, st')"
  obtains project prev row R where "get_project cfg today st a pid [] True None = Inr project"
      "current_membership st pid (strip raw) = Some prev" "mb_status prev = ProjectMembershipStatus.ACTIVE"
      "revision_step st row st'" "st_projects st' = st_projects st"
      "st_qualifications st' = st_qualifications st"
      "st_transitions st' = st_transitions st" "st_decisions st' = st_decisions st"
      "mb_project_id row = pid" "mb_principal_id row = strip raw"
      "mb_status row = ProjectMembershipStatus.REVOKED" "mb_access_level row = mb_access_level prev"
      "membership_roles prev = Inr R" "membership_roles row = Inr R" "membership_view_of row = Inr v"
      "\<not> active_owner prev \<or> (\<exists>p m. p \<noteq> strip raw \<and> current_membership st pid p = Some m \<and> active_owner m)"
proof -
  let ?prev = "current_membership st pid (strip raw)"
  from assms obtain project where project: "get_project cfg today st a pid [] True None = Inr project"
    by (auto simp: revoke_project_membership_def result_simps)
  then have id: "pr_id project = pid"
    by (auto simp: get_project_Inr dest: find_project_Some)
  note rest = assms [unfolded revoke_project_membership_def bindR_eq_Inr]
  with project id obtain prev R row st1 where
      prev: "?prev = Some prev" "mb_status prev = ProjectMembershipStatus.ACTIVE" "membership_roles prev = Inr R"
    and app: "append_membership st u pid (strip raw) (sorted_list_of_fset R) (mb_access_level prev)
        ProjectMembershipStatus.REVOKED (actor_id a) (strip reason) (Some prev) now = Inr (row, st1)"
    and v: "membership_view_of row = Inr v"
    and st': "st' = record_membership_change a pid row req (strip reason) ''project_membership_revoked'' st1"
    and own: "mb_access_level prev = ProjectAccessLevel.OWNER \<longrightarrow>
        require_another_active_owner st pid (strip raw) = Inr ()"
    by (auto simp: required_text_Inr result_simps split: if_splits option.splits)
  have "\<not> active_owner prev \<or> (\<exists>p m. p \<noteq> strip raw \<and> current_membership st pid p = Some m \<and> active_owner m)"
    using own by (auto simp: require_another_active_owner_Inr active_owner_def)
  moreover have "distinct (sorted_list_of_fset R)" "fset_of_list (sorted_list_of_fset R) = R"
    by (simp_all add: fset_eq_iff fset_of_list_elem sorted_list_of_fset.rep_eq)
  ultimately show thesis
    using that project prev v st' append_revision_step [OF app _ prev(1) [symmetric]] by metis
qed

lemma create_cases:
  assumes "create_project st pu mu now a code name req reason = Inr (p, st')"
  obtains row where "p = \<lparr>pr_id = ''project-'' @ pu, pr_organization_id = actor_organization_id a,
        pr_code = strip code, pr_name = strip name, pr_state = ApprovalState.DRAFT,
        pr_blocked_resume_state = None, pr_current_document_set_revision_id = None,
        pr_row_version = 1, pr_updated_at = now\<rparr>"
    "st_projects st' = st_projects st @ [p]" "st_memberships st' = st_memberships st @ [row]"
    "mb_project_id row = pr_id p" "mb_principal_id row = actor_id a" "active_owner row"
    "membership_roles row = Inr (actor_roles a)" "mb_version row = 1" "mb_supersedes row = None"
    "ActorRole.SYSTEM |\<notin>| actor_roles a"
    "st_transitions st' = st_transitions st" "st_decisions st' = st_decisions st"
proof -
  let ?rs = "sorted_list_of_fset (ffilter (\<lambda>r. r \<noteq> ActorRole.SYSTEM) (actor_roles a))"
  let ?p = "\<lparr>pr_id = ''project-'' @ pu, pr_organization_id = actor_organization_id a,
        pr_code = strip code, pr_name = strip name, pr_state = ApprovalState.DRAFT,
        pr_blocked_resume_state = None, pr_current_document_set_revision_id = None,
        pr_row_version = 1, pr_updated_at = now\<rparr>"
  from assms obtain row st2 where sys: "ActorRole.SYSTEM |\<notin>| actor_roles a" and p: "p = ?p"
    and app: "append_membership (st\<lparr>st_projects := st_projects st @ [?p]\<rparr>) mu (pr_id ?p) (actor_id a) ?rs
        ProjectAccessLevel.OWNER ProjectMembershipStatus.ACTIVE (actor_id a) (strip reason) None now = Inr (row, st2)"
    and frame: "st_projects st' = st_projects st2" "st_memberships st' = st_memberships st2"
      "st_transitions st' = st_transitions st2" "st_decisions st' = st_decisions st2"
    by (auto simp: create_project_def required_text_Inr result_simps Let_def split: if_splits)
  have "ffilter (\<lambda>r. r \<noteq> ActorRole.SYSTEM) (actor_roles a) = actor_roles a"
    using sys by (auto simp: fset_eq_iff)
  then have rs: "distinct ?rs" "fset_of_list ?rs = actor_roles a"
    by (simp_all add: fset_eq_iff fset_of_list_elem sorted_list_of_fset.rep_eq)
  from app frame p have "st_projects st' = st_projects st @ [p]" "st_memberships st' = st_memberships st @ [row]"
    "mb_project_id row = pr_id p" "mb_principal_id row = actor_id a" "active_owner row"
    "mb_version row = 1" "mb_supersedes row = None"
    "st_transitions st' = st_transitions st" "st_decisions st' = st_decisions st"
    by (auto simp: append_membership_Inr active_owner_def)
  with that p sys append_membership_roles [OF app rs(1)] rs(2) show thesis by simp
qed

lemma get_project_listed:
  assumes "get_project cfg today st a pid rs owner None = Inr project"
  shows "pid \<in> pr_id ` set (st_projects st)"
proof -
  from assms have "find_project st pid (actor_organization_id a) = Some project"
    by (simp add: get_project_Inr)
  then show ?thesis by (blast dest: find_project_Some)
qed

lemma membership_inv_create:
  assumes "create_project st pu mu now a code name req reason = Inr (p, st')"
    and "''project-'' @ pu \<notin> pr_id ` set (st_projects st)" and inv: "membership_inv st"
  shows "membership_inv st'"
  using assms(1)
proof (cases rule: create_cases)
  case (1 row)
  have id: "pr_id p \<notin> pr_id ` set (st_projects st)" using 1(1) assms(2) by simp
  then have "rows_of (st_memberships st) (pr_id p) q = []" for q
    using inv unfolding membership_inv_def rows_of_def filter_empty_conv by metis
  then have none: "current_membership st (pr_id p) q = None" for q
    by (simp add: current_membership_def)
  have step: "revision_step st row st'"
    using 1 none by (simp add: revision_step_def)
  then have chain: "revision_chain (rows_of (st_memberships st') pid q)" for pid q
    using revision_step_chain [OF step] inv by (simp add: membership_inv_def)
  note cur = current_membership_snoc [OF 1(3) chain]
  have "\<exists>m \<in> set (current_memberships st' (pr_id q)). active_owner m" if q: "q \<in> set (st_projects st')" for q
  proof (cases "q = p")
    case True
    then have "current_membership st' (pr_id q) (actor_id a) = Some row"
      using cur 1 by simp
    with 1(6) show ?thesis by (blast intro: current_memberships_iff [THEN iffD2])
  next
    case False
    with q 1(2) have "q \<in> set (st_projects st)" by simp
    with inv have "\<exists>m \<in> set (current_memberships st (pr_id q)). active_owner m"
      by (simp add: membership_inv_def)
    then obtain r m where m: "current_membership st (pr_id q) r = Some m" "active_owner m"
      by (blast dest: current_memberships_iff [THEN iffD1])
    have "pr_id q \<noteq> pr_id p" using \<open>q \<in> set (st_projects st)\<close> id by (metis imageI)
    then have "current_membership st' (pr_id q) r = Some m" using cur m 1(4) by simp
    with m(2) show ?thesis by (blast intro: current_memberships_iff [THEN iffD2])
  qed
  with inv id chain 1 show ?thesis by (auto simp: membership_inv_def)
qed

lemma membership_inv_grant:
  assumes "grant_project_membership cfg today st u now a pid raw roles lvl req reason = Inr (v, st')"
    and inv: "membership_inv st"
  shows "membership_inv st'"
  using assms(1)
proof (cases rule: grant_cases)
  case (appended project row)
  then have "pid \<in> pr_id ` set (st_projects st)" by (intro get_project_listed)
  with appended show ?thesis
    by (intro membership_inv_revision [OF inv appended(2)]) (auto simp: active_owner_def)
qed (simp add: inv)

lemma membership_inv_revoke:
  assumes "revoke_project_membership cfg today st u now a pid raw req reason = Inr (v, st')"
    and inv: "membership_inv st"
  shows "membership_inv st'"
  using assms(1)
proof (cases rule: revoke_cases)
  case (1 project prev row R)
  then have "pid \<in> pr_id ` set (st_projects st)" by (intro get_project_listed)
  with 1 show ?thesis
    by (intro membership_inv_revision [OF inv 1(4)]) (auto simp: active_owner_def)
qed

subsection \<open>Reachable stores\<close>

text \<open>The membership operations as steps of one transition system, each with its own actor,
  clock and configuration; a fresh project identifier is one no project has.\<close>

inductive membership_step :: "store \<Rightarrow> store \<Rightarrow> bool" where
  create: "create_project st pu mu now a code name req reason = Inr (p, st') \<Longrightarrow>
    ''project-'' @ pu \<notin> pr_id ` set (st_projects st) \<Longrightarrow> membership_step st st'"
| grant: "grant_project_membership cfg today st u now a pid raw roles lvl req reason = Inr (v, st') \<Longrightarrow>
    membership_step st st'"
| revoke: "revoke_project_membership cfg today st u now a pid raw req reason = Inr (v, st') \<Longrightarrow>
    membership_step st st'"

definition empty_store :: "adapter_qualification list \<Rightarrow> store" where
  "empty_store qs = \<lparr>st_projects = [], st_memberships = [], st_qualifications = qs, st_documents = [],
     st_revisions = [], st_document_sets = [], st_findings = [], st_transitions = [],
     st_decisions = [], st_audit = [], st_outbox = []\<rparr>"

lemma membership_inv_empty: "membership_inv (empty_store qs)"
  by (simp add: membership_inv_def empty_store_def rows_of_def)

lemma membership_inv_step: "membership_step st st' \<Longrightarrow> membership_inv st \<Longrightarrow> membership_inv st'"
  by (induction rule: membership_step.induct)
    (blast intro: membership_inv_create membership_inv_grant membership_inv_revoke)+

lemma current_membership_revision:
  assumes "membership_inv st" "revision_step st row st'"
  shows "current_membership st' pid p =
    (if pid = mb_project_id row \<and> p = mb_principal_id row then Some row else current_membership st pid p)"
proof (rule current_membership_snoc)
  show "st_memberships st' = st_memberships st @ [row]" using assms(2) by (simp add: revision_step_def)
  show "revision_chain (rows_of (st_memberships st') (mb_project_id row) (mb_principal_id row))"
    using assms revision_step_chain [OF assms(2)] by (simp add: membership_inv_def)
qed

lemma get_project_cong:
  assumes "st_projects st' = st_projects st" "st_qualifications st' = st_qualifications st"
    and "current_membership st' pid (actor_id b) = current_membership st pid (actor_id b)"
  shows "get_project cfg today st' b pid rs owner acc = get_project cfg today st b pid rs owner acc"
proof -
  have f: "find_project st' = find_project st"
    by (simp add: fun_eq_iff find_project_def assms(1))
  have r: "require_system_access cfg today st' b = require_system_access cfg today st b"
    by (simp add: fun_eq_iff require_system_access_def assms(2))
  show ?thesis
  proof (cases "find_project st pid (actor_organization_id b)")
    case None
    then show ?thesis by (simp add: get_project_def f)
  next
    case (Some q)
    then have id: "pr_id q = pid" by (auto dest: find_project_Some)
    show ?thesis by (simp only: get_project_def f r Some option.case id assms(3))
  qed
qed

subsection \<open>Properties\<close>

text \<open>C1. In every store the membership operations can produce from an empty database, every
  membership row carries role evidence that validates, belongs to a project, and is numbered
  contiguously within its chain of revisions, and every project has at least one active owner.\<close>

theorem membership_table_invariant:
  assumes "membership_step\<^sup>*\<^sup>* (empty_store qs) st"
  shows "membership_inv st"
  using assms by (induction rule: rtranclp_induct) (auto intro: membership_inv_empty membership_inv_step)

text \<open>C2. Revoking a membership takes away exactly that principal's access to exactly that
  project: whatever roles are asked for, the principal can no longer open the project, and every
  other access check, service access included, answers as before.\<close>

theorem revoke_is_exact:
  assumes "membership_inv st"
    and "revoke_project_membership cfg today st u now a pid raw req reason = Inr (v, st')"
  shows "(actor_id b = strip raw \<longrightarrow> get_project cfg' today' st' b pid rs owner None \<noteq> Inr project)
    \<and> ((pid', actor_id b) \<noteq> (pid, strip raw) \<longrightarrow>
        get_project cfg' today' st' b pid' rs owner acc = get_project cfg' today' st b pid' rs owner acc)"
  using assms(2)
proof (cases rule: revoke_cases)
  case (1 project' prev row R)
  note cur = current_membership_revision [OF assms(1) 1(4)]
  have "get_project cfg' today' st' b pid' rs owner acc = get_project cfg' today' st b pid' rs owner acc"
    if "(pid', actor_id b) \<noteq> (pid, strip raw)"
    using that by (intro get_project_cong) (auto simp: 1 cur)
  then show ?thesis by (auto simp: get_project_Inr cur 1)
qed

text \<open>C3. The last active owner of a project can be neither revoked nor downgraded: both
  operations fail with the error of \<open>_require_another_active_owner\<close>.\<close>

theorem last_owner_is_protected:
  assumes "get_project cfg today st a pid [] True None = Inr project"
    and "current_membership st pid (strip raw) = Some m" "active_owner m"
    and "\<forall>p q. current_membership st pid p = Some q \<and> active_owner q \<longrightarrow> p = strip raw"
    and "is_ok (required_text raw ''principal_id'' 128)" "is_ok (required_text reason ''reason'' 2000)"
    and "roles \<noteq> []" "ActorRole.SYSTEM \<notin> set roles" "lvl \<noteq> ProjectAccessLevel.OWNER"
  shows "revoke_project_membership cfg today st u now a pid raw req reason
      = Inl (ValueError ''The last active project owner cannot be removed or downgraded'')
    \<and> grant_project_membership cfg today st u now a pid raw roles lvl req reason
      = Inl (ValueError ''The last active project owner cannot be removed or downgraded'')"
proof -
  have pid: "pr_id project = pid" using assms(1) by (auto simp: get_project_Inr dest: find_project_Some)
  have texts: "required_text raw ''principal_id'' 128 = Inr (strip raw)"
    "required_text reason ''reason'' 2000 = Inr (strip reason)"
    using assms(5,6) by (auto simp: is_ok_iff required_text_Inr)
  have "require_another_active_owner st pid (strip raw) \<noteq> Inr w" for w
    using assms(4) unfolding require_another_active_owner_Inr active_owner_def by blast
  then have none: "require_another_active_owner st pid (strip raw)
      = Inl (ValueError ''The last active project owner cannot be removed or downgraded'')"
    by (auto simp: require_another_active_owner_def split: if_splits)
  have nr: "normalized_roles roles \<noteq> []" "ActorRole.SYSTEM \<notin> set (normalized_roles roles)"
    using assms(7,8) by (simp_all add: normalized_roles_def)
  show ?thesis
    using assms(1-3,9) none nr
    by (simp add: revoke_project_membership_def grant_project_membership_def Let_def texts pid active_owner_def)
qed

text \<open>A successful grant takes effect and nothing else: the principal's current revision is
  active with exactly the requested roles and level, at most one row was appended to the table,
  and the current revision of every other principal is unchanged.\<close>

theorem grant_takes_effect:
  assumes "membership_inv st"
    and "grant_project_membership cfg today st u now a pid raw roles lvl req reason = Inr (v, st')"
  shows "\<exists>m rows. current_membership st' pid (strip raw) = Some m
      \<and> mb_status m = ProjectMembershipStatus.ACTIVE \<and> mb_access_level m = lvl
      \<and> membership_roles m = Inr (fset_of_list roles)
      \<and> st_memberships st' = st_memberships st @ rows \<and> length rows \<le> 1
      \<and> (\<forall>pid' p. (pid', p) \<noteq> (pid, strip raw) \<longrightarrow>
            current_membership st' pid' p = current_membership st pid' p)"
  using assms(2)
proof (cases rule: grant_cases)
  case (unchanged project q)
  have "is_ok (membership_roles q)"
    using assms(1) unchanged(2) by (auto simp: membership_inv_def dest: current_membership_Some)
  then obtain R where R: "membership_roles q = Inr R" by (auto simp: is_ok_iff)
  then obtain rs where rs: "mb_roles q = map ActorRole_value rs" "R = fset_of_list rs"
    by (auto simp: membership_roles_Inr)
  have "rs = normalized_roles roles"
    using rs(1) unchanged(5) by (simp add: inj_map_eq_map inj_on_def)
  with R rs(2) have "membership_roles q = Inr (fset_of_list roles)"
    by (simp add: normalized_roles_def fset_eq_iff fset_of_list_elem)
  with unchanged show ?thesis by (intro exI [of _ q] exI [of _ "[]"]) simp
next
  case (appended project row)
  then show ?thesis
    using current_membership_revision [OF assms(1) appended(2)]
    by (intro exI [of _ row] exI [of _ "[row]"]) (auto simp: revision_step_def)
qed

subsection \<open>A concrete project\<close>

definition ex_cfg :: settings where
  "ex_cfg = \<lparr>malware_scanner_qualification_id = None, malware_scanner_adapter = None,
     document_processor_qualification_id = None, document_processor_adapter = None,
     automation_rework_qualification_id = None, automation_rework_adapter = None\<rparr>"

definition alice :: actor where
  "alice = \<lparr>actor_id = ''alice'', actor_organization_id = ''org'',
     actor_roles = {|ActorRole.ESTIMATOR, ActorRole.APPROVER|}\<rparr>"

definition bob :: actor where
  "bob = \<lparr>actor_id = ''bob'', actor_organization_id = ''org'', actor_roles = {|ActorRole.ESTIMATOR|}\<rparr>"

definition ex_created :: "(project \<times> store) result" where
  "ex_created = create_project (empty_store []) ''1'' ''1'' 0 alice ''T-1'' '' Depot '' ''r1'' ''open''"

definition ex_store1 :: store where
  "ex_store1 = snd (projr ex_created)"

definition ex_granted :: "(membership_view \<times> store) result" where
  "ex_granted = grant_project_membership ex_cfg 0 ex_store1 ''2'' 5 alice ''project-1'' ''bob''
     [ActorRole.REVIEWER, ActorRole.ESTIMATOR] ProjectAccessLevel.MEMBER ''r2'' ''join''"

definition ex_store2 :: store where
  "ex_store2 = snd (projr ex_granted)"

definition ex_revoked :: "(membership_view \<times> store) result" where
  "ex_revoked = revoke_project_membership ex_cfg 0 ex_store2 ''3'' 9 alice ''project-1'' ''bob'' ''r3'' ''left''"

lemma ex_created_ok: "ex_created = Inr (fst (projr ex_created), ex_store1)"
  by code_simp

lemma ex_granted_ok: "ex_granted = Inr (fst (projr ex_granted), ex_store2)"
  by code_simp

lemma ex_revoked_ok: "ex_revoked = Inr (fst (projr ex_revoked), snd (projr ex_revoked))"
  by code_simp

lemma ex_reachable: "membership_step\<^sup>*\<^sup>* (empty_store []) ex_store1"
    "membership_step\<^sup>*\<^sup>* (empty_store []) ex_store2"
proof -
  have 1: "membership_step (empty_store []) ex_store1"
    by (rule membership_step.create [OF ex_created_ok [unfolded ex_created_def]])
      (simp add: empty_store_def)
  have 2: "membership_step ex_store1 ex_store2"
    by (rule membership_step.grant [OF ex_granted_ok [unfolded ex_granted_def]])
  from 1 show "membership_step\<^sup>*\<^sup>* (empty_store []) ex_store1" ..
  then show "membership_step\<^sup>*\<^sup>* (empty_store []) ex_store2"
    using 2 by (rule rtranclp.rtrancl_into_rtrancl)
qed

lemma ex_inv: "membership_inv ex_store1" "membership_inv ex_store2"
  using membership_inv_step ex_reachable membership_inv_empty
  by (auto elim!: rtranclp_induct)

theorem membership_table_invariant_witness:
  "membership_inv ex_store2 \<and> length (st_memberships ex_store2) = 2 \<and> length (st_projects ex_store2) = 1"
proof -
  have "length (st_memberships ex_store2) = 2" "length (st_projects ex_store2) = 1"
    by code_simp+
  with membership_table_invariant [OF ex_reachable(2)] show ?thesis by simp
qed

theorem revoke_is_exact_witness:
  "get_project ex_cfg 0 (snd (projr ex_revoked)) bob ''project-1'' [] False None
      \<noteq> Inr (fst (projr ex_created))
   \<and> get_project ex_cfg 0 ex_store2 bob ''project-1'' [] False None = Inr (fst (projr ex_created))
   \<and> get_project ex_cfg 0 (snd (projr ex_revoked)) alice ''project-1'' [] True None
      = get_project ex_cfg 0 ex_store2 alice ''project-1'' [] True None"
proof -
  note revoke_is_exact [OF ex_inv(2) ex_revoked_ok [unfolded ex_revoked_def], folded ex_revoked_def]
  moreover have "strip ''bob'' = ''bob''" by code_simp
  moreover have "get_project ex_cfg 0 ex_store2 bob ''project-1'' [] False None = Inr (fst (projr ex_created))"
    by code_simp
  ultimately show ?thesis by (simp add: bob_def alice_def)
qed

theorem last_owner_is_protected_witness:
  "revoke_project_membership ex_cfg 0 ex_store1 ''3'' 9 alice ''project-1'' ''alice'' ''r3'' ''left''
      = Inl (ValueError ''The last active project owner cannot be removed or downgraded'')
   \<and> grant_project_membership ex_cfg 0 ex_store1 ''3'' 9 alice ''project-1'' ''alice''
        [ActorRole.ESTIMATOR] ProjectAccessLevel.MEMBER ''r3'' ''left''
      = Inl (ValueError ''The last active project owner cannot be removed or downgraded'')"
proof (rule last_owner_is_protected)
  let ?m = "the (current_membership ex_store1 ''project-1'' ''alice'')"
  show "get_project ex_cfg 0 ex_store1 alice ''project-1'' [] True None = Inr (fst (projr ex_created))"
    by code_simp
  show "current_membership ex_store1 ''project-1'' (strip ''alice'') = Some ?m" by code_simp
  show "active_owner ?m" by code_simp
  have "map mb_principal_id (st_memberships ex_store1) = [''alice'']" by code_simp
  then show "\<forall>p q. current_membership ex_store1 ''project-1'' p = Some q \<and> active_owner q
      \<longrightarrow> p = strip ''alice''"
    by (auto dest!: current_membership_Some simp: map_eq_Cons_conv strip_def py_isspace_def)
qed (code_simp | simp)+

theorem grant_takes_effect_witness:
  "\<exists>m rows. current_membership ex_store2 ''project-1'' ''bob'' = Some m
      \<and> mb_status m = ProjectMembershipStatus.ACTIVE \<and> mb_access_level m = ProjectAccessLevel.MEMBER
      \<and> membership_roles m = Inr {|ActorRole.REVIEWER, ActorRole.ESTIMATOR|}
      \<and> st_memberships ex_store2 = st_memberships ex_store1 @ rows \<and> length rows \<le> 1"
proof -
  have "strip ''bob'' = ''bob''" by code_simp
  then show ?thesis
    using grant_takes_effect [OF ex_inv(1) ex_granted_ok [unfolded ex_granted_def]] by auto
qed

end
