(* ===== verification/TG_Release.thy ===== *)
theory TG_Release
  imports TG_Models TG_Decimal_Bounds
begin

text \<open>
  \<open>domain/release.py\<close>: the release gate.  \<open>evaluate_bid_release\<close> collects one finding
  per violated condition and allows the release when there is none; the internal release takes
  the same decision for another state.  \<open>gate_violated\<close> states, per finding code, the
  condition under which the gate must refuse.
\<close>

record four_eyes_record =
  fe_change_id :: string
  fe_changed_by :: string
  fe_approved_by :: "string option"
  fe_approval_id :: "string option"

record release_context =
  rc_current_document_set_confirmed :: bool
  rc_current_document_set_revision_id :: "string option"
  rc_missing_critical_document_ids :: "string list"
  rc_unverified_key_quantity_ids :: "string list"
  rc_unresolved_conflict_ids :: "string list"
  rc_cost_item_ids_without_basis :: "string list"
  rc_unverified_analogue_ids :: "string list"
  rc_price_normalization_violation_ids :: "string list"
  rc_independent_validation :: "independent_validation_result option"
  rc_unverified_cost_total :: decimal
  rc_project_cost_total :: decimal
  rc_max_unverified_cost_share :: "decimal option"
  rc_outstanding_approval_ids :: "string list"
  rc_controlled_versions :: "controlled_version list"
  rc_invalid_controlled_version_ids :: "string list"
  rc_required_controlled_version_kinds :: "string fset"
  rc_snapshot :: "calculation_snapshot option"
  rc_snapshot_integrity_valid :: bool
  rc_snapshot_controlled_versions_match :: bool
  rc_critical_manual_changes :: "four_eyes_record list"
  rc_unresolved_contract_risk_ids :: "string list"
  rc_blocking_contour_finding_ids :: "string list"
  rc_normative_calculation_required :: bool
  rc_normative_engine_qualified :: bool
  rc_normative_calculation_valid :: bool
  rc_production_qualification_complete :: bool
  rc_operational_integrity_valid :: bool

definition default_required_kinds :: "string list" where
  "default_required_kinds = [''methodology'', ''catalog'', ''calculation_model'',
     ''reconciliation_rules'', ''scope_rules'', ''quantity_policy'', ''quantity_formula_rules'',
     ''manual_change_policy'', ''price_policy'', ''approval_policy'', ''document_requirements'',
     ''risk_model'', ''contract_risk_rules'', ''logistics_model'', ''finance_model'',
     ''scenario_policy'', ''export_template'']"

text \<open>The defaults of \<open>ReleaseContext\<close>, with the three required fields.\<close>

definition release_context_defaults :: "bool \<Rightarrow> decimal \<Rightarrow> decimal \<Rightarrow> release_context" where
  "release_context_defaults confirmed unverified cost_total = \<lparr>
     rc_current_document_set_confirmed = confirmed, rc_current_document_set_revision_id = None,
     rc_missing_critical_document_ids = [], rc_unverified_key_quantity_ids = [],
     rc_unresolved_conflict_ids = [], rc_cost_item_ids_without_basis = [],
     rc_unverified_analogue_ids = [], rc_price_normalization_violation_ids = [],
     rc_independent_validation = None, rc_unverified_cost_total = unverified,
     rc_project_cost_total = cost_total, rc_max_unverified_cost_share = None,
     rc_outstanding_approval_ids = [], rc_controlled_versions = [],
     rc_invalid_controlled_version_ids = [],
     rc_required_controlled_version_kinds = fset_of_list default_required_kinds,
     rc_snapshot = None, rc_snapshot_integrity_valid = False,
     rc_snapshot_controlled_versions_match = False, rc_critical_manual_changes = [],
     rc_unresolved_contract_risk_ids = [], rc_blocking_contour_finding_ids = [],
     rc_normative_calculation_required = True, rc_normative_engine_qualified = False,
     rc_normative_calculation_valid = False, rc_production_qualification_complete = False,
     rc_operational_integrity_valid = True\<rparr>"

definition rel_finding :: "FindingCode \<Rightarrow> string \<Rightarrow> string list \<Rightarrow> (string \<times> pyval) list \<Rightarrow> validation_finding" where
  "rel_finding code message ids details =
     \<lparr>vf_code = code, vf_severity = Severity.BLOCKER, vf_message = message,
      vf_entity_ids = ids, vf_details = details\<rparr>"

subsection \<open>The groups of checks, in the order of the code\<close>

definition identifier_checks :: "release_context \<Rightarrow> (string list \<times> FindingCode \<times> string) list" where
  "identifier_checks c = [
     (rc_missing_critical_document_ids c, FindingCode.CRITICAL_DOCUMENT_MISSING,
        ''Critical documents are missing''),
     (rc_unverified_key_quantity_ids c, FindingCode.KEY_QUANTITY_UNVERIFIED,
        ''Key quantities are not verified''),
     (rc_unresolved_conflict_ids c, FindingCode.UNRESOLVED_CONFLICT,
        ''Unresolved evidence or documentation conflicts exist''),
     (rc_cost_item_ids_without_basis c, FindingCode.COST_WITHOUT_BASIS,
        ''Cost items lack a source or explicit approved assumption''),
     (rc_unverified_analogue_ids c, FindingCode.TECHNICAL_ANALOGUE_UNVERIFIED,
        ''Technical analogues have not been verified''),
     (rc_price_normalization_violation_ids c, FindingCode.PRICE_NORMALIZATION_FAILED,
        ''Price normalization rules are violated''),
     (rc_outstanding_approval_ids c, FindingCode.REQUIRED_APPROVAL_MISSING,
        ''Mandatory expert approvals are incomplete''),
     (rc_unresolved_contract_risk_ids c, FindingCode.CONTRACT_RISK_UNRESOLVED,
        ''Contract risks that affect execution cost remain unresolved''),
     (rc_blocking_contour_finding_ids c, FindingCode.BLOCKING_CONTOUR_FINDING,
        ''One or more verification contours have blocking findings'')]"

definition evidence_findings :: "release_context \<Rightarrow> validation_finding list" where
  "evidence_findings c =
     (if \<not> rc_current_document_set_confirmed c
      then [rel_finding FindingCode.CURRENT_DOCUMENT_SET_NOT_CONFIRMED
              ''Current tender-document set and revision are not confirmed'' [] []] else [])
     @ concat (map (\<lambda>(ids, code, message). if ids \<noteq> [] then [rel_finding code message ids []] else [])
         (identifier_checks c))"

definition validation_findings :: "release_context \<Rightarrow> validation_finding list" where
  "validation_findings c = (case rc_independent_validation c of
     None \<Rightarrow> [rel_finding FindingCode.INDEPENDENT_VALIDATION_MISSING
                ''Independent recalculation has not been completed'' [] []]
   | Some v \<Rightarrow> if \<not> iv_passed v
       then [rel_finding FindingCode.INDEPENDENT_RECALCULATION_MISMATCH
               ''Independent recalculation did not pass'' [] []] else [])"

definition cost_share_findings :: "release_context \<Rightarrow> validation_finding list result" where
  "cost_share_findings c = (case rc_max_unverified_cost_share c of
     None \<Rightarrow> Inr [rel_finding FindingCode.UNVERIFIED_COST_THRESHOLD_UNCONFIGURED
       ''Methodology owner has not configured maximum unverified cost share'' [] []]
   | Some allowed_share \<Rightarrow>
       if deq (rc_project_cost_total c) d_zero
       then Inr (if dlt d_zero (rc_unverified_cost_total c)
          then [rel_finding FindingCode.UNVERIFIED_COST_SHARE_EXCEEDED
            ''Unverified cost exists while project cost total is zero'' [] []] else [])
       else bindR (ddiv 28 (rc_unverified_cost_total c) (rc_project_cost_total c)) (\<lambda>share.
          Inr (if dlt allowed_share share
            then [rel_finding FindingCode.UNVERIFIED_COST_SHARE_EXCEEDED
              ''Unverified cost share exceeds the methodology-owned threshold'' []
              [(''actual_share'', PDec share), (''allowed_share'', PDec allowed_share)]] else [])))"

definition missing_versions :: "release_context \<Rightarrow> string list" where
  "missing_versions c = sorted_list_of_fset
     (ffilter (\<lambda>k. k \<notin> set (map cv_kind (rc_controlled_versions c))) (rc_required_controlled_version_kinds c))"

definition unapproved_versions :: "release_context \<Rightarrow> string list" where
  "unapproved_versions c = sort (map cv_version_id
     (filter (\<lambda>v. cv_kind v |\<in>| rc_required_controlled_version_kinds c \<and> cv_status v \<noteq> VersionStatus.APPROVED)
       (rc_controlled_versions c)))"

definition version_findings :: "release_context \<Rightarrow> validation_finding list" where
  "version_findings c =
     (if missing_versions c \<noteq> []
      then [rel_finding FindingCode.CONTROLLED_VERSION_MISSING
        ''Required controlled versions are missing'' (missing_versions c) []] else [])
     @ (if unapproved_versions c \<noteq> []
      then [rel_finding FindingCode.CONTROLLED_VERSION_NOT_APPROVED
        ''Required models, catalogs, rules, or methodology are not approved'' (unapproved_versions c) []] else [])
     @ (if rc_invalid_controlled_version_ids c \<noteq> []
      then [rel_finding FindingCode.CONTROLLED_VERSION_INTEGRITY_FAILED
        ''One or more bound governed versions fail content, lifecycle, four-eyes, or signed audit verification''
        (rc_invalid_controlled_version_ids c) []] else [])"

definition snapshot_findings :: "release_context \<Rightarrow> validation_finding list" where
  "snapshot_findings c = (case rc_snapshot c of
     None \<Rightarrow> [rel_finding FindingCode.CALCULATION_SNAPSHOT_MISSING
       ''A fixed calculation snapshot is required'' [] []]
   | Some s \<Rightarrow>
       if \<not> cs_fixed s then [rel_finding FindingCode.CALCULATION_SNAPSHOT_MISSING
         ''A fixed calculation snapshot is required'' [] []]
       else if Some (cs_document_set_revision_id s) \<noteq> rc_current_document_set_revision_id c
          \<or> \<not> rc_snapshot_controlled_versions_match c
       then [rel_finding FindingCode.CALCULATION_SNAPSHOT_STALE
         ''The fixed calculation snapshot does not match the current document set or controlled versions''
         [cs_snapshot_id s] []]
       else if \<not> rc_snapshot_integrity_valid c
       then [rel_finding FindingCode.CALCULATION_SNAPSHOT_INTEGRITY_FAILED
         ''The fixed calculation snapshot or its content-addressed object failed verification''
         [cs_snapshot_id s] []]
       else [])"

definition incomplete_changes :: "release_context \<Rightarrow> string list" where
  "incomplete_changes c = map fe_change_id (filter (\<lambda>r. \<not> (str_true (fe_approved_by r) \<and> str_true (fe_approval_id r)))
     (rc_critical_manual_changes c))"

definition same_person_changes :: "release_context \<Rightarrow> string list" where
  "same_person_changes c = map fe_change_id (filter (\<lambda>r. fe_approved_by r = Some (fe_changed_by r))
     (rc_critical_manual_changes c))"

definition change_findings :: "release_context \<Rightarrow> validation_finding list" where
  "change_findings c =
     (if incomplete_changes c \<noteq> []
      then [rel_finding FindingCode.CRITICAL_MANUAL_CHANGE_NOT_APPROVED
        ''Critical manual changes lack approval'' (incomplete_changes c) []] else [])
     @ (if same_person_changes c \<noteq> []
      then [rel_finding FindingCode.FOUR_EYES_VIOLATION
        ''The same actor changed and approved a critical value'' (same_person_changes c) []] else [])"

definition qualification_findings :: "release_context \<Rightarrow> validation_finding list" where
  "qualification_findings c =
     (if rc_normative_calculation_required c \<and> \<not> rc_normative_engine_qualified c
      then [rel_finding FindingCode.NORMATIVE_ENGINE_UNAVAILABLE
        ''No qualified normative estimating engine or complete approved basis is available'' [] []] else [])
     @ (if rc_normative_calculation_required c \<and> \<not> rc_normative_calculation_valid c
      then [rel_finding FindingCode.NORMATIVE_CALCULATION_MISSING
        ''No validated normative calculation artifact is bound to this project'' [] []] else [])
     @ (if \<not> rc_production_qualification_complete c
      then [rel_finding FindingCode.PRODUCTION_QUALIFICATION_INCOMPLETE
        ''Production quality gates and formal methodology approval are incomplete'' [] []] else [])
     @ (if \<not> rc_operational_integrity_valid c
      then [rel_finding FindingCode.OPERATIONAL_INTEGRITY_UNAVAILABLE
        ''WORM evidence storage or external audit anchoring is not valid'' [] []] else [])"

definition evaluate_bid_release :: "release_context \<Rightarrow> gate_decision result" where
  "evaluate_bid_release c =
     bindR (cost_share_findings c) (\<lambda>cost.
       let findings = evidence_findings c @ validation_findings c @ cost @ version_findings c
             @ snapshot_findings c @ change_findings c @ qualification_findings c;
           allowed = (findings = [])
       in Inr \<lparr>gd_requested_state = ApprovalState.APPROVED_FOR_BID, gd_allowed = allowed,
            gd_resulting_state = (if allowed then ApprovalState.APPROVED_FOR_BID else ApprovalState.BLOCKED),
            gd_findings = findings\<rparr>)"

definition evaluate_internal_release :: "release_context \<Rightarrow> gate_decision result" where
  "evaluate_internal_release c = bindR (evaluate_bid_release c) (\<lambda>d.
     Inr (d\<lparr>gd_requested_state := ApprovalState.APPROVED_FOR_INTERNAL_USE,
        gd_resulting_state := (if gd_allowed d then ApprovalState.APPROVED_FOR_INTERNAL_USE
                               else ApprovalState.BLOCKED)\<rparr>))"

subsection \<open>What the gate must refuse\<close>

text \<open>The share of unverified cost is the quotient the code computes, with 28 digits.\<close>

definition cost_share_exceeded :: "release_context \<Rightarrow> bool" where
  "cost_share_exceeded c \<longleftrightarrow> (\<exists>m. rc_max_unverified_cost_share c = Some m \<and>
     (if dval (rc_project_cost_total c) = 0 then 0 < dval (rc_unverified_cost_total c)
      else \<exists>s. ddiv 28 (rc_unverified_cost_total c) (rc_project_cost_total c) = Inr s \<and> dval m < dval s))"

definition snapshot_current :: "release_context \<Rightarrow> calculation_snapshot \<Rightarrow> bool" where
  "snapshot_current c s \<longleftrightarrow> Some (cs_document_set_revision_id s) = rc_current_document_set_revision_id c
     \<and> rc_snapshot_controlled_versions_match c"

definition gate_violated :: "release_context \<Rightarrow> FindingCode \<Rightarrow> bool" where
  "gate_violated c code \<longleftrightarrow>
     code = FindingCode.CURRENT_DOCUMENT_SET_NOT_CONFIRMED \<and> \<not> rc_current_document_set_confirmed c
   \<or> code = FindingCode.CRITICAL_DOCUMENT_MISSING \<and> rc_missing_critical_document_ids c \<noteq> []
   \<or> code = FindingCode.KEY_QUANTITY_UNVERIFIED \<and> rc_unverified_key_quantity_ids c \<noteq> []
   \<or> code = FindingCode.UNRESOLVED_CONFLICT \<and> rc_unresolved_conflict_ids c \<noteq> []
   \<or> code = FindingCode.COST_WITHOUT_BASIS \<and> rc_cost_item_ids_without_basis c \<noteq> []
   \<or> code = FindingCode.TECHNICAL_ANALOGUE_UNVERIFIED \<and> rc_unverified_analogue_ids c \<noteq> []
   \<or> code = FindingCode.PRICE_NORMALIZATION_FAILED \<and> rc_price_normalization_violation_ids c \<noteq> []
   \<or> code = FindingCode.REQUIRED_APPROVAL_MISSING \<and> rc_outstanding_approval_ids c \<noteq> []
   \<or> code = FindingCode.CONTRACT_RISK_UNRESOLVED \<and> rc_unresolved_contract_risk_ids c \<noteq> []
   \<or> code = FindingCode.BLOCKING_CONTOUR_FINDING \<and> rc_blocking_contour_finding_ids c \<noteq> []
   \<or> code = FindingCode.INDEPENDENT_VALIDATION_MISSING \<and> rc_independent_validation c = None
   \<or> code = FindingCode.INDEPENDENT_RECALCULATION_MISMATCH
       \<and> (\<exists>v. rc_independent_validation c = Some v \<and> \<not> iv_passed v)
   \<or> code = FindingCode.UNVERIFIED_COST_THRESHOLD_UNCONFIGURED \<and> rc_max_unverified_cost_share c = None
   \<or> code = FindingCode.UNVERIFIED_COST_SHARE_EXCEEDED \<and> cost_share_exceeded c
   \<or> code = FindingCode.CONTROLLED_VERSION_MISSING
       \<and> (\<exists>k. k |\<in>| rc_required_controlled_version_kinds c \<and> k \<notin> cv_kind ` set (rc_controlled_versions c))
   \<or> code = FindingCode.CONTROLLED_VERSION_NOT_APPROVED
       \<and> (\<exists>v \<in> set (rc_controlled_versions c). cv_kind v |\<in>| rc_required_controlled_version_kinds c
             \<and> cv_status v \<noteq> VersionStatus.APPROVED)
   \<or> code = FindingCode.CONTROLLED_VERSION_INTEGRITY_FAILED \<and> rc_invalid_controlled_version_ids c \<noteq> []
   \<or> code = FindingCode.CALCULATION_SNAPSHOT_MISSING \<and> (\<forall>s. rc_snapshot c = Some s \<longrightarrow> \<not> cs_fixed s)
   \<or> code = FindingCode.CALCULATION_SNAPSHOT_STALE
       \<and> (\<exists>s. rc_snapshot c = Some s \<and> cs_fixed s \<and> \<not> snapshot_current c s)
   \<or> code = FindingCode.CALCULATION_SNAPSHOT_INTEGRITY_FAILED
       \<and> (\<exists>s. rc_snapshot c = Some s \<and> cs_fixed s \<and> snapshot_current c s) \<and> \<not> rc_snapshot_integrity_valid c
   \<or> code = FindingCode.CRITICAL_MANUAL_CHANGE_NOT_APPROVED
       \<and> (\<exists>r \<in> set (rc_critical_manual_changes c).
             \<not> str_true (fe_approved_by r) \<or> \<not> str_true (fe_approval_id r))
   \<or> code = FindingCode.FOUR_EYES_VIOLATION
       \<and> (\<exists>r \<in> set (rc_critical_manual_changes c). fe_approved_by r = Some (fe_changed_by r))
   \<or> code = FindingCode.NORMATIVE_ENGINE_UNAVAILABLE
       \<and> rc_normative_calculation_required c \<and> \<not> rc_normative_engine_qualified c
   \<or> code = FindingCode.NORMATIVE_CALCULATION_MISSING
       \<and> rc_normative_calculation_required c \<and> \<not> rc_normative_calculation_valid c
   \<or> code = FindingCode.PRODUCTION_QUALIFICATION_INCOMPLETE \<and> \<not> rc_production_qualification_complete c
   \<or> code = FindingCode.OPERATIONAL_INTEGRITY_UNAVAILABLE \<and> \<not> rc_operational_integrity_valid c"

subsection \<open>The codes of each group\<close>

lemma rel_finding_fields [simp]:
  "vf_code (rel_finding code msg ids det) = code" "vf_severity (rel_finding code msg ids det) = Severity.BLOCKER"
  by (simp_all add: rel_finding_def)

lemma code_if: "code \<in> vf_code ` set (if P then [rel_finding cd m ids det] else []) \<longleftrightarrow> code = cd \<and> P"
  by auto

lemmas group_codes = set_append image_Un Un_iff code_if

lemma cost_share_codes:
  obtains fs where "cost_share_findings c = Inr fs" "\<forall>f \<in> set fs. vf_severity f = Severity.BLOCKER"
    "\<forall>code. code \<in> vf_code ` set fs \<longleftrightarrow>
       code = FindingCode.UNVERIFIED_COST_THRESHOLD_UNCONFIGURED \<and> rc_max_unverified_cost_share c = None
       \<or> code = FindingCode.UNVERIFIED_COST_SHARE_EXCEEDED \<and> cost_share_exceeded c"
proof (cases "rc_max_unverified_cost_share c")
  case None
  then show thesis
    by (intro that [of "[rel_finding FindingCode.UNVERIFIED_COST_THRESHOLD_UNCONFIGURED
        ''Methodology owner has not configured maximum unverified cost share'' [] []]"])
      (simp_all add: cost_share_findings_def cost_share_exceeded_def)
next
  case (Some m)
  show thesis
  proof (cases "coeff (rc_project_cost_total c) = 0")
    case True
    then have z: "dval (rc_project_cost_total c) = 0" by (simp add: dval_def)
    have e: "cost_share_exceeded c \<longleftrightarrow> dlt d_zero (rc_unverified_cost_total c)"
      by (simp add: cost_share_exceeded_def Some z dlt_iff)
    let ?f = "rel_finding FindingCode.UNVERIFIED_COST_SHARE_EXCEEDED
            ''Unverified cost exists while project cost total is zero'' [] []"
    show thesis
    proof (rule that [of "if dlt d_zero (rc_unverified_cost_total c) then [?f] else []"])
      show "cost_share_findings c = Inr (if dlt d_zero (rc_unverified_cost_total c) then [?f] else [])"
        unfolding cost_share_findings_def Some option.case deq_zero by (simp only: True refl if_True)
      show "\<forall>code. code \<in> vf_code ` set (if dlt d_zero (rc_unverified_cost_total c) then [?f] else []) \<longleftrightarrow>
         code = FindingCode.UNVERIFIED_COST_THRESHOLD_UNCONFIGURED \<and> rc_max_unverified_cost_share c = None
         \<or> code = FindingCode.UNVERIFIED_COST_SHARE_EXCEEDED \<and> cost_share_exceeded c"
        unfolding code_if e by (simp add: Some)
    qed simp
  next
    case False
    then have nz: "dval (rc_project_cost_total c) \<noteq> 0" by (simp add: dval_def)
    obtain s where s: "ddiv 28 (rc_unverified_cost_total c) (rc_project_cost_total c) = Inr s"
      using ddiv_ok [OF False] by (auto simp: is_ok_iff)
    have e: "cost_share_exceeded c \<longleftrightarrow> dlt m s"
      by (simp add: cost_share_exceeded_def Some nz s dlt_iff)
    let ?f = "rel_finding FindingCode.UNVERIFIED_COST_SHARE_EXCEEDED
            ''Unverified cost share exceeds the methodology-owned threshold'' []
            [(''actual_share'', PDec s), (''allowed_share'', PDec m)]"
    show thesis
    proof (rule that [of "if dlt m s then [?f] else []"])
      show "cost_share_findings c = Inr (if dlt m s then [?f] else [])"
        unfolding cost_share_findings_def Some option.case deq_zero s bindR_Inr by (simp only: False if_False)
      show "\<forall>code. code \<in> vf_code ` set (if dlt m s then [?f] else []) \<longleftrightarrow>
         code = FindingCode.UNVERIFIED_COST_THRESHOLD_UNCONFIGURED \<and> rc_max_unverified_cost_share c = None
         \<or> code = FindingCode.UNVERIFIED_COST_SHARE_EXCEEDED \<and> cost_share_exceeded c"
        unfolding code_if e by (simp add: Some)
    qed simp
  qed
qed

lemma evidence_codes: "code \<in> vf_code ` set (evidence_findings c) \<longleftrightarrow>
     code = FindingCode.CURRENT_DOCUMENT_SET_NOT_CONFIRMED \<and> \<not> rc_current_document_set_confirmed c
   \<or> code = FindingCode.CRITICAL_DOCUMENT_MISSING \<and> rc_missing_critical_document_ids c \<noteq> []
   \<or> code = FindingCode.KEY_QUANTITY_UNVERIFIED \<and> rc_unverified_key_quantity_ids c \<noteq> []
   \<or> code = FindingCode.UNRESOLVED_CONFLICT \<and> rc_unresolved_conflict_ids c \<noteq> []
   \<or> code = FindingCode.COST_WITHOUT_BASIS \<and> rc_cost_item_ids_without_basis c \<noteq> []
   \<or> code = FindingCode.TECHNICAL_ANALOGUE_UNVERIFIED \<and> rc_unverified_analogue_ids c \<noteq> []
   \<or> code = FindingCode.PRICE_NORMALIZATION_FAILED \<and> rc_price_normalization_violation_ids c \<noteq> []
   \<or> code = FindingCode.REQUIRED_APPROVAL_MISSING \<and> rc_outstanding_approval_ids c \<noteq> []
   \<or> code = FindingCode.CONTRACT_RISK_UNRESOLVED \<and> rc_unresolved_contract_risk_ids c \<noteq> []
   \<or> code = FindingCode.BLOCKING_CONTOUR_FINDING \<and> rc_blocking_contour_finding_ids c \<noteq> []"
proof -
  have concat_codes: "code \<in> vf_code ` set (concat (map (\<lambda>(ids, code, message).
        if ids \<noteq> [] then [rel_finding code message ids []] else []) xs))
      \<longleftrightarrow> (\<exists>x \<in> set xs. code = fst (snd x) \<and> fst x \<noteq> [])" for xs
  proof (induction xs)
    case (Cons x xs)
    obtain ids cd m where "x = (ids, cd, m)" by (cases x)
    with Cons show ?case by (simp only: list.map concat.simps prod.case group_codes) simp
  qed simp
  show ?thesis
    unfolding evidence_findings_def group_codes concat_codes by (simp add: identifier_checks_def)
qed

lemma validation_codes: "code \<in> vf_code ` set (validation_findings c) \<longleftrightarrow>
     code = FindingCode.INDEPENDENT_VALIDATION_MISSING \<and> rc_independent_validation c = None
   \<or> code = FindingCode.INDEPENDENT_RECALCULATION_MISMATCH
       \<and> (\<exists>v. rc_independent_validation c = Some v \<and> \<not> iv_passed v)"
  by (auto simp: validation_findings_def split: option.splits)

lemma missing_versions_Nil: "missing_versions c = [] \<longleftrightarrow>
    (\<forall>k. k |\<in>| rc_required_controlled_version_kinds c \<longrightarrow> k \<in> cv_kind ` set (rc_controlled_versions c))"
  by (auto simp: missing_versions_def sorted_list_of_fset.rep_eq fset_eq_iff) 

lemma unapproved_versions_Nil: "unapproved_versions c = [] \<longleftrightarrow>
    (\<forall>v \<in> set (rc_controlled_versions c). cv_kind v |\<in>| rc_required_controlled_version_kinds c
       \<longrightarrow> cv_status v = VersionStatus.APPROVED)"
  by (auto simp: unapproved_versions_def filter_empty_conv)

lemma version_codes: "code \<in> vf_code ` set (version_findings c) \<longleftrightarrow>
     code = FindingCode.CONTROLLED_VERSION_MISSING
       \<and> (\<exists>k. k |\<in>| rc_required_controlled_version_kinds c \<and> k \<notin> cv_kind ` set (rc_controlled_versions c))
   \<or> code = FindingCode.CONTROLLED_VERSION_NOT_APPROVED
       \<and> (\<exists>v \<in> set (rc_controlled_versions c). cv_kind v |\<in>| rc_required_controlled_version_kinds c
             \<and> cv_status v \<noteq> VersionStatus.APPROVED)
   \<or> code = FindingCode.CONTROLLED_VERSION_INTEGRITY_FAILED \<and> rc_invalid_controlled_version_ids c \<noteq> []"
  unfolding version_findings_def group_codes missing_versions_Nil unapproved_versions_Nil by blast

lemma snapshot_codes: "code \<in> vf_code ` set (snapshot_findings c) \<longleftrightarrow>
     code = FindingCode.CALCULATION_SNAPSHOT_MISSING \<and> (\<forall>s. rc_snapshot c = Some s \<longrightarrow> \<not> cs_fixed s)
   \<or> code = FindingCode.CALCULATION_SNAPSHOT_STALE
       \<and> (\<exists>s. rc_snapshot c = Some s \<and> cs_fixed s \<and> \<not> snapshot_current c s)
   \<or> code = FindingCode.CALCULATION_SNAPSHOT_INTEGRITY_FAILED
       \<and> (\<exists>s. rc_snapshot c = Some s \<and> cs_fixed s \<and> snapshot_current c s) \<and> \<not> rc_snapshot_integrity_valid c"
  by (cases "rc_snapshot c") (auto simp: snapshot_findings_def snapshot_current_def)

lemma change_codes: "code \<in> vf_code ` set (change_findings c) \<longleftrightarrow>
     code = FindingCode.CRITICAL_MANUAL_CHANGE_NOT_APPROVED
       \<and> (\<exists>r \<in> set (rc_critical_manual_changes c).
             \<not> str_true (fe_approved_by r) \<or> \<not> str_true (fe_approval_id r))
   \<or> code = FindingCode.FOUR_EYES_VIOLATION
       \<and> (\<exists>r \<in> set (rc_critical_manual_changes c). fe_approved_by r = Some (fe_changed_by r))"
  unfolding change_findings_def group_codes incomplete_changes_def same_person_changes_def
    map_is_Nil_conv filter_empty_conv by blast

lemma qualification_codes: "code \<in> vf_code ` set (qualification_findings c) \<longleftrightarrow>
     code = FindingCode.NORMATIVE_ENGINE_UNAVAILABLE
       \<and> rc_normative_calculation_required c \<and> \<not> rc_normative_engine_qualified c
   \<or> code = FindingCode.NORMATIVE_CALCULATION_MISSING
       \<and> rc_normative_calculation_required c \<and> \<not> rc_normative_calculation_valid c
   \<or> code = FindingCode.PRODUCTION_QUALIFICATION_INCOMPLETE \<and> \<not> rc_production_qualification_complete c
   \<or> code = FindingCode.OPERATIONAL_INTEGRITY_UNAVAILABLE \<and> \<not> rc_operational_integrity_valid c"
  unfolding qualification_findings_def group_codes by blast

lemma blocker_severities:
  "\<forall>f \<in> set (evidence_findings c @ validation_findings c @ version_findings c @ snapshot_findings c
      @ change_findings c @ qualification_findings c). vf_severity f = Severity.BLOCKER"
proof -
  have "\<forall>f \<in> set (evidence_findings c). vf_severity f = Severity.BLOCKER"
    by (auto simp: evidence_findings_def)
  moreover have "\<forall>f \<in> set (validation_findings c). vf_severity f = Severity.BLOCKER"
    by (simp add: validation_findings_def split: option.split)
  moreover have "\<forall>f \<in> set (version_findings c). vf_severity f = Severity.BLOCKER"
    by (simp add: version_findings_def ball_Un)
  moreover have "\<forall>f \<in> set (snapshot_findings c). vf_severity f = Severity.BLOCKER"
    by (simp add: snapshot_findings_def split: option.split)
  moreover have "\<forall>f \<in> set (change_findings c). vf_severity f = Severity.BLOCKER"
    by (simp add: change_findings_def ball_Un)
  moreover have "\<forall>f \<in> set (qualification_findings c). vf_severity f = Severity.BLOCKER"
    by (simp add: qualification_findings_def ball_Un)
  ultimately show ?thesis unfolding set_append by blast
qed

lemma bid_release_cases:
  obtains d where "evaluate_bid_release c = Inr d"
    "gd_requested_state d = ApprovalState.APPROVED_FOR_BID"
    "gd_allowed d \<longleftrightarrow> gd_findings d = []"
    "gd_resulting_state d = (if gd_allowed d then ApprovalState.APPROVED_FOR_BID else ApprovalState.BLOCKED)"
    "\<forall>f \<in> set (gd_findings d). vf_severity f = Severity.BLOCKER"
    "vf_code ` set (gd_findings d) = {code. gate_violated c code}"
proof -
  obtain fs where fs: "cost_share_findings c = Inr fs"
    "\<forall>f \<in> set fs. vf_severity f = Severity.BLOCKER"
    "\<forall>code. code \<in> vf_code ` set fs \<longleftrightarrow>
       code = FindingCode.UNVERIFIED_COST_THRESHOLD_UNCONFIGURED \<and> rc_max_unverified_cost_share c = None
       \<or> code = FindingCode.UNVERIFIED_COST_SHARE_EXCEEDED \<and> cost_share_exceeded c"
    by (rule cost_share_codes [of c])
  let ?all = "evidence_findings c @ validation_findings c @ fs @ version_findings c
      @ snapshot_findings c @ change_findings c @ qualification_findings c"
  have sev: "\<forall>f \<in> set ?all. vf_severity f = Severity.BLOCKER"
    using blocker_severities [of c] fs(2) unfolding set_append by blast
  have "code \<in> vf_code ` set ?all \<longleftrightarrow> gate_violated c code" for code
    unfolding set_append image_Un Un_iff fs(3) [rule_format] evidence_codes validation_codes version_codes
      snapshot_codes change_codes qualification_codes gate_violated_def
    by (simp only: disj_assoc disj_left_commute disj_commute)
  then have codes: "vf_code ` set ?all = {code. gate_violated c code}" by blast
  define d where "d = \<lparr>gd_requested_state = ApprovalState.APPROVED_FOR_BID, gd_allowed = (?all = []),
        gd_resulting_state = (if ?all = [] then ApprovalState.APPROVED_FOR_BID else ApprovalState.BLOCKED),
        gd_findings = ?all\<rparr>"
  have fields: "gd_requested_state d = ApprovalState.APPROVED_FOR_BID" "gd_allowed d = (?all = [])"
    "gd_resulting_state d = (if ?all = [] then ApprovalState.APPROVED_FOR_BID else ApprovalState.BLOCKED)"
    "gd_findings d = ?all"
    by (simp_all only: d_def gate_decision.select_convs)
  show thesis
  proof (rule that [of d])
    show "evaluate_bid_release c = Inr d"
      by (simp only: evaluate_bid_release_def fs(1) bindR_Inr Let_def d_def)
  qed (use sev codes in \<open>simp_all only: fields\<close>)
qed

subsection \<open>Properties\<close>

text \<open>C4. The bid release gate is total and exact: it always returns a decision, the decision
  carries one blocking finding for precisely the violated conditions, and the release is allowed
  (and the resulting state the approved one) exactly when no condition is violated.  The internal
  release takes the same decision for its own target state.\<close>

theorem release_gate_exact:
  "\<exists>d i. evaluate_bid_release c = Inr d \<and> evaluate_internal_release c = Inr i
     \<and> {code. gate_violated c code} = vf_code ` set (gd_findings d)
     \<and> vf_severity ` set (gd_findings d) \<subseteq> {Severity.BLOCKER}
     \<and> gd_allowed d = (\<nexists>code. gate_violated c code)
     \<and> gd_requested_state d = ApprovalState.APPROVED_FOR_BID
     \<and> gd_resulting_state d = (if gd_allowed d then ApprovalState.APPROVED_FOR_BID else ApprovalState.BLOCKED)
     \<and> gd_findings i = gd_findings d \<and> gd_allowed i = gd_allowed d
     \<and> gd_requested_state i = ApprovalState.APPROVED_FOR_INTERNAL_USE
     \<and> gd_resulting_state i
         = (if gd_allowed d then ApprovalState.APPROVED_FOR_INTERNAL_USE else ApprovalState.BLOCKED)"
proof -
  from bid_release_cases [of c] obtain d where d: "evaluate_bid_release c = Inr d"
    "gd_requested_state d = ApprovalState.APPROVED_FOR_BID" "gd_allowed d \<longleftrightarrow> gd_findings d = []"
    "gd_resulting_state d = (if gd_allowed d then ApprovalState.APPROVED_FOR_BID else ApprovalState.BLOCKED)"
    "\<forall>f \<in> set (gd_findings d). vf_severity f = Severity.BLOCKER"
    "vf_code ` set (gd_findings d) = {code. gate_violated c code}" .
  have "gd_allowed d = (\<nexists>code. gate_violated c code)"
    using d(3,6) by (metis empty_Collect_eq image_is_empty set_empty)
  with d show ?thesis
    by (intro exI [of _ d] exI [of _ "projr (evaluate_internal_release c)"])
      (auto simp: evaluate_internal_release_def)
qed

lemma relative_error_lower:
  fixes v :: rat
  assumes "k * \<bar>s - v\<bar> \<le> v" "0 < k"
  shows "v * (1 - 1 / k) \<le> s"
proof -
  have "\<bar>s - v\<bar> \<le> v / k" using assms by (simp add: pos_le_divide_eq mult.commute)
  then have "v - s \<le> v / k" by linarith
  then show ?thesis by (simp add: right_diff_distrib)
qed

text \<open>The threshold on unverified cost: an allowed release has an unverified cost of at most the
  methodology owner's share of the project cost, up to the relative rounding error of one 28-digit
  division; and a share the threshold permits exactly is never refused for this reason.\<close>

theorem release_cost_share:
  assumes "rc_max_unverified_cost_share c = Some m" "fits 28 (dval m)"
    and "0 \<le> dval (rc_unverified_cost_total c)" "0 < dval (rc_project_cost_total c)"
    and "evaluate_bid_release c = Inr d"
  shows "(gd_allowed d \<longrightarrow> dval (rc_unverified_cost_total c) * (1 - 1 / 10 ^ 27)
            \<le> dval m * dval (rc_project_cost_total c))
    \<and> (dval (rc_unverified_cost_total c) \<le> dval m * dval (rc_project_cost_total c)
        \<longrightarrow> FindingCode.UNVERIFIED_COST_SHARE_EXCEEDED \<notin> vf_code ` set (gd_findings d))"
proof -
  let ?u = "rc_unverified_cost_total c" and ?t = "rc_project_cost_total c"
  have t: "0 < coeff ?t" and u: "0 \<le> coeff ?u"
    using assms(3,4) by (simp_all add: dval_pos_iff dval_nonneg_iff)
  obtain s where s: "ddiv 28 ?u ?t = Inr s" using ddiv_ok [of ?t 28 ?u] t by (auto simp: is_ok_iff)
  have codes: "vf_code ` set (gd_findings d) = {code. gate_violated c code}"
    "gd_allowed d \<longleftrightarrow> gd_findings d = []"
    using bid_release_cases [of c] assms(5) by (metis sum.inject(2))+
  have ex: "gate_violated c FindingCode.UNVERIFIED_COST_SHARE_EXCEEDED \<longleftrightarrow> dval m < dval s"
    using assms(4) by (simp add: gate_violated_def cost_share_exceeded_def assms(1) s)
  show ?thesis
  proof (cases "coeff ?u = 0")
    case True
    then have "dval s = 0" "dval ?u = 0" using s t by (auto simp: ddiv_zero dval_def)
    with codes ex assms(4) show ?thesis by (auto simp: zero_le_mult_iff)
  next
    case False
    with u have u: "0 < coeff ?u" by simp
    have close: "10 ^ 27 * \<bar>dval s - dval ?u / dval ?t\<bar> \<le> dval ?u / dval ?t"
      using ddiv_error [OF u t s] by simp
    have le: "dval s \<le> dval m" if "dval ?u / dval ?t \<le> dval m"
      using ddiv_le [OF u t s assms(2) that] by simp
    have "dval ?u * (1 - 1 / 10 ^ 27) \<le> dval m * dval ?t" if "dval s \<le> dval m"
    proof -
      have "dval ?u / dval ?t * (1 - 1 / 10 ^ 27) \<le> dval s"
        using close by (rule relative_error_lower) simp
      with that have "dval ?u / dval ?t * (1 - 1 / 10 ^ 27) \<le> dval m" by linarith
      then have "dval ?u / dval ?t * (1 - 1 / 10 ^ 27) * dval ?t \<le> dval m * dval ?t"
        using assms(4) by (intro mult_right_mono) simp_all
      then show ?thesis using assms(4) by simp
    qed
    moreover have "dval ?u / dval ?t \<le> dval m \<longleftrightarrow> dval ?u \<le> dval m * dval ?t"
      using assms(4) by (simp add: divide_le_eq)
    ultimately show ?thesis using le codes ex by auto
  qed
qed

subsection \<open>A releasable project\<close>

definition ex_validation :: independent_validation_result where
  "ex_validation = \<lparr>iv_validator_version = ''v1'', iv_passed = True,
     iv_independently_calculated_total = Dec 100 0, iv_primary_total = Dec 100 0,
     iv_difference = Dec 0 0, iv_tolerance = Dec 1 (-2), iv_findings = [], iv_validated_at = 0\<rparr>"

definition ex_snapshot :: calculation_snapshot where
  "ex_snapshot = \<lparr>cs_snapshot_id = ''s'', cs_project_id = ''project-1'', cs_document_set_revision_id = ''ds'',
     cs_input_hash = [], cs_output_hash = [], cs_snapshot_hash = [], cs_created_by = ''alice'',
     cs_created_at = 0, cs_fixed = True\<rparr>"

definition ex_release_context :: release_context where
  "ex_release_context = (release_context_defaults True (Dec 5 0) (Dec 100 0))
     \<lparr>rc_current_document_set_revision_id := Some ''ds'', rc_independent_validation := Some ex_validation,
      rc_max_unverified_cost_share := Some (Dec 5 (-2)),
      rc_controlled_versions := map (\<lambda>k. \<lparr>cv_kind = k, cv_version_id = k @ ''-1'', cv_content_hash = [],
        cv_status = VersionStatus.APPROVED, cv_approved_by = Some ''m'', cv_approved_at = Some 0\<rparr>)
        default_required_kinds,
      rc_snapshot := Some ex_snapshot, rc_snapshot_integrity_valid := True,
      rc_snapshot_controlled_versions_match := True, rc_normative_engine_qualified := True,
      rc_normative_calculation_valid := True, rc_production_qualification_complete := True\<rparr>"

lemma ex_release_decision: "evaluate_bid_release ex_release_context
    = Inr \<lparr>gd_requested_state = ApprovalState.APPROVED_FOR_BID, gd_allowed = True,
        gd_resulting_state = ApprovalState.APPROVED_FOR_BID, gd_findings = []\<rparr>"
  by code_simp

theorem release_cost_share_witness:
  "dval (Dec 5 0) * (1 - 1 / 10 ^ 27) \<le> dval (Dec 5 (-2)) * dval (Dec 100 0)"
proof -
  have c: "rc_max_unverified_cost_share ex_release_context = Some (Dec 5 (-2))"
    "rc_unverified_cost_total ex_release_context = Dec 5 0" "rc_project_cost_total ex_release_context = Dec 100 0"
    by (simp_all add: ex_release_context_def release_context_defaults_def)
  have "fits 28 (dval (Dec 5 (-2)))" by (rule fitsI [of _ 5 "-2"]) (simp_all add: dval_Dec)
  with release_cost_share [OF c(1) _ _ _ ex_release_decision] show ?thesis
    by (simp add: c dval_Dec)
qed

end
