(* ===== verification/TG_Workflow.thy ===== *)
theory TG_Workflow
  imports TG_Membership TG_Release
begin

text \<open>
  The project life cycle: the transition table of \<open>domain/workflow.py\<close> and the operations of
  \<open>application/projects.py\<close> that change a project's state, namely the manual transition with its
  stage gates, the release decision, the registration of a quarantined upload and the
  confirmation of a document set.  The blockers each stage gate computes from the database
  (\<open>application/stage_gates.py\<close>), the release context the service assembles and the content
  hash are arguments.
\<close>

subsection \<open>The transition table\<close>

fun NORMAL_TRANSITIONS :: "ApprovalState \<Rightarrow> ApprovalState list" where
  "NORMAL_TRANSITIONS ApprovalState.DRAFT =
     [ApprovalState.DOCUMENTS_INCOMPLETE, ApprovalState.EXTRACTION_IN_PROGRESS, ApprovalState.BLOCKED,
      ApprovalState.ARCHIVED]"
| "NORMAL_TRANSITIONS ApprovalState.DOCUMENTS_INCOMPLETE =
     [ApprovalState.EXTRACTION_IN_PROGRESS, ApprovalState.BLOCKED, ApprovalState.ARCHIVED]"
| "NORMAL_TRANSITIONS ApprovalState.EXTRACTION_IN_PROGRESS =
     [ApprovalState.EXTRACTION_REVIEW, ApprovalState.DOCUMENTS_INCOMPLETE, ApprovalState.BLOCKED]"
| "NORMAL_TRANSITIONS ApprovalState.EXTRACTION_REVIEW =
     [ApprovalState.EXTRACTION_IN_PROGRESS, ApprovalState.BOQ_IN_PROGRESS, ApprovalState.BLOCKED]"
| "NORMAL_TRANSITIONS ApprovalState.BOQ_IN_PROGRESS = [ApprovalState.BOQ_REVIEW, ApprovalState.BLOCKED]"
| "NORMAL_TRANSITIONS ApprovalState.BOQ_REVIEW =
     [ApprovalState.BOQ_IN_PROGRESS, ApprovalState.PRICING_IN_PROGRESS, ApprovalState.RFQ_REQUIRED,
      ApprovalState.BLOCKED]"
| "NORMAL_TRANSITIONS ApprovalState.PRICING_IN_PROGRESS =
     [ApprovalState.RFQ_REQUIRED, ApprovalState.EXPERT_REVIEW, ApprovalState.CALCULATION_IN_PROGRESS,
      ApprovalState.BLOCKED]"
| "NORMAL_TRANSITIONS ApprovalState.RFQ_REQUIRED =
     [ApprovalState.PRICING_IN_PROGRESS, ApprovalState.EXPERT_REVIEW, ApprovalState.BLOCKED]"
| "NORMAL_TRANSITIONS ApprovalState.CALCULATION_IN_PROGRESS =
     [ApprovalState.INDEPENDENT_VALIDATION, ApprovalState.BLOCKED]"
| "NORMAL_TRANSITIONS ApprovalState.INDEPENDENT_VALIDATION =
     [ApprovalState.CALCULATION_IN_PROGRESS, ApprovalState.EXPERT_REVIEW, ApprovalState.BLOCKED]"
| "NORMAL_TRANSITIONS ApprovalState.EXPERT_REVIEW =
     [ApprovalState.EXTRACTION_IN_PROGRESS, ApprovalState.EXTRACTION_REVIEW, ApprovalState.BOQ_IN_PROGRESS,
      ApprovalState.BOQ_REVIEW, ApprovalState.PRICING_IN_PROGRESS, ApprovalState.CALCULATION_IN_PROGRESS,
      ApprovalState.APPROVED_FOR_INTERNAL_USE, ApprovalState.APPROVED_FOR_BID, ApprovalState.BLOCKED]"
| "NORMAL_TRANSITIONS ApprovalState.APPROVED_FOR_INTERNAL_USE =
     [ApprovalState.EXPERT_REVIEW, ApprovalState.APPROVED_FOR_BID, ApprovalState.BLOCKED,
      ApprovalState.SUPERSEDED, ApprovalState.ARCHIVED]"
| "NORMAL_TRANSITIONS ApprovalState.APPROVED_FOR_BID = [ApprovalState.SUPERSEDED, ApprovalState.ARCHIVED]"
| "NORMAL_TRANSITIONS ApprovalState.SUPERSEDED = [ApprovalState.ARCHIVED]"
| "NORMAL_TRANSITIONS ApprovalState.ARCHIVED = []"
| "NORMAL_TRANSITIONS ApprovalState.BLOCKED = []"

definition BLOCKED_RESUME_STATES :: "ApprovalState list" where
  "BLOCKED_RESUME_STATES = [ApprovalState.DOCUMENTS_INCOMPLETE, ApprovalState.EXTRACTION_IN_PROGRESS,
     ApprovalState.EXTRACTION_REVIEW, ApprovalState.BOQ_IN_PROGRESS, ApprovalState.BOQ_REVIEW,
     ApprovalState.PRICING_IN_PROGRESS, ApprovalState.RFQ_REQUIRED, ApprovalState.CALCULATION_IN_PROGRESS,
     ApprovalState.INDEPENDENT_VALIDATION, ApprovalState.EXPERT_REVIEW, ApprovalState.ARCHIVED]"

definition can_transition :: "ApprovalState \<Rightarrow> ApprovalState \<Rightarrow> bool" where
  "can_transition from_state to_state =
     (if from_state = ApprovalState.BLOCKED then to_state \<in> set BLOCKED_RESUME_STATES
      else to_state \<in> set (NORMAL_TRANSITIONS from_state))"

definition validate_transition :: "workflow_transition \<Rightarrow> unit result" where
  "validate_transition t =
     (if wf_from_state t = wf_to_state t
      then Inl (ValueError ''Workflow self-transitions are not allowed'')
      else if \<not> can_transition (wf_from_state t) (wf_to_state t)
      then Inl (ValueError (''Illegal workflow transition: '' @ ApprovalState_value (wf_from_state t)
             @ '' -> '' @ ApprovalState_value (wf_to_state t)))
      else Inr ())"

text \<open>Constructing a \<open>WorkflowTransition\<close>: pydantic rejects an empty reason.\<close>

definition make_transition :: "string \<Rightarrow> ApprovalState \<Rightarrow> ApprovalState \<Rightarrow> string \<Rightarrow> string \<Rightarrow> int
    \<Rightarrow> workflow_transition result" where
  "make_transition project_id from_state to_state who reason now =
     (if reason = [] then Inl (ValueError ''reason: String should have at least 1 character'')
      else Inr \<lparr>wf_project_id = project_id, wf_from_state = from_state, wf_to_state = to_state,
             wf_actor_id = who, wf_reason = reason, wf_occurred_at = now\<rparr>)"

subsection \<open>Changing the state of a project\<close>

definition change_state :: "store \<Rightarrow> string \<Rightarrow> int \<Rightarrow> project \<Rightarrow> ApprovalState \<Rightarrow> actor \<Rightarrow> string \<Rightarrow> string
    \<Rightarrow> (project \<times> store) result" where
  "change_state st uuid now project to_state a request_id reason =
     (let from_state = pr_state project in
      bindR (make_transition (pr_id project) from_state to_state (actor_id a) reason now) (\<lambda>t.
      bindR (validate_transition t) (\<lambda>_.
        let project' = project\<lparr>
              pr_blocked_resume_state :=
                (if to_state = ApprovalState.BLOCKED then Some from_state
                 else if from_state = ApprovalState.BLOCKED then None
                 else pr_blocked_resume_state project),
              pr_state := to_state, pr_row_version := pr_row_version project + 1,
              pr_updated_at := wf_occurred_at t\<rparr>;
            row = \<lparr>wt_id = ''workflow-transition-'' @ uuid, wt_project_id = pr_id project,
              wt_from_state = from_state, wt_to_state = to_state, wt_actor_id = actor_id a,
              wt_reason = reason, wt_occurred_at = wf_occurred_at t\<rparr>;
            st1 = put_project project' st
        in Inr (project', audit a ''project'' (pr_id project) ''workflow_transition'' request_id reason
             [(''from_state'', PStr (ApprovalState_value from_state)),
              (''to_state'', PStr (ApprovalState_value to_state))]
             (st1\<lparr>st_transitions := st_transitions st1 @ [row]\<rparr>)))))"

text \<open>The row version and timestamp bump of the branches that do not change the state.\<close>

definition bump_version :: "int \<Rightarrow> project \<Rightarrow> project" where
  "bump_version now project = project\<lparr>pr_row_version := pr_row_version project + 1, pr_updated_at := now\<rparr>"

subsection \<open>Stage gates and manual transitions\<close>

text \<open>What the stage gate functions report for a project.\<close>

record stage_blockers =
  sb_passport :: "string list"
  sb_boq :: "string list"
  sb_scope :: "string list"
  sb_pricing :: "string list"
  sb_contract :: "string list"
  sb_risk :: "string list"

definition join_comma :: "string list \<Rightarrow> string" where
  "join_comma ws = concat (case ws of [] \<Rightarrow> [] | v # vs \<Rightarrow> v # map (\<lambda>x. '', '' @ x) vs)"

definition stage_gate :: "stage_blockers \<Rightarrow> ApprovalState \<Rightarrow> ApprovalState \<Rightarrow> (string \<times> string list) option" where
  "stage_gate b from_state to_state =
     (if from_state = ApprovalState.EXTRACTION_REVIEW \<and> to_state = ApprovalState.BOQ_IN_PROGRESS
      then Some (''project passport'', sb_passport b)
      else if from_state = ApprovalState.BOQ_IN_PROGRESS \<and> to_state = ApprovalState.BOQ_REVIEW
      then Some (''BoQ verification'', sb_boq b)
      else if from_state = ApprovalState.BOQ_REVIEW
         \<and> to_state \<in> {ApprovalState.PRICING_IN_PROGRESS, ApprovalState.RFQ_REQUIRED}
      then Some (''scope completeness'', sb_scope b)
      else if from_state = ApprovalState.PRICING_IN_PROGRESS \<and> to_state = ApprovalState.CALCULATION_IN_PROGRESS
      then Some (''pricing verification'', sb_pricing b @ sb_contract b @ sb_risk b)
      else None)"

definition validate_stage_gate :: "stage_blockers \<Rightarrow> project \<Rightarrow> ApprovalState \<Rightarrow> unit result" where
  "validate_stage_gate b project to_state = (case stage_gate b (pr_state project) to_state of
     None \<Rightarrow> Inr ()
   | Some (gate_name, blockers) \<Rightarrow>
       if blockers \<noteq> [] then Inl (ValueError (gate_name @ '' stage gate blocked the transition: '' @ join_comma blockers))
       else Inr ())"

definition transition_roles :: "ActorRole list" where
  "transition_roles = [ActorRole.ESTIMATOR, ActorRole.PROCUREMENT, ActorRole.TECHNICAL_EXPERT, ActorRole.REVIEWER]"

definition check_row_version :: "project \<Rightarrow> int \<Rightarrow> unit result" where
  "check_row_version project expected = (if pr_row_version project \<noteq> expected
     then Inl (OptimisticLockError expected (pr_row_version project)) else Inr ())"

definition transition :: "settings \<Rightarrow> int \<Rightarrow> store \<Rightarrow> (store \<Rightarrow> string \<Rightarrow> stage_blockers) \<Rightarrow> string \<Rightarrow> int \<Rightarrow> actor
    \<Rightarrow> string \<Rightarrow> ApprovalState \<Rightarrow> int \<Rightarrow> string \<Rightarrow> string \<Rightarrow> (project \<times> store) result" where
  "transition cfg today st gates uuid now a project_id to_state expected_row_version request_id reason =
     (if to_state \<in> {ApprovalState.APPROVED_FOR_BID, ApprovalState.APPROVED_FOR_INTERNAL_USE}
      then Inl (ValueError ''Approval states require a dedicated release decision'')
      else bindR (get_project cfg today st a project_id transition_roles False None) (\<lambda>project.
           bindR (check_row_version project expected_row_version) (\<lambda>_.
           bindR (validate_stage_gate (gates st (pr_id project)) project to_state) (\<lambda>_.
             change_state st uuid now project to_state a request_id reason))))"

subsection \<open>Release decisions\<close>

text \<open>\<open>content_hash\<close> on the three values this module hashes.\<close>

record content_hashes =
  ch_gate :: "string \<times> ApprovalState \<times> int \<times> string option \<times> release_context \<times> gate_decision \<Rightarrow> string"
  ch_manifest :: "string list \<Rightarrow> string"
  ch_text :: "string \<Rightarrow> string"

definition release_gate_hash :: "content_hashes \<Rightarrow> project \<Rightarrow> release_context \<Rightarrow> gate_decision \<Rightarrow> string" where
  "release_gate_hash H project context d =
     ch_gate H (pr_id project, pr_state project, pr_row_version project,
       pr_current_document_set_revision_id project, context, d)"

definition attempt_release :: "settings \<Rightarrow> int \<Rightarrow> store \<Rightarrow> content_hashes \<Rightarrow> (store \<Rightarrow> project \<Rightarrow> release_context)
    \<Rightarrow> string \<Rightarrow> string \<Rightarrow> int \<Rightarrow> actor \<Rightarrow> string \<Rightarrow> int \<Rightarrow> string \<Rightarrow> string \<Rightarrow> string \<Rightarrow> ApprovalState
    \<Rightarrow> (project \<times> gate_decision \<times> store) result" where
  "attempt_release cfg today st H build_release_context decision_uuid transition_uuid now a project_id
       expected_row_version expected_gate_hash request_id reason requested_state =
     bindR (get_project cfg today st a project_id [ActorRole.APPROVER] False None) (\<lambda>project.
     bindR (check_row_version project expected_row_version) (\<lambda>_.
     bindR (make_transition (pr_id project) (pr_state project) requested_state (actor_id a) reason now) (\<lambda>t.
     bindR (validate_transition t) (\<lambda>_.
     let context = build_release_context st project in
     bindR (if requested_state = ApprovalState.APPROVED_FOR_BID then evaluate_bid_release context
            else evaluate_internal_release context) (\<lambda>d.
     let gate_hash = release_gate_hash H project context d in
     if gate_hash \<noteq> expected_gate_hash
     then Inl (ValueError ''Release gate changed; reload the complete server evaluation'')
     else
       let decision_id = ''release-decision-'' @ decision_uuid;
           row = \<lparr>rd_id = decision_id, rd_project_id = pr_id project,
             rd_snapshot_id = map_option cs_snapshot_id (rc_snapshot context),
             rd_requested_state = gd_requested_state d, rd_resulting_state = gd_resulting_state d,
             rd_allowed = gd_allowed d, rd_gate_hash = gate_hash, rd_decided_by = actor_id a,
             rd_decided_at = now\<rparr>;
           st1 = st\<lparr>st_decisions := st_decisions st @ [row]\<rparr>
       in bindR (change_state st1 transition_uuid now project (gd_resulting_state d) a request_id
             (if gd_allowed d then reason else ''Release policy blocked the calculation''))
          (\<lambda>(project', st2). Inr (project', d,
             audit a ''project'' (pr_id project)
               (if requested_state = ApprovalState.APPROVED_FOR_BID then ''bid_release_decided''
                else ''internal_release_decided'') request_id reason
               [(''decision_id'', PStr decision_id), (''gate_hash'', PStr gate_hash),
                (''project_row_version'', PInt expected_row_version),
                (''snapshot_id'', opt_str (map_option cs_snapshot_id (rc_snapshot context))),
                (''allowed'', PBool (gd_allowed d)),
                (''resulting_state'', PStr (ApprovalState_value (gd_resulting_state d))),
                (''finding_codes'', PList (map (\<lambda>f. PStr (FindingCode_value (vf_code f))) (gd_findings d)))]
               st2)))))))"

definition attempt_bid_release where
  "attempt_bid_release cfg today st H ctx du tu now a project_id version gate_hash request_id reason =
     attempt_release cfg today st H ctx du tu now a project_id version gate_hash request_id reason
       ApprovalState.APPROVED_FOR_BID"

definition attempt_internal_release where
  "attempt_internal_release cfg today st H ctx du tu now a project_id version gate_hash request_id reason =
     attempt_release cfg today st H ctx du tu now a project_id version gate_hash request_id reason
       ApprovalState.APPROVED_FOR_INTERNAL_USE"

subsection \<open>Document sets\<close>

definition current_revision_ids :: "store \<Rightarrow> string \<Rightarrow> string list" where
  "current_revision_ids st project_id = sort (map dv_id (filter
     (\<lambda>r. dv_is_current r \<and> (\<exists>d \<in> set (st_documents st). dr_id d = dv_document_id r
        \<and> dr_project_id d = project_id \<and> \<not> dr_cancelled d)) (st_revisions st)))"

definition released_state :: "ApprovalState \<Rightarrow> bool" where
  "released_state s \<longleftrightarrow>
     s \<in> {ApprovalState.APPROVED_FOR_BID, ApprovalState.SUPERSEDED, ApprovalState.ARCHIVED}"

definition quarantine_finding_id :: "content_hashes \<Rightarrow> string \<Rightarrow> string" where
  "quarantine_finding_id H upload_id = ''finding-quarantine-'' @ take 24 (ch_text H upload_id)"

definition register_quarantined_upload :: "settings \<Rightarrow> int \<Rightarrow> store \<Rightarrow> content_hashes \<Rightarrow> string \<Rightarrow> int \<Rightarrow> actor
    \<Rightarrow> string \<Rightarrow> string \<Rightarrow> string \<Rightarrow> bool \<Rightarrow> string option \<Rightarrow> string \<Rightarrow> string
    \<Rightarrow> (string option \<times> store) result" where
  "register_quarantined_upload cfg today st H uuid now a project_id upload_id object_hash
       make_candidate_current inherited request_id reason =
     bindR (get_project cfg today st a project_id [ActorRole.ESTIMATOR, ActorRole.TECHNICAL_EXPERT] False None) (\<lambda>project.
     let state = pr_state project in
     if released_state state
     then Inl (ValueError ''Released/superseded/archived projects are immutable'')
     else
       let invalidated = (if make_candidate_current
             then (if str_true (pr_current_document_set_revision_id project)
                   then pr_current_document_set_revision_id project else inherited) else None);
           project1 = (if make_candidate_current
             then project\<lparr>pr_current_document_set_revision_id := None\<rparr> else project)
       in bindR
         (if \<not> make_candidate_current
          then Inr (bump_version now project1, put_project (bump_version now project1) st)
          else if state = ApprovalState.DRAFT
          then change_state st uuid now project1 ApprovalState.DOCUMENTS_INCOMPLETE a request_id
                 ''Current-candidate upload is quarantined pending qualified scanning''
          else if state \<notin> {ApprovalState.DOCUMENTS_INCOMPLETE, ApprovalState.BLOCKED}
          then change_state st uuid now project1 ApprovalState.BLOCKED a request_id
                 ''Potential new document revision is quarantined''
          else Inr (bump_version now project1, put_project (bump_version now project1) st))
       (\<lambda>(project', st1).
         let finding_payload = [(''upload_id'', PStr upload_id), (''object_hash'', PStr object_hash),
               (''make_candidate_current'', PBool make_candidate_current)];
             finding = \<lparr>fr_id = quarantine_finding_id H upload_id, fr_project_id = pr_id project,
               fr_contour = ''INPUT_INTEGRITY'', fr_code = ''QUARANTINE_SCAN_PENDING'',
               fr_severity = (if make_candidate_current then Severity.BLOCKER else Severity.WARNING),
               fr_resolved = False, fr_payload = finding_payload, fr_created_at = now\<rparr>
         in Inr (invalidated,
              outbox ''document.upload.quarantined'' upload_id
                [(''project_id'', PStr (pr_id project)), (''upload_id'', PStr upload_id),
                 (''object_hash'', PStr object_hash)]
               (audit a ''project'' (pr_id project) ''document_upload_quarantined'' request_id reason
                 (finding_payload @ [(''invalidated_document_set_revision_id'', opt_str invalidated)])
                 (st1\<lparr>st_findings := st_findings st1 @ [finding]\<rparr>)))))"

definition confirm_document_set :: "settings \<Rightarrow> int \<Rightarrow> store \<Rightarrow> int \<Rightarrow> actor \<Rightarrow> string \<Rightarrow> string \<Rightarrow> string \<Rightarrow> string
    \<Rightarrow> (project \<times> store) result" where
  "confirm_document_set cfg today st now a project_id raw_candidate request_id reason =
     bindR (required_text raw_candidate ''candidate_id'' 64) (\<lambda>candidate_id.
     bindR (required_text reason ''reason'' 2000) (\<lambda>reason'.
     bindR (get_project cfg today st a project_id [ActorRole.REVIEWER, ActorRole.APPROVER] False None) (\<lambda>project.
     case find (\<lambda>d. ds_id d = candidate_id \<and> ds_project_id d = pr_id project) (st_document_sets st) of
       None \<Rightarrow> Inl (LookupError candidate_id)
     | Some candidate \<Rightarrow>
       if ds_status candidate \<noteq> ''DRAFT''
       then Inl (ValueError ''Only a DRAFT document-set candidate can be confirmed'')
       else if ds_created_by candidate = actor_id a
       then Inl (ValueError ''Document-set confirmation requires an actor different from the submitter'')
       else if ds_revision_ids candidate \<noteq> current_revision_ids st (pr_id project)
       then Inl (ValueError ''Document-set candidate is stale'')
       else
         let sets = map (\<lambda>d.
               if ds_id d = ds_id candidate
               then d\<lparr>ds_status := ''CONFIRMED'', ds_confirmed_by := Some (actor_id a), ds_confirmed_at := Some now\<rparr>
               else if ds_project_id d = pr_id project \<and> ds_status d = ''CONFIRMED''
               then d\<lparr>ds_status := ''SUPERSEDED''\<rparr> else d) (st_document_sets st);
             project' = (bump_version now project)\<lparr>pr_current_document_set_revision_id := Some (ds_id candidate)\<rparr>
         in Inr (project',
              audit a ''project'' (pr_id project) ''document_set_confirmed'' request_id reason'
                [(''document_set_revision_id'', PStr (ds_id candidate)),
                 (''manifest_hash'', PStr (ds_manifest_hash candidate)),
                 (''revision_ids'', PList (map PStr (ds_revision_ids candidate)))]
                (put_project project' (st\<lparr>st_document_sets := sets\<rparr>))))))"

subsection \<open>Transition histories\<close>

definition edge :: "ApprovalState \<Rightarrow> ApprovalState \<Rightarrow> bool" where
  "edge s t \<longleftrightarrow> s \<noteq> t \<and> can_transition s t"

fun history :: "ApprovalState \<Rightarrow> workflow_transition_row list \<Rightarrow> ApprovalState \<Rightarrow> bool" where
  "history s [] t \<longleftrightarrow> s = t"
| "history s (w # ws) t \<longleftrightarrow> wt_from_state w = s \<and> edge s (wt_to_state w) \<and> history (wt_to_state w) ws t"

lemma history_snoc:
  "history s (ws @ [w]) t \<longleftrightarrow>
     history s ws (wt_from_state w) \<and> edge (wt_from_state w) (wt_to_state w) \<and> wt_to_state w = t"
  by (induction ws arbitrary: s) auto

definition transitions_of :: "store \<Rightarrow> string \<Rightarrow> workflow_transition_row list" where
  "transitions_of st pid = filter (\<lambda>w. wt_project_id w = pid) (st_transitions st)"

definition approved_state :: "ApprovalState \<Rightarrow> bool" where
  "approved_state s \<longleftrightarrow> s \<in> {ApprovalState.APPROVED_FOR_BID, ApprovalState.APPROVED_FOR_INTERNAL_USE}"

text \<open>A recorded release decision that allowed the entered state.\<close>

definition backed :: "store \<Rightarrow> workflow_transition_row \<Rightarrow> bool" where
  "backed st w \<longleftrightarrow> (\<exists>d \<in> set (st_decisions st). rd_project_id d = wt_project_id w \<and> rd_allowed d
     \<and> rd_requested_state d = wt_to_state w \<and> rd_resulting_state d = wt_to_state w
     \<and> rd_decided_by d = wt_actor_id w)"

definition workflow_inv :: "store \<Rightarrow> bool" where
  "workflow_inv st \<longleftrightarrow>
     distinct (map pr_id (st_projects st))
     \<and> (\<forall>p \<in> set (st_projects st).
           history ApprovalState.DRAFT (transitions_of st (pr_id p)) (pr_state p)
           \<and> (pr_blocked_resume_state p \<noteq> None \<longleftrightarrow> pr_state p = ApprovalState.BLOCKED)
           \<and> int (length (transitions_of st (pr_id p))) < pr_row_version p)
     \<and> (\<forall>w \<in> set (st_transitions st). wt_project_id w \<in> pr_id ` set (st_projects st)
           \<and> (approved_state (wt_to_state w) \<longrightarrow> backed st w))"

text \<open>One operation on one project: its row is replaced, its version incremented, and either its
  state is kept or one edge of the table is taken and recorded.\<close>

definition project_update :: "store \<Rightarrow> project \<Rightarrow> project \<Rightarrow> store \<Rightarrow> bool" where
  "project_update st p p' st' \<longleftrightarrow>
     p \<in> set (st_projects st) \<and> pr_id p' = pr_id p \<and> pr_organization_id p' = pr_organization_id p
     \<and> st_projects st' = st_projects (put_project p' st)
     \<and> st_memberships st' = st_memberships st
     \<and> pr_row_version p' = pr_row_version p + 1
     \<and> (\<exists>ds. st_decisions st' = st_decisions st @ ds)
     \<and> (st_transitions st' = st_transitions st \<and> pr_state p' = pr_state p
          \<and> pr_blocked_resume_state p' = pr_blocked_resume_state p
        \<or> (\<exists>w. st_transitions st' = st_transitions st @ [w] \<and> wt_project_id w = pr_id p
             \<and> wt_from_state w = pr_state p \<and> wt_to_state w = pr_state p' \<and> edge (pr_state p) (pr_state p')
             \<and> pr_blocked_resume_state p' = (if pr_state p' = ApprovalState.BLOCKED then Some (pr_state p)
                  else if pr_state p = ApprovalState.BLOCKED then None else pr_blocked_resume_state p)
             \<and> (approved_state (pr_state p') \<longrightarrow> backed st' w)))"

lemma workflow_inv_update:
  assumes inv: "workflow_inv st" and upd: "project_update st p p' st'"
  shows "workflow_inv st'"
proof -
  have dist: "distinct (map pr_id (st_projects st))" and p: "p \<in> set (st_projects st)"
    and id: "pr_id p' = pr_id p" and ps: "st_projects st' = st_projects (put_project p' st)"
    using inv upd by (simp_all add: workflow_inv_def project_update_def)
  have ids: "map pr_id (st_projects st') = map pr_id (st_projects st)" by (simp add: ps)
  then have idset: "pr_id ` set (st_projects st') = pr_id ` set (st_projects st)"
    by (metis set_map)
  have other: "q = p' \<or> (q \<in> set (st_projects st) \<and> pr_id q \<noteq> pr_id p)" if "q \<in> set (st_projects st')" for q
    using that by (auto simp: ps put_project_def id)
  have keep: "backed st w \<Longrightarrow> backed st' w" for w
    using upd by (auto simp: project_update_def backed_def)
  let ?old = "st_transitions st' = st_transitions st \<and> pr_state p' = pr_state p
          \<and> pr_blocked_resume_state p' = pr_blocked_resume_state p"
  have pinv: "history ApprovalState.DRAFT (transitions_of st (pr_id p)) (pr_state p)"
    "pr_blocked_resume_state p \<noteq> None \<longleftrightarrow> pr_state p = ApprovalState.BLOCKED"
    "int (length (transitions_of st (pr_id p))) < pr_row_version p"
    using inv p by (simp_all add: workflow_inv_def)
  have version: "pr_row_version p' = pr_row_version p + 1" using upd by (simp add: project_update_def)
  show ?thesis
  proof (cases ?old)
    case True
    then have tr: "transitions_of st' = transitions_of st" by (simp add: transitions_of_def fun_eq_iff)
    show ?thesis
      unfolding workflow_inv_def ids idset tr
    proof (intro conjI ballI impI dist)
      fix w assume "w \<in> set (st_transitions st')"
      with True inv show "wt_project_id w \<in> pr_id ` set (st_projects st)" by (simp add: workflow_inv_def)
      show "approved_state (wt_to_state w) \<Longrightarrow> backed st' w"
        using True inv \<open>w \<in> _\<close> keep by (simp add: workflow_inv_def)
    qed (use other True pinv version inv in \<open>force simp: workflow_inv_def id\<close>)+
  next
    case False
    then obtain w where w: "st_transitions st' = st_transitions st @ [w]" "wt_project_id w = pr_id p"
      "wt_from_state w = pr_state p" "wt_to_state w = pr_state p'" "edge (pr_state p) (pr_state p')"
      "pr_blocked_resume_state p' = (if pr_state p' = ApprovalState.BLOCKED then Some (pr_state p)
          else if pr_state p = ApprovalState.BLOCKED then None else pr_blocked_resume_state p)"
      "approved_state (pr_state p') \<longrightarrow> backed st' w"
      using upd by (auto simp: project_update_def)
    have tr: "transitions_of st' pid = (if pid = pr_id p then transitions_of st pid @ [w] else transitions_of st pid)" for pid
      by (simp add: transitions_of_def w)
    have new: "history ApprovalState.DRAFT (transitions_of st' (pr_id p')) (pr_state p')"
      "pr_blocked_resume_state p' \<noteq> None \<longleftrightarrow> pr_state p' = ApprovalState.BLOCKED"
      "int (length (transitions_of st' (pr_id p'))) < pr_row_version p'"
      using pinv version w by (auto simp: tr id history_snoc)
    have others: "history ApprovalState.DRAFT (transitions_of st' (pr_id q)) (pr_state q)"
      "pr_blocked_resume_state q \<noteq> None \<longleftrightarrow> pr_state q = ApprovalState.BLOCKED"
      "int (length (transitions_of st' (pr_id q))) < pr_row_version q"
      if "q \<in> set (st_projects st)" "pr_id q \<noteq> pr_id p" for q
      using that inv by (simp_all add: workflow_inv_def tr)
    have proj: "\<forall>q \<in> set (st_projects st').
        history ApprovalState.DRAFT (transitions_of st' (pr_id q)) (pr_state q)
        \<and> (pr_blocked_resume_state q \<noteq> None \<longleftrightarrow> pr_state q = ApprovalState.BLOCKED)
        \<and> int (length (transitions_of st' (pr_id q))) < pr_row_version q"
      using other new others by metis
    have "\<forall>v \<in> set (st_transitions st'). wt_project_id v \<in> pr_id ` set (st_projects st')
        \<and> (approved_state (wt_to_state v) \<longrightarrow> backed st' v)"
      unfolding idset w(1) using inv keep w p by (auto simp: workflow_inv_def)
    with proj dist ids show ?thesis unfolding workflow_inv_def by metis
  qed
qed

subsection \<open>Every operation is a project update\<close>

lemma make_transition_Inr:
  "make_transition pid s t who reason now = Inr x \<longleftrightarrow> reason \<noteq> [] \<and>
     x = \<lparr>wf_project_id = pid, wf_from_state = s, wf_to_state = t, wf_actor_id = who, wf_reason = reason,
          wf_occurred_at = now\<rparr>"
  by (auto simp: make_transition_def)

lemma validate_transition_Inr: "validate_transition t = Inr u \<longleftrightarrow> edge (wf_from_state t) (wf_to_state t)"
  by (simp add: validate_transition_def edge_def)

lemma project_update_cong:
  "st_projects st2 = st_projects st1 \<Longrightarrow> st_memberships st2 = st_memberships st1 \<Longrightarrow>
   st_decisions st2 = st_decisions st1 \<Longrightarrow> st_transitions st2 = st_transitions st1 \<Longrightarrow>
   project_update st p p' st1 \<Longrightarrow> project_update st p p' st2"
  by (simp add: project_update_def backed_def)

lemma project_update_decisions:
  "project_update (st\<lparr>st_decisions := st_decisions st @ ds\<rparr>) p p' st' \<Longrightarrow> project_update st p p' st'"
  by (auto simp: project_update_def put_project_def)

lemma change_state_update:
  assumes "change_state st u now q s a req reason = Inr (p', st')" "p \<in> set (st_projects st)"
    and "q = p\<lparr>pr_current_document_set_revision_id := ds\<rparr>"
    and "approved_state s \<longrightarrow> (\<exists>d \<in> set (st_decisions st). rd_project_id d = pr_id p \<and> rd_allowed d
         \<and> rd_requested_state d = s \<and> rd_resulting_state d = s \<and> rd_decided_by d = actor_id a)"
  shows "project_update st p p' st' \<and> edge (pr_state p) s \<and> pr_state p' = s
    \<and> pr_current_document_set_revision_id p' = ds \<and> st_document_sets st' = st_document_sets st"
proof -
  let ?w = "\<lparr>wt_id = ''workflow-transition-'' @ u, wt_project_id = pr_id p, wt_from_state = pr_state p,
      wt_to_state = s, wt_actor_id = actor_id a, wt_reason = reason, wt_occurred_at = now\<rparr>"
  have e: "edge (pr_state p) s" and p': "p' = q\<lparr>
        pr_blocked_resume_state := (if s = ApprovalState.BLOCKED then Some (pr_state p)
          else if pr_state p = ApprovalState.BLOCKED then None else pr_blocked_resume_state p),
        pr_state := s, pr_row_version := pr_row_version p + 1, pr_updated_at := now\<rparr>"
    and fields: "st_projects st' = st_projects (put_project p' st)" "st_memberships st' = st_memberships st"
      "st_decisions st' = st_decisions st" "st_transitions st' = st_transitions st @ [?w]"
      "st_document_sets st' = st_document_sets st"
    using assms(1) unfolding change_state_def Let_def assms(3)
    by (auto simp: bindR_eq_Inr make_transition_Inr validate_transition_Inr simp del: if_split)
  have fs: "pr_id p' = pr_id p" "pr_organization_id p' = pr_organization_id p" "pr_state p' = s"
    "pr_row_version p' = pr_row_version p + 1" "pr_current_document_set_revision_id p' = ds"
    "pr_blocked_resume_state p' = (if s = ApprovalState.BLOCKED then Some (pr_state p)
          else if pr_state p = ApprovalState.BLOCKED then None else pr_blocked_resume_state p)"
    by (simp_all add: p' assms(3))
  have "approved_state s \<longrightarrow> backed st' ?w"
    using assms(4) by (simp add: backed_def fields)
  then have "project_update st p p' st'"
    unfolding project_update_def fs using assms(2) e fields by (intro conjI disjI2 exI [of _ ?w]) simp_all
  with e fs fields show ?thesis by simp
qed

lemma bump_update:
  assumes "p \<in> set (st_projects st)" "q = p\<lparr>pr_current_document_set_revision_id := ds\<rparr>"
  shows "project_update st p (bump_version now q) (put_project (bump_version now q) st)"
  using assms by (simp add: project_update_def bump_version_def)

lemma bump_document_set: "(bump_version now p)\<lparr>pr_current_document_set_revision_id := ds\<rparr>
    = bump_version now (p\<lparr>pr_current_document_set_revision_id := ds\<rparr>)"
  by (simp add: bump_version_def)

lemma get_project_member:
  "get_project cfg today st a pid rs owner None = Inr p \<Longrightarrow> p \<in> set (st_projects st) \<and> pr_id p = pid"
  by (auto simp: get_project_Inr dest: find_project_Some)

lemma transition_update:
  assumes "transition cfg today st gates u now a pid s v req reason = Inr (p', st')"
  obtains p where "get_project cfg today st a pid transition_roles False None = Inr p"
    "pr_row_version p = v" "pr_id p = pid" "project_update st p p' st'" "edge (pr_state p) s" "pr_state p' = s"
    "\<not> approved_state s" "is_ok (validate_stage_gate (gates st pid) p s)"
proof -
  from assms have s: "\<not> approved_state s" by (auto simp: transition_def approved_state_def)
  with assms obtain p where p: "get_project cfg today st a pid transition_roles False None = Inr p"
    and v: "check_row_version p v = Inr ()" and g: "is_ok (validate_stage_gate (gates st (pr_id p)) p s)"
    and c: "change_state st u now p s a req reason = Inr (p', st')"
    by (auto simp: transition_def result_simps approved_state_def split: if_splits)
  have m: "p \<in> set (st_projects st)" "pr_id p = pid" using get_project_member [OF p] by simp_all
  have "p = p\<lparr>pr_current_document_set_revision_id := pr_current_document_set_revision_id p\<rparr>" by simp
  note change_state_update [OF c m(1) this]
  with s p v g m that show thesis by (auto simp: check_row_version_def split: if_splits)
qed

lemma evaluate_for_target:
  assumes "(if s = ApprovalState.APPROVED_FOR_BID then evaluate_bid_release c else evaluate_internal_release c) = Inr d"
    and "approved_state s"
  shows "gd_requested_state d = s \<and> gd_resulting_state d = (if gd_allowed d then s else ApprovalState.BLOCKED)
    \<and> gd_allowed d = (\<nexists>code. gate_violated c code)"
proof -
  obtain b where b: "evaluate_bid_release c = Inr b" "gd_requested_state b = ApprovalState.APPROVED_FOR_BID"
    "gd_allowed b \<longleftrightarrow> gd_findings b = []"
    "gd_resulting_state b = (if gd_allowed b then ApprovalState.APPROVED_FOR_BID else ApprovalState.BLOCKED)"
    "vf_code ` set (gd_findings b) = {code. gate_violated c code}"
    by (rule bid_release_cases [of c])
  have "gd_allowed b = (\<nexists>code. gate_violated c code)"
    using b(3,5) by (metis empty_Collect_eq image_is_empty set_empty)
  with assms b show ?thesis
    by (auto simp: evaluate_internal_release_def approved_state_def split: if_splits)
qed

lemma release_update:
  assumes "attempt_release cfg today st H ctx du tu now a pid v gh req reason s = Inr (p', d, st')"
    and s: "approved_state s"
  obtains p where "get_project cfg today st a pid [ActorRole.APPROVER] False None = Inr p"
    "pr_row_version p = v" "pr_id p = pid" "project_update st p p' st'"
    "pr_state p' = gd_resulting_state d" "edge (pr_state p) s"
    "gd_resulting_state d = (if gd_allowed d then s else ApprovalState.BLOCKED)"
    "gd_allowed d = (\<nexists>code. gate_violated (ctx st p) code)"
    "release_gate_hash H p (ctx st p) d = gh"
proof -
  from assms(1) obtain p st2 where p: "get_project cfg today st a pid [ActorRole.APPROVER] False None = Inr p"
    and v: "check_row_version p v = Inr ()" and e: "edge (pr_state p) s"
    and ev: "(if s = ApprovalState.APPROVED_FOR_BID then evaluate_bid_release (ctx st p)
        else evaluate_internal_release (ctx st p)) = Inr d"
    and gh: "release_gate_hash H p (ctx st p) d = gh"
    and c: "change_state (st\<lparr>st_decisions := st_decisions st @
          [\<lparr>rd_id = ''release-decision-'' @ du, rd_project_id = pr_id p,
             rd_snapshot_id = map_option cs_snapshot_id (rc_snapshot (ctx st p)),
             rd_requested_state = gd_requested_state d, rd_resulting_state = gd_resulting_state d,
             rd_allowed = gd_allowed d, rd_gate_hash = gh, rd_decided_by = actor_id a, rd_decided_at = now\<rparr>]\<rparr>)
        tu now p (gd_resulting_state d) a req
        (if gd_allowed d then reason else ''Release policy blocked the calculation'') = Inr (p', st2)"
    and st': "st_projects st' = st_projects st2" "st_memberships st' = st_memberships st2"
      "st_decisions st' = st_decisions st2" "st_transitions st' = st_transitions st2"
    by (auto simp: attempt_release_def result_simps Let_def make_transition_Inr validate_transition_Inr
        simp del: if_split_asm split: if_splits)
  have m: "p \<in> set (st_projects st)" "pr_id p = pid" using get_project_member [OF p] by simp_all
  note d = evaluate_for_target [OF ev s]
  have "p = p\<lparr>pr_current_document_set_revision_id := pr_current_document_set_revision_id p\<rparr>" by simp
  from change_state_update [OF c _ this] m(1) d
  have u: "project_update (st\<lparr>st_decisions := st_decisions st @
          [\<lparr>rd_id = ''release-decision-'' @ du, rd_project_id = pr_id p,
             rd_snapshot_id = map_option cs_snapshot_id (rc_snapshot (ctx st p)),
             rd_requested_state = gd_requested_state d, rd_resulting_state = gd_resulting_state d,
             rd_allowed = gd_allowed d, rd_gate_hash = gh, rd_decided_by = actor_id a, rd_decided_at = now\<rparr>]\<rparr>) p p' st2"
    and st: "pr_state p' = gd_resulting_state d"
    by (auto simp: approved_state_def split: if_splits)
  have "project_update st p p' st'"
    by (rule project_update_cong [OF st' project_update_decisions [OF u]])
  with that p v m e d gh st show thesis by (auto simp: check_row_version_def split: if_splits)
qed

lemma quarantine_update:
  assumes "register_quarantined_upload cfg today st H u now a pid up oh cur inh req reason = Inr (invd, st')"
  obtains p p' where "get_project cfg today st a pid [ActorRole.ESTIMATOR, ActorRole.TECHNICAL_EXPERT] False None = Inr p"
    "project_update st p p' st'" "\<not> released_state (pr_state p)"
    "st_document_sets st' = st_document_sets st"
    "cur \<longrightarrow> pr_current_document_set_revision_id p' = None
      \<and> pr_state p' \<in> {ApprovalState.DOCUMENTS_INCOMPLETE, ApprovalState.BLOCKED}"
    "\<not> cur \<longrightarrow> pr_current_document_set_revision_id p' = pr_current_document_set_revision_id p"
proof -
  from assms obtain p p' st1 where p: "get_project cfg today st a pid [ActorRole.ESTIMATOR, ActorRole.TECHNICAL_EXPERT] False None = Inr p"
    and r: "\<not> released_state (pr_state p)"
    and step: "(if \<not> cur then Inr (bump_version now p, put_project (bump_version now p) st)
        else let q = p\<lparr>pr_current_document_set_revision_id := None\<rparr> in
        if pr_state p = ApprovalState.DRAFT
        then change_state st u now q ApprovalState.DOCUMENTS_INCOMPLETE a req
               ''Current-candidate upload is quarantined pending qualified scanning''
        else if pr_state p \<notin> {ApprovalState.DOCUMENTS_INCOMPLETE, ApprovalState.BLOCKED}
        then change_state st u now q ApprovalState.BLOCKED a req ''Potential new document revision is quarantined''
        else Inr (bump_version now q, put_project (bump_version now q) st)) = Inr (p', st1)"
    and st': "st_projects st' = st_projects st1" "st_memberships st' = st_memberships st1"
      "st_decisions st' = st_decisions st1" "st_transitions st' = st_transitions st1"
      "st_document_sets st' = st_document_sets st1"
    by (cases cur) (auto simp: register_quarantined_upload_def result_simps Let_def split: if_splits)
  have m: "p \<in> set (st_projects st)" using get_project_member [OF p] by simp
  let ?ds = "if cur then None else pr_current_document_set_revision_id p"
  have "project_update st p p' st1 \<and> st_document_sets st1 = st_document_sets st
      \<and> pr_current_document_set_revision_id p' = ?ds
      \<and> (cur \<longrightarrow> pr_state p' \<in> {ApprovalState.DOCUMENTS_INCOMPLETE, ApprovalState.BLOCKED})"
  proof (cases cur)
    case False
    with step bump_update [OF m, of p "pr_current_document_set_revision_id p"] show ?thesis
      by (auto simp: bump_version_def)
  next
    case True
    let ?q = "p\<lparr>pr_current_document_set_revision_id := None\<rparr>"
    have changed: ?thesis if "change_state st u now ?q s a req r = Inr (p', st1)" "\<not> approved_state s"
        "s \<in> {ApprovalState.DOCUMENTS_INCOMPLETE, ApprovalState.BLOCKED}" for s r
      using change_state_update [OF that(1) m refl] that(2,3) True by auto
    show ?thesis
    proof (cases "pr_state p = ApprovalState.DRAFT")
      case True
      with step \<open>cur\<close> have "change_state st u now ?q ApprovalState.DOCUMENTS_INCOMPLETE a req
          ''Current-candidate upload is quarantined pending qualified scanning'' = Inr (p', st1)"
        by simp
      then show ?thesis by (rule changed) (simp_all add: approved_state_def)
    next
      case nodraft: False
      show ?thesis
      proof (cases "pr_state p \<notin> {ApprovalState.DOCUMENTS_INCOMPLETE, ApprovalState.BLOCKED}")
        case True
        with step \<open>cur\<close> nodraft have "change_state st u now ?q ApprovalState.BLOCKED a req
            ''Potential new document revision is quarantined'' = Inr (p', st1)"
          by simp
        then show ?thesis by (rule changed) (simp_all add: approved_state_def)
      next
        case False
        with step \<open>cur\<close> have "p' = bump_version now ?q" "st1 = put_project (bump_version now ?q) st"
          by (auto simp: Let_def)
        with bump_update [OF m refl, of now None] \<open>cur\<close> False show ?thesis by (auto simp: bump_version_def)
      qed
    qed
  qed
  then have u: "project_update st p p' st1" "st_document_sets st1 = st_document_sets st"
    "pr_current_document_set_revision_id p' = ?ds"
    "cur \<longrightarrow> pr_state p' \<in> {ApprovalState.DOCUMENTS_INCOMPLETE, ApprovalState.BLOCKED}" by simp_all
  show thesis
    by (rule that [OF p project_update_cong [OF st'(1-4) u(1)] r]) (use u(4) in \<open>simp_all add: st'(5) u(2,3)\<close>)
qed

lemma confirm_update:
  assumes "confirm_document_set cfg today st now a pid cand req reason = Inr (p', st')"
  obtains p c where "get_project cfg today st a pid [ActorRole.REVIEWER, ActorRole.APPROVER] False None = Inr p"
    "project_update st p p' st'" "pr_current_document_set_revision_id p' = Some (ds_id c)"
    "c \<in> set (st_document_sets st)" "ds_id c = strip cand" "ds_project_id c = pid"
    "ds_status c = ''DRAFT''" "ds_created_by c \<noteq> actor_id a" "ds_revision_ids c = current_revision_ids st pid"
    "st_document_sets st' = map (\<lambda>d. if ds_id d = ds_id c
         then d\<lparr>ds_status := ''CONFIRMED'', ds_confirmed_by := Some (actor_id a), ds_confirmed_at := Some now\<rparr>
         else if ds_project_id d = pid \<and> ds_status d = ''CONFIRMED'' then d\<lparr>ds_status := ''SUPERSEDED''\<rparr> else d)
       (st_document_sets st)"
proof -
  from assms obtain p where p: "get_project cfg today st a pid [ActorRole.REVIEWER, ActorRole.APPROVER] False None = Inr p"
    by (auto simp: confirm_document_set_def result_simps)
  have m: "p \<in> set (st_projects st)" "pr_id p = pid" using get_project_member [OF p] by simp_all
  from assms p m obtain c where c: "find (\<lambda>d. ds_id d = strip cand \<and> ds_project_id d = pid) (st_document_sets st) = Some c"
    and g: "ds_status c = ''DRAFT''" "ds_created_by c \<noteq> actor_id a" "ds_revision_ids c = current_revision_ids st pid"
    and p': "p' = (bump_version now p)\<lparr>pr_current_document_set_revision_id := Some (ds_id c)\<rparr>"
    and st': "st_projects st' = st_projects (put_project p' st)" "st_memberships st' = st_memberships st"
      "st_decisions st' = st_decisions st" "st_transitions st' = st_transitions st"
    and sets: "st_document_sets st' = map (\<lambda>d. if ds_id d = ds_id c
         then d\<lparr>ds_status := ''CONFIRMED'', ds_confirmed_by := Some (actor_id a), ds_confirmed_at := Some now\<rparr>
         else if ds_project_id d = pid \<and> ds_status d = ''CONFIRMED'' then d\<lparr>ds_status := ''SUPERSEDED''\<rparr> else d)
       (st_document_sets st)"
    by (auto simp: confirm_document_set_def result_simps required_text_Inr put_project_def Let_def
        split: option.splits if_splits)
  have "project_update st p p' (put_project p' st)"
    using bump_update [OF m(1) refl, of now "Some (ds_id c)"] by (simp add: p' bump_document_set)
  then have "project_update st p p' st'"
    by (rule project_update_cong [rotated 4]) (simp_all add: st')
  moreover have "c \<in> set (st_document_sets st) \<and> ds_id c = strip cand \<and> ds_project_id c = pid"
    using find_SomeD [OF c] by simp
  ultimately show thesis
    by (intro that [OF p _ _ _ _ _ g sets]) (simp_all add: p')
qed

subsection \<open>The project life cycle as a transition system\<close>

inductive project_step :: "store \<Rightarrow> store \<Rightarrow> bool" where
  member: "membership_step st st' \<Longrightarrow> project_step st st'"
| move: "transition cfg today st gates u now a pid s v req reason = Inr (p, st') \<Longrightarrow> project_step st st'"
| bid: "attempt_bid_release cfg today st H ctx du tu now a pid v gh req reason = Inr (p, d, st') \<Longrightarrow>
    project_step st st'"
| internal: "attempt_internal_release cfg today st H ctx du tu now a pid v gh req reason = Inr (p, d, st') \<Longrightarrow>
    project_step st st'"
| quarantine: "register_quarantined_upload cfg today st H u now a pid up oh cur inh req reason = Inr (i, st') \<Longrightarrow>
    project_step st st'"
| confirm: "confirm_document_set cfg today st now a pid cand req reason = Inr (p, st') \<Longrightarrow> project_step st st'"

inductive_cases project_stepE: "project_step st st'"

lemma membership_step_frame:
  assumes "membership_step st st'"
  shows "st_transitions st' = st_transitions st \<and> st_decisions st' = st_decisions st
    \<and> (st_projects st' = st_projects st
       \<or> (\<exists>p. st_projects st' = st_projects st @ [p] \<and> pr_id p \<notin> pr_id ` set (st_projects st)
            \<and> pr_state p = ApprovalState.DRAFT \<and> pr_blocked_resume_state p = None \<and> pr_row_version p = 1))"
  using assms
proof (cases rule: membership_step.cases)
  case (create pu mu now a code name req reason p)
  from create(1) show ?thesis by (elim create_cases) (use create(2) in auto)
next
  case (grant cfg today u now a pid raw roles lvl req reason v)
  then show ?thesis by (elim grant_cases) simp_all
next
  case (revoke cfg today u now a pid raw req reason v)
  then show ?thesis by (elim revoke_cases) simp
qed

lemma workflow_inv_member:
  assumes "membership_step st st'" "workflow_inv st"
  shows "workflow_inv st'"
proof -
  have same: "st_transitions st' = st_transitions st" "st_decisions st' = st_decisions st"
    using membership_step_frame [OF assms(1)] by simp_all
  then have tr: "transitions_of st' = transitions_of st" and bk: "backed st' = backed st"
    by (simp_all add: transitions_of_def backed_def fun_eq_iff)
  consider "st_projects st' = st_projects st"
    | p where "st_projects st' = st_projects st @ [p]" "pr_id p \<notin> pr_id ` set (st_projects st)"
      "pr_state p = ApprovalState.DRAFT" "pr_blocked_resume_state p = None" "pr_row_version p = 1"
    using membership_step_frame [OF assms(1)] by blast
  then show ?thesis
  proof cases
    case 1
    with assms(2) show ?thesis by (simp add: workflow_inv_def tr bk same)
  next
    case 2
    have "transitions_of st (pr_id p) = []"
      using assms(2) 2(2) unfolding workflow_inv_def transitions_of_def filter_empty_conv by metis
    with assms(2) 2 show ?thesis by (auto simp: workflow_inv_def tr bk same)
  qed
qed

lemma workflow_inv_step: "project_step st st' \<Longrightarrow> workflow_inv st \<Longrightarrow> workflow_inv st'"
proof (induction rule: project_step.induct)
  case (member st st')
  then show ?case by (rule workflow_inv_member)
next
  case (move cfg today st gates u now a pid s v req reason p st')
  then show ?case by (blast elim: transition_update intro: workflow_inv_update)
next
  case (bid cfg today st H ctx du tu now a pid v gh req reason p d st')
  then show ?case unfolding attempt_bid_release_def
    by (elim release_update) (auto simp: approved_state_def intro: workflow_inv_update)
next
  case (internal cfg today st H ctx du tu now a pid v gh req reason p d st')
  then show ?case unfolding attempt_internal_release_def
    by (elim release_update) (auto simp: approved_state_def intro: workflow_inv_update)
next
  case (quarantine cfg today st H u now a pid up oh cur inh req reason i st')
  then show ?case by (blast elim: quarantine_update intro: workflow_inv_update)
next
  case (confirm cfg today st now a pid cand req reason p st')
  then show ?case by (blast elim: confirm_update intro: workflow_inv_update)
qed

lemma workflow_inv_empty: "workflow_inv (empty_store qs)"
  by (simp add: workflow_inv_def empty_store_def)

lemma workflow_inv_reachable: "project_step\<^sup>*\<^sup>* (empty_store qs) st \<Longrightarrow> workflow_inv st"
  by (induction rule: rtranclp_induct) (auto intro: workflow_inv_empty workflow_inv_step)

lemma workflow_inv_approved:
  assumes "workflow_inv st" "p \<in> set (st_projects st)" "approved_state (pr_state p)"
  shows "\<exists>d \<in> set (st_decisions st). rd_project_id d = pr_id p \<and> rd_allowed d \<and> rd_resulting_state d = pr_state p"
proof -
  let ?ws = "transitions_of st (pr_id p)"
  have h: "history ApprovalState.DRAFT ?ws (pr_state p)" using assms(1,2) by (simp add: workflow_inv_def)
  have "?ws \<noteq> []" using h assms(3) by (auto simp: approved_state_def)
  then obtain ws w where ws: "?ws = ws @ [w]" by (metis append_butlast_last_id)
  with h have "wt_to_state w = pr_state p" by (simp add: history_snoc)
  moreover have "w \<in> set ?ws" by (simp add: ws)
  then have "w \<in> set (st_transitions st)" "wt_project_id w = pr_id p" by (simp_all add: transitions_of_def)
  ultimately have "backed st w" using assms(1,3) by (auto simp: workflow_inv_def)
  then show ?thesis using \<open>wt_to_state w = pr_state p\<close> \<open>wt_project_id w = pr_id p\<close>
    by (auto simp: backed_def)
qed


lemma change_state_ok:
  assumes "edge (pr_state p) s" "reason \<noteq> []"
  shows "\<exists>p' st'. change_state st u now p s a req reason = Inr (p', st') \<and> pr_state p' = s"
  using assms by (simp add: change_state_def Let_def make_transition_def validate_transition_def edge_def)

subsection \<open>Properties\<close>

text \<open>C5. In every store the project operations can produce, the recorded transitions of a project
  form an unbroken history from \<open>DRAFT\<close> to its current state along edges of the transition table, a
  resume state is recorded exactly while the project is blocked, every recorded change has raised
  the row version, and every entry into an approved state has an allowed release decision behind it.\<close>

theorem project_lifecycle_invariant:
  assumes "project_step\<^sup>*\<^sup>* (empty_store qs) st"
  shows "distinct (map pr_id (st_projects st))
     \<and> (\<forall>p \<in> set (st_projects st).
           history ApprovalState.DRAFT (transitions_of st (pr_id p)) (pr_state p)
           \<and> (pr_blocked_resume_state p \<noteq> None \<longleftrightarrow> pr_state p = ApprovalState.BLOCKED)
           \<and> int (length (transitions_of st (pr_id p))) < pr_row_version p
           \<and> (approved_state (pr_state p) \<longrightarrow> (\<exists>d \<in> set (st_decisions st). rd_project_id d = pr_id p
                \<and> rd_allowed d \<and> rd_resulting_state d = pr_state p)))"
  using workflow_inv_reachable [OF assms] workflow_inv_approved by (auto simp: workflow_inv_def)

text \<open>C6. A release attempt is decided by the gate alone: it succeeds only at the row version and gate
  hash the caller saw, the project enters the requested approved state exactly when no gate
  condition is violated and is blocked otherwise, and the decision is recorded either way.\<close>

theorem release_attempt_decides:
  assumes "attempt_release cfg today st H ctx du tu now a pid v gh req reason s = Inr (p', d, st')"
    and "approved_state s"
  shows "\<exists>p. get_project cfg today st a pid [ActorRole.APPROVER] False None = Inr p
    \<and> pr_row_version p = v \<and> release_gate_hash H p (ctx st p) d = gh
    \<and> pr_state p' = (if \<exists>code. gate_violated (ctx st p) code then ApprovalState.BLOCKED else s)
    \<and> pr_row_version p' = v + 1 \<and> edge (pr_state p) s
    \<and> (\<exists>r \<in> set (st_decisions st'). rd_project_id r = pid \<and> rd_resulting_state r = pr_state p'
         \<and> rd_allowed r = gd_allowed d \<and> rd_gate_hash r = gh)"
proof -
  from assms obtain p where p: "get_project cfg today st a pid [ActorRole.APPROVER] False None = Inr p"
    "pr_row_version p = v" "pr_id p = pid" "project_update st p p' st'"
    "pr_state p' = gd_resulting_state d" "edge (pr_state p) s"
    "gd_resulting_state d = (if gd_allowed d then s else ApprovalState.BLOCKED)"
    "gd_allowed d = (\<nexists>code. gate_violated (ctx st p) code)"
    "release_gate_hash H p (ctx st p) d = gh" by (rule release_update)
  have "\<exists>r \<in> set (st_decisions st'). rd_project_id r = pid \<and> rd_resulting_state r = gd_resulting_state d
      \<and> rd_allowed r = gd_allowed d \<and> rd_gate_hash r = gh"
    using assms(1) p(1,3) unfolding attempt_release_def Let_def change_state_def
    by (auto simp: bindR_eq_Inr simp del: if_split split: if_splits)
  with p show ?thesis by (auto simp: project_update_def)
qed


text \<open>C8. A blocked project resumes at any working state whatever its stage gates report: neither the
  blockers nor the recorded resume state are consulted on the way out of \<open>BLOCKED\<close>, so the gates
  of the skipped stages guard only the direct edges between adjacent stages.\<close>

theorem blocked_resume_ignores_gates:
  assumes "get_project cfg today st a pid transition_roles False None = Inr p"
    and "pr_state p = ApprovalState.BLOCKED" "pr_row_version p = v" "reason \<noteq> []"
    and "s \<in> set BLOCKED_RESUME_STATES"
  shows "\<exists>p' st'. transition cfg today st gates u now a pid s v req reason = Inr (p', st') \<and> pr_state p' = s"
proof -
  have "edge (pr_state p) s" "\<not> approved_state s" "stage_gate b ApprovalState.BLOCKED s = None" for b
    using assms(2,5) by (auto simp: edge_def can_transition_def BLOCKED_RESUME_STATES_def approved_state_def stage_gate_def)
  with assms change_state_ok [of p s reason st u now a req] show ?thesis
    by (simp add: transition_def approved_state_def check_row_version_def validate_stage_gate_def)
qed


text \<open>Confirming a document set is a four-eyes act on the current revisions: afterwards the
  confirmed set of the project is unique, is the one the project points to, was created by somebody
  else than its confirmer, and lists exactly the current revisions.\<close>

theorem confirmed_document_set_unique:
  assumes "confirm_document_set cfg today st now a pid cand req reason = Inr (p', st')"
    and "distinct (map ds_id (st_document_sets st))"
    and "d \<in> set (st_document_sets st')" "ds_project_id d = pid" "ds_status d = ''CONFIRMED''"
  shows "pr_current_document_set_revision_id p' = Some (ds_id d) \<and> ds_confirmed_by d = Some (actor_id a)
    \<and> ds_created_by d \<noteq> actor_id a \<and> ds_revision_ids d = current_revision_ids st pid"
  using assms(1)
proof (rule confirm_update)
  fix p c
  assume c: "pr_current_document_set_revision_id p' = Some (ds_id c)" "c \<in> set (st_document_sets st)"
    "ds_created_by c \<noteq> actor_id a" "ds_revision_ids c = current_revision_ids st pid"
    and sets: "st_document_sets st' = map (\<lambda>d. if ds_id d = ds_id c
         then d\<lparr>ds_status := ''CONFIRMED'', ds_confirmed_by := Some (actor_id a), ds_confirmed_at := Some now\<rparr>
         else if ds_project_id d = pid \<and> ds_status d = ''CONFIRMED'' then d\<lparr>ds_status := ''SUPERSEDED''\<rparr> else d)
       (st_document_sets st)"
  from assms(3) obtain e where e: "e \<in> set (st_document_sets st)"
    and d: "d = (if ds_id e = ds_id c
         then e\<lparr>ds_status := ''CONFIRMED'', ds_confirmed_by := Some (actor_id a), ds_confirmed_at := Some now\<rparr>
         else if ds_project_id e = pid \<and> ds_status e = ''CONFIRMED'' then e\<lparr>ds_status := ''SUPERSEDED''\<rparr> else e)"
    unfolding sets set_map by (elim imageE)
  have "ds_id e = ds_id c"
  proof (rule ccontr)
    assume n: "ds_id e \<noteq> ds_id c"
    show False
    proof (cases "ds_project_id e = pid \<and> ds_status e = ''CONFIRMED''")
      case True
      then have "ds_status d = ''SUPERSEDED''" using d n by simp
      with assms(5) show False by simp
    next
      case False
      then have "d = e" using d n by (simp only: if_False)
      with False assms(4,5) show False by simp
    qed
  qed
  with e c(2) assms(2) have "e = c" by (auto simp: distinct_map inj_on_def)
  with d c show ?thesis by simp
qed

subsection \<open>A project through its life cycle\<close>

definition all_blocked :: "store \<Rightarrow> string \<Rightarrow> stage_blockers" where
  "all_blocked st pid = \<lparr>sb_passport = [''p''], sb_boq = [''b''], sb_scope = [''s''], sb_pricing = [''x''],
     sb_contract = [], sb_risk = []\<rparr>"

definition ex_hashes :: content_hashes where
  "ex_hashes = \<lparr>ch_gate = (\<lambda>_. ''g''), ch_manifest = (\<lambda>_. ''m''), ch_text = (\<lambda>t. t)\<rparr>"

definition ex_blocked :: "(project \<times> store) result" where
  "ex_blocked = transition ex_cfg 0 ex_store1 all_blocked ''1'' 1 alice ''project-1'' ApprovalState.BLOCKED 1 ''r'' ''hold''"

definition ex_resumed :: "(project \<times> store) result" where
  "ex_resumed = transition ex_cfg 0 (snd (projr ex_blocked)) all_blocked ''2'' 2 alice ''project-1''
     ApprovalState.EXPERT_REVIEW 2 ''r'' ''go on''"

definition ex_released :: "(project \<times> gate_decision \<times> store) result" where
  "ex_released = attempt_bid_release ex_cfg 0 (snd (projr ex_resumed)) ex_hashes (\<lambda>_ _. ex_release_context)
     ''3'' ''3'' 3 alice ''project-1'' 3 ''g'' ''r'' ''submit''"

lemma ex_blocked_ok: "ex_blocked = Inr (fst (projr ex_blocked), snd (projr ex_blocked))"
  by code_simp

lemma ex_resumed_ok: "ex_resumed = Inr (fst (projr ex_resumed), snd (projr ex_resumed))"
  by code_simp

lemma ex_released_ok: "ex_released
    = Inr (fst (projr ex_released), fst (snd (projr ex_released)), snd (snd (projr ex_released)))"
  by code_simp

lemma ex_project_reachable: "project_step\<^sup>*\<^sup>* (empty_store []) (snd (snd (projr ex_released)))"
proof -
  have 1: "project_step (empty_store []) ex_store1"
    by (rule project_step.member, rule membership_step.create [OF ex_created_ok [unfolded ex_created_def]])
      (simp add: empty_store_def)
  have 2: "project_step ex_store1 (snd (projr ex_blocked))"
    by (rule project_step.move [OF ex_blocked_ok [unfolded ex_blocked_def], folded ex_blocked_def]) 
  have 3: "project_step (snd (projr ex_blocked)) (snd (projr ex_resumed))"
    by (rule project_step.move [OF ex_resumed_ok [unfolded ex_resumed_def], folded ex_resumed_def])
  have 4: "project_step (snd (projr ex_resumed)) (snd (snd (projr ex_released)))"
    by (rule project_step.bid [OF ex_released_ok [unfolded ex_released_def], folded ex_released_def])
  from 1 2 3 4 show ?thesis by (meson converse_rtranclp_into_rtranclp r_into_rtranclp)
qed

theorem project_lifecycle_invariant_witness:
  "\<exists>p. st_projects (snd (snd (projr ex_released))) = [p] \<and> pr_state p = ApprovalState.APPROVED_FOR_BID
    \<and> history ApprovalState.DRAFT (transitions_of (snd (snd (projr ex_released))) (pr_id p)) (pr_state p)
    \<and> length (transitions_of (snd (snd (projr ex_released))) (pr_id p)) = 3"
proof -
  let ?p = "hd (st_projects (snd (snd (projr ex_released))))"
  have "st_projects (snd (snd (projr ex_released))) = [?p]"
    "pr_state ?p = ApprovalState.APPROVED_FOR_BID"
    "length (transitions_of (snd (snd (projr ex_released))) (pr_id ?p)) = 3"
    by code_simp+
  with project_lifecycle_invariant [OF ex_project_reachable] show ?thesis
    by (metis list.set_intros(1))
qed


theorem release_attempt_decides_witness:
  "\<exists>p. get_project ex_cfg 0 (snd (projr ex_resumed)) alice ''project-1'' [ActorRole.APPROVER] False None = Inr p
     \<and> pr_row_version p = 3 \<and> pr_state (fst (projr ex_released)) = ApprovalState.APPROVED_FOR_BID"
proof -
  have "approved_state ApprovalState.APPROVED_FOR_BID" by (simp add: approved_state_def)
  moreover have "pr_state (fst (projr ex_released)) = ApprovalState.APPROVED_FOR_BID" by code_simp
  ultimately show ?thesis
    using release_attempt_decides
      [OF ex_released_ok [unfolded ex_released_def attempt_bid_release_def], folded attempt_bid_release_def ex_released_def]
    by blast
qed


theorem blocked_resume_ignores_gates_witness:
  "\<exists>p' st'. transition ex_cfg 0 (snd (projr ex_blocked)) all_blocked ''9'' 9 alice ''project-1''
      ApprovalState.CALCULATION_IN_PROGRESS 2 ''r'' ''skip'' = Inr (p', st')
     \<and> pr_state p' = ApprovalState.CALCULATION_IN_PROGRESS"
proof (rule blocked_resume_ignores_gates)
  let ?q = "fst (projr ex_blocked)"
  show "get_project ex_cfg 0 (snd (projr ex_blocked)) alice ''project-1'' transition_roles False None = Inr ?q"
    by code_simp
  show "pr_state ?q = ApprovalState.BLOCKED" by code_simp
  show "pr_row_version ?q = 2" by code_simp
qed (simp_all add: BLOCKED_RESUME_STATES_def)


definition ex_candidate :: document_set_row where
  "ex_candidate = \<lparr>ds_id = ''ds'', ds_project_id = ''project-1'', ds_manifest_hash = ''m'', ds_revision_ids = [],
     ds_status = ''DRAFT'', ds_created_by = ''bob'', ds_created_at = 0, ds_confirmed_by = None,
     ds_confirmed_at = None\<rparr>"

definition ex_store3 :: store where
  "ex_store3 = ex_store1\<lparr>st_document_sets := [ex_candidate]\<rparr>"

definition ex_confirmed :: "(project \<times> store) result" where
  "ex_confirmed = confirm_document_set ex_cfg 0 ex_store3 8 alice ''project-1'' ''ds'' ''r'' ''checked''"

theorem confirmed_document_set_unique_witness:
  "\<exists>d. st_document_sets (snd (projr ex_confirmed)) = [d]
     \<and> pr_current_document_set_revision_id (fst (projr ex_confirmed)) = Some (ds_id d)
     \<and> ds_confirmed_by d = Some ''alice'' \<and> ds_created_by d \<noteq> ''alice''"
proof -
  have ok: "ex_confirmed = Inr (fst (projr ex_confirmed), snd (projr ex_confirmed))" by code_simp
  obtain d where d: "st_document_sets (snd (projr ex_confirmed)) = [d]" "ds_project_id d = ''project-1''"
    "ds_status d = ''CONFIRMED''"
  proof
    show "st_document_sets (snd (projr ex_confirmed)) = [hd (st_document_sets (snd (projr ex_confirmed)))]"
      by code_simp
  qed code_simp+
  have "distinct (map ds_id (st_document_sets ex_store3))" by code_simp
  moreover have "actor_id alice = ''alice''" by (simp add: alice_def)
  ultimately show ?thesis
    using confirmed_document_set_unique [OF ok [unfolded ex_confirmed_def], folded ex_confirmed_def, of d] d by auto
qed

end
