(* ===== verification/TG_Calculation.thy ===== *)
theory TG_Calculation
  imports TG_Models TG_Decimal_Bounds
begin

text \<open>
  \<open>domain/calculation.py\<close>: the primary cost calculation, the independent recalculation that
  checks it, and the fixed snapshot.  Both calculations run in a decimal context of 160 digits;
  the abstract specification at the end of the definitions is the exact rational arithmetic they
  stand for, with the policy's rounding.
\<close>

subsection \<open>Inputs and policy\<close>

record applied_factor =
  af_factor_id :: string
  af_version_id :: string
  af_value :: decimal
  af_evidence_or_rule_id :: string

record atomic_cost_input =
  ci_cost_input_id :: string
  ci_line_id :: string
  ci_wbs_node_id :: string
  ci_semantic_key :: string
  ci_category :: CostCategory
  ci_quantity :: decimal
  ci_unit :: string
  ci_unit_rate :: decimal
  ci_currency :: string
  ci_factors :: "applied_factor list"
  ci_sign :: int
  ci_source_observation_id :: "string option"
  ci_approved_assumption_id :: "string option"
  ci_normative_rate_id :: "string option"
  ci_risk_reserve_id :: "string option"
  ci_derived_cost_model_id :: "string option"

definition basis_references :: "atomic_cost_input \<Rightarrow> string option list" where
  "basis_references i = [ci_source_observation_id i, ci_approved_assumption_id i, ci_normative_rate_id i,
     ci_risk_reserve_id i, ci_derived_cost_model_id i]"

definition basis_reference_is_unambiguous :: "atomic_cost_input \<Rightarrow> atomic_cost_input result" where
  "basis_reference_is_unambiguous i =
     (if length (filter (\<lambda>v. v \<noteq> None) (basis_references i)) > 1
      then Inl (ValueError ''A cost input may have only one direct basis reference'') else Inr i)"

definition has_basis :: "atomic_cost_input \<Rightarrow> bool" where
  "has_basis i = list_ex (\<lambda>v. v \<noteq> None) (basis_references i)"

record calculation_policy =
  cp_policy_version :: string
  cp_currency :: string
  cp_line_rounding_scale :: nat
  cp_total_rounding_scale :: nat
  cp_rounding_mode :: string
  cp_independent_tolerance :: decimal
  cp_expected_semantic_keys :: "string fset"

definition rounding_mode_is_supported :: "calculation_policy \<Rightarrow> calculation_policy result" where
  "rounding_mode_is_supported p = (case ROUNDING_MODES (cp_rounding_mode p) of
     None \<Rightarrow> Inl (ValueError (''Unsupported rounding mode: '' @ cp_rounding_mode p)) | Some _ \<Rightarrow> Inr p)"

definition policy_mode :: "calculation_policy \<Rightarrow> rounding_mode result" where
  "policy_mode p = (case ROUNDING_MODES (cp_rounding_mode p) of
     None \<Rightarrow> Inl (KeyError (cp_rounding_mode p)) | Some m \<Rightarrow> Inr m)"

definition MAX_STORED_DECIMAL :: decimal where
  "MAX_STORED_DECIMAL = Dec 99999999999999999999999999999999999999 (-12)"

definition require_storable_decimal :: "decimal \<Rightarrow> string \<Rightarrow> decimal result" where
  "require_storable_decimal value label =
     (if dlt MAX_STORED_DECIMAL (dabs 160 value)
      then Inl (ValueError (label @ '' exceeds the supported financial decimal range'')) else Inr value)"

text \<open>\<open>totals[key] += amount\<close> on a \<open>defaultdict(Decimal)\<close>, in insertion order.\<close>

fun add_total :: "nat \<Rightarrow> 'k \<Rightarrow> decimal \<Rightarrow> ('k \<times> decimal) list \<Rightarrow> ('k \<times> decimal) list" where
  "add_total p k x [] = [(k, dadd p d_zero x)]"
| "add_total p k x ((j, t) # ts) = (if j = k then (j, dadd p t x) # ts else (j, t) # add_total p k x ts)"

text \<open>\<open>except InvalidOperation as error: raise ValueError(message)\<close>.\<close>

definition invalid_as :: "string \<Rightarrow> 'a result \<Rightarrow> 'a result" where
  "invalid_as message m = (case m of Inl InvalidOperation \<Rightarrow> Inl (ValueError message) | _ \<Rightarrow> m)"

subsection \<open>The primary calculation\<close>

definition primary_amount :: "atomic_cost_input \<Rightarrow> decimal" where
  "primary_amount i =
     (let amount = dmul 160 (ci_quantity i) (ci_unit_rate i);
          amount = foldl (\<lambda>a f. dmul 160 a (af_value f)) amount (ci_factors i)
      in dmul 160 amount (dec_of_int (ci_sign i)))"

definition primary_line :: "calculation_policy \<Rightarrow> rounding_mode \<Rightarrow> atomic_cost_input \<Rightarrow> decimal result" where
  "primary_line policy mode i =
     bindR (quantize 160 mode (cp_line_rounding_scale policy) (primary_amount i)) (\<lambda>amount.
       require_storable_decimal amount (''Calculated line '' @ ci_cost_input_id i))"

definition primary_step :: "calculation_policy \<Rightarrow> rounding_mode
    \<Rightarrow> calculation_line_result list \<times> (CostCategory \<times> decimal) list \<Rightarrow> atomic_cost_input
    \<Rightarrow> (calculation_line_result list \<times> (CostCategory \<times> decimal) list) result" where
  "primary_step policy mode s i =
     (if ci_currency i \<noteq> cp_currency policy
      then Inl (ValueError (''Input '' @ ci_cost_input_id i @ '' is '' @ ci_currency i @ ''; expected ''
             @ cp_currency policy))
      else bindR (primary_line policy mode i) (\<lambda>amount.
        Inr (fst s @ [\<lparr>lr_line_id = ci_line_id i, lr_category = ci_category i, lr_amount = amount,
                       lr_currency = cp_currency policy\<rparr>],
             add_total 160 (ci_category i) amount (snd s))))"

definition round_category :: "calculation_policy \<Rightarrow> rounding_mode \<Rightarrow> CostCategory \<times> decimal
    \<Rightarrow> (CostCategory \<times> decimal) result" where
  "round_category policy mode ct =
     bindR (quantize 160 mode (cp_total_rounding_scale policy) (snd ct)) (\<lambda>t.
     bindR (require_storable_decimal t (''Calculated category '' @ CostCategory_value (fst ct))) (\<lambda>t.
       Inr (fst ct, t)))"

definition calculate_primary :: "atomic_cost_input list \<Rightarrow> calculation_policy \<Rightarrow> string \<Rightarrow> int
    \<Rightarrow> calculation_result result" where
  "calculate_primary inputs policy engine_version calculated_at =
     bindR (policy_mode policy) (\<lambda>mode.
     invalid_as ''Calculation cannot be represented with the approved precision''
      (bindR (foldR (primary_step policy mode) ([], []) (sort_key ci_cost_input_id inputs)) (\<lambda>(lines, totals).
       bindR (mapR (round_category policy mode) (sort_key fst totals)) (\<lambda>rounded_categories.
       bindR (quantize 160 mode (cp_total_rounding_scale policy) (dsum 160 (map snd rounded_categories))) (\<lambda>g.
       bindR (require_storable_decimal g ''Calculated project total'') (\<lambda>grand_total.
         Inr \<lparr>cr_engine_version = engine_version, cr_currency = cp_currency policy, cr_lines = lines,
              cr_category_totals = rounded_categories, cr_grand_total = grand_total,
              cr_calculated_at = calculated_at\<rparr>))))))"

subsection \<open>The independent validation\<close>

definition recalc_finding :: "FindingCode \<Rightarrow> string \<Rightarrow> string list \<Rightarrow> validation_finding list" where
  "recalc_finding code message ids = (if ids \<noteq> [] then [vfinding code Severity.BLOCKER message ids] else [])"

definition duplicate_semantics :: "atomic_cost_input list \<Rightarrow> string list" where
  "duplicate_semantics inputs =
     (let key = (\<lambda>i. (ci_wbs_node_id i, ci_semantic_key i)) in
      concat (map (\<lambda>k. let ids = map ci_cost_input_id (filter (\<lambda>i. key i = k) inputs)
                       in if length ids > 1 then ids else [])
        (sort (remdups (map key inputs)))))"

definition input_findings :: "atomic_cost_input list \<Rightarrow> calculation_policy \<Rightarrow> validation_finding list" where
  "input_findings inputs policy =
     recalc_finding FindingCode.INDEPENDENT_RECALCULATION_MISMATCH
       ''Duplicate atomic cost input identifiers detected'' (repeated (map ci_cost_input_id inputs))
     @ recalc_finding FindingCode.INDEPENDENT_RECALCULATION_MISMATCH
       ''Potential double counting: repeated WBS/semantic cost component'' (duplicate_semantics inputs)
     @ recalc_finding FindingCode.INDEPENDENT_RECALCULATION_MISMATCH
       ''Expected price components are missing''
       (sorted_list_of_fset (ffilter (\<lambda>k. k \<notin> set (map ci_semantic_key inputs))
          (cp_expected_semantic_keys policy)))
     @ recalc_finding FindingCode.COST_WITHOUT_BASIS
       ''Atomic cost inputs without source, normative rate, or approved assumption''
       (map ci_cost_input_id (filter (\<lambda>i. \<not> has_basis i) inputs))
     @ recalc_finding FindingCode.INDEPENDENT_RECALCULATION_MISMATCH
       ''Atomic inputs are not normalized to the calculation currency''
       (map ci_cost_input_id (filter (\<lambda>i. ci_currency i \<noteq> cp_currency policy) inputs))"

definition independent_amount :: "atomic_cost_input \<Rightarrow> decimal" where
  "independent_amount i =
     (let multiplier = foldl (dmul 160) d_one (map af_value (ci_factors i))
      in dmul 160 (dmul 160 (dmul 160 (ci_unit_rate i) (ci_quantity i)) multiplier) (dec_of_int (ci_sign i)))"

definition independent_step :: "calculation_policy \<Rightarrow> rounding_mode \<Rightarrow> (CostCategory \<times> decimal) list
    \<Rightarrow> atomic_cost_input \<Rightarrow> (CostCategory \<times> decimal) list result" where
  "independent_step policy mode totals i =
     bindR (quantize 160 mode (cp_line_rounding_scale policy) (independent_amount i)) (\<lambda>amount.
     bindR (require_storable_decimal amount (''Independently calculated line '' @ ci_cost_input_id i)) (\<lambda>amount.
       Inr (add_total 160 (ci_category i) amount totals)))"

definition independent_total :: "atomic_cost_input list \<Rightarrow> calculation_policy \<Rightarrow> decimal result" where
  "independent_total inputs policy =
     bindR (policy_mode policy) (\<lambda>mode.
     invalid_as ''Independent calculation cannot be represented with the approved precision''
      (bindR (foldR (independent_step policy mode) [] inputs) (\<lambda>totals.
       bindR (mapR (\<lambda>ct. quantize 160 mode (cp_total_rounding_scale policy) (snd ct)) totals) (\<lambda>rounded.
       bindR (quantize 160 mode (cp_total_rounding_scale policy) (dsum 160 rounded)) (\<lambda>g.
         require_storable_decimal g ''Independently calculated project total'')))))"

text \<open>The difference is taken outside the 160-digit context, with the default 28 digits.\<close>

definition validate_independently :: "atomic_cost_input list \<Rightarrow> calculation_result \<Rightarrow> calculation_policy
    \<Rightarrow> string \<Rightarrow> int \<Rightarrow> independent_validation_result result" where
  "validate_independently inputs primary policy validator_version validated_at =
     bindR (independent_total inputs policy) (\<lambda>ind.
       let difference = dabs 28 (dsub 28 ind (cr_grand_total primary));
           findings = input_findings inputs policy
             @ (if dlt (cp_independent_tolerance policy) difference
                then [(vfinding FindingCode.INDEPENDENT_RECALCULATION_MISMATCH Severity.BLOCKER
                         ''Independent recalculation differs from primary total'' [])
                        \<lparr>vf_details := [(''primary_total'', PDec (cr_grand_total primary)),
                          (''independent_total'', PDec ind), (''difference'', PDec difference),
                          (''tolerance'', PDec (cp_independent_tolerance policy))]\<rparr>] else []);
           passed = \<not> list_ex (\<lambda>f. vf_severity f = Severity.BLOCKER) findings
       in Inr \<lparr>iv_validator_version = validator_version, iv_passed = passed,
            iv_independently_calculated_total = ind, iv_primary_total = cr_grand_total primary,
            iv_difference = difference, iv_tolerance = cp_independent_tolerance policy,
            iv_findings = findings, iv_validated_at = validated_at\<rparr>)"

subsection \<open>The snapshot\<close>

text \<open>\<open>content_hash\<close> on the three records it is applied to.\<close>

record snapshot_hashes =
  sh_input :: "atomic_cost_input list \<times> calculation_policy \<times> controlled_version list \<Rightarrow> string"
  sh_output :: "calculation_result \<times> independent_validation_result \<Rightarrow> string"
  sh_snapshot :: "string \<times> string \<times> string \<times> string \<times> string \<times> int \<Rightarrow> string"

definition create_snapshot :: "snapshot_hashes \<Rightarrow> string \<Rightarrow> string \<Rightarrow> atomic_cost_input list \<Rightarrow> calculation_policy
    \<Rightarrow> controlled_version list \<Rightarrow> calculation_result \<Rightarrow> independent_validation_result \<Rightarrow> string \<Rightarrow> int
    \<Rightarrow> calculation_snapshot" where
  "create_snapshot H project_id document_set_revision_id inputs policy controlled_versions primary validation
       created_by created_at =
     (let canonical_inputs = sort_key ci_cost_input_id inputs;
          canonical_versions = sort_key (\<lambda>v. (cv_kind v, cv_version_id v)) controlled_versions;
          input_hash = sh_input H (canonical_inputs, policy, canonical_versions);
          output_hash = sh_output H (primary, validation);
          snapshot_hash = sh_snapshot H (project_id, document_set_revision_id, input_hash, output_hash,
            created_by, created_at)
      in \<lparr>cs_snapshot_id = ''snapshot-'' @ take 24 snapshot_hash, cs_project_id = project_id,
          cs_document_set_revision_id = document_set_revision_id, cs_input_hash = input_hash,
          cs_output_hash = output_hash, cs_snapshot_hash = snapshot_hash, cs_created_by = created_by,
          cs_created_at = created_at, cs_fixed = True\<rparr>)"

subsection \<open>Specification\<close>

definition line_value :: "atomic_cost_input \<Rightarrow> rat" where
  "line_value i = dval (ci_quantity i) * dval (ci_unit_rate i)
     * prod_list (map (\<lambda>f. dval (af_value f)) (ci_factors i)) * of_int (ci_sign i)"

definition spec_line :: "rounding_mode \<Rightarrow> nat \<Rightarrow> atomic_cost_input \<Rightarrow> rat" where
  "spec_line mode ls i = rquantize mode ls (line_value i)"

definition spec_category :: "rounding_mode \<Rightarrow> nat \<Rightarrow> nat \<Rightarrow> atomic_cost_input list \<Rightarrow> CostCategory \<Rightarrow> rat" where
  "spec_category mode ls ts inputs c =
     rquantize mode ts (sum_list (map (spec_line mode ls) (filter (\<lambda>i. ci_category i = c) inputs)))"

definition spec_total :: "rounding_mode \<Rightarrow> nat \<Rightarrow> nat \<Rightarrow> atomic_cost_input list \<Rightarrow> rat" where
  "spec_total mode ls ts inputs = (\<Sum>c \<in> ci_category ` set inputs. spec_category mode ls ts inputs c)"

text \<open>The column constraints of an input, with at most two factors.\<close>

definition input_ok :: "atomic_cost_input \<Rightarrow> bool" where
  "input_ok i \<longleftrightarrow> column_ok 38 12 (ci_quantity i) \<and> column_ok 38 12 (ci_unit_rate i)
     \<and> list_all (\<lambda>f. column_ok 38 12 (af_value f)) (ci_factors i) \<and> length (ci_factors i) \<le> 2
     \<and> \<bar>ci_sign i\<bar> = 1"

subsection \<open>Exact products\<close>

text \<open>A product of \<open>n\<close> column values.\<close>

definition prodfit :: "nat \<Rightarrow> rat \<Rightarrow> bool" where
  "prodfit n v \<longleftrightarrow> (\<exists>c. v = of_int c / 10 ^ (12 * n) \<and> \<bar>c\<bar> \<le> 10 ^ (38 * n))"

lemma prodfit_column: "column_ok 38 12 x \<Longrightarrow> prodfit (Suc 0) (dval x)"
  unfolding prodfit_def by (auto dest!: column_ok_dval intro: less_imp_le)

lemma prodfit_sign: "\<bar>k\<bar> = 1 \<Longrightarrow> prodfit 0 (of_int k)"
  unfolding prodfit_def by auto

lemma prodfit_mult:
  assumes "prodfit n v" "prodfit m w"
  shows "prodfit (n + m) (v * w)"
proof -
  obtain c d where c: "v = of_int c / 10 ^ (12 * n)" "\<bar>c\<bar> \<le> 10 ^ (38 * n)"
    and d: "w = of_int d / 10 ^ (12 * m)" "\<bar>d\<bar> \<le> 10 ^ (38 * m)"
    using assms by (auto simp: prodfit_def)
  have "v * w = of_int (c * d) / 10 ^ (12 * (n + m))" by (simp add: c d power_add algebra_simps)
  moreover have "\<bar>c * d\<bar> \<le> 10 ^ (38 * n) * 10 ^ (38 * m)"
    unfolding abs_mult using c(2) d(2) by (intro mult_mono) simp_all
  then have "\<bar>c * d\<bar> \<le> 10 ^ (38 * (n + m))" by (simp add: power_add [symmetric] algebra_simps)
  ultimately show ?thesis unfolding prodfit_def by blast
qed

lemma prodfit_fits:
  assumes "prodfit n v" "n \<le> 4"
  shows "fits 160 v"
proof -
  obtain c where c: "v = of_int c / 10 ^ (12 * n)" "\<bar>c\<bar> \<le> 10 ^ (38 * n)"
    using assms(1) by (auto simp: prodfit_def)
  have "(10::int) ^ (38 * n) \<le> 10 ^ 152" using assms(2) by (intro power_increasing) auto
  with c(2) have "\<bar>c\<bar> < 10 ^ 160" by (rule order.strict_trans1 [OF order_trans]) simp
  moreover have "v = of_int c * pow10 (- int (12 * n))"
    by (simp only: c(1) div_pow10)
  ultimately show ?thesis by (intro fitsI)
qed

lemma dmul_exact:
  assumes "prodfit n (dval a)" "prodfit m (dval b)" "n + m \<le> 4"
  shows "dval (dmul 160 a b) = dval a * dval b" "prodfit (n + m) (dval (dmul 160 a b))"
  using prodfit_mult [OF assms(1,2)] prodfit_fits [of "n + m"] assms(3) dval_dmul by auto

lemma foldl_dmul_exact:
  assumes "prodfit n (dval a)" "\<forall>x \<in> set xs. prodfit (Suc 0) (dval x)" "n + length xs \<le> 4"
  shows "dval (foldl (dmul 160) a xs) = dval a * prod_list (map dval xs)
    \<and> prodfit (n + length xs) (dval a * prod_list (map dval xs))"
  using assms
proof (induction xs arbitrary: a n)
  case (Cons x xs)
  have m: "dval (dmul 160 a x) = dval a * dval x" "prodfit (n + 1) (dval (dmul 160 a x))"
    using dmul_exact [of n a "Suc 0" x] Cons.prems by simp_all
  have "dval (foldl (dmul 160) (dmul 160 a x) xs) = dval (dmul 160 a x) * prod_list (map dval xs)
      \<and> prodfit (n + 1 + length xs) (dval (dmul 160 a x) * prod_list (map dval xs))"
    using Cons.prems by (intro Cons.IH m(2)) simp_all
  then show ?case by (simp add: m(1) mult.assoc)
qed simp

lemma input_ok_factors: "input_ok i \<Longrightarrow> \<forall>x \<in> set (map af_value (ci_factors i)). prodfit (Suc 0) (dval x)"
  by (auto simp: input_ok_def list_all_iff intro: prodfit_column)

text \<open>Both evaluation orders compute the exact product.\<close>

lemma amounts_exact:
  assumes "input_ok i"
  shows "dval (primary_amount i) = line_value i" "dval (independent_amount i) = line_value i"
    "\<exists>n \<le> 4. prodfit n (line_value i)"
proof -
  let ?fs = "map af_value (ci_factors i)"
  have q: "prodfit (Suc 0) (dval (ci_quantity i))" "prodfit (Suc 0) (dval (ci_unit_rate i))" "length ?fs \<le> 2"
    using assms by (simp_all add: input_ok_def prodfit_column [simplified])
  note fs = input_ok_factors [OF assms]
  have s: "prodfit 0 (dval (dec_of_int (ci_sign i)))" using assms by (simp add: input_ok_def prodfit_sign)
  let ?qr = "dmul 160 (ci_quantity i) (ci_unit_rate i)" and ?rq = "dmul 160 (ci_unit_rate i) (ci_quantity i)"
  have qr: "dval ?qr = dval (ci_quantity i) * dval (ci_unit_rate i)" "prodfit 2 (dval ?qr)"
    and rq: "dval ?rq = dval (ci_quantity i) * dval (ci_unit_rate i)" "prodfit 2 (dval ?rq)"
    using dmul_exact [OF q(1,2)] dmul_exact [OF q(2,1)] by (simp_all add: numeral_2_eq_2 mult.commute)
  let ?a = "foldl (dmul 160) ?qr ?fs"
  have a: "dval ?a = dval ?qr * prod_list (map dval ?fs)" "prodfit (2 + length ?fs) (dval ?a)"
    using foldl_dmul_exact [OF qr(2) fs] q(3) by simp_all
  have "foldl (\<lambda>a f. dmul 160 a (af_value f)) ?qr (ci_factors i) = ?a" by (simp add: foldl_map)
  then have "dval (primary_amount i) = dval ?a * of_int (ci_sign i)"
    "prodfit (2 + length ?fs) (dval (primary_amount i))"
    using dmul_exact [OF a(2) s] q(3) by (simp_all add: primary_amount_def)
  moreover have v: "dval ?a * of_int (ci_sign i) = line_value i"
    by (simp only: a(1) qr(1) line_value_def map_map comp_def)
  ultimately show p: "dval (primary_amount i) = line_value i" and "\<exists>n \<le> 4. prodfit n (line_value i)"
    using q(3) by (auto intro: exI [of _ "2 + length ?fs"])
  let ?m = "foldl (dmul 160) d_one ?fs"
  have "prodfit 0 (dval d_one)" by (simp add: prodfit_def)
  then have m: "dval ?m = prod_list (map dval ?fs)" "prodfit (length ?fs) (dval ?m)"
    using foldl_dmul_exact [of 0 d_one ?fs] fs q(3) by simp_all
  have "dval (dmul 160 ?rq ?m) = dval ?rq * dval ?m" "prodfit (2 + length ?fs) (dval (dmul 160 ?rq ?m))"
    using dmul_exact [OF rq(2) m(2)] q(3) by simp_all
  then have "dval (independent_amount i) = dval ?rq * dval ?m * of_int (ci_sign i)"
    using dmul_exact [OF _ s, of "2 + length ?fs" "dmul 160 ?rq ?m"] q(3) by (simp add: independent_amount_def)
  then show "dval (independent_amount i) = line_value i"
    by (simp only: rq(1) m(1) line_value_def map_map comp_def)
qed

subsection \<open>Sums of rounded amounts\<close>

lemma dval_MAX: "dval MAX_STORED_DECIMAL = (10 ^ 38 - 1) / 10 ^ 12"
  by (simp add: MAX_STORED_DECIMAL_def dval_Dec power_int_minus)

lemma rquantize_on_grid:
  assumes "s \<le> 8" "\<bar>rquantize mode s v\<bar> \<le> dval MAX_STORED_DECIMAL"
  shows "on_grid s 1 (rquantize mode s v)"
  unfolding on_grid_def
proof (intro exI conjI)
  let ?k = "round_rat mode (v * 10 ^ s)"
  show "rquantize mode s v = of_int ?k / 10 ^ s" by (simp add: rquantize_def)
  have "\<bar>of_int ?k\<bar> / 10 ^ s \<le> ((10 ^ 38 - 1) / 10 ^ 12 :: rat)"
    using assms(2) by (simp add: rquantize_def dval_MAX abs_divide)
  then have "\<bar>of_int ?k\<bar> \<le> (10 ^ 38 - 1) / 10 ^ 12 * (10::rat) ^ s" by (simp add: divide_le_eq)
  also have "\<dots> \<le> (10 ^ 38 - 1) / 10 ^ 12 * (10::rat) ^ 8"
    using assms(1) by (intro mult_left_mono power_increasing) simp_all
  also have "\<dots> \<le> 10 ^ 38" by simp
  finally have "of_int \<bar>?k\<bar> \<le> (of_int (10 ^ 38) :: rat)" by simp
  then show "\<bar>?k\<bar> \<le> int 1 * 10 ^ 38" by linarith
qed

text \<open>Quantize and the storage check together: defined exactly on the storable amounts.\<close>

lemma store_quantized:
  assumes "fits 160 v" "dval x = v" "\<bar>v\<bar> \<le> 10 ^ 150" "s \<le> 8"
  shows "bindR (quantize 160 mode s x) (\<lambda>a. require_storable_decimal a label) =
    (if \<bar>rquantize mode s v\<bar> \<le> dval MAX_STORED_DECIMAL
     then Inr (Dec (round_rat mode (v * 10 ^ s)) (- int s))
     else Inl (ValueError (label @ '' exceeds the supported financial decimal range'')))"
proof -
  let ?k = "round_rat mode (v * 10 ^ s)"
  have "\<bar>v * 10 ^ s\<bar> \<le> 10 ^ 150 * 10 ^ 8"
    unfolding abs_mult
  proof (rule mult_mono [OF assms(3)])
    have "(10::rat) ^ s \<le> 10 ^ 8" using assms(4) by (intro power_increasing) simp_all
    then show "\<bar>(10::rat) ^ s\<bar> \<le> 10 ^ 8" by simp
  qed simp_all
  then have "\<bar>v * 10 ^ s\<bar> \<le> of_int (10 ^ 158)" by simp
  then have "\<bar>?k\<bar> \<le> 10 ^ 158" by (rule rr.abs_le_of_int)
  then have k: "\<bar>?k\<bar> < 10 ^ 160" by (rule order.strict_trans1) simp
  have q: "quantize 160 mode s x = Inr (Dec ?k (- int s))" using k assms(2) by (simp add: quantize_Inr_iff)
  have d: "dval (Dec ?k (- int s)) = rquantize mode s v" by (simp add: rquantize_def dval_Dec div_pow10)
  have "fits 160 (dval (Dec ?k (- int s)))" using k by (intro fitsI [of _ ?k "- int s"]) (simp_all add: dval_Dec)
  then have "dval (dabs 160 (Dec ?k (- int s))) = \<bar>rquantize mode s v\<bar>" by (simp add: dval_dabs d)
  then show ?thesis by (simp add: q require_storable_decimal_def dlt_iff not_le [symmetric])
qed

lemma prodfit_bound:
  assumes "prodfit n v" "n \<le> 4"
  shows "\<bar>v\<bar> \<le> 10 ^ 150"
proof -
  obtain c where c: "v = of_int c / 10 ^ (12 * n)" "\<bar>c\<bar> \<le> 10 ^ (38 * n)"
    using assms(1) by (auto simp: prodfit_def)
  have "of_int \<bar>c\<bar> \<le> (10::rat) ^ (38 * n)" using c(2) by (metis of_int_le_iff of_int_numeral of_int_power)
  then have "\<bar>v\<bar> \<le> 10 ^ (38 * n) / 10 ^ (12 * n)" by (simp add: c(1) abs_divide divide_right_mono)
  also have "\<dots> = 10 ^ (26 * n)" by (simp flip: power_diff)
  also have "\<dots> \<le> 10 ^ 150" using assms(2) by (intro power_increasing) simp_all
  finally show ?thesis .
qed

lemma on_grid_bound:
  assumes "on_grid s m v" "m \<le> 10 ^ n"
  shows "\<bar>v\<bar> \<le> 10 ^ (n + 38)"
proof -
  obtain k where k: "v = of_int k / 10 ^ s" "\<bar>k\<bar> \<le> int m * 10 ^ 38" using assms(1) by (auto simp: on_grid_def)
  have "int m \<le> 10 ^ n" using assms(2) by (metis of_nat_le_iff of_nat_numeral of_nat_power)
  then have "int m * 10 ^ 38 \<le> 10 ^ n * 10 ^ 38" by (rule mult_right_mono) simp
  with k(2) have "\<bar>k\<bar> \<le> 10 ^ (n + 38)" by (simp only: power_add)
  then have a: "\<bar>of_int k\<bar> \<le> (10::rat) ^ (n + 38)" by (metis of_int_abs of_int_le_iff of_int_numeral of_int_power)
  have "\<bar>v\<bar> \<le> \<bar>of_int k\<bar>" by (simp add: k(1) abs_divide divide_le_eq mult_le_cancel_left1)
  with a show ?thesis by linarith
qed

subsection \<open>The contract of a line engine\<close>

lemma add_total_keys:
  "map fst (add_total p k x ts) = (if k \<in> set (map fst ts) then map fst ts else map fst ts @ [k])"
  by (induction ts) (auto, force)

lemma add_total_mem:
  assumes "(c, d) \<in> set (add_total p k x ts)" "distinct (map fst ts)"
  shows "c \<noteq> k \<and> (c, d) \<in> set ts
    \<or> c = k \<and> k \<notin> set (map fst ts) \<and> d = dadd p d_zero x
    \<or> (\<exists>t. c = k \<and> (k, t) \<in> set ts \<and> d = dadd p t x)"
  using assms
proof (induction ts)
  case (Cons e ts)
  then show ?case by (cases e) (force split: if_splits)
qed simp

lemma foldR_append: "foldR f s (xs @ ys) = bindR (foldR f s xs) (\<lambda>s'. foldR f s' ys)"
proof (induction xs arbitrary: s)
  case (Cons x xs)
  then show ?case by (cases "f s x") simp_all
qed simp

text \<open>
  What the aggregation of both calculations relies on: an engine that turns an input into a
  stored amount, exactly the specified one, whenever that can be stored.
\<close>

locale line_engine =
  fixes amount :: "atomic_cost_input \<Rightarrow> decimal result"
    and spec :: "atomic_cost_input \<Rightarrow> rat"
    and ok :: "atomic_cost_input \<Rightarrow> bool"
    and s :: nat
  assumes defined: "ok i \<Longrightarrow> is_ok (amount i) \<longleftrightarrow> \<bar>spec i\<bar> \<le> dval MAX_STORED_DECIMAL"
    and exact: "ok i \<Longrightarrow> amount i = Inr a \<Longrightarrow> dval a = spec i"
    and grid: "ok i \<Longrightarrow> amount i = Inr a \<Longrightarrow> on_grid s 1 (dval a)"
    and failure: "ok i \<Longrightarrow> amount i = Inl e \<Longrightarrow> \<exists>m. e = ValueError m"
begin

definition totals_ok :: "atomic_cost_input list \<Rightarrow> (CostCategory \<times> decimal) list \<Rightarrow> bool" where
  "totals_ok xs ts \<longleftrightarrow> distinct (map fst ts) \<and> set (map fst ts) = ci_category ` set xs
     \<and> (\<forall>c d. (c, d) \<in> set ts \<longrightarrow> on_grid s (length xs) (dval d)
          \<and> dval d = sum_list (map spec (filter (\<lambda>i. ci_category i = c) xs)))"

lemma totals_ok_Nil: "totals_ok [] []"
  by (simp add: totals_ok_def)

lemma totals_ok_snoc:
  assumes ts: "totals_ok xs ts" and i: "ok i" "amount i = Inr a" and "length xs < 10 ^ 100"
  shows "totals_ok (xs @ [i]) (add_total 160 (ci_category i) a ts)"
proof -
  let ?c = "ci_category i"
  let ?sum = "\<lambda>c. sum_list (map spec (filter (\<lambda>j. ci_category j = c) xs))"
  have a: "dval a = spec i" "on_grid s 1 (dval a)" using exact [OF i] grid [OF i] by blast+
  have d: "distinct (map fst ts)" "set (map fst ts) = ci_category ` set xs"
    and v: "\<And>c d. (c, d) \<in> set ts \<Longrightarrow> on_grid s (length xs) (dval d) \<and> dval d = ?sum c"
    using ts unfolding totals_ok_def by blast+
  have sum: "dval (dadd 160 t a) = dval t + spec i \<and> on_grid s (Suc (length xs)) (dval t + spec i)"
    if "on_grid s (length xs) (dval t)" for t
    using on_grid_add [OF that a(2)] on_grid_fits [of s "Suc (length xs)" "dval t + dval a"] assms(4) a(1)
    by (simp add: dval_dadd)
  have "on_grid s (length (xs @ [i])) (dval d)
      \<and> dval d = sum_list (map spec (filter (\<lambda>j. ci_category j = c) (xs @ [i])))"
    if "(c, d) \<in> set (add_total 160 ?c a ts)" for c d
    using add_total_mem [OF that d(1)]
  proof (elim disjE conjE exE)
    assume "c \<noteq> ?c" "(c, d) \<in> set ts"
    with v [of c d] show ?thesis by (auto intro: on_grid_mono)
  next
    assume c: "c = ?c" "?c \<notin> set (map fst ts)" "d = dadd 160 d_zero a"
    then have "filter (\<lambda>j. ci_category j = ?c) xs = []"
      unfolding d(2) by (auto simp: filter_empty_conv image_iff)
    moreover have "dval (dadd 160 d_zero a) = spec i" using sum [of d_zero] by simp
    moreover have "on_grid s (Suc (length xs)) (spec i)" using a on_grid_mono by fastforce
    ultimately show ?thesis using c by simp
  next
    fix t
    assume "c = ?c" "(?c, t) \<in> set ts" "d = dadd 160 t a"
    moreover from this v have "on_grid s (length xs) (dval t)" "dval t = ?sum ?c" by blast+
    ultimately show ?thesis using sum [of t] by simp
  qed
  moreover have "distinct (map fst (add_total 160 ?c a ts))"
    "set (map fst (add_total 160 ?c a ts)) = ci_category ` set (xs @ [i])"
    using d by (auto simp: add_total_keys simp del: set_map)
  ultimately show ?thesis unfolding totals_ok_def by blast
qed

lemma accumulate:
  assumes "list_all ok xs" "length xs \<le> 10 ^ 100"
  shows "(case foldR (\<lambda>ts i. bindR (amount i) (\<lambda>a. Inr (add_total 160 (ci_category i) a ts))) [] xs of
      Inl e \<Rightarrow> (\<exists>m. e = ValueError m) \<and> \<not> list_all (\<lambda>i. \<bar>spec i\<bar> \<le> dval MAX_STORED_DECIMAL) xs
    | Inr ts \<Rightarrow> totals_ok xs ts \<and> list_all (\<lambda>i. \<bar>spec i\<bar> \<le> dval MAX_STORED_DECIMAL) xs)"
  using assms
proof (induction xs rule: rev_induct)
  case Nil
  show ?case by (simp add: totals_ok_Nil)
next
  case (snoc i xs)
  let ?f = "\<lambda>ts i. bindR (amount i) (\<lambda>a. Inr (add_total 160 (ci_category i) a ts))"
  have i: "ok i" "list_all ok xs" "length xs < 10 ^ 100" using snoc.prems by simp_all
  show ?case
  proof (cases "foldR ?f [] xs")
    case (Inl e)
    with snoc.IH i show ?thesis by (simp add: foldR_append)
  next
    case (Inr ts)
    with snoc.IH i have ts: "totals_ok xs ts" "list_all (\<lambda>i. \<bar>spec i\<bar> \<le> dval MAX_STORED_DECIMAL) xs"
      by simp_all
    show ?thesis
    proof (cases "amount i")
      case (Inl e)
      with Inr failure [OF i(1) Inl] defined [OF i(1)] show ?thesis by (simp add: foldR_append)
    next
      case (Inr a)
      with \<open>foldR ?f [] xs = Inr ts\<close> ts defined [OF i(1)] totals_ok_snoc [OF ts(1) i(1) Inr i(3)]
      show ?thesis by (simp add: foldR_append)
    qed
  qed
qed

end


subsection \<open>Both engines meet the contract\<close>

lemma rquantize_spec_line: "spec_line mode ls i = rquantize mode ls (line_value i)"
  by (simp add: spec_line_def)

lemma stored_line:
  assumes "input_ok i" "dval x = line_value i" "s \<le> 8"
  shows "bindR (quantize 160 mode s x) (\<lambda>a. require_storable_decimal a label) =
    (if \<bar>spec_line mode s i\<bar> \<le> dval MAX_STORED_DECIMAL
     then Inr (Dec (round_rat mode (line_value i * 10 ^ s)) (- int s))
     else Inl (ValueError (label @ '' exceeds the supported financial decimal range'')))"
proof -
  obtain n where n: "n \<le> 4" "prodfit n (line_value i)" using amounts_exact(3) [OF assms(1)] by blast
  show ?thesis unfolding spec_line_def
    by (rule store_quantized [OF prodfit_fits [OF n(2,1)] assms(2) prodfit_bound [OF n(2,1)] assms(3)])
qed

lemma line_engine_stored:
  assumes "\<And>i. input_ok i \<Longrightarrow> dval (x i) = line_value i" "s \<le> 8"
  shows "line_engine (\<lambda>i. bindR (quantize 160 mode s (x i)) (\<lambda>a. require_storable_decimal a (label i)))
    (spec_line mode s) input_ok s"
proof
  fix i :: atomic_cost_input assume ok: "input_ok i"
  note eq = stored_line [OF ok assms(1) [OF ok] assms(2), of mode "label i"]
  let ?r = "bindR (quantize 160 mode s (x i)) (\<lambda>a. require_storable_decimal a (label i))"
  have v: "dval (Dec (round_rat mode (line_value i * 10 ^ s)) (- int s)) = spec_line mode s i"
    by (simp add: dval_Dec spec_line_def rquantize_def div_pow10)
  show "is_ok ?r \<longleftrightarrow> \<bar>spec_line mode s i\<bar> \<le> dval MAX_STORED_DECIMAL" by (simp add: eq)
  show "\<exists>m. e = ValueError m" if "?r = Inl e" for e using that by (auto simp: eq split: if_splits)
  fix a assume a: "?r = Inr a"
  then show "dval a = spec_line mode s i" using v by (auto simp: eq split: if_splits)
  moreover from a have "\<bar>spec_line mode s i\<bar> \<le> dval MAX_STORED_DECIMAL" by (auto simp: eq split: if_splits)
  ultimately show "on_grid s 1 (dval a)" using rquantize_on_grid [OF assms(2)] by (simp add: spec_line_def)
qed

text \<open>The scale is at most 8 in every policy record, so the interpretations carry it in \<open>ok\<close>.\<close>

lemma line_engine_guard:
  assumes "P \<Longrightarrow> line_engine amount spec ok s"
  shows "line_engine amount spec (\<lambda>i. P \<and> ok i) s"
proof (cases P)
  case True
  with assms show ?thesis by simp
next
  case False
  then show ?thesis by unfold_locales simp_all
qed

interpretation primary: line_engine "primary_line policy mode" "spec_line mode (cp_line_rounding_scale policy)"
    "\<lambda>i. cp_line_rounding_scale policy \<le> 8 \<and> input_ok i" "cp_line_rounding_scale policy"
  for policy mode
  unfolding primary_line_def [abs_def]
  by (intro line_engine_guard line_engine_stored amounts_exact(1))

definition independent_line :: "calculation_policy \<Rightarrow> rounding_mode \<Rightarrow> atomic_cost_input \<Rightarrow> decimal result" where
  "independent_line policy mode i =
     bindR (quantize 160 mode (cp_line_rounding_scale policy) (independent_amount i)) (\<lambda>amount.
       require_storable_decimal amount (''Independently calculated line '' @ ci_cost_input_id i))"

interpretation recalc: line_engine "independent_line policy mode" "spec_line mode (cp_line_rounding_scale policy)"
    "\<lambda>i. cp_line_rounding_scale policy \<le> 8 \<and> input_ok i" "cp_line_rounding_scale policy"
  for policy mode
  unfolding independent_line_def [abs_def]
  by (intro line_engine_guard line_engine_stored amounts_exact(2))

lemma bindR_assoc: "bindR (bindR m f) g = bindR m (\<lambda>x. bindR (f x) g)"
  by (cases m) simp_all

lemma independent_fold:
  "independent_step policy mode =
    (\<lambda>ts i. bindR (independent_line policy mode i) (\<lambda>a. Inr (add_total 160 (ci_category i) a ts)))"
  by (simp add: fun_eq_iff independent_step_def independent_line_def bindR_assoc)

definition result_line :: "calculation_policy \<Rightarrow> rounding_mode \<Rightarrow> atomic_cost_input \<Rightarrow> calculation_line_result" where
  "result_line policy mode i = \<lparr>lr_line_id = ci_line_id i, lr_category = ci_category i,
     lr_amount = projr (primary_line policy mode i), lr_currency = cp_currency policy\<rparr>"

lemma primary_fold:
  assumes "list_all (\<lambda>i. ci_currency i = cp_currency policy) xs"
  shows "foldR (primary_step policy mode) (l, t) xs =
    bindR (foldR (\<lambda>ts i. bindR (primary_line policy mode i) (\<lambda>a. Inr (add_total 160 (ci_category i) a ts))) t xs)
      (\<lambda>ts. Inr (l @ map (result_line policy mode) xs, ts))"
  using assms
proof (induction xs arbitrary: l t)
  case (Cons i xs)
  then show ?case by (cases "primary_line policy mode i") (simp_all add: primary_step_def result_line_def)
qed simp

lemma primary_fold_currency:
  assumes "\<not> list_all (\<lambda>i. ci_currency i = cp_currency policy) xs"
  shows "\<exists>e. foldR (primary_step policy mode) lt xs = Inl e"
  using assms
proof (induction xs arbitrary: lt)
  case (Cons i xs)
  then show ?case
    by (cases "primary_line policy mode i") (auto simp: primary_step_def)
qed simp

subsection \<open>The category and project totals\<close>

lemma on_grid_rquantize:
  assumes "on_grid s m v" "m \<le> 10 ^ 100" "t \<le> 8"
  shows "on_grid t (10 ^ 108) (rquantize mode t v)" "\<bar>round_rat mode (v * 10 ^ t)\<bar> \<le> 10 ^ 146"
proof -
  have "\<bar>v * 10 ^ t\<bar> \<le> 10 ^ 138 * 10 ^ 8"
    unfolding abs_mult
  proof (rule mult_mono)
    show "\<bar>v\<bar> \<le> 10 ^ 138" using on_grid_bound [OF assms(1,2)] by simp
    have "(10::rat) ^ t \<le> 10 ^ 8" using assms(3) by (intro power_increasing) simp_all
    then show "\<bar>(10::rat) ^ t\<bar> \<le> 10 ^ 8" by simp
  qed simp_all
  then have "\<bar>v * 10 ^ t\<bar> \<le> of_int (10 ^ 146)" by simp
  then show k: "\<bar>round_rat mode (v * 10 ^ t)\<bar> \<le> 10 ^ 146" by (rule rr.abs_le_of_int)
  show "on_grid t (10 ^ 108) (rquantize mode t v)"
    unfolding on_grid_def rquantize_def
    using k by (intro exI [of _ "round_rat mode (v * 10 ^ t)"]) simp
qed

lemma quantize_on_grid:
  assumes "on_grid s m (dval x)" "m \<le> 10 ^ 100" "t \<le> 8"
  shows "\<exists>y. quantize 160 mode t x = Inr y \<and> dval y = rquantize mode t (dval x)"
proof -
  have "\<bar>round_rat mode (dval x * 10 ^ t)\<bar> < 10 ^ 160"
    by (rule order.strict_trans1 [OF on_grid_rquantize(2) [OF assms]]) simp
  then have "is_ok (quantize 160 mode t x)" by (simp add: quantize_ok_iff)
  then show ?thesis using quantize_dval by (auto simp: is_ok_iff)
qed

lemma round_and_sum:
  assumes "\<forall>d \<in> set ds. on_grid s m (dval d)" "m \<le> 10 ^ 100" "length ds \<le> 100" "t \<le> 8"
    and rs: "map dval rs = map (\<lambda>d. rquantize mode t (dval d)) ds"
  shows "let v = sum_list (map (\<lambda>d. rquantize mode t (dval d)) ds) in
    bindR (quantize 160 mode t (dsum 160 rs)) (\<lambda>g. require_storable_decimal g label) =
      (if \<bar>v\<bar> \<le> dval MAX_STORED_DECIMAL then Inr (Dec (round_rat mode (v * 10 ^ t)) (- int t))
       else Inl (ValueError (label @ '' exceeds the supported financial decimal range'')))
    \<and> dval (Dec (round_rat mode (v * 10 ^ t)) (- int t)) = v"
proof -
  let ?v = "sum_list (map (\<lambda>d. rquantize mode t (dval d)) ds)"
  have len: "length rs = length ds" using arg_cong [OF rs, of length] by simp
  have "\<forall>r \<in> dval ` set rs. on_grid t (10 ^ 108) r"
    unfolding set_map [symmetric] rs using on_grid_rquantize(1) [OF _ assms(2,4)] assms(1) by auto
  then have "dval (dsum 160 rs) = ?v \<and> on_grid t (length rs * 10 ^ 108) ?v"
    using sum_grid [of rs t "10 ^ 108" 0 d_zero] assms(3) len rs by (simp add: dsum_def)
  then have v: "dval (dsum 160 rs) = ?v" "on_grid t (10 ^ 110) ?v"
    using assms(3) len on_grid_mono [of t "length rs * 10 ^ 108" ?v "10 ^ 110"] by simp_all
  have eq: "rquantize mode t ?v = ?v" by (rule on_grid_multiple [OF v(2)])
  have "\<bar>?v\<bar> \<le> 10 ^ 150"
    by (rule order_trans [OF on_grid_bound [OF v(2) order_refl]]) simp
  from store_quantized [OF on_grid_fits [OF v(2)] v(1) this assms(4), of mode label]
  have "bindR (quantize 160 mode t (dsum 160 rs)) (\<lambda>g. require_storable_decimal g label) =
      (if \<bar>?v\<bar> \<le> dval MAX_STORED_DECIMAL then Inr (Dec (round_rat mode (?v * 10 ^ t)) (- int t))
       else Inl (ValueError (label @ '' exceeds the supported financial decimal range'')))"
    by (simp add: eq)
  moreover have "dval (Dec (round_rat mode (?v * 10 ^ t)) (- int t)) = ?v"
    using eq by (simp add: dval_Dec rquantize_def div_pow10)
  ultimately show ?thesis unfolding Let_def ..
qed
end
