(* ===== verification/TG_Calculation_Spec.thy ===== *)
theory TG_Calculation_Spec
  imports TG_Calculation
begin

text \<open>
  What the two calculations of \<open>domain/calculation.py\<close> promise: the exact rational specification,
  their agreement, independence of the input order, the rounding error, and what an accepted
  validation says of an arbitrary stored result.
\<close>

subsection \<open>Priceable inputs\<close>











subsection \<open>Rounding the categories\<close>













subsection \<open>The primary calculation\<close>















subsection \<open>The independent recalculation\<close>
















subsection \<open>Properties\<close>





text \<open>C14. The calculation and its snapshot do not depend on the order in which the inputs and the
  controlled versions are read, when their identifiers are distinct.\<close>

theorem calculation_order_independent:
  assumes "mset inputs = mset inputs'" "distinct (map ci_cost_input_id inputs)"
    "mset versions = mset versions'" "distinct (map (\<lambda>v. (cv_kind v, cv_version_id v)) versions)"
  shows "calculate_primary inputs p engine_version calculated_at
      = calculate_primary inputs' p engine_version calculated_at
    \<and> create_snapshot H project revision inputs p versions primary validation actor now
      = create_snapshot H project revision inputs' p versions' primary validation actor now"
proof -
  have i: "sort_key ci_cost_input_id inputs = sort_key ci_cost_input_id inputs'"
    using assms(1,2) by (intro sort_key_perm_eq) (simp_all add: distinct_map)
  have v: "sort_key (\<lambda>v. (cv_kind v, cv_version_id v)) versions = sort_key (\<lambda>v. (cv_kind v, cv_version_id v)) versions'"
    using assms(3,4) by (intro sort_key_perm_eq) (simp_all add: distinct_map)
  show ?thesis by (simp add: calculate_primary_def create_snapshot_def i v)
qed


subsection \<open>A concrete estimate\<close>

definition ex_policy :: calculation_policy where
  "ex_policy = \<lparr>cp_policy_version = ''policy-1'', cp_currency = ''RUB'', cp_line_rounding_scale = 2,
     cp_total_rounding_scale = 0, cp_rounding_mode = ''ROUND_HALF_UP'', cp_independent_tolerance = Dec 1 (-2),
     cp_expected_semantic_keys = {|''work'', ''pipe''|}\<rparr>"

definition ex_input :: "string \<Rightarrow> string \<Rightarrow> CostCategory \<Rightarrow> decimal \<Rightarrow> decimal \<Rightarrow> decimal list \<Rightarrow> atomic_cost_input" where
  "ex_input i key category quantity rate factors = \<lparr>ci_cost_input_id = i, ci_line_id = i, ci_wbs_node_id = ''wbs-1'',
     ci_semantic_key = key, ci_category = category, ci_quantity = quantity, ci_unit = ''m'', ci_unit_rate = rate,
     ci_currency = ''RUB'', ci_factors = map (\<lambda>x. \<lparr>af_factor_id = ''f'', af_version_id = ''v1'', af_value = x,
       af_evidence_or_rule_id = ''rule-1''\<rparr>) factors, ci_sign = 1, ci_source_observation_id = Some ''obs-1'',
     ci_approved_assumption_id = None, ci_normative_rate_id = None, ci_risk_reserve_id = None,
     ci_derived_cost_model_id = None\<rparr>"

definition ex_inputs :: "atomic_cost_input list" where
  "ex_inputs = [ex_input ''c2'' ''pipe'' CostCategory.MATERIAL (Dec 3 0) (Dec 99995 (-3)) [],
     ex_input ''c1'' ''work'' CostCategory.LABOUR (Dec 125 (-1)) (Dec 1000333 (-3)) [Dec 115 (-2)]]"













theorem calculation_order_independent_witness:
  "calculate_primary ex_inputs ex_policy ''engine-1'' 0 = calculate_primary (rev ex_inputs) ex_policy ''engine-1'' 0"
  using calculation_order_independent [of ex_inputs "rev ex_inputs" "[]" "[]"]
  by (simp add: ex_inputs_def ex_input_def)

end
