(* ===== verification/TG_Risk.thy ===== *)
theory TG_Risk
  imports TG_Calculation_Spec
begin

text \<open>
  \<open>domain/risk.py\<close>: risk items, the risk model definition and the reserve calculation, in the
  default decimal context of 28 digits.
\<close>

subsection \<open>Records and validators\<close>

record risk_item =
  ri_risk_id :: string
  ri_description :: string
  ri_probability :: decimal
  ri_impact_min :: decimal
  ri_impact_most_likely :: decimal
  ri_impact_max :: decimal
  ri_currency :: string
  ri_observation_ids :: "string list"
  ri_status :: VerificationStatus
  ri_correlated :: bool
  ri_correlation_group :: "string option"
  ri_mitigation_cost_input_id :: "string option"

definition impacts_are_ordered :: "risk_item \<Rightarrow> risk_item result" where
  "impacts_are_ordered i =
     (if \<not> (dle (ri_impact_min i) (ri_impact_most_likely i) \<and> dle (ri_impact_most_likely i) (ri_impact_max i))
      then Inl (ValueError ''Risk impacts must be ordered min <= likely <= max'')
      else if ri_correlated i \<and> \<not> str_true (ri_correlation_group i)
      then Inl (ValueError ''Correlated risk requires a correlation group'') else Inr i)"

record risk_policy_basis =
  rp_method :: string
  rp_currency :: string
  rp_correlation_model_version_id :: "string option"
  rp_rounding_scale :: nat
  rp_rounding_mode :: string

definition method_and_rounding_are_supported :: "'a risk_policy_basis_scheme \<Rightarrow> 'a risk_policy_basis_scheme result" where
  "method_and_rounding_are_supported p =
     (if rp_method p \<noteq> ''THREE_POINT_EXPECTED_VALUE'' then Inl (ValueError ''Risk policy method is not implemented'')
      else if rp_rounding_mode p \<notin> {''ROUND_HALF_UP'', ''ROUND_HALF_EVEN''}
      then Inl (ValueError ''Risk policy rounding mode is unsupported'') else Inr p)"

record risk_policy = risk_policy_basis +
  rp_policy_version :: string

record risk_model_definition =
  rm_policy :: risk_policy_basis
  rm_risk_keys :: "string list"
  rm_required_risk_keys :: "string list"
  rm_independently_verified_risk_keys :: "string list"
  rm_evidence_field_names :: "(string \<times> string) list"
  rm_review_role :: ActorRole
  rm_minimum_risk_items :: int
  rm_reserve_unit :: string
  rm_reserve_line_id :: string
  rm_reserve_semantic_key :: string

definition risk_keys_are_normalized_and_unique :: "string list \<Rightarrow> string list result" where
  "risk_keys_are_normalized_and_unique values =
     (if length values \<noteq> card (set values) then Inl (ValueError ''Risk keys must be unique'')
      else if list_ex (\<lambda>v. v = [] \<or> v \<noteq> strip v \<or> length v > 128 \<or> list_ex py_isspace v) values
      then Inl (ValueError ''Risk key is invalid'') else Inr values)"

definition requirements_are_closed_and_reviewed :: "risk_model_definition \<Rightarrow> risk_model_definition result" where
  "requirements_are_closed_and_reviewed d =
     (let declared = set (rm_risk_keys d); required = set (rm_required_risk_keys d);
          independ = set (rm_independently_verified_risk_keys d);
          fields = map snd (rm_evidence_field_names d)
      in if \<not> required \<subseteq> declared then Inl (ValueError ''Required risk keys must be declared'')
      else if \<not> independ \<subseteq> required then Inl (ValueError ''Independent risk keys must be required'')
      else if rm_minimum_risk_items d < int (card required)
      then Inl (ValueError ''Risk minimum cannot be below the required risk-key count'')
      else if rm_minimum_risk_items d > int (card declared)
      then Inl (ValueError ''Risk minimum cannot exceed the declared risk-key count'')
      else if set (map fst (rm_evidence_field_names d)) \<noteq> declared
      then Inl (ValueError ''Every declared risk key needs exactly one evidence field'')
      else if length fields \<noteq> card (set fields) \<or> list_ex (\<lambda>v. v = [] \<or> v \<noteq> strip v \<or> length v > 200) fields
      then Inl (ValueError ''Risk evidence field names must be normalized and unique'')
      else if rm_review_role d \<notin> {ActorRole.REVIEWER, ActorRole.TECHNICAL_EXPERT}
      then Inl (ValueError ''Risk review role must be REVIEWER or TECHNICAL_EXPERT'') else Inr d)"

definition risk_calculation_policy :: "risk_model_definition \<Rightarrow> string \<Rightarrow> risk_policy" where
  "risk_calculation_policy d version_id = risk_policy_basis.extend (rm_policy d) (risk_policy.fields version_id)"

record risk_calculation =
  rc_policy_version :: string
  rc_expected_reserve :: decimal
  rc_currency :: string
  rc_per_risk_expected_impact :: "(string \<times> decimal) list"
  rc_findings :: "validation_finding list"
  rc_passed :: bool

subsection \<open>The reserve\<close>

definition risk_rounding :: "string \<Rightarrow> rounding_mode result" where
  "risk_rounding m = (if m = ''ROUND_HALF_UP'' then Inr ROUND_HALF_UP
     else if m = ''ROUND_HALF_EVEN'' then Inr ROUND_HALF_EVEN else Inl (KeyError m))"

definition risk_finding :: "string \<Rightarrow> string list \<Rightarrow> validation_finding" where
  "risk_finding message ids = vfinding FindingCode.RISK_MODEL_INCOMPLETE Severity.BLOCKER message ids"

definition model_findings :: "risk_item list \<Rightarrow> risk_policy \<Rightarrow> validation_finding list" where
  "model_findings items policy =
     (if rp_method policy \<noteq> ''THREE_POINT_EXPECTED_VALUE''
      then [risk_finding ''Risk method is not implemented by the qualified deterministic engine'' []] else [])
     @ (if list_ex ri_correlated items
        then [risk_finding (''Correlated risks require a separately qualified correlation engine; ''
          @ ''a version identifier alone is not executable evidence'')
          (map ri_risk_id (filter ri_correlated items))] else [])"

definition unusable :: "risk_policy \<Rightarrow> risk_item \<Rightarrow> bool" where
  "unusable policy i \<longleftrightarrow> ri_currency i \<noteq> rp_currency policy \<or> ri_status i \<noteq> VerificationStatus.VERIFIED
     \<or> ri_correlated i"

definition triangular_mean :: "risk_item \<Rightarrow> decimal result" where
  "triangular_mean i =
     ddiv 28 (dadd 28 (dadd 28 (ri_impact_min i) (ri_impact_most_likely i)) (ri_impact_max i)) (Dec 3 0)"

definition expected_impact :: "rounding_mode \<Rightarrow> nat \<Rightarrow> risk_item \<Rightarrow> decimal result" where
  "expected_impact mode scale i =
     bindR (triangular_mean i) (\<lambda>m. quantize 28 mode scale (dmul 28 (ri_probability i) m))"

definition risk_step :: "risk_policy \<Rightarrow> rounding_mode \<Rightarrow> validation_finding list \<times> (string \<times> decimal) list
    \<Rightarrow> risk_item \<Rightarrow> (validation_finding list \<times> (string \<times> decimal) list) result" where
  "risk_step policy mode s i =
     (if unusable policy i
      then Inr (fst s @ [risk_finding ''Risk item is unverified or uses a different currency'' [ri_risk_id i]], snd s)
      else bindR (expected_impact mode (rp_rounding_scale policy) i) (\<lambda>e.
        Inr (fst s, AList.update (ri_risk_id i) e (snd s))))"

definition calculate_risk_reserve :: "risk_item list \<Rightarrow> risk_policy \<Rightarrow> risk_calculation result" where
  "calculate_risk_reserve items policy =
     bindR (risk_rounding (rp_rounding_mode policy)) (\<lambda>mode.
     bindR (foldR (risk_step policy mode) (model_findings items policy, []) items) (\<lambda>(findings, expected).
     bindR (quantize 28 mode (rp_rounding_scale policy) (dsum 28 (map snd expected))) (\<lambda>reserve.
       Inr \<lparr>rc_policy_version = rp_policy_version policy, rc_expected_reserve = reserve,
            rc_currency = rp_currency policy, rc_per_risk_expected_impact = expected, rc_findings = findings,
            rc_passed = \<not> list_ex (\<lambda>f. vf_severity f = Severity.BLOCKER) findings\<rparr>)))"


subsection \<open>The fold over the items\<close>

definition usable :: "risk_policy \<Rightarrow> risk_item list \<Rightarrow> risk_item list" where
  "usable policy items = filter (\<lambda>i. \<not> unusable policy i) items"

lemma risk_fold:
  assumes "foldR (risk_step policy mode) (fs0, ex0) items = Inr (fs, ex)"
  shows "fs = fs0 @ map (\<lambda>i. risk_finding ''Risk item is unverified or uses a different currency'' [ri_risk_id i])
        (filter (unusable policy) items)
    \<and> ex = foldl (\<lambda>m i. AList.update (ri_risk_id i) (projr (expected_impact mode (rp_rounding_scale policy) i)) m)
        ex0 (usable policy items)
    \<and> list_all (\<lambda>i. is_ok (expected_impact mode (rp_rounding_scale policy) i)) (usable policy items)"
  using assms
proof (induction items arbitrary: fs0 ex0)
  case (Cons i items)
  show ?case
  proof (cases "unusable policy i")
    case True
    with Cons.prems Cons.IH [of "fs0 @ [risk_finding ''Risk item is unverified or uses a different currency'' [ri_risk_id i]]" ex0]
    show ?thesis by (simp add: risk_step_def usable_def)
  next
    case False
    with Cons.prems obtain e where e: "expected_impact mode (rp_rounding_scale policy) i = Inr e"
      and "foldR (risk_step policy mode) (fs0, AList.update (ri_risk_id i) e ex0) items = Inr (fs, ex)"
      by (auto simp: risk_step_def [of _ _ "(fs0, ex0)"] bindR_eq_Inr)
    with Cons.IH [of fs0 "AList.update (ri_risk_id i) e ex0"] False show ?thesis by (simp add: usable_def)
  qed
qed (simp add: usable_def)

lemma fold_update:
  "map_of (foldl (\<lambda>m i. AList.update (key i) (g i) m) ex0 xs) k
    = (case dict_by key xs k of None \<Rightarrow> map_of ex0 k | Some i \<Rightarrow> Some (g i))"
  "distinct (map fst ex0) \<Longrightarrow> distinct (map fst (foldl (\<lambda>m i. AList.update (key i) (g i) m) ex0 xs))"
  by (induction xs rule: rev_induct) (auto simp: dict_by_def AList.update_conv' AList.distinct_update)

subsection \<open>Bounds of one item\<close>

definition risk_item_ok :: "risk_item \<Rightarrow> bool" where
  "risk_item_ok i \<longleftrightarrow> dle d_zero (ri_probability i) \<and> dle (ri_probability i) d_one \<and> dle d_zero (ri_impact_min i)
     \<and> is_ok (impacts_are_ordered i) \<and> \<bar>coeff (ri_impact_max i)\<bar> < 10 ^ 27"

lemma fits_scaled:
  assumes "\<bar>coeff x\<bar> < 10 ^ 27" "0 \<le> n" "n \<le> 9"
  shows "fits 28 (of_int n * dval x)"
proof (rule fitsI)
  show "of_int n * dval x = of_int (n * coeff x) * pow10 (expn x)" by (simp add: dval_def)
  have "n * \<bar>coeff x\<bar> \<le> 9 * \<bar>coeff x\<bar>" using assms(3) by (intro mult_right_mono) simp_all
  then show "\<bar>n * coeff x\<bar> < 10 ^ 28" using assms(1,2) by (simp add: abs_mult)
qed

lemma triangular_mean_bounds:
  assumes "risk_item_ok i" "triangular_mean i = Inr m"
  shows "0 \<le> dval m" "dval m \<le> dval (ri_impact_max i)"
proof -
  let ?a = "ri_impact_min i" and ?b = "ri_impact_most_likely i" and ?c = "ri_impact_max i"
  have o: "0 \<le> dval ?a" "dval ?a \<le> dval ?b" "dval ?b \<le> dval ?c" "\<bar>coeff ?c\<bar> < 10 ^ 27"
    using assms(1) by (auto simp: risk_item_ok_def impacts_are_ordered_def dle_iff split: if_splits)
  let ?ab = "dadd 28 ?a ?b" let ?s = "dadd 28 ?ab ?c"
  have ab: "0 \<le> dval ?ab" "dval ?ab \<le> 2 * dval ?c"
    using dadd_le [of ?a ?b "2 * dval ?c" 28] fits_scaled [OF o(4), of 2] o by simp_all
  have s: "0 \<le> dval ?s" "dval ?s \<le> 3 * dval ?c"
    using dadd_le [of ?ab ?c "3 * dval ?c" 28] fits_scaled [OF o(4), of 3] o ab by simp_all
  have m: "ddiv 28 ?s (Dec 3 0) = Inr m" using assms(2) by (simp add: triangular_mean_def)
  have three: "dval (Dec 3 0) = 3" by (simp add: dval_Dec)
  have "0 \<le> dval m \<and> dval m \<le> dval ?c"
  proof (cases "coeff ?s = 0")
    case True
    with m have "m = Dec 0 (expn ?s - 0)" using ddiv_zero [of "Dec 3 0" ?s 28] by simp
    then show ?thesis using o by simp
  next
    case False
    then have pos: "0 < coeff ?s" using s(1) dval_nonneg_iff [of ?s] by linarith
    have "fits 28 (dval ?c)" using fits_scaled [OF o(4), of 1] by simp
    then have "dval m \<le> dval ?c" using ddiv_le [OF pos _ m, of "dval ?c"] s(2) by (simp add: three)
    moreover have "0 < coeff (Dec 3 0)" by simp
    from ddiv_pos [OF pos this, of 28] obtain y e where "ddiv 28 ?s (Dec 3 0) = Inr (fix_ctx 28 (Dec y e))" "0 \<le> y"
      by metis
    then have "0 \<le> dval m" using m fix_ctx_nonneg [of "Dec y e" 28] by simp
    ultimately show ?thesis by simp
  qed
  then show "0 \<le> dval m" "dval m \<le> dval ?c" by simp_all
qed

lemma expected_impact_bounds:
  assumes "risk_item_ok i" "expected_impact mode scale i = Inr e"
  shows "0 \<le> dval e" "dval e \<le> rquantize mode scale (dval (ri_impact_max i))"
    "\<exists>k. 0 \<le> k \<and> dval e = of_int k / 10 ^ scale"
proof -
  from assms(2) obtain m where m: "triangular_mean i = Inr m"
    and q: "quantize 28 mode scale (dmul 28 (ri_probability i) m) = Inr e"
    by (auto simp: expected_impact_def bindR_eq_Inr)
  note b = triangular_mean_bounds [OF assms(1) m]
  have p: "0 \<le> dval (ri_probability i)" "dval (ri_probability i) \<le> 1" "\<bar>coeff (ri_impact_max i)\<bar> < 10 ^ 27"
    using assms(1) by (auto simp: risk_item_ok_def dle_iff)
  have "dval (ri_probability i) * dval m \<le> 1 * dval (ri_impact_max i)"
    using p b by (intro mult_mono) simp_all
  then have x: "0 \<le> dval (dmul 28 (ri_probability i) m)"
      "dval (dmul 28 (ri_probability i) m) \<le> dval (ri_impact_max i)"
    using dmul_le [of "ri_probability i" m "dval (ri_impact_max i)" 28] p b fits_scaled [OF p(3), of 1] by simp_all
  have e: "dval e = rquantize mode scale (dval (dmul 28 (ri_probability i) m))" by (rule quantize_dval [OF q])
  show n: "0 \<le> dval e" unfolding e by (rule rquantize_nonneg [OF x(1)])
  show "dval e \<le> rquantize mode scale (dval (ri_impact_max i))" unfolding e by (rule rquantize_mono [OF x(2)])
  have "dval e = of_int (coeff e) / 10 ^ scale"
    using quantize_expn [OF q] by (simp add: dval_def div_pow10)
  moreover have "0 \<le> coeff e" using n by (simp add: dval_nonneg_iff)
  ultimately show "\<exists>k. 0 \<le> k \<and> dval e = of_int k / 10 ^ scale" by blast
qed

subsection \<open>Properties\<close>

lemma reserve_result:
  assumes "calculate_risk_reserve items policy = Inr r" "risk_rounding (rp_rounding_mode policy) = Inr mode"
  shows "rc_findings r = model_findings items policy
      @ map (\<lambda>i. risk_finding ''Risk item is unverified or uses a different currency'' [ri_risk_id i])
          (filter (unusable policy) items)"
    "rc_per_risk_expected_impact r = foldl (\<lambda>m i. AList.update (ri_risk_id i)
        (projr (expected_impact mode (rp_rounding_scale policy) i)) m) [] (usable policy items)"
    "list_all (\<lambda>i. is_ok (expected_impact mode (rp_rounding_scale policy) i)) (usable policy items)"
    "quantize 28 mode (rp_rounding_scale policy) (dsum 28 (map snd (rc_per_risk_expected_impact r)))
      = Inr (rc_expected_reserve r)"
    "rc_passed r \<longleftrightarrow> \<not> list_ex (\<lambda>f. vf_severity f = Severity.BLOCKER) (rc_findings r)"
  using assms risk_fold [of policy mode "model_findings items policy" "[]" items]
  by (auto simp: calculate_risk_reserve_def bindR_eq_Inr split: prod.splits)

lemma impact_entry:
  assumes "list_all risk_item_ok items" "calculate_risk_reserve items policy = Inr r"
    "risk_rounding (rp_rounding_mode policy) = Inr mode" "(k, e) \<in> set (rc_per_risk_expected_impact r)"
  shows "\<exists>i. dict_by ri_risk_id (usable policy items) k = Some i \<and> risk_item_ok i
    \<and> expected_impact mode (rp_rounding_scale policy) i = Inr e"
proof -
  note r = reserve_result [OF assms(2,3)]
  have "distinct (map fst (rc_per_risk_expected_impact r))" unfolding r(2) by (rule fold_update(2)) simp
  then have "map_of (rc_per_risk_expected_impact r) k = Some e" using assms(4) by simp
  then obtain i where i: "dict_by ri_risk_id (usable policy items) k = Some i"
    and e: "projr (expected_impact mode (rp_rounding_scale policy) i) = e"
    unfolding r(2) fold_update(1) by (auto split: option.splits)
  then have "i \<in> set (usable policy items)" by (auto dest: dict_by_Some)
  with r(3) assms(1) e i show ?thesis
    by (auto simp: list_all_iff is_ok_iff usable_def)
qed

lemma grid_sum:
  "\<forall>x \<in> set xs. \<exists>k. 0 \<le> k \<and> dval x = of_int k / 10 ^ s \<Longrightarrow> \<exists>k. sum_list (map dval xs) = of_int k / 10 ^ s"
proof (induction xs)
  case Nil
  show ?case by (rule exI [of _ 0]) simp
next
  case (Cons x xs)
  then obtain k l where "dval x = of_int k / 10 ^ s" "sum_list (map dval xs) = of_int l / 10 ^ s" by auto
  then show ?case by (intro exI [of _ "k + l"]) (simp add: add_divide_distrib)
qed

lemma risk_reserve_sum:
  assumes "list_all risk_item_ok items" "calculate_risk_reserve items policy = Inr r"
    "risk_rounding (rp_rounding_mode policy) = Inr mode"
  shows "dval (rc_expected_reserve r) = sum_list (map (\<lambda>(k, e). dval e) (rc_per_risk_expected_impact r))"
proof -
  note r = reserve_result [OF assms(2,3)]
  let ?s = "rp_rounding_scale policy" and ?es = "map snd (rc_per_risk_expected_impact r)"
  have g: "\<forall>x \<in> set ?es. \<exists>k. 0 \<le> k \<and> dval x = of_int k / 10 ^ ?s"
    using impact_entry [OF assms] expected_impact_bounds(3) by fastforce
  have z: "\<exists>k. 0 \<le> k \<and> dval d_zero = of_int k / 10 ^ ?s" by (rule exI [of _ 0]) simp
  have q: "dval (rc_expected_reserve r) = rquantize mode ?s (dval (dsum 28 ?es))" by (rule quantize_dval [OF r(4)])
  have "\<not> pow10 (int 28 - int ?s) \<le> dval (dsum 28 ?es)"
  proof
    assume "pow10 (int 28 - int ?s) \<le> dval (dsum 28 ?es)"
    then have "rquantize mode ?s (pow10 (int 28 - int ?s)) \<le> dval (rc_expected_reserve r)"
      unfolding q by (rule rquantize_mono)
    moreover have "pow10 (int 28 - int ?s) * 10 ^ ?s = of_int (10 ^ 28)"
      by (simp add: power_int_diff)
    ultimately have "pow10 (int 28 - int ?s) \<le> dval (rc_expected_reserve r)"
      using rquantize_of_multiple by metis
    moreover have "dval (rc_expected_reserve r) = of_int (coeff (rc_expected_reserve r)) * pow10 (- int ?s)"
      "\<bar>coeff (rc_expected_reserve r)\<bar> < 10 ^ 28" using quantize_expn [OF r(4)] by (simp_all add: dval_def)
    moreover have "pow10 (int 28 - int ?s) = of_int (10 ^ 28) * pow10 (- int ?s)"
      by (simp add: power_int_diff power_int_minus divide_inverse)
    ultimately have "(10 ^ 28 :: int) \<le> coeff (rc_expected_reserve r)"
      by (metis mult_right_le_imp_le of_int_le_iff pow10_pos)
    then show False using \<open>\<bar>coeff (rc_expected_reserve r)\<bar> < 10 ^ 28\<close> by linarith
  qed
  then have sum: "dval (dsum 28 ?es) = sum_list (map dval ?es)"
    using sum_exact_or_large [OF g z, of 28] by (simp add: dsum_def)
  from grid_sum [OF g] obtain k where "sum_list (map dval ?es) = of_int k / 10 ^ ?s" by blast
  then have "rquantize mode ?s (sum_list (map dval ?es)) = sum_list (map dval ?es)"
    by (intro rquantize_of_multiple [of _ _ k]) simp
  then show ?thesis by (simp add: q sum comp_def case_prod_unfold)
qed

text \<open>C15. The risk reserve is what it says.  When \<open>calculate_risk_reserve\<close> returns, the reserve is
  exactly the sum of the recorded expected impacts (the 28-digit additions lose nothing: a sum too
  large to be exact is refused), the recorded impacts are those of the last usable item of every
  risk id, and the result passes exactly when the method is the implemented one and every item is
  verified, uncorrelated and in the policy's currency.\<close>

theorem risk_reserve_exact:
  assumes "list_all risk_item_ok items" "calculate_risk_reserve items policy = Inr r"
    "risk_rounding (rp_rounding_mode policy) = Inr mode"
  shows "dval (rc_expected_reserve r) = sum_list (map (\<lambda>(k, e). dval e) (rc_per_risk_expected_impact r))
    \<and> map_of (rc_per_risk_expected_impact r) k
      = map_option (\<lambda>i. projr (expected_impact mode (rp_rounding_scale policy) i))
          (dict_by ri_risk_id (usable policy items) k)
    \<and> (rc_passed r \<longleftrightarrow> rp_method policy = ''THREE_POINT_EXPECTED_VALUE'' \<and> usable policy items = items)"
proof (intro conjI risk_reserve_sum [OF assms])
  note r = reserve_result [OF assms(2,3)]
  show "map_of (rc_per_risk_expected_impact r) k
      = map_option (\<lambda>i. projr (expected_impact mode (rp_rounding_scale policy) i))
          (dict_by ri_risk_id (usable policy items) k)"
    unfolding r(2) fold_update(1) by (simp split: option.split)
  have "f \<in> set (rc_findings r) \<Longrightarrow> vf_severity f = Severity.BLOCKER" for f
    unfolding r(1) by (auto simp: model_findings_def risk_finding_def split: if_splits)
  then have passed: "rc_passed r \<longleftrightarrow> rc_findings r = []"
    unfolding r(5) list_ex_iff by (metis ex_in_conv set_empty)
  have "usable policy items = items \<longleftrightarrow> filter (unusable policy) items = []"
    by (auto simp: usable_def filter_id_conv filter_empty_conv)
  moreover have "list_ex ri_correlated items \<Longrightarrow> filter (unusable policy) items \<noteq> []"
    by (auto simp: list_ex_iff filter_empty_conv unusable_def)
  ultimately show "rc_passed r \<longleftrightarrow> rp_method policy = ''THREE_POINT_EXPECTED_VALUE'' \<and> usable policy items = items"
    unfolding passed r(1) by (auto simp: model_findings_def)
qed

text \<open>The reserve is bounded by the worst case: no recorded impact is negative or above the
  rounded maximum impact of its item, so the reserve is at most the sum of those maxima.\<close>

theorem risk_reserve_bounded:
  assumes "list_all risk_item_ok items" "calculate_risk_reserve items policy = Inr r"
    "risk_rounding (rp_rounding_mode policy) = Inr mode"
  shows "0 \<le> dval (rc_expected_reserve r)
    \<and> dval (rc_expected_reserve r)
      \<le> sum_list (map (\<lambda>(k, e). case dict_by ri_risk_id (usable policy items) k of None \<Rightarrow> 0
          | Some i \<Rightarrow> rquantize mode (rp_rounding_scale policy) (dval (ri_impact_max i))) (rc_per_risk_expected_impact r))"
proof -
  have s: "dval (rc_expected_reserve r) = sum_list (map (\<lambda>(k, e). dval e) (rc_per_risk_expected_impact r))"
    using risk_reserve_sum [OF assms] .
  have b: "0 \<le> dval e \<and> dval e \<le> (case dict_by ri_risk_id (usable policy items) k of None \<Rightarrow> 0
          | Some i \<Rightarrow> rquantize mode (rp_rounding_scale policy) (dval (ri_impact_max i)))"
    if "(k, e) \<in> set (rc_per_risk_expected_impact r)" for k e
    using impact_entry [OF assms that] expected_impact_bounds(1,2) by auto
  have "0 \<le> sum_list (map (\<lambda>(k, e). dval e) (rc_per_risk_expected_impact r))"
    by (rule sum_list_nonneg) (use b in auto)
  then show ?thesis unfolding s using b by (auto intro!: sum_list_mono)
qed

subsection \<open>A concrete risk register\<close>

definition ex_risk :: "string \<Rightarrow> decimal \<Rightarrow> decimal \<Rightarrow> decimal \<Rightarrow> decimal \<Rightarrow> risk_item" where
  "ex_risk i p lo likely hi = \<lparr>ri_risk_id = i, ri_description = ''risk'', ri_probability = p, ri_impact_min = lo,
     ri_impact_most_likely = likely, ri_impact_max = hi, ri_currency = ''RUB'', ri_observation_ids = [''obs-1''],
     ri_status = VerificationStatus.VERIFIED, ri_correlated = False, ri_correlation_group = None,
     ri_mitigation_cost_input_id = None\<rparr>"

definition ex_risks :: "risk_item list" where
  "ex_risks = [ex_risk ''delay'' (Dec 25 (-2)) (Dec 100 0) (Dec 200 0) (Dec 300 0),
     ex_risk ''flood'' (Dec 5 (-1)) (Dec 10 0) (Dec 20 0) (Dec 30 0)]"

definition ex_risk_policy :: risk_policy where
  "ex_risk_policy = \<lparr>rp_method = ''THREE_POINT_EXPECTED_VALUE'', rp_currency = ''RUB'',
     rp_correlation_model_version_id = None, rp_rounding_scale = 2, rp_rounding_mode = ''ROUND_HALF_UP'',
     rp_policy_version = ''risk-1''\<rparr>"

definition ex_reserve :: risk_calculation where
  "ex_reserve = projr (calculate_risk_reserve ex_risks ex_risk_policy)"

lemma ex_risks_ok: "list_all risk_item_ok ex_risks"
  by (simp add: ex_risks_def ex_risk_def risk_item_ok_def impacts_are_ordered_def dec_eval)

lemma ex_reserved:
  "calculate_risk_reserve ex_risks ex_risk_policy = Inr ex_reserve"
  "risk_rounding (rp_rounding_mode ex_risk_policy) = Inr ROUND_HALF_UP"
  "rc_passed ex_reserve" "rc_expected_reserve ex_reserve = Dec 6000 (-2)"
  unfolding ex_reserve_def by code_simp+

theorem risk_reserve_exact_witness:
  "dval (rc_expected_reserve ex_reserve) = 60
    \<and> sum_list (map (\<lambda>(k, e). dval e) (rc_per_risk_expected_impact ex_reserve)) = 60
    \<and> usable ex_risk_policy ex_risks = ex_risks"
  using risk_reserve_exact [OF ex_risks_ok ex_reserved(1,2), of "''delay''"] ex_reserved(3,4)
  by (simp add: dval_Dec power_int_minus)

theorem risk_reserve_bounded_witness:
  "dval (rc_expected_reserve ex_reserve)
    \<le> sum_list (map (\<lambda>(k, e). case dict_by ri_risk_id (usable ex_risk_policy ex_risks) k of None \<Rightarrow> 0
          | Some i \<Rightarrow> rquantize ROUND_HALF_UP (rp_rounding_scale ex_risk_policy) (dval (ri_impact_max i)))
        (rc_per_risk_expected_impact ex_reserve))"
  using risk_reserve_bounded [OF ex_risks_ok ex_reserved(1,2)] by simp

end
