(* ===== verification/TG_Approvals.thy ===== *)
theory TG_Approvals
  imports TG_Models
begin

text \<open>
  \<open>domain/approvals.py\<close>: the plan of expert approvals a policy requires for the subjects of a
  project.  \<open>sorted(subject.reasons, key=value)\<close> is the sorted list of the set, and
  \<open>{rule.reason: rule for rule in rules}\<close> keeps the last rule of a reason.
\<close>

definition DEDICATED_APPROVAL_TASK_TYPES :: "string fset" where
  "DEDICATED_APPROVAL_TASK_TYPES = {|''CONFLICT_RESOLUTION'', ''MANUAL_EVIDENCE_REVIEW'', ''PASSPORT_FACT_REVIEW'',
     ''CONTRACT_TERM_REVIEW'', ''RISK_ITEM_REVIEW'', ''ACTUAL_FACT_REVIEW'', ''VARIANCE_CLASSIFICATION_REVIEW'',
     ''CALIBRATION_EXAMPLE_REVIEW''|}"

record approval_subject =
  as_entity_type :: string
  as_entity_id :: string
  as_reasons :: "ApprovalReason fset"
  as_monetary_value :: "decimal option"
  as_project_total :: "decimal option"
  as_price_spread :: "decimal option"
  as_reserve_share :: "decimal option"
  as_profit_impact_share :: "decimal option"

record approval_rule =
  ar_reason :: ApprovalReason
  ar_assigned_role :: ActorRole
  ar_threshold :: "decimal option"
  ar_threshold_kind :: "string option"
  ar_required :: bool











subsection \<open>The plan as two filters\<close>

definition plan_pairs :: "approval_subject list \<Rightarrow> (approval_subject \<times> ApprovalReason) list" where
  "plan_pairs subjects = concat (map (\<lambda>s. map (Pair s) (sorted_list_of_fset (as_reasons s))) subjects)"






lemma set_plan_pairs: "(s, r) \<in> set (plan_pairs subjects) \<longleftrightarrow> s \<in> set subjects \<and> r |\<in>| as_reasons s"
  by (auto simp: plan_pairs_def)







subsection \<open>A concrete plan\<close>



end
