(* ===== verification/TG_Scenarios.thy ===== *)
theory TG_Scenarios
  imports TG_Calculation_Spec
begin

text \<open>
  \<open>domain/scenarios.py\<close>: what-if scenarios over the atomic cost inputs of a base calculation, run
  through both engines of \<open>domain/calculation.py\<close>.
\<close>

subsection \<open>Records and validators\<close>

record scenario_override =
  so_cost_input_id :: string
  so_quantity :: "decimal option"
  so_unit_rate :: "decimal option"
  so_factor_values :: "(string \<times> decimal) list"
  so_evidence_or_assumption_id :: string
  so_reason :: string

definition changes_something :: "scenario_override \<Rightarrow> scenario_override result" where
  "changes_something v =
     (if so_quantity v = None \<and> so_unit_rate v = None \<and> so_factor_values v = []
      then Inl (ValueError ''Scenario override does not change any input'')
      else if list_ex (\<lambda>(k, x). dle x d_zero) (so_factor_values v)
      then Inl (ValueError ''Scenario factors must be positive'') else Inr v)"

record scenario_definition =
  sd_scenario_id :: string
  sd_scenario_version :: string
  sd_name :: string
  sd_overrides :: "scenario_override list"

definition override_targets_are_unique :: "scenario_definition \<Rightarrow> scenario_definition result" where
  "override_targets_are_unique d =
     (let targets = map so_cost_input_id (sd_overrides d)
      in if length targets \<noteq> card (set targets)
         then Inl (ValueError ''Scenario contains duplicate cost-input overrides'') else Inr d)"


subsection \<open>Applying the overrides\<close>

definition override_factor :: "scenario_override \<Rightarrow> applied_factor \<Rightarrow> applied_factor" where
  "override_factor v f =
     (case map_of (so_factor_values v) (af_factor_id f) of
        None \<Rightarrow> f
      | Some x \<Rightarrow> f\<lparr>af_value := x, af_evidence_or_rule_id := so_evidence_or_assumption_id v\<rparr>)"




subsection \<open>What an override touches\<close>



lemma override_factor_simps [simp]:
  "af_factor_id (override_factor v f) = af_factor_id f"
  "af_value (override_factor v f) = (case map_of (so_factor_values v) (af_factor_id f) of Some x \<Rightarrow> x | None \<Rightarrow> af_value f)"
  by (simp_all add: override_factor_def split: option.split)






subsection \<open>Scenario calculations\<close>






subsection \<open>A concrete scenario\<close>



end
