(* ===== verification/TG_Dispatch.thy ===== *)
theory TG_Dispatch
  imports TG_Outbox_Lease
begin

text \<open>
  \<open>application/document_jobs.py\<close>: the dispatcher that delivers clean-upload events to the document
  processor.  The processor (\<open>DocumentProcessingService\<close>) and the worker view of an upload are
  arguments: functions from the claim to what they return or raise.
\<close>

subsection \<open>Statuses and results\<close>

datatype QuarantineStatus = QUARANTINED | CLEAN | REJECTED | SCAN_FAILED | PROCESSING | PROCESSED
  | PROCESSING_FAILED | PROCESSING_DEAD_LETTERED

datatype DispatchDisposition = Processed | RetryScheduled | DeadLettered | Idle

record upload_view =
  uv_upload_id :: string
  uv_project_id :: string
  uv_status :: QuarantineStatus
  uv_failure_code :: "string option"

record dispatch_result =
  dp_disposition :: DispatchDisposition
  dp_outbox_event_id :: "string option"
  dp_upload :: "upload_view option"
  dp_error_code :: "string option"

record upload_row =
  qu_id :: string
  qu_project_id :: string
  qu_organization_id :: string

text \<open>What a call returned, or the class of what it raised.\<close>

datatype call_outcome = Returned upload_view | RaisedValueError | RaisedLookupError | RaisedOther

record document_worker =
  dw_actor_id :: "string option"
  dw_process :: "outbox_claim \<Rightarrow> call_outcome"
  dw_dead_letter :: "outbox_claim \<Rightarrow> string \<Rightarrow> call_outcome"
  dw_view :: "upload_row \<Rightarrow> upload_view"

definition DOCUMENT_INTAKE_TOPIC :: string where
  "DOCUMENT_INTAKE_TOPIC = ''document.upload.scan-clean''"

definition worker_actor :: "document_worker \<Rightarrow> string result" where
  "worker_actor w = (if \<not> str_true (dw_actor_id w) then Inl (ValueError ''Document worker actor is not configured'')
     else Inr (the (dw_actor_id w)))"

definition dispatch_error_code :: "call_outcome \<Rightarrow> string" where
  "dispatch_error_code oc = (case oc of RaisedValueError \<Rightarrow> ''DOCUMENT_JOB_VALIDATION_FAILED''
     | RaisedLookupError \<Rightarrow> ''DOCUMENT_JOB_TARGET_NOT_FOUND'' | _ \<Rightarrow> ''DOCUMENT_JOB_HANDLER_FAILED'')"

definition upload_for_claim :: "upload_row list \<Rightarrow> outbox_claim \<Rightarrow> upload_row option" where
  "upload_for_claim uploads c =
     (case (map_of (oc_payload c) ''upload_id'', map_of (oc_payload c) ''project_id'') of
        (Some (PStr u), Some (PStr pr)) \<Rightarrow>
          if u \<noteq> oc_aggregate_id c then None
          else find (\<lambda>r. qu_id r = u \<and> qu_project_id r = pr) uploads
      | _ \<Rightarrow> None)"

subsection \<open>Settling a delivery\<close>

text \<open>\<open>_reject\<close> and \<open>_acknowledge\<close>: each in a transaction of its own, at the time \<open>t\<close>.\<close>

definition dispatch_outcome :: "DispatchDisposition \<Rightarrow> outbox_claim \<Rightarrow> upload_view option \<Rightarrow> string option \<Rightarrow> dispatch_result" where
  "dispatch_outcome d c upload code = \<lparr>dp_disposition = d, dp_outbox_event_id = Some (oc_event_id c),
     dp_upload = upload, dp_error_code = code\<rparr>"

definition settle_processing_error :: "delivery_policy \<Rightarrow> document_worker \<Rightarrow> outbox_claim \<Rightarrow> string \<Rightarrow> upload_view option
    \<Rightarrow> int \<Rightarrow> outbox_event list \<Rightarrow> (dispatch_result \<times> outbox_event list) result" where
  "settle_processing_error p w claim code current_result t events =
     (if oc_delivery_attempt claim \<ge> dp_max_attempts p
      then (case dw_dead_letter w claim code of
          RaisedValueError \<Rightarrow>
            bindR (reject p claim ''DOCUMENT_DEAD_LETTER_STATE_INVALID'' True True t t events) (\<lambda>(s, events).
              Inr (dispatch_outcome DeadLettered claim None (Some ''DOCUMENT_DEAD_LETTER_STATE_INVALID''), events))
        | Returned result \<Rightarrow>
            bindR (reject p claim code True True t t events) (\<lambda>(s, events).
              Inr (dispatch_outcome DeadLettered claim (Some result) (Some code), events))
        | _ \<Rightarrow>
            bindR (reject p claim ''DOCUMENT_DEAD_LETTER_PERSISTENCE_FAILED'' False False t t events) (\<lambda>(s, events).
              Inr (dispatch_outcome RetryScheduled claim None (Some ''DOCUMENT_DEAD_LETTER_PERSISTENCE_FAILED''), events)))
      else bindR (reject p claim code False True t t events) (\<lambda>(settlement, events).
        Inr (dispatch_outcome (if os_dead_lettered settlement then DeadLettered else RetryScheduled) claim
               current_result (Some code), events)))"

definition or_code :: "string option \<Rightarrow> string \<Rightarrow> string" where
  "or_code c d = (if str_true c then the c else d)"

definition settle_result :: "delivery_policy \<Rightarrow> document_worker \<Rightarrow> outbox_claim \<Rightarrow> call_outcome
    \<Rightarrow> int \<Rightarrow> outbox_event list \<Rightarrow> (dispatch_result \<times> outbox_event list) result" where
  "settle_result p w claim oc t events =
     (case oc of
        Returned result \<Rightarrow>
          if uv_status result = PROCESSED
          then bindR (acknowledge claim t t events) (\<lambda>(s, events).
                 Inr (dispatch_outcome Processed claim (Some result) None, events))
          else if uv_status result = PROCESSING_DEAD_LETTERED
          then bindR (reject p claim (or_code (uv_failure_code result) ''DOCUMENT_PROCESSING_DEAD_LETTERED'') True True t t events)
                 (\<lambda>(s, events). Inr (dispatch_outcome DeadLettered claim (Some result) (uv_failure_code result), events))
          else settle_processing_error p w claim (or_code (uv_failure_code result) ''DOCUMENT_PROCESSING_INCOMPLETE'')
                 (Some result) t events
      | raised \<Rightarrow> settle_processing_error p w claim (dispatch_error_code raised) None t events)"

definition idle_result :: "document_worker \<Rightarrow> upload_row list \<Rightarrow> string option \<Rightarrow> dispatch_result result" where
  "idle_result w uploads upload_id =
     (case upload_id of
        None \<Rightarrow> Inr \<lparr>dp_disposition = Idle, dp_outbox_event_id = None, dp_upload = None, dp_error_code = None\<rparr>
      | Some u \<Rightarrow> (case find (\<lambda>r. qu_id r = u) uploads of
          None \<Rightarrow> Inr \<lparr>dp_disposition = Idle, dp_outbox_event_id = None, dp_upload = None,
                       dp_error_code = Some ''DOCUMENT_UPLOAD_NOT_FOUND''\<rparr>
        | Some upload \<Rightarrow> bindR (worker_actor w) (\<lambda>_.
            let view = dw_view w upload in
            Inr \<lparr>dp_disposition = (if uv_status view = PROCESSED then Processed
                     else if uv_status view = PROCESSING_DEAD_LETTERED then DeadLettered else Idle),
                 dp_outbox_event_id = None, dp_upload = Some view, dp_error_code = uv_failure_code view\<rparr>)))"

text \<open>One delivery: claimed at \<open>claimed_at\<close>, settled at \<open>settled_at\<close>.  When it raises after the claim,
  the claim stays committed; \<open>dispatch_next\<close> returns what the caller sees and the table it leaves.\<close>

definition deliver_claim :: "delivery_policy \<Rightarrow> document_worker \<Rightarrow> upload_row list \<Rightarrow> outbox_claim \<Rightarrow> int
    \<Rightarrow> outbox_event list \<Rightarrow> (dispatch_result \<times> outbox_event list) result" where
  "deliver_claim p w uploads claim settled_at events =
     (case upload_for_claim uploads claim of
        None \<Rightarrow> bindR (reject p claim ''DOCUMENT_JOB_PAYLOAD_INVALID'' True True settled_at settled_at events)
          (\<lambda>(s, events). Inr (dispatch_outcome DeadLettered claim None (Some ''DOCUMENT_JOB_PAYLOAD_INVALID''), events))
      | Some upload \<Rightarrow> bindR (worker_actor w) (\<lambda>actor.
          settle_result p w claim (dw_process w claim) settled_at events))"

definition dispatch_next :: "delivery_policy \<Rightarrow> document_worker \<Rightarrow> upload_row list \<Rightarrow> string \<Rightarrow> string option
    \<Rightarrow> (string \<Rightarrow> bool) \<Rightarrow> string \<Rightarrow> int \<Rightarrow> int \<Rightarrow> outbox_event list \<Rightarrow> dispatch_result result \<times> outbox_event list" where
  "dispatch_next p w uploads worker_id upload_id locked uuid claimed_at settled_at events =
     (case claim_next p [DOCUMENT_INTAKE_TOPIC] worker_id upload_id locked uuid claimed_at events of
        Inl e \<Rightarrow> (Inl e, events)
      | Inr (None, events) \<Rightarrow> (idle_result w uploads upload_id, events)
      | Inr (Some claim, events) \<Rightarrow>
          (case deliver_claim p w uploads claim settled_at events of
             Inl e \<Rightarrow> (Inl e, events) | Inr (r, events) \<Rightarrow> (Inr r, events)))"

subsection \<open>Settling a live claim\<close>

lemma find_row: "distinct (map oe_id es) \<Longrightarrow> row \<in> set es \<Longrightarrow> find (\<lambda>e. oe_id e = oe_id row) es = Some row"
  by (induction es) (auto simp: image_iff)

text \<open>A claim that holds the lease of a row of the table.\<close>

definition live_claim :: "outbox_event list \<Rightarrow> outbox_event \<Rightarrow> outbox_claim \<Rightarrow> int \<Rightarrow> bool" where
  "live_claim es row c t \<longleftrightarrow> distinct (map oe_id es) \<and> row \<in> set es \<and> oe_id row = oc_event_id c
     \<and> \<not> is_terminal row \<and> holds_lease row c \<and> t < oc_lease_expires_at c \<and> oe_attempts row = oc_delivery_attempt c"

lemma live_row:
  assumes "live_claim es row c t"
  shows "locked_event (oc_event_id c) es = Inr row" "require_owner row c t = Inr ()"
    "oe_published_at row = None" "oe_dead_lettered_at row = None"
  using assms find_row [of es row] by (auto simp: live_claim_def locked_event_def require_owner_Inr is_terminal_def)

lemma acknowledge_live:
  "live_claim es row c t \<Longrightarrow> acknowledge c t t es =
    Inr (\<lparr>os_event_id = oe_id row, os_dead_lettered = False, os_next_available_at = None\<rparr>,
      update_event (oe_id row) (\<lambda>e. clear_lease (e\<lparr>oe_published_at := Some t\<rparr>)) es)"
  by (simp add: acknowledge_def live_row Let_def)

lemma reject_live:
  assumes "live_claim es row c t"
  shows "reject p c code force allow t t es = bindR (error_code code) (\<lambda>code'.
    let dl = dead_letters p force allow row; nx = t + seconds (retry_delay p (oe_attempts row)) in
    Inr (\<lparr>os_event_id = oe_id row, os_dead_lettered = dl, os_next_available_at = (if dl then None else Some nx)\<rparr>,
      update_event (oe_id row) (reject_event code' dl t nx) es))"
  using live_row [OF assms] by (simp add: reject_def)

text \<open>The row a delivery leaves, by its disposition.\<close>

definition settled_as :: "delivery_policy \<Rightarrow> DispatchDisposition \<Rightarrow> int \<Rightarrow> int \<Rightarrow> outbox_event \<Rightarrow> bool" where
  "settled_as p d t attempts e \<longleftrightarrow> unleased e \<and> oe_attempts e = attempts \<and>
     (case d of Processed \<Rightarrow> oe_published_at e = Some t \<and> oe_dead_lettered_at e = None
      | DeadLettered \<Rightarrow> oe_dead_lettered_at e = Some t \<and> oe_published_at e = None
      | RetryScheduled \<Rightarrow> \<not> is_terminal e \<and> oe_available_at e = t + seconds (retry_delay p attempts)
      | Idle \<Rightarrow> False)"

lemma update_event_row:
  assumes "distinct (map oe_id es)" "row \<in> set es"
  shows "update_event (oe_id row) f es = update_event (oe_id row) (\<lambda>_. f row) es"
  unfolding update_event_def using same_row [OF assms] by (intro map_cong) auto

lemma settled_acknowledge:
  assumes "live_claim es row c t"
  shows "acknowledge c t t es = Inr (s, es') \<Longrightarrow>
    \<exists>e'. es' = update_event (oe_id row) (\<lambda>_. e') es \<and> oe_id e' = oe_id row \<and> settled_as p Processed t (oe_attempts row) e'"
proof -
  let ?f = "\<lambda>e. clear_lease (e\<lparr>oe_published_at := Some t\<rparr>)"
  have "settled_as p Processed t (oe_attempts row) (?f row)" "oe_id (?f row) = oe_id row"
    using live_row [OF assms] by (simp_all add: settled_as_def clear_lease_def unleased_def)
  moreover assume "acknowledge c t t es = Inr (s, es')"
  then have "es' = update_event (oe_id row) ?f es" by (simp add: acknowledge_live [OF assms])
  ultimately show ?thesis using update_event_row [of es row ?f] assms by (auto simp: live_claim_def)
qed

lemma settled_reject:
  assumes "live_claim es row c t" "reject p c code force allow t t es = Inr (s, es')"
  shows "os_dead_lettered s = dead_letters p force allow row \<and> (\<exists>e'. es' = update_event (oe_id row) (\<lambda>_. e') es
    \<and> oe_id e' = oe_id row
    \<and> settled_as p (if dead_letters p force allow row then DeadLettered else RetryScheduled) t (oe_attempts row) e')"
proof -
  from assms(2) obtain code' where s: "os_dead_lettered s = dead_letters p force allow row"
    and es: "es' = update_event (oe_id row) (reject_event code' (dead_letters p force allow row) t
      (t + seconds (retry_delay p (oe_attempts row)))) es"
    by (auto simp: reject_live [OF assms(1)] bindR_eq_Inr Let_def)
  let ?f = "reject_event code' (dead_letters p force allow row) t (t + seconds (retry_delay p (oe_attempts row)))"
  have "settled_as p (if dead_letters p force allow row then DeadLettered else RetryScheduled) t (oe_attempts row) (?f row)"
    "oe_id (?f row) = oe_id row"
    using live_row [OF assms(1)]
    by (simp_all add: settled_as_def reject_event_def clear_lease_def unleased_def is_terminal_def)
  then show ?thesis using s es update_event_row [of es row ?f] assms(1) by (auto simp: live_claim_def)
qed

text \<open>Every way a delivery can end: the disposition it reports is the state it leaves.\<close>

definition settled :: "delivery_policy \<Rightarrow> outbox_claim \<Rightarrow> outbox_event list \<Rightarrow> outbox_event \<Rightarrow> int
    \<Rightarrow> dispatch_result \<Rightarrow> outbox_event list \<Rightarrow> bool" where
  "settled p c es row t r es' \<longleftrightarrow> dp_outbox_event_id r = Some (oc_event_id c)
     \<and> (\<exists>e'. es' = update_event (oe_id row) (\<lambda>_. e') es \<and> oe_id e' = oe_id row
          \<and> settled_as p (dp_disposition r) t (oe_attempts row) e')"

lemma settledI:
  assumes "live_claim es row c t"
  shows "acknowledge c t t es = Inr (s, es') \<Longrightarrow> settled p c es row t (dispatch_outcome Processed c u code) es'"
    "reject p c code' True allow t t es = Inr (s, es') \<Longrightarrow> settled p c es row t (dispatch_outcome DeadLettered c u code) es'"
    "reject p c code' False False t t es = Inr (s, es') \<Longrightarrow> settled p c es row t (dispatch_outcome RetryScheduled c u code) es'"
    "reject p c code' False True t t es = Inr (s, es') \<Longrightarrow> os_dead_lettered s
      \<Longrightarrow> settled p c es row t (dispatch_outcome DeadLettered c u code) es'"
    "reject p c code' False True t t es = Inr (s, es') \<Longrightarrow> \<not> os_dead_lettered s
      \<Longrightarrow> settled p c es row t (dispatch_outcome RetryScheduled c u code) es'"
  using settled_acknowledge [OF assms] settled_reject [OF assms]
  by (fastforce simp: settled_def dispatch_outcome_def dead_letters_def)+

lemma dispatch_outcome_eq [simp]:
  "dispatch_outcome d c u x = dispatch_outcome d' c u' x' \<longleftrightarrow> d = d' \<and> u = u' \<and> x = x'"
  by (auto simp: dispatch_outcome_def)

lemma settle_processing_error_settled:
  assumes "live_claim es row c t" "settle_processing_error p w c code u t es = Inr (r, es')"
  shows "settled p c es row t r es'"
    "oc_delivery_attempt c < dp_max_attempts p \<Longrightarrow> dp_disposition r = RetryScheduled"
    "dp_max_attempts p \<le> oc_delivery_attempt c \<Longrightarrow> dw_dead_letter w c code \<notin> {RaisedLookupError, RaisedOther}
      \<Longrightarrow> dp_disposition r = DeadLettered"
proof -
  show "settled p c es row t r es'"
    using assms(2) by (auto simp: settle_processing_error_def bindR_eq_Inr split: if_splits call_outcome.splits
        intro: settledI [OF assms(1)])
  have "dead_letters p False True row \<longleftrightarrow> dp_max_attempts p \<le> oc_delivery_attempt c"
    using assms(1) by (simp add: dead_letters_def live_claim_def)
  then show "dp_disposition r = RetryScheduled" if "oc_delivery_attempt c < dp_max_attempts p"
    using assms(2) that settled_reject [OF assms(1), of p code False True]
    by (auto simp: settle_processing_error_def bindR_eq_Inr dispatch_outcome_def)
  show "dp_disposition r = DeadLettered" if "dp_max_attempts p \<le> oc_delivery_attempt c"
      "dw_dead_letter w c code \<notin> {RaisedLookupError, RaisedOther}"
    using assms(2) that
    by (auto simp: settle_processing_error_def bindR_eq_Inr dispatch_outcome_def split: call_outcome.splits)
qed

lemma deliver_claim_settled:
  assumes "live_claim es row c t" "deliver_claim p w uploads c t es = Inr (r, es')"
  shows "settled p c es row t r es'"
  using assms(2)
  by (auto simp: deliver_claim_def settle_result_def bindR_eq_Inr
      split: option.splits call_outcome.splits if_splits
      intro: settledI [OF assms(1)] settle_processing_error_settled(1) [OF assms(1)])

subsection \<open>One dispatch\<close>




lemma update_event_twice:
  "(\<And>e. oe_id (f e) = oe_id e) \<Longrightarrow> update_event i (\<lambda>_. e') (update_event i f es) = update_event i (\<lambda>_. e') es"
  by (simp add: update_event_def)

lemma claimed_live:
  assumes "claim_next p topics worker aggregate locked uuid now es = Inr (Some c, es1)" "distinct (map oe_id es)"
    "t < now + seconds (dp_lease_seconds p)"
  shows "\<exists>row f. row \<in> set es \<and> (\<forall>e. oe_id (f e) = oe_id e) \<and> es1 = update_event (oe_id row) f es
    \<and> oe_attempts (f row) = oe_attempts row + 1 \<and> \<not> lease_is_free (f row) t
    \<and> oc_event_id c = oe_id row \<and> oc_delivery_attempt c = oe_attempts row + 1 \<and> live_claim es1 (f row) c t"
proof -
  from claim_next_Some [OF assms(1)] obtain row w ts a where row: "row \<in> set es"
    and cl: "claimable ts a locked now row" and c: "c = claim_of p w (lease_token uuid) now row"
      "es1 = update_event (oe_id row) (lease_event p w (lease_token uuid) now) es" by blast
  let ?f = "lease_event p w (lease_token uuid) now"
  have i: "oe_id (?f e) = oe_id e" for e by (simp add: lease_event_def)
  have "map oe_id es1 = map oe_id es" unfolding c(2) by (rule update_event_ids [OF i])
  moreover have "?f row \<in> set es1" using row by (auto simp: c(2) in_update_event)
  ultimately have "live_claim es1 (?f row) c t"
    using assms(2,3) cl by (auto simp: live_claim_def lease_event_def c(1) claim_of_def holds_lease_def is_terminal_def claimable_def)
  moreover have "\<not> lease_is_free (?f row) t" using assms(3) by (simp add: lease_is_free_def lease_event_def)
  ultimately show ?thesis
    using row i c by (intro exI [of _ row] exI [of _ ?f]) (auto simp: lease_event_def claim_of_def)
qed

text \<open>C22. A dispatch leaves the event the way it says.  When a delivery is settled within its lease,
  exactly one event changes, its attempts grow by one, its lease is cleared, and it is published,
  dead-lettered or rescheduled with the policy's back-off according to the disposition reported.\<close>

theorem dispatch_settles:
  assumes "distinct (map oe_id es)" "settled_at < claimed_at + seconds (dp_lease_seconds p)"
    "dispatch_next p w uploads worker upload_id locked uuid claimed_at settled_at es = (Inr r, es')"
    "dp_outbox_event_id r = Some i"
  shows "\<exists>e e'. e \<in> set es \<and> oe_id e = i \<and> oe_id e' = i \<and> es' = update_event i (\<lambda>_. e') es
    \<and> settled_as p (dp_disposition r) settled_at (oe_attempts e + 1) e'"
proof -
  have idle: "idle_result w uploads upload_id = Inr r \<Longrightarrow> dp_outbox_event_id r = None"
    by (auto simp: idle_result_def bindR_eq_Inr Let_def split: option.splits)
  from assms(3,4) idle obtain c es1 where c: "claim_next p [DOCUMENT_INTAKE_TOPIC] worker upload_id locked uuid claimed_at es = Inr (Some c, es1)"
    and d: "deliver_claim p w uploads c settled_at es1 = Inr (r, es')"
    by (auto simp: dispatch_next_def split: sum.splits option.splits prod.splits)
  from claimed_live [OF c assms(1,2)] obtain row f where row: "row \<in> set es" "\<And>e. oe_id (f e) = oe_id e"
    "es1 = update_event (oe_id row) f es" "oe_attempts (f row) = oe_attempts row + 1" "oc_event_id c = oe_id row"
    and live: "live_claim es1 (f row) c settled_at" by blast
  from deliver_claim_settled [OF live d] obtain e' where e': "es' = update_event (oe_id (f row)) (\<lambda>_. e') es1"
    "oe_id e' = oe_id (f row)" "settled_as p (dp_disposition r) settled_at (oe_attempts (f row)) e'"
    and i: "dp_outbox_event_id r = Some (oc_event_id c)" by (auto simp: settled_def)
  have "es' = update_event i (\<lambda>_. e') es"
    using e'(1) assms(4) row i by (simp add: update_event_twice)
  then show ?thesis using row e' i assms(4) by (intro exI [of _ row] exI [of _ e']) simp
qed


subsection \<open>Draining the queue\<close>













subsection \<open>A concrete worker\<close>

definition ex_worker :: document_worker where
  "ex_worker = \<lparr>dw_actor_id = Some ''worker-actor'', dw_process = (\<lambda>c. RaisedValueError),
     dw_dead_letter = (\<lambda>c code. RaisedValueError),
     dw_view = (\<lambda>r. \<lparr>uv_upload_id = qu_id r, uv_project_id = qu_project_id r, uv_status = PROCESSED, uv_failure_code = None\<rparr>)\<rparr>"

definition ex_uploads :: "upload_row list" where
  "ex_uploads = [\<lparr>qu_id = ''u1'', qu_project_id = ''p1'', qu_organization_id = ''org''\<rparr>]"

definition ex_tried :: "outbox_event list" where
  "ex_tried = [(ex_event ''e1'')\<lparr>oe_attempts := 2\<rparr>]"

definition ex_dispatched :: "dispatch_result result \<times> outbox_event list" where
  "ex_dispatched = dispatch_next ex_delivery_policy ex_worker ex_uploads ''w1'' None (\<lambda>_. False) ''t1'' 0 1 ex_tried"

lemma ex_dispatch:
  "dispatch_next ex_delivery_policy ex_worker ex_uploads ''w1'' None (\<lambda>_. False) ''t1'' 0 1 ex_tried
    = (Inr (projr (fst ex_dispatched)), snd ex_dispatched)"
  "dp_outbox_event_id (projr (fst ex_dispatched)) = Some ''e1''"
  unfolding ex_dispatched_def by code_simp+

lemma ex_tried_distinct: "distinct (map oe_id ex_tried)" "(1::int) < 0 + seconds (dp_lease_seconds ex_delivery_policy)"
  by (simp_all add: ex_tried_def ex_delivery_policy_def seconds_def)

theorem dispatch_settles_witness:
  "\<exists>e e'. e \<in> set ex_tried \<and> oe_id e = ''e1'' \<and> snd ex_dispatched = update_event ''e1'' (\<lambda>_. e') ex_tried
    \<and> settled_as ex_delivery_policy (dp_disposition (projr (fst ex_dispatched))) 1 (oe_attempts e + 1) e'"
  using dispatch_settles [OF ex_tried_distinct ex_dispatch] by blast



end
