(* ===== verification/TG_Rate_Limits.thy ===== *)
theory TG_Rate_Limits
  imports TG_Json TG_Project_Store
begin

text \<open>
  Who sends a request and how many requests they may send: \<open>infrastructure/auth.py\<close>,
  \<open>application/rate_limits.py\<close> and \<open>enforce_rate_limit\<close> of \<open>api/main.py\<close>.  The verification of a
  token by the JWT library is a parameter; header names are in lower case.
\<close>

subsection \<open>Settings and requests\<close>

record api_settings =
  set_allow_insecure_dev_auth :: bool
  set_oidc_jwks_url :: "string option"
  set_oidc_audience :: "string option"
  set_oidc_issuer :: "string option"
  set_operator_access_key :: "string option"
  set_operator_actor_id :: "string option"
  set_operator_organization_id :: "string option"
  set_rate_limit_enabled :: bool
  set_identity_key_id :: "string option"
  set_identity_key :: "string option"
  set_window_seconds :: "int option"
  set_actor_read :: "int option"
  set_organization_read :: "int option"
  set_actor_mutation :: "int option"
  set_organization_mutation :: "int option"
  set_actor_upload :: "int option"
  set_organization_upload :: "int option"
  set_require_idempotency_keys :: bool
  set_max_api_request_bytes :: int

definition int_true :: "int option \<Rightarrow> bool" where
  "int_true v \<longleftrightarrow> (case v of None \<Rightarrow> False | Some n \<Rightarrow> n \<noteq> 0)"

definition distributed_rate_limit_configured :: "api_settings \<Rightarrow> bool" where
  "distributed_rate_limit_configured s \<longleftrightarrow> set_rate_limit_enabled s \<and> str_true (set_identity_key_id s)
     \<and> 32 \<le> length (case set_identity_key s of None \<Rightarrow> [] | Some k \<Rightarrow> k)
     \<and> int_true (set_window_seconds s) \<and> int_true (set_actor_read s) \<and> int_true (set_organization_read s)
     \<and> int_true (set_actor_mutation s) \<and> int_true (set_organization_mutation s)
     \<and> int_true (set_actor_upload s) \<and> int_true (set_organization_upload s)"

definition showcase_operator_access_configured :: "api_settings \<Rightarrow> bool" where
  "showcase_operator_access_configured s \<longleftrightarrow> str_true (set_operator_access_key s)
     \<and> str_true (set_operator_actor_id s) \<and> str_true (set_operator_organization_id s)"

subsection \<open>Authentication\<close>

definition split_on :: "char \<Rightarrow> string \<Rightarrow> string list" where
  "split_on c s = foldr (\<lambda>x ws. if x = c then [] # ws else (x # hd ws) # tl ws) s [[]]"

definition parse_roles :: "string \<Rightarrow> ActorRole fset" where
  "parse_roles v = fset_of_list (List.map_filter (\<lambda>item. let candidate = upper (strip item) in
     if candidate = [] then None else (case ActorRole_of candidate of Inl _ \<Rightarrow> None | Inr r \<Rightarrow> Some r))
     (split_on (CHR '','') v))"

text \<open>\<open>str(v)\<close> and \<open>bool(v)\<close> of a claim.\<close>

definition py_str :: "pyval \<Rightarrow> string" where
  "py_str v = (case v of PStr s \<Rightarrow> s | _ \<Rightarrow> repr_value v)"

definition py_true :: "pyval \<Rightarrow> bool" where
  "py_true v \<longleftrightarrow> (case v of PNone \<Rightarrow> False | PBool b \<Rightarrow> b | PInt n \<Rightarrow> n \<noteq> 0 | PDec d \<Rightarrow> coeff d \<noteq> 0
     | PFloat q \<Rightarrow> q \<noteq> 0 | PStr s \<Rightarrow> s \<noteq> [] | PList vs \<Rightarrow> vs \<noteq> [] | PSet vs \<Rightarrow> vs \<noteq> [] | PDict kvs \<Rightarrow> kvs \<noteq> [])"

definition claim_roles :: "pyval \<Rightarrow> string result" where
  "claim_roles v = (case v of
     PList vs \<Rightarrow> bindR (mapR (\<lambda>x. case x of PStr s \<Rightarrow> Inr s | _ \<Rightarrow> Inl (TypeError ''expected str instance'')) vs)
       (\<lambda>ss. Inr (join_with '','' ss))
   | _ \<Rightarrow> Inr (py_str v))"

definition oidc_configured :: "api_settings \<Rightarrow> bool" where
  "oidc_configured s \<longleftrightarrow> str_true (set_oidc_jwks_url s) \<and> str_true (set_oidc_audience s) \<and> str_true (set_oidc_issuer s)"

text \<open>The part of \<open>authenticate\<close> after the operator key: \<open>decode\<close> is the library's verification of the
  token for audience and issuer, \<open>None\<close> when it raises.\<close>

definition authenticate_token :: "(string \<Rightarrow> string \<Rightarrow> string \<Rightarrow> (string \<times> pyval) list option) \<Rightarrow> api_settings \<Rightarrow> string \<Rightarrow> actor result" where
  "authenticate_token decode s token =
     (if \<not> oidc_configured s then Inl (HTTPException 503 ''OIDC authentication is not configured'')
      else case decode (the (set_oidc_audience s)) (the (set_oidc_issuer s)) token of
        None \<Rightarrow> Inl (HTTPException 401 ''Token validation failed'')
      | Some claims \<Rightarrow>
          let organization_id = (case map_of claims ''organization_id'' of None \<Rightarrow> PNone | Some v \<Rightarrow> v);
              raw_roles = (case map_of claims ''roles'' of None \<Rightarrow> PList [] | Some v \<Rightarrow> v)
          in if \<not> py_true organization_id then Inl (HTTPException 403 ''Token lacks organization scope'')
             else bindR (claim_roles raw_roles) (\<lambda>roles.
               case map_of claims ''sub'' of None \<Rightarrow> Inl (KeyError ''sub'')
               | Some sub \<Rightarrow> Inr \<lparr>actor_id = py_str sub, actor_organization_id = py_str organization_id,
                   actor_roles = parse_roles roles\<rparr>))"

definition authenticate :: "(string \<Rightarrow> string \<Rightarrow> string \<Rightarrow> (string \<times> pyval) list option) \<Rightarrow> api_settings
    \<Rightarrow> string option \<Rightarrow> string option \<Rightarrow> string option \<Rightarrow> string option \<Rightarrow> actor result" where
  "authenticate decode s authorization dev_actor dev_organization dev_roles =
     (if set_allow_insecure_dev_auth s then
        (if \<not> (str_true dev_actor \<and> str_true dev_organization)
         then Inl (HTTPException 401 ''Development actor and organization headers are required'')
         else Inr \<lparr>actor_id = the dev_actor, actor_organization_id = the dev_organization,
           actor_roles = parse_roles (case dev_roles of None \<Rightarrow> [] | Some r \<Rightarrow> r)\<rparr>)
      else if \<not> str_true authorization \<or> take 7 (the authorization) \<noteq> ''Bearer ''
      then Inl (HTTPException 401 ''Bearer token is required'')
      else let token = strip (drop 7 (the authorization)) in
        if showcase_operator_access_configured s \<and> token = the (set_operator_access_key s)
        then Inr \<lparr>actor_id = the (set_operator_actor_id s), actor_organization_id = the (set_operator_organization_id s),
          actor_roles = {|ActorRole.ESTIMATOR, ActorRole.TECHNICAL_EXPERT|}\<rparr>
        else if showcase_operator_access_configured s \<and> \<not> oidc_configured s
        then Inl (HTTPException 401 ''Operator access key is invalid'')
        else authenticate_token decode s token)"

subsection \<open>Quota buckets\<close>

datatype RateLimitCategory = READ | MUTATION | UPLOAD

fun category_name :: "RateLimitCategory \<Rightarrow> string" where
  "category_name READ = ''READ''"
| "category_name MUTATION = ''MUTATION''"
| "category_name UPLOAD = ''UPLOAD''"

record rate_bucket =
  rb_scope :: string
  rb_identity_hash :: string
  rb_policy_hash :: string
  rb_window_number :: int
  rb_request_count :: int
  rb_updated_at :: int

record rate_decision =
  rd_allowed :: bool
  rd_category :: RateLimitCategory
  rd_actor_limit :: int
  rd_organization_limit :: int
  rd_remaining :: int
  rd_reset_at :: int
  rd_reset_epoch_seconds :: int
  rd_retry_after_seconds :: int

definition limits_of :: "api_settings \<Rightarrow> RateLimitCategory \<Rightarrow> int \<times> int" where
  "limits_of s c = (case c of
     READ \<Rightarrow> (the (set_actor_read s), the (set_organization_read s))
   | MUTATION \<Rightarrow> (the (set_actor_mutation s), the (set_organization_mutation s))
   | UPLOAD \<Rightarrow> (the (set_actor_upload s), the (set_organization_upload s)))"

definition policy_value :: "api_settings \<Rightarrow> pyval" where
  "policy_value s = PDict [(''identity_key_id'', opt_value PStr (set_identity_key_id s)),
     (''window_seconds'', opt_value PInt (set_window_seconds s)),
     (''actor_read_requests'', opt_value PInt (set_actor_read s)),
     (''organization_read_requests'', opt_value PInt (set_organization_read s)),
     (''actor_mutation_requests'', opt_value PInt (set_actor_mutation s)),
     (''organization_mutation_requests'', opt_value PInt (set_organization_mutation s)),
     (''actor_upload_requests'', opt_value PInt (set_actor_upload s)),
     (''organization_upload_requests'', opt_value PInt (set_organization_upload s))]"

text \<open>\<open>_identity_hash\<close>: the key id, a NUL character and the identity.\<close>

definition identity_hash :: "crypto \<Rightarrow> string \<Rightarrow> string \<Rightarrow> string \<Rightarrow> string" where
  "identity_hash C key key_id identity = hmac_hex C key (key_id @ [char_of (0 :: nat)] @ identity)"

definition organization_identity :: "actor \<Rightarrow> string" where
  "organization_identity a = ''organization:'' @ actor_organization_id a"

definition actor_identity :: "actor \<Rightarrow> string" where
  "actor_identity a = organization_identity a @ [char_of (0 :: nat)] @ ''actor:'' @ actor_id a"

definition same_bucket :: "string \<Rightarrow> string \<Rightarrow> rate_bucket \<Rightarrow> bool" where
  "same_bucket scope ih r \<longleftrightarrow> rb_scope r = scope \<and> rb_identity_hash r = ih"

text \<open>The upsert: insert, or on conflict count up within the window and policy, or start a newer window;
  no row comes back when the stored window is newer or its policy another.\<close>

definition upsert_bucket :: "string \<Rightarrow> string \<Rightarrow> string \<Rightarrow> int \<Rightarrow> int \<Rightarrow> rate_bucket list \<Rightarrow> (rate_bucket list \<times> rate_bucket) option" where
  "upsert_bucket scope ih ph w now t = (case find (same_bucket scope ih) t of
     None \<Rightarrow> let r = \<lparr>rb_scope = scope, rb_identity_hash = ih, rb_policy_hash = ph, rb_window_number = w,
                 rb_request_count = 1, rb_updated_at = now\<rparr> in Some (t @ [r], r)
   | Some old \<Rightarrow>
       let same = (rb_window_number old = w \<and> rb_policy_hash old = ph) in
       if rb_window_number old < w \<or> same then
         let r = old\<lparr>rb_policy_hash := ph, rb_window_number := w,
               rb_request_count := (if same then rb_request_count old + 1 else 1), rb_updated_at := now\<rparr>
         in Some (map (\<lambda>x. if same_bucket scope ih x then r else x) t, r)
       else None)"

definition increment_bucket :: "string \<Rightarrow> string \<Rightarrow> string \<Rightarrow> int \<Rightarrow> int \<Rightarrow> rate_bucket list \<Rightarrow> (rate_bucket list \<times> int) result" where
  "increment_bucket scope ih ph w now t = (case upsert_bucket scope ih ph w now t of
     None \<Rightarrow> Inl (RuntimeError ''Rate-limit policy or window differs across application instances'')
   | Some (t', r) \<Rightarrow> if rb_policy_hash r \<noteq> ph \<or> rb_window_number r \<noteq> w \<or> rb_request_count r < 1
       then Inl (RuntimeError ''Rate-limit bucket did not reproduce'') else Inr (t', rb_request_count r))"

text \<open>Whole seconds since the epoch, and the whole seconds until \<open>reset_at\<close>, at least one.\<close>

definition epoch_seconds :: "int \<Rightarrow> int" where
  "epoch_seconds t = t div 1000000"

definition retry_after :: "int \<Rightarrow> int \<Rightarrow> int" where
  "retry_after reset_at current = (let d = reset_at - current in
     max 1 (d div 1000000 + (if d mod 1000000 \<noteq> 0 then 1 else 0)))"

definition consume :: "crypto \<Rightarrow> api_settings \<Rightarrow> actor \<Rightarrow> RateLimitCategory \<Rightarrow> int \<Rightarrow> rate_bucket list
    \<Rightarrow> (rate_bucket list \<times> rate_decision) result" where
  "consume C s a c now t =
     (if \<not> distributed_rate_limit_configured s
      then Inl (RuntimeError ''Distributed rate limiting is not fully configured'')
      else
        let window_seconds = the (set_window_seconds s); key_id = the (set_identity_key_id s); key = the (set_identity_key s);
            (actor_limit, organization_limit) = limits_of s c; w = epoch_seconds now div window_seconds
        in bindR (content_hash C (policy_value s)) (\<lambda>ph.
           bindR (increment_bucket (''ACTOR_'' @ category_name c) (identity_hash C key key_id (actor_identity a)) ph w now t) (\<lambda>(t1, actor_count).
           bindR (increment_bucket (''ORGANIZATION_'' @ category_name c) (identity_hash C key key_id (organization_identity a)) ph w now t1)
             (\<lambda>(t2, organization_count).
             let reset = (w + 1) * window_seconds in
             Inr (t2, \<lparr>rd_allowed = (actor_count \<le> actor_limit \<and> organization_count \<le> organization_limit),
               rd_category = c, rd_actor_limit = actor_limit, rd_organization_limit = organization_limit,
               rd_remaining = min (max (actor_limit - actor_count) 0) (max (organization_limit - organization_count) 0),
               rd_reset_at = reset * 1000000, rd_reset_epoch_seconds = reset,
               rd_retry_after_seconds = retry_after (reset * 1000000) now\<rparr>)))))"

text \<open>A transaction that raises leaves the table as it was.\<close>

definition consume_committed :: "crypto \<Rightarrow> api_settings \<Rightarrow> actor \<Rightarrow> RateLimitCategory \<Rightarrow> int \<Rightarrow> rate_bucket list
    \<Rightarrow> rate_bucket list \<times> rate_decision result" where
  "consume_committed C s a c now t = (case consume C s a c now t of Inl e \<Rightarrow> (t, Inl e) | Inr (t', d) \<Rightarrow> (t', Inr d))"

definition request_rate_limit_category :: "string \<Rightarrow> string \<Rightarrow> string option \<Rightarrow> RateLimitCategory" where
  "request_rate_limit_category method path content_type =
     (let normalized_method = upper method; ct = casefold (case content_type of None \<Rightarrow> [] | Some x \<Rightarrow> x) in
      if take 19 ct = ''multipart/form-data''
         \<or> (normalized_method = ''POST'' \<and> drop (length path - 10) path = ''/documents'')
      then UPLOAD
      else if normalized_method \<in> {''POST'', ''PUT'', ''PATCH'', ''DELETE''} then MUTATION else READ)"

subsection \<open>The quota holds in every window\<close>

record quota_call =
  qc_settings :: api_settings
  qc_actor :: actor
  qc_category :: RateLimitCategory
  qc_now :: int

text \<open>Calls of any instances, with any settings and clocks, on one table.\<close>

fun run_quota :: "crypto \<Rightarrow> quota_call list \<Rightarrow> rate_bucket list \<Rightarrow> rate_decision result list" where
  "run_quota C [] t = []"
| "run_quota C (c # cs) t = (case consume_committed C (qc_settings c) (qc_actor c) (qc_category c) (qc_now c) t of
     (t', r) \<Rightarrow> r # run_quota C cs t')"

definition window_of :: "api_settings \<Rightarrow> int \<Rightarrow> int" where
  "window_of s now = epoch_seconds now div the (set_window_seconds s)"

definition allowed_in :: "api_settings \<Rightarrow> (actor \<Rightarrow> bool) \<Rightarrow> RateLimitCategory \<Rightarrow> int \<Rightarrow> quota_call \<times> rate_decision result \<Rightarrow> bool" where
  "allowed_in S who cat w cr \<longleftrightarrow> (case cr of (c, r) \<Rightarrow> qc_settings c = S \<and> who (qc_actor c) \<and> qc_category c = cat
     \<and> window_of S (qc_now c) = w \<and> (case r of Inl _ \<Rightarrow> False | Inr d \<Rightarrow> rd_allowed d))"

definition bucket :: "string \<Rightarrow> string \<Rightarrow> rate_bucket list \<Rightarrow> rate_bucket option" where
  "bucket scope ih t = find (same_bucket scope ih) t"

lemma find_update_other:
  assumes "\<And>x. P x \<Longrightarrow> \<not> Q x" "\<not> Q r"
  shows "find Q (map (\<lambda>x. if P x then r else x) t) = find Q t"
  using assms by (induction t) auto

lemma bucket_update:
  assumes "bucket scope ih t = Some old" "same_bucket scope ih r"
  shows "bucket scope' ih' (map (\<lambda>x. if same_bucket scope ih x then r else x) t)
    = (if scope' = scope \<and> ih' = ih then Some r else bucket scope' ih' t)"
proof (cases "scope' = scope \<and> ih' = ih")
  case True
  have "find (same_bucket scope ih) (map (\<lambda>x. if same_bucket scope ih x then r else x) t) = Some r"
    using assms unfolding bucket_def by (induction t) (auto split: if_splits)
  with True show ?thesis by (simp add: bucket_def)
next
  case False
  then have "\<not> same_bucket scope' ih' x" if "same_bucket scope ih x" for x
    using that by (auto simp: same_bucket_def)
  then have "find (same_bucket scope' ih') (map (\<lambda>x. if same_bucket scope ih x then r else x) t) = find (same_bucket scope' ih') t"
    using assms(2) by (intro find_update_other) simp_all
  with False show ?thesis by (auto simp: bucket_def)
qed

lemma increment_bucket_result:
  assumes "increment_bucket scope ih ph w now t = Inr (t', n)"
  shows "\<exists>r. bucket scope ih t' = Some r \<and> rb_window_number r = w \<and> rb_request_count r = n
    \<and> (case bucket scope ih t of None \<Rightarrow> n = 1
       | Some old \<Rightarrow> rb_window_number old < w \<and> n = 1 \<or> rb_window_number old = w \<and> n = rb_request_count old + 1)"
    and "(scope', ih') \<noteq> (scope, ih) \<Longrightarrow> bucket scope' ih' t' = bucket scope' ih' t"
proof -
  have "(\<exists>r. bucket scope ih t' = Some r \<and> rb_window_number r = w \<and> rb_request_count r = n
    \<and> (case bucket scope ih t of None \<Rightarrow> n = 1
       | Some old \<Rightarrow> rb_window_number old < w \<and> n = 1 \<or> rb_window_number old = w \<and> n = rb_request_count old + 1))
    \<and> ((scope', ih') \<noteq> (scope, ih) \<longrightarrow> bucket scope' ih' t' = bucket scope' ih' t)"
  proof (cases "bucket scope ih t")
    case None
    let ?r = "\<lparr>rb_scope = scope, rb_identity_hash = ih, rb_policy_hash = ph, rb_window_number = w,
                 rb_request_count = 1, rb_updated_at = now\<rparr>"
    have f: "bucket a b (t @ [?r]) = (case bucket a b t of None \<Rightarrow> if a = scope \<and> b = ih then Some ?r else None | Some x \<Rightarrow> Some x)" for a b
      unfolding bucket_def by (induction t) (auto simp: same_bucket_def)
    have "t' = t @ [?r]" "n = 1"
      using assms None by (auto simp: increment_bucket_def upsert_bucket_def bucket_def Let_def split: if_splits)
    then show ?thesis using None by (auto simp: f split: option.splits)
  next
    case (Some old)
    define same where "same \<longleftrightarrow> rb_window_number old = w \<and> rb_policy_hash old = ph"
    define r where "r = old\<lparr>rb_policy_hash := ph, rb_window_number := w,
      rb_request_count := (if same then rb_request_count old + 1 else 1), rb_updated_at := now\<rparr>"
    have o: "rb_window_number old < w \<or> same" "t' = map (\<lambda>x. if same_bucket scope ih x then r else x) t" "n = rb_request_count r"
      using assms Some
      by (auto simp: increment_bucket_def upsert_bucket_def bucket_def Let_def r_def same_def split: if_splits option.splits)
    have "same_bucket scope ih old" using Some by (auto simp: bucket_def dest: find_SomeD)
    then have "same_bucket scope ih r" by (simp add: same_bucket_def r_def)
    note u = bucket_update [OF Some this]
    show ?thesis using o(1) Some unfolding o(2,3) u by (auto simp: r_def same_def)
  qed
  then show "\<exists>r. bucket scope ih t' = Some r \<and> rb_window_number r = w \<and> rb_request_count r = n
    \<and> (case bucket scope ih t of None \<Rightarrow> n = 1
       | Some old \<Rightarrow> rb_window_number old < w \<and> n = 1 \<or> rb_window_number old = w \<and> n = rb_request_count old + 1)"
    "(scope', ih') \<noteq> (scope, ih) \<Longrightarrow> bucket scope' ih' t' = bucket scope' ih' t" by blast+
qed

text \<open>What the bucket of a window knows of the \<open>g\<close> calls allowed in it so far.\<close>

definition counted :: "string \<Rightarrow> string \<Rightarrow> int \<Rightarrow> int \<Rightarrow> rate_bucket list \<Rightarrow> bool" where
  "counted scope ih w g t \<longleftrightarrow> (case bucket scope ih t of None \<Rightarrow> g = 0
     | Some r \<Rightarrow> (rb_window_number r < w \<longrightarrow> g = 0) \<and> (rb_window_number r = w \<longrightarrow> g \<le> rb_request_count r))"

lemma counted_increment:
  assumes "increment_bucket scope' ih' ph w' now t = Inr (t', n)" "counted scope ih w g t"
  shows "counted scope ih w g t' \<and> ((scope', ih', w') = (scope, ih, w) \<longrightarrow> g + 1 \<le> n \<and> counted scope ih w (g + 1) t')"
proof (cases "(scope, ih) = (scope', ih')")
  case True
  obtain r where r: "bucket scope ih t' = Some r" "rb_window_number r = w'" "rb_request_count r = n"
    "case bucket scope ih t of None \<Rightarrow> n = 1
       | Some old \<Rightarrow> rb_window_number old < w' \<and> n = 1 \<or> rb_window_number old = w' \<and> n = rb_request_count old + 1"
    using increment_bucket_result(1) [OF assms(1)] True by auto
  show ?thesis using r assms(2) True by (auto simp: counted_def split: option.splits)
next
  case False
  then show ?thesis using increment_bucket_result(2) [OF assms(1) False] assms(2) by (auto simp: counted_def)
qed

text \<open>A call either raises and changes nothing, or counts in its two buckets.\<close>

lemma consume_cases:
  assumes "consume_committed C s a c now t = (t', r)"
  obtains (raises) e where "r = Inl e" "t' = t"
  | (counts) d ph t1 m n where "r = Inr d"
      "increment_bucket (''ACTOR_'' @ category_name c) (identity_hash C (the (set_identity_key s)) (the (set_identity_key_id s)) (actor_identity a))
        ph (window_of s now) now t = Inr (t1, m)"
      "increment_bucket (''ORGANIZATION_'' @ category_name c) (identity_hash C (the (set_identity_key s)) (the (set_identity_key_id s)) (organization_identity a))
        ph (window_of s now) now t1 = Inr (t', n)"
      "rd_allowed d \<longleftrightarrow> m \<le> fst (limits_of s c) \<and> n \<le> snd (limits_of s c)"
proof (cases r)
  case (Inl e)
  then show ?thesis using assms raises by (auto simp: consume_committed_def split: sum.splits prod.splits)
next
  case (Inr d)
  then have "consume C s a c now t = Inr (t', d)"
    using assms by (auto simp: consume_committed_def split: sum.splits prod.splits)
  then show ?thesis
    using counts Inr
    by (cases "limits_of s c") (auto simp: consume_def Let_def bindR_eq_Inr window_of_def split: if_splits prod.splits)
qed

lemma category_scope: "(''ACTOR_'' @ category_name c = ''ACTOR_'' @ category_name d) = (c = d)"
  "(''ORGANIZATION_'' @ category_name c = ''ORGANIZATION_'' @ category_name d) = (c = d)"
  "(''ACTOR_'' @ x = ''ORGANIZATION_'' @ y) = False"
  by (cases c; cases d; simp)+

lemma counted_consume:
  assumes "consume_committed C s a c now t = (t', r)" "counted scope ih w g t"
  shows "counted scope ih w g t'"
  using assms(1)
proof (cases rule: consume_cases)
  case (counts d ph t1 m n)
  show ?thesis using counted_increment [OF counts(3)] counted_increment [OF counts(2) assms(2)] by blast
qed (use assms(2) in simp)

text \<open>The two buckets a call of an actor counts in, and their limits.\<close>

definition actor_bucket :: "crypto \<Rightarrow> api_settings \<Rightarrow> RateLimitCategory \<Rightarrow> actor \<Rightarrow> string \<times> string" where
  "actor_bucket C S cat a = (''ACTOR_'' @ category_name cat,
     identity_hash C (the (set_identity_key S)) (the (set_identity_key_id S)) (actor_identity a))"

definition organization_bucket :: "crypto \<Rightarrow> api_settings \<Rightarrow> RateLimitCategory \<Rightarrow> actor \<Rightarrow> string \<times> string" where
  "organization_bucket C S cat a = (''ORGANIZATION_'' @ category_name cat,
     identity_hash C (the (set_identity_key S)) (the (set_identity_key_id S)) (organization_identity a))"

lemma allowed_call_counts:
  assumes "consume_committed C S a cat now t = (t', Inr d)" "rd_allowed d" "window_of S now = w"
  shows "counted (fst (actor_bucket C S cat a)) (snd (actor_bucket C S cat a)) w g t \<Longrightarrow>
      g + 1 \<le> fst (limits_of S cat) \<and> counted (fst (actor_bucket C S cat a)) (snd (actor_bucket C S cat a)) w (g + 1) t'"
    and "counted (fst (organization_bucket C S cat a)) (snd (organization_bucket C S cat a)) w g t \<Longrightarrow>
      g + 1 \<le> snd (limits_of S cat) \<and> counted (fst (organization_bucket C S cat a)) (snd (organization_bucket C S cat a)) w (g + 1) t'"
proof -
  from assms(1) obtain ph t1 m n where c:
    "increment_bucket (fst (actor_bucket C S cat a)) (snd (actor_bucket C S cat a)) ph w now t = Inr (t1, m)"
    "increment_bucket (fst (organization_bucket C S cat a)) (snd (organization_bucket C S cat a)) ph w now t1 = Inr (t', n)"
    "m \<le> fst (limits_of S cat)" "n \<le> snd (limits_of S cat)"
    using assms(2,3) by (cases rule: consume_cases) (auto simp: actor_bucket_def organization_bucket_def)
  show "g + 1 \<le> fst (limits_of S cat) \<and> counted (fst (actor_bucket C S cat a)) (snd (actor_bucket C S cat a)) w (g + 1) t'"
    if "counted (fst (actor_bucket C S cat a)) (snd (actor_bucket C S cat a)) w g t"
    using counted_increment [OF c(1) that] counted_increment [OF c(2)] c(3) by fastforce
  show "g + 1 \<le> snd (limits_of S cat) \<and> counted (fst (organization_bucket C S cat a)) (snd (organization_bucket C S cat a)) w (g + 1) t'"
    if "counted (fst (organization_bucket C S cat a)) (snd (organization_bucket C S cat a)) w g t"
    using counted_increment [OF c(1) that] counted_increment [OF c(2)] c(4) by fastforce
qed

text \<open>
  How many calls are allowed among those that count in one bucket: the interface of both quotas.
\<close>

locale quota =
  fixes key :: "api_settings \<Rightarrow> RateLimitCategory \<Rightarrow> actor \<Rightarrow> string \<times> string"
    and limit :: "api_settings \<Rightarrow> RateLimitCategory \<Rightarrow> int"
    and C :: crypto
  assumes counts: "consume_committed C S a cat now t = (t', Inr d) \<Longrightarrow> rd_allowed d \<Longrightarrow> window_of S now = w \<Longrightarrow>
    counted (fst (key S cat a)) (snd (key S cat a)) w g t \<Longrightarrow>
    g + 1 \<le> limit S cat \<and> counted (fst (key S cat a)) (snd (key S cat a)) w (g + 1) t'"
begin

lemma bounded:
  assumes "counted (fst (key S cat a)) (snd (key S cat a)) w g t" "0 \<le> g" "g \<le> max 0 (limit S cat)"
    "\<And>b. who b \<Longrightarrow> key S cat b = key S cat a"
  shows "g + int (length (filter (allowed_in S who cat w) (zip cs (run_quota C cs t)))) \<le> max 0 (limit S cat)"
  using assms(1-3)
proof (induction cs arbitrary: t g)
  case (Cons c cs)
  obtain t' r where r: "consume_committed C (qc_settings c) (qc_actor c) (qc_category c) (qc_now c) t = (t', r)" by fastforce
  show ?case
  proof (cases "allowed_in S who cat w (c, r)")
    case True
    then obtain d where d: "r = Inr d" "rd_allowed d" "qc_settings c = S" "who (qc_actor c)" "qc_category c = cat"
      "window_of S (qc_now c) = w" by (auto simp: allowed_in_def split: sum.splits)
    have k: "key S cat (qc_actor c) = key S cat a" using assms(4) d(4) .
    have "g + 1 \<le> limit S cat \<and> counted (fst (key S cat a)) (snd (key S cat a)) w (g + 1) t'"
      using counts [OF r [unfolded d] d(2,6)] Cons.prems(1) unfolding k by blast
    then have "(g + 1) + int (length (filter (allowed_in S who cat w) (zip cs (run_quota C cs t')))) \<le> max 0 (limit S cat)"
      using Cons.prems(2) by (intro Cons.IH) auto
    then show ?thesis using r True by simp
  next
    case False
    have "counted (fst (key S cat a)) (snd (key S cat a)) w g t'" by (rule counted_consume [OF r Cons.prems(1)])
    from Cons.IH [OF this Cons.prems(2,3)] show ?thesis using r False by simp
  qed
qed simp

end

interpretation actor_quota: quota "actor_bucket C" "\<lambda>S cat. fst (limits_of S cat)" C for C
  by unfold_locales (rule allowed_call_counts(1))

interpretation organization_quota: quota "organization_bucket C" "\<lambda>S cat. snd (limits_of S cat)" C for C
  by unfold_locales (rule allowed_call_counts(2))

definition member_of :: "string \<Rightarrow> actor \<Rightarrow> bool" where
  "member_of org b \<longleftrightarrow> actor_organization_id b = org"

definition is_actor :: "string \<Rightarrow> string \<Rightarrow> actor \<Rightarrow> bool" where
  "is_actor org i b \<longleftrightarrow> actor_organization_id b = org \<and> actor_id b = i"

text \<open>C34. However requests of any instances, actors, settings and clocks are interleaved, at most the
  configured number of calls of an actor, and of an organization, are allowed per category and window.
  Nothing is assumed of the hashes: a collision can only refuse more.\<close>

theorem quota_is_bound:
  "int (length (filter (allowed_in S (is_actor org i) cat w) (zip calls (run_quota C calls [])))) \<le> max 0 (fst (limits_of S cat))
   \<and> int (length (filter (allowed_in S (member_of org) cat w) (zip calls (run_quota C calls [])))) \<le> max 0 (snd (limits_of S cat))"
proof
  have z: "counted scope ih w 0 []" for scope ih by (simp add: counted_def bucket_def)
  define a where "a = \<lparr>actor_id = i, actor_organization_id = org, actor_roles = {||}\<rparr>"
  have "actor_bucket C S cat b = actor_bucket C S cat a" if "is_actor org i b" for b
    using that by (simp add: actor_bucket_def actor_identity_def organization_identity_def a_def is_actor_def)
  from actor_quota.bounded [OF z order_refl _ this]
  show "int (length (filter (allowed_in S (is_actor org i) cat w) (zip calls (run_quota C calls [])))) \<le> max 0 (fst (limits_of S cat))"
    by simp
  have "organization_bucket C S cat b = organization_bucket C S cat a" if "member_of org b" for b
    using that by (simp add: organization_bucket_def organization_identity_def a_def member_of_def)
  from organization_quota.bounded [OF z order_refl _ this]
  show "int (length (filter (allowed_in S (member_of org) cat w) (zip calls (run_quota C calls [])))) \<le> max 0 (snd (limits_of S cat))"
    by simp
qed

text \<open>Three uploads in a window of a minute against a quota of two.\<close>

definition ex_settings :: api_settings where
  "ex_settings = \<lparr>set_allow_insecure_dev_auth = False, set_oidc_jwks_url = Some ''u'', set_oidc_audience = Some ''a'',
     set_oidc_issuer = Some ''i'', set_operator_access_key = None, set_operator_actor_id = None,
     set_operator_organization_id = None, set_rate_limit_enabled = True, set_identity_key_id = Some ''k'',
     set_identity_key = Some (replicate 32 (CHR ''s'')), set_window_seconds = Some 60, set_actor_read = Some 2,
     set_organization_read = Some 2, set_actor_mutation = Some 2, set_organization_mutation = Some 2,
     set_actor_upload = Some 2, set_organization_upload = Some 3, set_require_idempotency_keys = True,
     set_max_api_request_bytes = 100\<rparr>"

definition ex_call :: "int \<Rightarrow> quota_call" where
  "ex_call now = \<lparr>qc_settings = ex_settings, qc_actor = \<lparr>actor_id = ''a'', actor_organization_id = ''o'', actor_roles = {||}\<rparr>,
     qc_category = UPLOAD, qc_now = now\<rparr>"

lemma ex_quota: "map (\<lambda>r. case r of Inl _ \<Rightarrow> None | Inr d \<Rightarrow> Some (rd_allowed d, rd_remaining d))
    (run_quota \<lparr>sha256_hex = (\<lambda>_. ''h''), hmac_hex = (\<lambda>_ x. []) \<rparr> (map ex_call [0]) [])
  = [Some (True, 1)]"
  by code_simp

end
