(* ===== verification/TG_Idempotency.thy ===== *)
theory TG_Idempotency
  imports TG_Rate_Limits
begin

text \<open>
  The handling of a mutating request: \<open>application/idempotency.py\<close> with \<open>enforce_rate_limit\<close> and
  \<open>get_actor\<close>'s authentication.  A request with a key is executed in one transaction with the record of
  its key, so that a retry replays the stored response.  The route's own handler, the JSON parser and the
  identifiers and instants drawn from the environment are parameters; a body is a byte string.
\<close>

subsection \<open>Requests, responses and records\<close>

datatype form_item = FileItem (item_field: string) (item_filename: "string option") (item_content_type: "string option") (item_content: string)
  | TextItem (item_field: string) (item_text: string)

record http_request =
  rq_method :: string
  rq_path :: string
  rq_headers :: "(string \<times> string) list"
  rq_query :: "(string \<times> string) list"
  rq_body :: string
  rq_form :: "form_item list"
  rq_request_id :: string

datatype response_body = Unbuffered | Buffered string | Rendered pyval

record http_response =
  rp_status_code :: int
  rp_headers :: "(string \<times> string) list"
  rp_body :: response_body

record idempotency_record =
  ir_id :: string
  ir_organization_id :: string
  ir_actor_id :: string
  ir_idempotency_key :: string
  ir_request_method :: string
  ir_request_path :: string
  ir_request_hash :: string
  ir_initial_request_id :: string
  ir_status :: string
  ir_response_status :: "int option"
  ir_response_media_type :: "string option"
  ir_response_payload :: pyval
  ir_response_has_body :: "bool option"
  ir_response_headers :: "(string \<times> string) list option"
  ir_created_at :: int
  ir_completed_at :: "int option"

record idempotency_replay =
  ip_response_status :: int
  ip_response_media_type :: "string option"
  ip_response_payload :: pyval
  ip_response_has_body :: bool
  ip_response_headers :: "(string \<times> string) list"

subsection \<open>Keys and request hashes\<close>

definition alphanumeric :: "char \<Rightarrow> bool" where
  "alphanumeric c = (let n = of_char c :: nat in (48 \<le> n \<and> n \<le> 57) \<or> (65 \<le> n \<and> n \<le> 90) \<or> (97 \<le> n \<and> n \<le> 122))"

text \<open>\<open>IDEMPOTENCY_KEY_PATTERN.fullmatch\<close>.\<close>

definition key_pattern :: "string \<Rightarrow> bool" where
  "key_pattern s \<longleftrightarrow> 8 \<le> length s \<and> length s \<le> 128 \<and> alphanumeric (hd s)
     \<and> list_all (\<lambda>c. alphanumeric c \<or> c \<in> set ''._:-'') (tl s)"

definition idempotency_key :: "string \<Rightarrow> string result" where
  "idempotency_key v = (if strip v \<noteq> v \<or> \<not> key_pattern (strip v)
     then Inl (ValueError (''Idempotency-Key must be 8-128 characters using letters, digits, '' @ py_repr ''.'' @ '', ''
       @ py_repr ''_'' @ '', '' @ py_repr '':'' @ '', '' @ py_repr ''-''))
     else Inr (strip v))"

definition header :: "http_request \<Rightarrow> string \<Rightarrow> string option" where
  "header q name = map_of (rq_headers q) name"

definition media_type :: "http_request \<Rightarrow> string" where
  "media_type q = casefold (strip (takeWhile (\<lambda>c. c \<noteq> CHR '';'') (case header q ''content-type'' of None \<Rightarrow> [] | Some v \<Rightarrow> v)))"

definition text_opt :: "string option \<Rightarrow> string" where
  "text_opt v = (case v of None \<Rightarrow> ''None'' | Some s \<Rightarrow> s)"

definition item_value :: "crypto \<Rightarrow> form_item \<Rightarrow> pyval" where
  "item_value C i = (case i of
     FileItem field filename ct content \<Rightarrow> PDict [(''field'', PStr field), (''filename'', opt_value PStr filename),
       (''content_type'', opt_value PStr ct), (''size'', PInt (int (length content))), (''sha256'', PStr (sha256_hex C content))]
   | TextItem field v \<Rightarrow> PDict [(''field'', PStr field), (''value'', PStr v)])"

text \<open>The sort keys of the items: field, file name, value and digest as text.\<close>

definition item_filename_key :: "form_item \<Rightarrow> string" where
  "item_filename_key i = (case i of FileItem _ f _ _ \<Rightarrow> text_opt f | TextItem _ _ \<Rightarrow> [])"

definition item_value_key :: "form_item \<Rightarrow> string" where
  "item_value_key i = (case i of FileItem _ _ _ _ \<Rightarrow> [] | TextItem _ v \<Rightarrow> v)"

definition item_digest_key :: "crypto \<Rightarrow> form_item \<Rightarrow> string" where
  "item_digest_key C i = (case i of FileItem _ _ _ content \<Rightarrow> sha256_hex C content | TextItem _ _ \<Rightarrow> [])"

definition multipart_descriptor :: "crypto \<Rightarrow> form_item list \<Rightarrow> pyval" where
  "multipart_descriptor C form = PList (map (item_value C)
     (sort_key item_field (sort_key item_filename_key (sort_key item_value_key (sort_key (item_digest_key C) form)))))"

definition body_descriptor :: "crypto \<Rightarrow> api_settings \<Rightarrow> http_request \<Rightarrow> (string \<times> pyval) list result" where
  "body_descriptor C s q =
     (if media_type q = ''multipart/form-data'' then Inr [(''multipart'', multipart_descriptor C (rq_form q))]
      else if set_max_api_request_bytes s < int (length (rq_body q))
      then Inl (HTTPException 413 ''Request body exceeds configured API limit'')
      else Inr [(''body_sha256'', PStr (sha256_hex C (rq_body q))), (''body_size'', PInt (int (length (rq_body q))))])"

definition query_value :: "(string \<times> string) list \<Rightarrow> pyval" where
  "query_value kvs = PList (map (\<lambda>(k, v). PList [PStr k, PStr v]) (sort_key fst (sort_key snd kvs)))"

definition request_value :: "http_request \<Rightarrow> (string \<times> pyval) list \<Rightarrow> pyval" where
  "request_value q body = PDict ([(''method'', PStr (rq_method q)), (''path'', PStr (rq_path q)),
     (''query'', query_value (rq_query q)), (''content_type'', PStr (media_type q))] @ body)"

definition request_hash :: "crypto \<Rightarrow> api_settings \<Rightarrow> http_request \<Rightarrow> string result" where
  "request_hash C s q = bindR (body_descriptor C s q) (\<lambda>body. content_hash C (request_value q body))"

subsection \<open>The records of the service\<close>

definition same_key :: "actor \<Rightarrow> string \<Rightarrow> idempotency_record \<Rightarrow> bool" where
  "same_key a key r \<longleftrightarrow> ir_organization_id r = actor_organization_id a \<and> ir_actor_id r = actor_id a \<and> ir_idempotency_key r = key"

definition locked_record :: "actor \<Rightarrow> string \<Rightarrow> idempotency_record list \<Rightarrow> idempotency_record option" where
  "locked_record a key t = find (same_key a key) t"

definition pending_record :: "string \<Rightarrow> actor \<Rightarrow> string \<Rightarrow> http_request \<Rightarrow> string \<Rightarrow> int \<Rightarrow> idempotency_record" where
  "pending_record record_id a key q hash now = \<lparr>ir_id = record_id, ir_organization_id = actor_organization_id a,
     ir_actor_id = actor_id a, ir_idempotency_key = key, ir_request_method = rq_method q, ir_request_path = rq_path q,
     ir_request_hash = hash, ir_initial_request_id = rq_request_id q, ir_status = ''PENDING'', ir_response_status = None,
     ir_response_media_type = None, ir_response_payload = PNone, ir_response_has_body = None, ir_response_headers = None,
     ir_created_at = now, ir_completed_at = None\<rparr>"

text \<open>\<open>INSERT ... ON CONFLICT DO NOTHING RETURNING id\<close>; \<open>id\<close> is the primary key.\<close>

definition insert_record :: "idempotency_record \<Rightarrow> idempotency_record list \<Rightarrow> (idempotency_record list \<times> bool) result" where
  "insert_record r t =
     (if list_ex (\<lambda>x. ir_organization_id x = ir_organization_id r \<and> ir_actor_id x = ir_actor_id r
          \<and> ir_idempotency_key x = ir_idempotency_key r) t then Inr (t, False)
      else if ir_id r \<in> ir_id ` set t then Inl (IntegrityError ''idempotency_records.id'')
      else Inr (t @ [r], True))"

definition replay_of :: "idempotency_record \<Rightarrow> idempotency_replay result" where
  "replay_of r = (case (ir_response_status r, ir_response_has_body r, ir_response_headers r, ir_completed_at r) of
     (Some status, Some has_body, Some headers, Some _) \<Rightarrow> Inr \<lparr>ip_response_status = status,
       ip_response_media_type = ir_response_media_type r, ip_response_payload = ir_response_payload r,
       ip_response_has_body = has_body, ip_response_headers = headers\<rparr>
   | _ \<Rightarrow> Inl (RuntimeError ''Completed idempotency record is incomplete''))"

definition check_record :: "http_request \<Rightarrow> string \<Rightarrow> bool \<Rightarrow> idempotency_record \<Rightarrow> idempotency_replay option result" where
  "check_record q hash created r =
     (if ir_request_method r \<noteq> rq_method q \<or> ir_request_path r \<noteq> rq_path q \<or> ir_request_hash r \<noteq> hash
      then Inl (IdempotencyConflictError ''Idempotency key was already used for a different request'')
      else if ir_status r = ''PENDING'' then
        (if created then Inr None
         else Inl (IdempotencyInProgressError ''Idempotent request is still in progress''))
      else if ir_status r \<noteq> ''COMPLETED'' then Inl (RuntimeError ''Idempotency record has an unsupported state'')
      else bindR (replay_of r) (\<lambda>p. Inr (Some p)))"

text \<open>
  \<open>acquire\<close>: \<open>seen\<close> is what the first \<open>select\<close> saw; another transaction may have committed the key
  before the insert reaches the table \<open>t\<close>.
\<close>

definition acquire :: "idempotency_record option \<Rightarrow> actor \<Rightarrow> string \<Rightarrow> http_request \<Rightarrow> string \<Rightarrow> string \<Rightarrow> int
    \<Rightarrow> idempotency_record list \<Rightarrow> (idempotency_record list \<times> idempotency_record \<times> idempotency_replay option) result" where
  "acquire seen a idem_key q hash record_id now t =
     bindR (idempotency_key idem_key) (\<lambda>key.
     case seen of
       Some r \<Rightarrow> bindR (check_record q hash False r) (\<lambda>p. Inr (t, r, p))
     | None \<Rightarrow> bindR (insert_record (pending_record record_id a key q hash now) t) (\<lambda>(t', created).
         case (if created then find (\<lambda>x. ir_id x = record_id) t' else locked_record a key t') of
           None \<Rightarrow> Inl (RuntimeError ''Idempotency insert did not expose its durable record'')
         | Some r \<Rightarrow> bindR (check_record q hash created r) (\<lambda>p. Inr (t', r, p))))"

definition complete_record :: "idempotency_record \<Rightarrow> int \<Rightarrow> string option \<Rightarrow> pyval \<Rightarrow> bool \<Rightarrow> (string \<times> string) list \<Rightarrow> int
    \<Rightarrow> idempotency_record list \<Rightarrow> idempotency_record list result" where
  "complete_record r status mt payload has_body headers now t =
     (if ir_status r \<noteq> ''PENDING'' then Inl (RuntimeError ''Only a pending idempotency record can be completed'')
      else Inr (map (\<lambda>x. if ir_id x = ir_id r then r\<lparr>ir_status := ''COMPLETED'', ir_response_status := Some status,
        ir_response_media_type := mt, ir_response_payload := payload, ir_response_has_body := Some has_body,
        ir_response_headers := Some headers, ir_completed_at := Some now\<rparr> else x) t))"

subsection \<open>Responses\<close>

definition response_payload :: "(string \<Rightarrow> pyval option) \<Rightarrow> http_response \<Rightarrow> (pyval \<times> bool) result" where
  "response_payload loads r = (case rp_body r of
     Buffered body \<Rightarrow> if body = [] then Inr (PNone, False)
       else (case loads body of None \<Rightarrow> Inl (RuntimeError ''Idempotent mutation responses must be JSON'')
         | Some v \<Rightarrow> Inr (v, True))
   | _ \<Rightarrow> Inl (RuntimeError ''Idempotent mutation responses must be buffered''))"

text \<open>\<open>response.headers[name] = value\<close> of the framework; raw names are in lower case.  Assigning to a
  dict does the same to a list without repeated keys.\<close>

definition set_header :: "string \<Rightarrow> string \<Rightarrow> (string \<times> string) list \<Rightarrow> (string \<times> string) list" where
  "set_header k v hs = (if k \<in> fst ` set hs
     then takeWhile (\<lambda>h. fst h \<noteq> k) hs @ [(k, v)] @ filter (\<lambda>h. fst h \<noteq> k) (dropWhile (\<lambda>h. fst h \<noteq> k) hs)
     else hs @ [(k, v)])"

definition replay_headers :: "http_response \<Rightarrow> (string \<times> string) list" where
  "replay_headers r = fold (\<lambda>(name, v). set_header name v)
     (filter (\<lambda>(name, _). casefold name \<in> {''location'', ''etag''}) (rp_headers r)) []"

text \<open>The headers of a new response in lower case; the framework adds the media type, if there is one.\<close>

definition replay_response :: "idempotency_replay \<Rightarrow> string \<Rightarrow> http_response" where
  "replay_response p key = \<lparr>rp_status_code = ip_response_status p,
     rp_headers = set_header ''idempotency-replayed'' ''true'' (set_header ''idempotency-key'' key (ip_response_headers p))
       @ (case (if ip_response_has_body p then Some (case ip_response_media_type p of None \<Rightarrow> ''application/json'' | Some m \<Rightarrow> m)
                else ip_response_media_type p) of None \<Rightarrow> [] | Some m \<Rightarrow> [(''content-type'', m)]),
     rp_body = (if ip_response_has_body p then Rendered (ip_response_payload p) else Buffered [])\<rparr>"

definition mark_first :: "string \<Rightarrow> http_response \<Rightarrow> http_response" where
  "mark_first key r = r\<lparr>rp_headers := set_header ''idempotency-replayed'' ''false'' (set_header ''idempotency-key'' key (rp_headers r))\<rparr>"

subsection \<open>The route handler\<close>

record request_state =
  rs_rate_limit_checked :: bool
  rs_rate_limit_decision :: "rate_decision option"
  rs_authenticated_actor :: "actor option"

text \<open>The state of the service: quota buckets, idempotency records and the application's own tables.\<close>

record 'w service_state =
  sv_buckets :: "rate_bucket list"
  sv_records :: "idempotency_record list"
  sv_app :: 'w

text \<open>
  What one instance runs with: token verification, settings, the JSON parser and the endpoint of the
  route, which gets the actor, the headers to add and the request.  What the endpoint leaves of its tables
  is uncommitted when it runs on the shared session (\<open>mutation_transaction\<close>), else committed by it.
\<close>

record 'w instance_env =
  en_decode :: "string \<Rightarrow> string \<Rightarrow> string \<Rightarrow> (string \<times> pyval) list option"
  en_settings :: api_settings
  en_loads :: "string \<Rightarrow> pyval option"
  en_endpoint :: "actor \<Rightarrow> (string \<times> string) list \<Rightarrow> http_request \<Rightarrow> 'w \<Rightarrow> 'w \<times> http_response result"

text \<open>Clock readings and identifiers of one request; \<open>dr_early\<close>: the first lookup of the key ran before
  the transaction that recorded it committed.\<close>

record draws =
  dr_limit_now :: int
  dr_acquire_now :: int
  dr_complete_now :: int
  dr_record_id :: string
  dr_early :: bool

definition authenticate_request :: "'w instance_env \<Rightarrow> http_request \<Rightarrow> actor result" where
  "authenticate_request E q = authenticate (en_decode E) (en_settings E) (header q ''authorization'')
     (header q ''x-dev-actor'') (header q ''x-dev-organization'') (header q ''x-dev-roles'')"

definition rate_limit_headers :: "rate_decision \<Rightarrow> (string \<times> string) list" where
  "rate_limit_headers d =
     [(''RateLimit-Limit'', ''actor='' @ int_str (rd_actor_limit d) @ '', organization='' @ int_str (rd_organization_limit d)),
      (''RateLimit-Remaining'', int_str (rd_remaining d)), (''RateLimit-Reset'', int_str (rd_reset_epoch_seconds d)),
      (''X-RateLimit-Category'', category_name (rd_category d))]"

text \<open>The counters are committed in a session of their own, whatever becomes of the request.  The refusal
  carries \<open>rate_limit_headers\<close> of the decision and its seconds to wait.\<close>

definition enforce_rate_limit :: "crypto \<Rightarrow> api_settings \<Rightarrow> int \<Rightarrow> http_request \<Rightarrow> actor \<Rightarrow> request_state \<Rightarrow> rate_bucket list
    \<Rightarrow> (request_state \<times> rate_bucket list) \<times> unit result" where
  "enforce_rate_limit C s now q a st t =
     (if \<not> set_rate_limit_enabled s \<or> rs_rate_limit_checked st then ((st, t), Inr ())
      else case consume_committed C s a
          (request_rate_limit_category (rq_method q) (rq_path q) (header q ''content-type'')) now t of
        (t', Inl e) \<Rightarrow> ((st, t'), Inl (case e of HTTPException _ _ \<Rightarrow> e
          | _ \<Rightarrow> HTTPException 503 ''Distributed request quota is unavailable''))
      | (t', Inr d) \<Rightarrow> ((st\<lparr>rs_rate_limit_checked := True, rs_rate_limit_decision := Some d\<rparr>, t'),
          if rd_allowed d then Inr ()
          else Inl (HTTPException 429 ''Distributed actor or organization request quota exceeded'')))"

definition get_actor :: "crypto \<Rightarrow> 'w instance_env \<Rightarrow> int \<Rightarrow> http_request \<Rightarrow> request_state \<Rightarrow> rate_bucket list
    \<Rightarrow> rate_bucket list \<times> (actor \<times> (string \<times> string) list) result" where
  "get_actor C E now q st t =
     (case (case rs_authenticated_actor st of Some a \<Rightarrow> Inr a | None \<Rightarrow> authenticate_request E q) of
        Inl e \<Rightarrow> (t, Inl e)
      | Inr a \<Rightarrow> (case enforce_rate_limit C (en_settings E) now q a st t of
          ((st', t'), Inl e) \<Rightarrow> (t', Inl e)
        | ((st', t'), Inr _) \<Rightarrow> (t', Inr (a, case rs_rate_limit_decision st' of None \<Rightarrow> [] | Some d \<Rightarrow> rate_limit_headers d))))"

definition original_handler :: "crypto \<Rightarrow> 'w instance_env \<Rightarrow> draws \<Rightarrow> request_state \<Rightarrow> http_request \<Rightarrow> 'w service_state
    \<Rightarrow> 'w service_state \<times> http_response result" where
  "original_handler C E d st q w = (case get_actor C E (dr_limit_now d) q st (sv_buckets w) of
     (t, Inl e) \<Rightarrow> (w\<lparr>sv_buckets := t\<rparr>, Inl e)
   | (t, Inr (a, hs)) \<Rightarrow> (case en_endpoint E a hs q (sv_app w) of
       (app, r) \<Rightarrow> (w\<lparr>sv_buckets := t, sv_app := app\<rparr>, r)))"

definition http_conflict :: "error \<Rightarrow> error" where
  "http_conflict e = (case e of IdempotencyConflictError m \<Rightarrow> HTTPException 409 m
     | IdempotencyInProgressError m \<Rightarrow> HTTPException 409 m | _ \<Rightarrow> e)"

text \<open>The transaction: \<open>rolled\<close> is what is left when it is rolled back.\<close>

definition finish_record :: "(string \<Rightarrow> pyval option) \<Rightarrow> draws \<Rightarrow> idempotency_record \<Rightarrow> http_response \<Rightarrow> idempotency_record list
    \<Rightarrow> idempotency_record list result" where
  "finish_record loads d r resp t = bindR (response_payload loads resp) (\<lambda>(payload, has_body).
     complete_record r (rp_status_code resp) (map_of (rp_headers resp) ''content-type'') payload has_body
       (replay_headers resp) (dr_complete_now d) t)"

definition idempotent_transaction :: "crypto \<Rightarrow> 'w instance_env \<Rightarrow> draws \<Rightarrow> request_state \<Rightarrow> actor \<Rightarrow> string \<Rightarrow> string \<Rightarrow> http_request
    \<Rightarrow> 'w service_state \<Rightarrow> 'w service_state \<times> http_response result" where
  "idempotent_transaction C E d st a key hash q w =
     (case acquire (if dr_early d then None else locked_record a key (sv_records w)) a key q hash (dr_record_id d)
        (dr_acquire_now d) (sv_records w) of
       Inl e \<Rightarrow> (w, Inl (http_conflict e))
     | Inr (t, r, Some p) \<Rightarrow> (w\<lparr>sv_records := t\<rparr>, Inr (replay_response p key))
     | Inr (t, r, None) \<Rightarrow> (case original_handler C E d st q (w\<lparr>sv_records := t\<rparr>) of
         (w', res) \<Rightarrow> let rolled = w\<lparr>sv_buckets := sv_buckets w'\<rparr> in
           case res of Inl e \<Rightarrow> (rolled, Inl (http_conflict e))
           | Inr resp \<Rightarrow>
               if \<not> (200 \<le> rp_status_code resp \<and> rp_status_code resp < 300) then (rolled, Inr resp)
               else (case finish_record (en_loads E) d r resp (sv_records w') of
                   Inl e \<Rightarrow> (rolled, Inl (http_conflict e))
                 | Inr t' \<Rightarrow> (w'\<lparr>sv_records := t'\<rparr>, Inr (mark_first key resp)))))"

definition mutating :: "string \<Rightarrow> bool" where
  "mutating m \<longleftrightarrow> m \<in> {''POST'', ''PUT'', ''PATCH'', ''DELETE''}"

definition new_request_state :: request_state where
  "new_request_state = \<lparr>rs_rate_limit_checked = False, rs_rate_limit_decision = None, rs_authenticated_actor = None\<rparr>"

text \<open>The quota check that comes before everything else, when limits are enabled.\<close>

definition admit :: "crypto \<Rightarrow> 'w instance_env \<Rightarrow> draws \<Rightarrow> http_request \<Rightarrow> rate_bucket list
    \<Rightarrow> (request_state \<times> rate_bucket list) \<times> actor option result" where
  "admit C E d q t =
     (if \<not> set_rate_limit_enabled (en_settings E) then ((new_request_state, t), Inr None)
      else case authenticate_request E q of Inl e \<Rightarrow> ((new_request_state, t), Inl e)
      | Inr a \<Rightarrow> (case enforce_rate_limit C (en_settings E) (dr_limit_now d) q a new_request_state t of
          (stt, Inl e) \<Rightarrow> (stt, Inl e)
        | ((st, t'), Inr _) \<Rightarrow> ((st\<lparr>rs_authenticated_actor := Some a\<rparr>, t'), Inr (Some a))))"

definition keyed_request :: "crypto \<Rightarrow> 'w instance_env \<Rightarrow> draws \<Rightarrow> request_state \<Rightarrow> actor option \<Rightarrow> string \<Rightarrow> http_request
    \<Rightarrow> 'w service_state \<Rightarrow> 'w service_state \<times> http_response result" where
  "keyed_request C E d st actor_opt key q w =
     (case bindR (case idempotency_key key of Inl (ValueError m) \<Rightarrow> Inl (HTTPException 422 m) | r \<Rightarrow> r) (\<lambda>normalized.
           bindR (request_hash C (en_settings E) q) (\<lambda>hash.
           bindR (case actor_opt of Some a \<Rightarrow> Inr a | None \<Rightarrow> authenticate_request E q) (\<lambda>a. Inr (normalized, hash, a)))) of
        Inl e \<Rightarrow> (w, Inl e)
      | Inr (normalized, hash, a) \<Rightarrow>
          idempotent_transaction C E d (st\<lparr>rs_authenticated_actor := Some a\<rparr>) a normalized hash q w)"

definition idempotent_handler :: "crypto \<Rightarrow> 'w instance_env \<Rightarrow> draws \<Rightarrow> http_request \<Rightarrow> 'w service_state
    \<Rightarrow> 'w service_state \<times> http_response result" where
  "idempotent_handler C E d q w =
     (if \<not> mutating (rq_method q) then original_handler C E d new_request_state q w
      else case admit C E d q (sv_buckets w) of
        ((st, t), Inl e) \<Rightarrow> (w\<lparr>sv_buckets := t\<rparr>, Inl e)
      | ((st, t), Inr actor_opt) \<Rightarrow> (case header q ''idempotency-key'' of
            None \<Rightarrow> if set_require_idempotency_keys (en_settings E)
              then (w\<lparr>sv_buckets := t\<rparr>, Inl (HTTPException 428 ''Idempotency-Key header is required for mutating requests''))
              else original_handler C E d st q (w\<lparr>sv_buckets := t\<rparr>)
          | Some key \<Rightarrow> keyed_request C E d st actor_opt key q (w\<lparr>sv_buckets := t\<rparr>)))"

subsection \<open>What a request leaves of the records\<close>

lemma same_key_simps [simp]: "same_key a key (pending_record i a key q h n)"
  by (simp add: same_key_def pending_record_def)

lemma idempotency_key_Inr: "idempotency_key v = Inr k \<longleftrightarrow> k = v \<and> strip v = v \<and> key_pattern v"
  by (auto simp: idempotency_key_def)

lemma check_record_created:
  assumes "check_record q h True r = Inr p" "ir_status r = ''PENDING''"
  shows "p = None"
  using assms by (auto simp: check_record_def split: if_splits)

lemma check_record_seen:
  assumes "check_record q h False r = Inr p"
  shows "\<exists>x. p = Some x \<and> replay_of r = Inr x"
  using assms by (auto simp: check_record_def bindR_eq_Inr split: if_splits)

lemma insert_record_Inr:
  assumes "insert_record (pending_record i a key q h now) t = Inr (t', created)"
  shows "created \<and> t' = t @ [pending_record i a key q h now] \<and> locked_record a key t = None \<and> i \<notin> ir_id ` set t
    \<or> \<not> created \<and> t' = t \<and> locked_record a key t \<noteq> None"
  using assms
  by (auto simp: insert_record_def locked_record_def pending_record_def same_key_def list_ex_iff find_None_iff split: if_splits)

text \<open>A key is either acquired for a new record at the end of the table, or stands already.\<close>

lemma acquire_cases:
  assumes "acquire seen a key q h i now t = Inr (t', r, p)" "seen = None \<or> seen = locked_record a key t"
  obtains (acquired) "p = None" "locked_record a key t = None" "r = pending_record i a key q h now" "t' = t @ [r]"
      "i \<notin> ir_id ` set t"
    | (stands) x where "p = Some x" "locked_record a key t = Some r" "t' = t" "replay_of r = Inr x"
proof -
  have k: "idempotency_key key = Inr key" using assms(1) by (auto simp: acquire_def bindR_eq_Inr idempotency_key_Inr)
  show ?thesis
  proof (cases seen)
    case (Some s)
    then have "check_record q h False r = Inr p" "t' = t" "locked_record a key t = Some r"
      using assms k by (auto simp: acquire_def bindR_eq_Inr)
    then show ?thesis using stands check_record_seen by metis
  next
    case None
    then obtain created where c: "insert_record (pending_record i a key q h now) t = Inr (t', created)"
      "(if created then find (\<lambda>x. ir_id x = i) t' else locked_record a key t') = Some r" "check_record q h created r = Inr p"
      using assms(1) k by (auto simp: acquire_def bindR_eq_Inr split: option.splits prod.splits)
    show ?thesis
    proof (cases created)
      case True
      with insert_record_Inr [OF c(1)] have n: "t' = t @ [pending_record i a key q h now]" "locked_record a key t = None" "i \<notin> ir_id ` set t"
        by auto
      moreover have "find (\<lambda>x. ir_id x = i) (t @ [pending_record i a key q h now]) = Some (pending_record i a key q h now)"
        using n(3) by (induction t) (auto simp: pending_record_def)
      ultimately have "r = pending_record i a key q h now" using c(2) True by simp
      moreover from this have "p = None" using check_record_created [of q h r p] c(3) True by (simp add: pending_record_def)
      ultimately show ?thesis using acquired n by simp
    next
      case False
      with insert_record_Inr [OF c(1)] c(2,3) have "t' = t" "locked_record a key t = Some r" "check_record q h False r = Inr p" by auto
      then show ?thesis using stands check_record_seen by metis
    qed
  qed
qed

definition completed :: "idempotency_record \<Rightarrow> int \<Rightarrow> string option \<Rightarrow> pyval \<Rightarrow> bool \<Rightarrow> (string \<times> string) list \<Rightarrow> int \<Rightarrow> idempotency_record" where
  "completed r status mt payload has_body headers now = r\<lparr>ir_status := ''COMPLETED'', ir_response_status := Some status,
     ir_response_media_type := mt, ir_response_payload := payload, ir_response_has_body := Some has_body,
     ir_response_headers := Some headers, ir_completed_at := Some now\<rparr>"

lemma finish_record_appended:
  assumes "finish_record loads d r resp (t @ [r]) = Inr t'" "ir_id r \<notin> ir_id ` set t"
  shows "\<exists>payload has. response_payload loads resp = Inr (payload, has)
    \<and> t' = t @ [completed r (rp_status_code resp) (map_of (rp_headers resp) ''content-type'') payload has
                  (replay_headers resp) (dr_complete_now d)]"
proof -
  have "map (\<lambda>x. if ir_id x = ir_id r then y else x) (t @ [r]) = t @ [y]" for y
    using assms(2) by (induction t) auto
  then show ?thesis using assms(1)
    by (auto simp: finish_record_def complete_record_def completed_def bindR_eq_Inr split: prod.splits if_splits)
qed

lemma original_handler_records: "original_handler C E d st q w = (w', res) \<Longrightarrow> sv_records w' = sv_records w"
  by (auto simp: original_handler_def split: prod.splits sum.splits)

text \<open>The three outcomes of a transaction: nothing, a replay of the record that stands, or a new completed record.\<close>

lemma transaction_cases:
  assumes "idempotent_transaction C E d st a key h q w = (w', res)"
  obtains (unchanged) "sv_records w' = sv_records w" "sv_app w' = sv_app w"
      "\<And>resp. res = Inr resp \<Longrightarrow> locked_record a key (sv_records w) = None \<Longrightarrow>
        \<not> (200 \<le> rp_status_code resp \<and> rp_status_code resp < 300)"
    | (applied) resp payload has where
      "res = Inr (mark_first key resp)" "locked_record a key (sv_records w) = None"
      "response_payload (en_loads E) resp = Inr (payload, has)"
      "sv_records w' = sv_records w @ [completed (pending_record (dr_record_id d) a key q h (dr_acquire_now d)) (rp_status_code resp)
         (map_of (rp_headers resp) ''content-type'') payload has (replay_headers resp) (dr_complete_now d)]"
proof (cases "acquire (if dr_early d then None else locked_record a key (sv_records w)) a key q h (dr_record_id d)
        (dr_acquire_now d) (sv_records w)")
  case (Inl e)
  then show ?thesis using assms unchanged by (auto simp: idempotent_transaction_def)
next
  case (Inr trp)
  obtain t r p where t: "trp = (t, r, p)" by (cases trp)
  have acq: "acquire (if dr_early d then None else locked_record a key (sv_records w)) a key q h (dr_record_id d)
        (dr_acquire_now d) (sv_records w) = Inr (t, r, p)" using Inr t by simp
  show ?thesis
  proof (cases rule: acquire_cases [OF acq], (simp; fail), goal_cases)
    case 1
    obtain w2 res2 where o: "original_handler C E d st q (w\<lparr>sv_records := t\<rparr>) = (w2, res2)" by fastforce
    have rec: "sv_records w2 = t" using original_handler_records [OF o] by simp
    have trans: "idempotent_transaction C E d st a key h q w = (let rolled = w\<lparr>sv_buckets := sv_buckets w2\<rparr> in
           case res2 of Inl e \<Rightarrow> (rolled, Inl (http_conflict e))
           | Inr resp \<Rightarrow>
               if \<not> (200 \<le> rp_status_code resp \<and> rp_status_code resp < 300) then (rolled, Inr resp)
               else (case finish_record (en_loads E) d r resp (sv_records w2) of
                   Inl e \<Rightarrow> (rolled, Inl (http_conflict e))
                 | Inr t' \<Rightarrow> (w2\<lparr>sv_records := t'\<rparr>, Inr (mark_first key resp))))"
      using acq 1(1) o by (simp add: idempotent_transaction_def)
    show ?thesis
    proof (cases res2)
      case (Inl e)
      then show ?thesis using assms trans unchanged by (auto simp: Let_def)
    next
      case (Inr resp)
      show ?thesis
      proof (cases "200 \<le> rp_status_code resp \<and> rp_status_code resp < 300 \<and> is_ok (finish_record (en_loads E) d r resp (sv_records w2))")
        case False
        then show ?thesis using assms trans unchanged Inr by (auto simp: Let_def split: if_splits sum.splits)
      next
        case True
        then obtain t' where f: "finish_record (en_loads E) d r resp (sv_records w2) = Inr t'" by (auto simp: is_ok_iff)
        have w': "w' = w2\<lparr>sv_records := t'\<rparr>" "res = Inr (mark_first key resp)" using assms trans Inr True f by (auto simp: Let_def)
        have "ir_id r \<notin> ir_id ` set (sv_records w)" using 1(3,5) by (simp add: pending_record_def)
        from finish_record_appended [OF f [unfolded rec 1(4)] this] obtain payload has where
          "response_payload (en_loads E) resp = Inr (payload, has)"
          "t' = sv_records w @ [completed r (rp_status_code resp) (map_of (rp_headers resp) ''content-type'') payload has
                  (replay_headers resp) (dr_complete_now d)]" by blast
        then show ?thesis using applied [OF w'(2) 1(2)] w'(1) 1(3) by simp
      qed
    qed
  next
    case (2 x)
    then show ?thesis using assms acq unchanged by (auto simp: idempotent_transaction_def)
  qed
qed

subsection \<open>Requests in sequence\<close>

type_synonym 'w serving = "'w instance_env \<times> draws \<times> http_request"

definition serve :: "crypto \<Rightarrow> 'w serving list \<Rightarrow> 'w service_state \<Rightarrow> 'w service_state" where
  "serve C reqs w = fold (\<lambda>(E, d, q) w. fst (idempotent_handler C E d q w)) reqs w"

definition refused_by_quota :: "http_response result \<Rightarrow> bool" where
  "refused_by_quota r \<longleftrightarrow> r = Inl (HTTPException 503 ''Distributed request quota is unavailable'')
     \<or> r = Inl (HTTPException 429 ''Distributed actor or organization request quota exceeded'')"

lemma content_hash_policy: "is_ok (content_hash C (policy_value s))"
  by (simp add: content_hash_ok policy_value_def opt_value_def split: option.splits)

lemma increment_bucket_error: "increment_bucket scope ih ph w now t = Inl e \<Longrightarrow> \<exists>m. e = RuntimeError m"
  by (auto simp: increment_bucket_def split: option.splits prod.splits if_splits)

lemma consume_error:
  assumes "consume C s a c now t = Inl e"
  shows "\<exists>m. e = RuntimeError m"
proof -
  obtain ph where ph: "content_hash C (policy_value s) = Inr ph"
    using content_hash_policy [of C s] by (cases "content_hash C (policy_value s)") simp_all
  show ?thesis
  proof (cases "distributed_rate_limit_configured s")
    case True
    with assms ph show ?thesis
      by (cases "limits_of s c") (auto simp: consume_def Let_def bindR_eq_Inl split: prod.splits dest: increment_bucket_error)
  qed (use assms in \<open>auto simp: consume_def\<close>)
qed

lemma consume_committed_error: "consume_committed C s a c now t = (t', Inl e) \<Longrightarrow> \<exists>m. e = RuntimeError m"
  by (cases "consume C s a c now t") (auto simp: consume_committed_def dest: consume_error)

lemma enforce_error:
  assumes "enforce_rate_limit C s now q a st t = (x, Inl e)"
  shows "refused_by_quota (Inl e)"
proof (cases "set_rate_limit_enabled s \<and> \<not> rs_rate_limit_checked st")
  case True
  define cat where "cat = request_rate_limit_category (rq_method q) (rq_path q) (header q ''content-type'')"
  obtain t' r where c: "consume_committed C s a cat now t = (t', r)" by fastforce
  have e: "enforce_rate_limit C s now q a st t = (case (t', r) of
        (t', Inl e) \<Rightarrow> ((st, t'), Inl (case e of HTTPException _ _ \<Rightarrow> e
          | _ \<Rightarrow> HTTPException 503 ''Distributed request quota is unavailable''))
      | (t', Inr d) \<Rightarrow> ((st\<lparr>rs_rate_limit_checked := True, rs_rate_limit_decision := Some d\<rparr>, t'),
          if rd_allowed d then Inr ()
          else Inl (HTTPException 429 ''Distributed actor or organization request quota exceeded'')))"
    using True c by (simp add: enforce_rate_limit_def cat_def)
  show ?thesis
  proof (cases r)
    case (Inl y)
    obtain m where "y = RuntimeError m" using consume_committed_error [OF c [unfolded Inl]] by blast
    then show ?thesis using assms e Inl by (simp add: refused_by_quota_def)
  next
    case (Inr d)
    then show ?thesis using assms e by (simp add: refused_by_quota_def split: if_splits)
  qed
qed (use assms in \<open>auto simp: enforce_rate_limit_def\<close>)

lemma transaction_records:
  "idempotent_transaction C E d st a key h q w = (w', res) \<Longrightarrow> \<exists>xs. sv_records w' = sv_records w @ xs"
  by (erule transaction_cases) auto

lemma keyed_records: "keyed_request C E d st ao key q w = (w', res) \<Longrightarrow> \<exists>xs. sv_records w' = sv_records w @ xs"
  by (auto simp: keyed_request_def dest!: transaction_records split: sum.splits prod.splits)

lemma handler_records:
  "idempotent_handler C E d q w = (w', res) \<Longrightarrow> \<exists>xs. sv_records w' = sv_records w @ xs"
  by (auto simp: idempotent_handler_def dest!: keyed_records original_handler_records split: sum.splits prod.splits if_splits option.splits)

lemma serve_records: "\<exists>xs. sv_records (serve C reqs w) = sv_records w @ xs"
proof (induction reqs arbitrary: w)
  case (Cons x reqs)
  obtain E d q where x: "x = (E, d, q)" by (cases x)
  obtain w' res where h: "idempotent_handler C E d q w = (w', res)" by fastforce
  from Cons.IH [of w'] handler_records [OF h] show ?case by (auto simp: serve_def x h)
qed (simp add: serve_def)

lemma locked_record_append: "locked_record a key t = Some r \<Longrightarrow> locked_record a key (t @ xs) = Some r"
  unfolding locked_record_def by (induction t) auto

lemma locked_record_new: "locked_record a key t = None \<Longrightarrow> same_key a key r \<Longrightarrow> locked_record a key (t @ [r]) = Some r"
  unfolding locked_record_def by (induction t) (auto split: if_splits)

lemma locked_record_serve: "locked_record a key (sv_records w) = Some r \<Longrightarrow> locked_record a key (sv_records (serve C reqs w)) = Some r"
  using serve_records [of C reqs w] locked_record_append by metis

lemma admit_authenticated:
  assumes "authenticate_request E q = Inr a" "set_rate_limit_enabled (en_settings E)"
    "enforce_rate_limit C (en_settings E) (dr_limit_now d) q a new_request_state t = ((st, t'), r)"
  shows "admit C E d q t = (case r of Inl e \<Rightarrow> ((st, t'), Inl e) | Inr _ \<Rightarrow> ((st\<lparr>rs_authenticated_actor := Some a\<rparr>, t'), Inr (Some a)))"
  using assms by (cases r) (simp_all add: admit_def)

lemma admit_error:
  assumes "admit C E d q t = (x, Inl e)" "authenticate_request E q = Inr a"
  shows "refused_by_quota (Inl e)"
proof (cases "set_rate_limit_enabled (en_settings E)")
  case True
  obtain st t' r where r: "enforce_rate_limit C (en_settings E) (dr_limit_now d) q a new_request_state t = ((st, t'), r)"
    by (metis surj_pair)
  have "r = Inl e" using assms(1) admit_authenticated [OF assms(2) True r] by (cases r) simp_all
  then show ?thesis using enforce_error r by simp
qed (use assms in \<open>simp add: admit_def\<close>)

lemma admit_actor:
  assumes "admit C E d q t = (x, Inr ao)" "authenticate_request E q = Inr a"
  shows "ao = None \<or> ao = Some a"
proof (cases "set_rate_limit_enabled (en_settings E)")
  case True
  obtain st t' r where r: "enforce_rate_limit C (en_settings E) (dr_limit_now d) q a new_request_state t = ((st, t'), r)"
    by (metis surj_pair)
  show ?thesis using assms(1) admit_authenticated [OF assms(2) True r] by (cases r) simp_all
qed (use assms in \<open>simp add: admit_def\<close>)

text \<open>A request of an authenticated actor with a key: refused by the quota, or handled under its key.\<close>

lemma handler_keyed:
  assumes "idempotent_handler C E d q w = (w', res)" "mutating (rq_method q)" "header q ''idempotency-key'' = Some key"
    "authenticate_request E q = Inr a"
  obtains (quota) t where "w' = w\<lparr>sv_buckets := t\<rparr>" "refused_by_quota res"
    | (invalid) t where "w' = w\<lparr>sv_buckets := t\<rparr>" "idempotency_key key \<noteq> Inr key \<or> \<not> is_ok (request_hash C (en_settings E) q)" "\<not> is_ok res"
    | (keyed) t st h where "idempotency_key key = Inr key" "request_hash C (en_settings E) q = Inr h"
      "idempotent_transaction C E d st a key h q (w\<lparr>sv_buckets := t\<rparr>) = (w', res)"
proof -
  obtain st t r where ad: "admit C E d q (sv_buckets w) = ((st, t), r)" by (metis surj_pair)
  show ?thesis
  proof (cases r)
    case (Inl e)
    have "refused_by_quota (Inl e)" using Inl admit_error ad assms(4) by blast
    moreover have "w' = w\<lparr>sv_buckets := t\<rparr>" "res = Inl e" using assms(1,2) ad Inl by (simp_all add: idempotent_handler_def)
    ultimately show ?thesis using quota by simp
  next
    case (Inr ao)
    then have ao: "ao = None \<or> ao = Some a" using admit_actor ad assms(4) by blast
    have k: "keyed_request C E d st ao key q (w\<lparr>sv_buckets := t\<rparr>) = (w', res)"
      using assms(1-3) ad Inr by (simp add: idempotent_handler_def)
    have act: "(case ao of Some a \<Rightarrow> Inr a | None \<Rightarrow> authenticate_request E q) = Inr a" using ao assms(4) by auto
    show ?thesis
    proof (cases "idempotency_key key = Inr key")
      case False
      then obtain m where "idempotency_key key = Inl (ValueError m)" by (auto simp: idempotency_key_def split: if_splits)
      then have "w' = w\<lparr>sv_buckets := t\<rparr>" "\<not> is_ok res" using k by (auto simp: keyed_request_def)
      then show ?thesis using invalid False by simp
    next
      case True
      show ?thesis
      proof (cases "request_hash C (en_settings E) q")
        case (Inl e)
        then have "w' = w\<lparr>sv_buckets := t\<rparr>" "\<not> is_ok res" using k True by (auto simp: keyed_request_def)
        then show ?thesis using invalid Inl by simp
      next
        case (Inr h)
        then show ?thesis using k keyed True act by (simp add: keyed_request_def)
      qed
    qed
  qed
qed

text \<open>Under a key that stands with a completed record nothing is executed.\<close>

lemma transaction_stands:
  assumes "locked_record a key (sv_records w) = Some r" "ir_status r = ''COMPLETED''" "replay_of r = Inr x"
    "idempotency_key key = Inr key"
  shows "idempotent_transaction C E d st a key h q w = (w,
    if ir_request_method r = rq_method q \<and> ir_request_path r = rq_path q \<and> ir_request_hash r = h
    then Inr (replay_response x key)
    else Inl (HTTPException 409 ''Idempotency key was already used for a different request''))"
proof -
  have i: "insert_record (pending_record i a key q h now) (sv_records w) = Inr (sv_records w, False)" for i now
    using assms(1) by (auto simp: insert_record_def pending_record_def list_ex_iff locked_record_def same_key_def dest!: find_SomeD)
  have c: "check_record q h False r = (if ir_request_method r = rq_method q \<and> ir_request_path r = rq_path q \<and> ir_request_hash r = h
      then Inr (Some x) else Inl (IdempotencyConflictError ''Idempotency key was already used for a different request''))"
    using assms(2,3) by (simp add: check_record_def)
  have "acquire seen a key q h i now (sv_records w) = bindR (check_record q h False r) (\<lambda>p. Inr (sv_records w, r, p))"
    if "seen = None \<or> seen = Some r" for seen i now
    using that i assms(1,4) by (auto simp: acquire_def)
  then show ?thesis using assms(1) c by (simp add: idempotent_transaction_def http_conflict_def)
qed

subsection \<open>A mutation is applied once\<close>

lemma filter_set_header: "\<not> P (k, v) \<Longrightarrow> (\<And>u. P (k, u) \<longleftrightarrow> P (k, v)) \<Longrightarrow> filter P (set_header k v hs) = filter P hs"
proof -
  assume P: "\<not> P (k, v)" "\<And>u. P (k, u) \<longleftrightarrow> P (k, v)"
  have "filter P xs = filter P (filter (\<lambda>h. fst h \<noteq> k) xs)" for xs
    using P by (induction xs) auto
  then have "filter P hs = filter P (takeWhile (\<lambda>h. fst h \<noteq> k) hs) @ filter P (filter (\<lambda>h. fst h \<noteq> k) (dropWhile (\<lambda>h. fst h \<noteq> k) hs))"
    by (metis filter_append takeWhile_dropWhile_id)
  then show ?thesis using P by (auto simp: set_header_def)
qed

lemma map_of_set_header: "k' \<noteq> k \<Longrightarrow> map_of (set_header k v hs) k' = map_of hs k'"
proof -
  assume k: "k' \<noteq> k"
  have f: "map_of (filter (\<lambda>h. fst h \<noteq> k) xs) k' = map_of xs k'" for xs :: "(string \<times> string) list"
    using k by (induction xs) auto
  have m: "map_of (xs @ ys) k' = (case map_of xs k' of None \<Rightarrow> map_of ys k' | Some u \<Rightarrow> Some u)" for xs ys :: "(string \<times> string) list"
    by (induction xs) auto
  have h: "map_of hs k' = (case map_of (takeWhile (\<lambda>h. fst h \<noteq> k) hs) k' of
      None \<Rightarrow> map_of (dropWhile (\<lambda>h. fst h \<noteq> k) hs) k' | Some u \<Rightarrow> Some u)"
    using m [of "takeWhile (\<lambda>h. fst h \<noteq> k) hs" "dropWhile (\<lambda>h. fst h \<noteq> k) hs"] by (simp del: map_of_append)
  show ?thesis using k by (auto simp add: set_header_def m f h simp del: map_of_append split: option.splits)
qed

lemma mark_first_simps [simp]:
  "rp_status_code (mark_first key r) = rp_status_code r" "response_payload loads (mark_first key r) = response_payload loads r"
  "map_of (rp_headers (mark_first key r)) ''content-type'' = map_of (rp_headers r) ''content-type''"
  "replay_headers (mark_first key r) = replay_headers r"
proof -
  show "rp_status_code (mark_first key r) = rp_status_code r" "response_payload loads (mark_first key r) = response_payload loads r"
    by (simp_all add: mark_first_def response_payload_def)
  show "map_of (rp_headers (mark_first key r)) ''content-type'' = map_of (rp_headers r) ''content-type''"
    by (simp add: mark_first_def map_of_set_header)
  let ?P = "\<lambda>(name :: string, v :: string). casefold name \<in> {''location'', ''etag''}"
  have "filter ?P (set_header ''idempotency-replayed'' v hs) = filter ?P hs" "filter ?P (set_header ''idempotency-key'' v hs) = filter ?P hs" for v hs
    by (rule filter_set_header; simp add: casefold_def lower_char_def)+
  then show "replay_headers (mark_first key r) = replay_headers r" by (simp add: mark_first_def replay_headers_def)
qed

definition same_request :: "http_request \<Rightarrow> http_request \<Rightarrow> bool" where
  "same_request q q' \<longleftrightarrow> rq_method q' = rq_method q \<and> rq_path q' = rq_path q \<and> rq_query q' = rq_query q \<and> rq_body q' = rq_body q
     \<and> rq_form q' = rq_form q \<and> header q' ''content-type'' = header q ''content-type''
     \<and> header q' ''idempotency-key'' = header q ''idempotency-key''"

lemma same_request_hash:
  assumes "same_request q q'" "request_hash C s q = Inr h" "set_max_api_request_bytes s \<le> set_max_api_request_bytes s'"
  shows "request_hash C s' q' = Inr h"
  using assms by (auto simp: same_request_def request_hash_def body_descriptor_def media_type_def request_value_def split: if_splits)

text \<open>After the first successful handling of a key its record stands, complete, with the hash of the request.\<close>

lemma first_recorded:
  assumes "idempotent_handler C E d q w0 = (w1, Inr resp)" "200 \<le> rp_status_code resp" "rp_status_code resp < 300"
    "mutating (rq_method q)" "header q ''idempotency-key'' = Some key" "authenticate_request E q = Inr a"
    "locked_record a key (sv_records w0) = None"
  obtains h payload has i now t where "idempotency_key key = Inr key" "request_hash C (en_settings E) q = Inr h"
    "response_payload (en_loads E) resp = Inr (payload, has)"
    "locked_record a key (sv_records w1) = Some (completed (pending_record i a key q h now) (rp_status_code resp)
       (map_of (rp_headers resp) ''content-type'') payload has (replay_headers resp) t)"
  using assms(1,4-6)
proof (cases rule: handler_keyed)
  case (quota t)
  then show ?thesis by (simp add: refused_by_quota_def)
next
  case (invalid t)
  then show ?thesis by simp
next
  case (keyed t st h)
  from keyed(3) show ?thesis
  proof (cases rule: transaction_cases)
    case unchanged
    then show ?thesis using assms(2,3,7) by simp
  next
    case (applied resp0 payload has)
    have "same_key a key (completed (pending_record i a key q h now) x y z u v t')" for i now x y z u v t'
      by (simp add: completed_def same_key_def pending_record_def)
    then have "locked_record a key (sv_records w1) = Some (completed (pending_record (dr_record_id d) a key q h (dr_acquire_now d))
      (rp_status_code resp) (map_of (rp_headers resp) ''content-type'') payload has (replay_headers resp) (dr_complete_now d))"
      using applied(1,2,4) by (simp add: locked_record_new)
    with that keyed(1,2) applied(1,3) show ?thesis by simp
  qed
qed




text \<open>A first creation and its retry, with a changed application in between.\<close>

definition ex_actor :: actor where
  "ex_actor = \<lparr>actor_id = ''a'', actor_organization_id = ''o'', actor_roles = {||}\<rparr>"

definition ex_env :: "nat instance_env" where
  "ex_env = \<lparr>en_decode = (\<lambda>_ _ _. None), en_settings = ex_settings\<lparr>set_allow_insecure_dev_auth := True, set_rate_limit_enabled := False\<rparr>,
     en_loads = (\<lambda>s. Some (PStr s)),
     en_endpoint = (\<lambda>_ _ _ n. (n + 1, Inr \<lparr>rp_status_code = 201, rp_headers = [(''etag'', ''1'')], rp_body = Buffered ''b''\<rparr>))\<rparr>"

definition ex_request :: "string \<Rightarrow> string \<Rightarrow> http_request" where
  "ex_request key body = \<lparr>rq_method = ''POST'', rq_path = ''/p'', rq_headers = [(''idempotency-key'', key), (''x-dev-actor'', ''a''), (''x-dev-organization'', ''o'')],
     rq_query = [], rq_body = body, rq_form = [], rq_request_id = ''r''\<rparr>"

definition ex_draws :: "string \<Rightarrow> draws" where
  "ex_draws i = \<lparr>dr_limit_now = 0, dr_acquire_now = 1, dr_complete_now = 2, dr_record_id = i, dr_early = False\<rparr>"

definition ex_crypto :: crypto where
  "ex_crypto = \<lparr>sha256_hex = (\<lambda>s. s), hmac_hex = (\<lambda>_ s. s)\<rparr>"

definition ex_start :: "nat service_state" where
  "ex_start = \<lparr>sv_buckets = [], sv_records = [], sv_app = 5\<rparr>"

definition ex_first :: "nat service_state \<times> http_response result" where
  "ex_first = idempotent_handler ex_crypto ex_env (ex_draws ''i'') (ex_request ''12345678'' ''x'') ex_start"

definition ex_later :: "nat service_state" where
  "ex_later = serve ex_crypto [(ex_env, ex_draws ''j'', ex_request ''12345679'' ''x'')] (fst ex_first)"

definition ex_retry :: "nat service_state \<times> http_response result" where
  "ex_retry = idempotent_handler ex_crypto ex_env (ex_draws ''k'') (ex_request ''12345678'' ''x'') ex_later"

definition ex_reuse :: "nat service_state \<times> http_response result" where
  "ex_reuse = idempotent_handler ex_crypto ex_env (ex_draws ''k'') (ex_request ''12345678'' ''y'') ex_later"

lemma ex_first_facts: "is_ok (snd ex_first)" "rp_status_code (projr (snd ex_first)) = 201"
  "header (ex_request ''12345678'' ''x'') ''idempotency-key'' = Some ''12345678''"
  "header (ex_request ''12345678'' ''y'') ''idempotency-key'' = Some ''12345678''"
  "authenticate_request ex_env (ex_request k b) = Inr ex_actor"
  by (code_simp, code_simp, code_simp, code_simp, simp add: authenticate_request_def ex_env_def ex_request_def ex_settings_def header_def
      authenticate_def parse_roles_def split_on_def ex_actor_def List.map_filter_def Let_def strip_def upper_def)

lemma ex_apps: "sv_app (fst ex_first) = 6" "sv_app ex_later = 7" "sv_app (fst ex_retry) = 7" "sv_app (fst ex_reuse) = 7"
  by code_simp+

text \<open>C35. A mutating request that succeeded under a new key is not applied again: whatever the service handled
  since, and on whatever instance, the same request of the same actor leaves the application and the records as
  they are, and is refused by the quota or answered with the recorded status, payload and headers.\<close>

theorem mutation_applied_once:
  assumes "idempotent_handler C E d q w0 = (w1, Inr resp)" "200 \<le> rp_status_code resp" "rp_status_code resp < 300"
    "mutating (rq_method q)" "header q ''idempotency-key'' = Some key" "authenticate_request E q = Inr a"
    "locked_record a key (sv_records w0) = None"
    and "same_request q q'" "authenticate_request E' q' = Inr a"
    "set_max_api_request_bytes (en_settings E) \<le> set_max_api_request_bytes (en_settings E')"
    and w2: "w2 = serve C reqs w1" and "idempotent_handler C E' d' q' w2 = (w3, r)"
  shows "sv_app w3 = sv_app w2 \<and> sv_records w3 = sv_records w2
    \<and> (refused_by_quota r \<or> (\<exists>payload has. response_payload (en_loads E) resp = Inr (payload, has)
        \<and> r = Inr (replay_response \<lparr>ip_response_status = rp_status_code resp,
            ip_response_media_type = map_of (rp_headers resp) ''content-type'', ip_response_payload = payload,
            ip_response_has_body = has, ip_response_headers = replay_headers resp\<rparr> key)))"
proof -
  obtain h payload has i now t where rec: "idempotency_key key = Inr key" "request_hash C (en_settings E) q = Inr h"
    "response_payload (en_loads E) resp = Inr (payload, has)"
    "locked_record a key (sv_records w1) = Some (completed (pending_record i a key q h now) (rp_status_code resp)
       (map_of (rp_headers resp) ''content-type'') payload has (replay_headers resp) t)"
    using first_recorded [OF assms(1-7)] by blast
  define x where "x = completed (pending_record i a key q h now) (rp_status_code resp)
       (map_of (rp_headers resp) ''content-type'') payload has (replay_headers resp) t"
  have q': "mutating (rq_method q')" "header q' ''idempotency-key'' = Some key" "rq_method q' = rq_method q" "rq_path q' = rq_path q"
    using assms(4,5,8) by (simp_all add: same_request_def)
  note h' = same_request_hash [OF assms(8) rec(2) assms(10)]
  from assms(12) q'(1,2) assms(9) show ?thesis
  proof (cases rule: handler_keyed)
    case (quota t')
    then show ?thesis by simp
  next
    case (invalid t')
    then show ?thesis using rec(1) h' by simp
  next
    case (keyed t' st h2)
    have l: "locked_record a key (sv_records (w2\<lparr>sv_buckets := t'\<rparr>)) = Some x"
      using locked_record_serve [OF rec(4)] w2 by (simp add: x_def)
    have "h2 = h" using keyed(2) h' by simp
    then have "w3 = w2\<lparr>sv_buckets := t'\<rparr>" "r = Inr (replay_response \<lparr>ip_response_status = rp_status_code resp,
            ip_response_media_type = map_of (rp_headers resp) ''content-type'', ip_response_payload = payload,
            ip_response_has_body = has, ip_response_headers = replay_headers resp\<rparr> key)"
      using keyed(3) q'(3,4) transaction_stands [OF l, of _ C E' d' st h2 q'] rec(1)
      by (simp_all add: x_def completed_def pending_record_def replay_of_def)
    then show ?thesis using rec(3) by simp
  qed
qed

theorem mutation_applied_once_witness: "sv_app (fst ex_first) = 6 \<and> sv_app ex_later = 7 \<and> sv_app (fst ex_retry) = 7"
proof -
  have f: "idempotent_handler ex_crypto ex_env (ex_draws ''i'') (ex_request ''12345678'' ''x'') ex_start
    = (fst ex_first, Inr (projr (snd ex_first)))"
    using ex_first_facts(1) unfolding ex_first_def by (auto simp: is_ok_iff prod_eq_iff)
  have "sv_app (fst ex_retry) = sv_app ex_later \<and> sv_records (fst ex_retry) = sv_records ex_later
    \<and> (refused_by_quota (snd ex_retry) \<or> (\<exists>payload has. response_payload (en_loads ex_env) (projr (snd ex_first)) = Inr (payload, has)
        \<and> snd ex_retry = Inr (replay_response \<lparr>ip_response_status = rp_status_code (projr (snd ex_first)),
            ip_response_media_type = map_of (rp_headers (projr (snd ex_first))) ''content-type'', ip_response_payload = payload,
            ip_response_has_body = has, ip_response_headers = replay_headers (projr (snd ex_first))\<rparr> ''12345678'')))"
    by (rule mutation_applied_once [OF f _ _ _ ex_first_facts(3) ex_first_facts(5) _ _ ex_first_facts(5) _ ex_later_def])
       (simp_all add: ex_first_facts ex_retry_def mutating_def same_request_def ex_request_def ex_start_def locked_record_def)
  then show ?thesis using ex_apps by simp
qed



end
