(* ===== verification/TG_Signatures.thy ===== *)
theory TG_Signatures
  imports TG_Json TG_Base64
begin

text \<open>
  Signed records: the export package of \<open>domain/exports.py\<close>, the integration envelope and receipt of
  \<open>domain/integration.py\<close>.  Ed25519 is a parameter; patterns and lengths of text fields are pydantic's.
\<close>

subsection \<open>Keys and signatures\<close>

text \<open>The key pair of a private seed, and signing and verification of a message.\<close>

record ed25519 =
  ed_public :: "string \<Rightarrow> string"
  ed_sign :: "string \<Rightarrow> string \<Rightarrow> string"
  ed_verify :: "string \<Rightarrow> string \<Rightarrow> string \<Rightarrow> bool"

definition capitalize :: "string \<Rightarrow> string" where
  "capitalize s = map upper_char (take 1 s) @ casefold (drop 1 s)"

definition decode_sized :: "string \<Rightarrow> nat \<Rightarrow> string \<Rightarrow> string result" where
  "decode_sized v expected_size label = (case b64decode v of
     None \<Rightarrow> Inl (ValueError (''Invalid base64 '' @ label))
   | Some decoded \<Rightarrow> if length decoded \<noteq> expected_size
       then Inl (ValueError (capitalize label @ '' must contain '' @ nat_str expected_size @ '' bytes'')) else Inr decoded)"

record signing_material =
  sm_key_id :: string
  sm_private_key_b64 :: string
  sm_public_key_b64 :: string
  sm_public_key_fingerprint :: string

definition material_of :: "crypto \<Rightarrow> ed25519 \<Rightarrow> string \<Rightarrow> string \<Rightarrow> string \<Rightarrow> signing_material" where
  "material_of C S key_id private_key_b64 seed = \<lparr>sm_key_id = key_id, sm_private_key_b64 = private_key_b64,
     sm_public_key_b64 = b64encode (ed_public S seed), sm_public_key_fingerprint = sha256_hex C (ed_public S seed)\<rparr>"

subsection \<open>Export packages\<close>

definition EXPORT_SCHEMA_VERSION :: string where
  "EXPORT_SCHEMA_VERSION = ''tenderguard.signed-estimate-audit/v1''"

definition EXPORT_FORMAT :: string where
  "EXPORT_FORMAT = ''TENDERGUARD_SIGNED_JSON''"

definition REQUIRED_CONTENT_NAMES :: "string list" where
  "REQUIRED_CONTENT_NAMES = [''approvals.json'', ''audit_chain.json'', ''controlled_versions.json'', ''lineage.json'',
     ''project.json'', ''release_decision.json'', ''snapshot.json'', ''workflow.json'']"

type_synonym contents = "(string \<times> pyval) list"

record export_content_entry =
  ee_name :: string
  ee_sha256 :: string

record export_manifest =
  em_schema_version :: string
  em_format :: string
  em_project_id :: string
  em_organization_id :: string
  em_project_code :: string
  em_snapshot_id :: string
  em_snapshot_hash :: string
  em_document_set_revision_id :: string
  em_release_decision_id :: string
  em_release_state :: string
  em_template_version_id :: string
  em_audit_cutoff_event_hash :: string
  em_content_entries :: "export_content_entry list"

record export_signature =
  es_algorithm :: string
  es_key_id :: string
  es_public_key_b64 :: string
  es_public_key_fingerprint :: string
  es_manifest_hash :: string
  es_value_b64 :: string

record signed_export_package =
  ex_manifest :: export_manifest
  ex_contents :: contents
  ex_signature :: export_signature

definition content_entry_value :: "export_content_entry \<Rightarrow> pyval" where
  "content_entry_value e = PDict [(''name'', PStr (ee_name e)), (''sha256'', PStr (ee_sha256 e))]"

definition export_manifest_value :: "export_manifest \<Rightarrow> pyval" where
  "export_manifest_value m = PDict [(''schema_version'', PStr (em_schema_version m)), (''format'', PStr (em_format m)),
     (''project_id'', PStr (em_project_id m)), (''organization_id'', PStr (em_organization_id m)),
     (''project_code'', PStr (em_project_code m)), (''snapshot_id'', PStr (em_snapshot_id m)),
     (''snapshot_hash'', PStr (em_snapshot_hash m)), (''document_set_revision_id'', PStr (em_document_set_revision_id m)),
     (''release_decision_id'', PStr (em_release_decision_id m)), (''release_state'', PStr (em_release_state m)),
     (''template_version_id'', PStr (em_template_version_id m)),
     (''audit_cutoff_event_hash'', PStr (em_audit_cutoff_event_hash m)),
     (''content_entries'', PList (map content_entry_value (em_content_entries m)))]"

definition build_content_entries :: "crypto \<Rightarrow> contents \<Rightarrow> export_content_entry list result" where
  "build_content_entries C contents = mapR (\<lambda>name. bindR (content_hash C (the (map_of contents name)))
     (\<lambda>h. Inr \<lparr>ee_name = name, ee_sha256 = h\<rparr>)) (sort (remdups (map fst contents)))"

definition validate_manifest_contents :: "crypto \<Rightarrow> export_manifest \<Rightarrow> contents \<Rightarrow> unit result" where
  "validate_manifest_contents C manifest contents =
     (if fst ` set contents \<noteq> set REQUIRED_CONTENT_NAMES then
        Inl (ValueError (''Signed export content set is invalid; missing=''
          @ py_repr_list (sort (filter (\<lambda>n. n \<notin> fst ` set contents) REQUIRED_CONTENT_NAMES))
          @ ''; extra='' @ py_repr_list (sort (filter (\<lambda>n. n \<notin> set REQUIRED_CONTENT_NAMES) (remdups (map fst contents))))))
      else bindR (build_content_entries C contents) (\<lambda>expected.
        if em_content_entries manifest \<noteq> expected
        then Inl (ValueError ''Signed export content hashes do not match the manifest'') else Inr ()))"

definition load_signing_material :: "crypto \<Rightarrow> ed25519 \<Rightarrow> string \<Rightarrow> string \<Rightarrow> signing_material result" where
  "load_signing_material C S key_id private_key_b64 =
     (if strip key_id = [] then Inl (ValueError ''Export signing key ID is empty'')
      else bindR (decode_sized private_key_b64 32 ''export private key'') (\<lambda>seed.
        Inr (material_of C S key_id private_key_b64 seed)))"

definition build_signed_export_package :: "crypto \<Rightarrow> ed25519 \<Rightarrow> export_manifest \<Rightarrow> contents \<Rightarrow> signing_material
    \<Rightarrow> signed_export_package result" where
  "build_signed_export_package C S manifest contents material =
     bindR (validate_manifest_contents C manifest contents) (\<lambda>_.
     bindR (canonical_json (export_manifest_value manifest)) (\<lambda>manifest_bytes.
     bindR (decode_sized (sm_private_key_b64 material) 32 ''export private key'') (\<lambda>seed.
     bindR (content_hash C (export_manifest_value manifest)) (\<lambda>h.
       Inr \<lparr>ex_manifest = manifest, ex_contents = contents, ex_signature = \<lparr>es_algorithm = ''Ed25519'',
         es_key_id = sm_key_id material, es_public_key_b64 = sm_public_key_b64 material,
         es_public_key_fingerprint = sm_public_key_fingerprint material, es_manifest_hash = h,
         es_value_b64 = b64encode (ed_sign S seed manifest_bytes)\<rparr>\<rparr>))))"

definition check_trusted_key :: "string \<Rightarrow> string option \<Rightarrow> unit result" where
  "check_trusted_key public_bytes trusted = (case trusted of None \<Rightarrow> Inr ()
     | Some k \<Rightarrow> bindR (decode_sized k 32 ''trusted export public key'') (\<lambda>trusted_bytes.
         if public_bytes \<noteq> trusted_bytes then Inl (ValueError ''Signed export public key is not trusted'') else Inr ()))"

definition verify_signed_export_package :: "crypto \<Rightarrow> ed25519 \<Rightarrow> signed_export_package \<Rightarrow> string option \<Rightarrow> string option \<Rightarrow> unit result" where
  "verify_signed_export_package C S package trusted_public_key_b64 trusted_key_id =
     (let m = ex_manifest package; s = ex_signature package in
      if em_schema_version m \<noteq> EXPORT_SCHEMA_VERSION then Inl (ValueError ''Unsupported signed export schema version'')
      else if em_format m \<noteq> EXPORT_FORMAT then Inl (ValueError ''Unsupported signed export format'')
      else if es_algorithm s \<noteq> ''Ed25519'' then Inl (ValueError ''Unsupported signed export signature algorithm'')
      else if trusted_key_id \<noteq> None \<and> Some (es_key_id s) \<noteq> trusted_key_id
      then Inl (ValueError ''Signed export key ID is not trusted'')
      else bindR (validate_manifest_contents C m (ex_contents package)) (\<lambda>_.
      bindR (content_hash C (export_manifest_value m)) (\<lambda>expected.
        if es_manifest_hash s \<noteq> expected then Inl (ValueError ''Signed export manifest hash does not match'')
        else bindR (decode_sized (es_public_key_b64 s) 32 ''export public key'') (\<lambda>public_bytes.
        if sha256_hex C public_bytes \<noteq> es_public_key_fingerprint s
        then Inl (ValueError ''Signed export public-key fingerprint does not match'')
        else bindR (check_trusted_key public_bytes trusted_public_key_b64) (\<lambda>_.
        bindR (decode_sized (es_value_b64 s) 64 ''export signature'') (\<lambda>signature.
        bindR (canonical_json (export_manifest_value m)) (\<lambda>message.
        if ed_verify S public_bytes signature message then Inr ()
        else Inl (ValueError ''Signed export signature verification failed''))))))))"

text \<open>What the library documents of Ed25519: key and signature sizes, and that a signature verifies.\<close>

definition signatures_verify :: "ed25519 \<Rightarrow> bool" where
  "signatures_verify S \<longleftrightarrow> (\<forall>seed m. length (ed_public S seed) = 32 \<and> length (ed_sign S seed m) = 64
     \<and> ed_verify S (ed_public S seed) (ed_sign S seed m) m)"

lemma decode_sized_encode: "length bs = n \<Longrightarrow> decode_sized (b64encode bs) n label = Inr bs"
  by (simp add: decode_sized_def b64_roundtrip)


lemma manifest_float_free: "\<not> contains_float (export_manifest_value m)"
  by (simp add: export_manifest_value_def list_ex_iff content_entry_value_def)

lemma export_manifest_json: "\<exists>t. canonical_json (export_manifest_value m) = Inr t"
proof -
  have "is_ok (canonical_json (export_manifest_value m))"
    by (simp add: canonical_json_def is_ok_bindR canonical_data_ok manifest_float_free)
  then show ?thesis by (cases "canonical_json (export_manifest_value m)") simp_all
qed

lemma export_manifest_hash: "canonical_json (export_manifest_value m) = Inr t \<Longrightarrow> content_hash C (export_manifest_value m) = Inr (sha256_hex C t)"
  by (simp add: content_hash_def)

text \<open>C37. A package built with a loaded key verifies against that key.\<close>

theorem export_roundtrip:
  assumes "signatures_verify S" "load_signing_material C S key_id private_key_b64 = Inr material"
    "build_signed_export_package C S manifest contents material = Inr package"
    "em_schema_version manifest = EXPORT_SCHEMA_VERSION" "em_format manifest = EXPORT_FORMAT"
  shows "verify_signed_export_package C S package (Some (sm_public_key_b64 material)) (Some key_id) = Inr ()"
proof -
  obtain seed where seed: "decode_sized private_key_b64 32 ''export private key'' = Inr seed"
    "material = material_of C S key_id private_key_b64 seed"
    using assms(2) by (auto simp: load_signing_material_def bindR_eq_Inr split: if_splits)
  obtain t where t: "canonical_json (export_manifest_value manifest) = Inr t" using export_manifest_json by blast
  have s: "length (ed_public S seed) = 32" "length (ed_sign S seed t) = 64" "ed_verify S (ed_public S seed) (ed_sign S seed t) t"
    using assms(1) by (simp_all add: signatures_verify_def)
  have v: "validate_manifest_contents C manifest contents = Inr ()"
    using assms(3) by (auto simp: build_signed_export_package_def bindR_eq_Inr)
  have p: "package = \<lparr>ex_manifest = manifest, ex_contents = contents, ex_signature = \<lparr>es_algorithm = ''Ed25519'',
         es_key_id = key_id, es_public_key_b64 = b64encode (ed_public S seed),
         es_public_key_fingerprint = sha256_hex C (ed_public S seed), es_manifest_hash = sha256_hex C t,
         es_value_b64 = b64encode (ed_sign S seed t)\<rparr>\<rparr>"
    using assms(3) seed t v by (simp add: build_signed_export_package_def material_of_def export_manifest_hash)
  show ?thesis
    using assms(4,5) s t v unfolding p seed(2)
    by (simp add: verify_signed_export_package_def Let_def material_of_def decode_sized_encode check_trusted_key_def export_manifest_hash)
qed







text \<open>A package with empty parts.\<close>

definition ex_contents_map :: contents where
  "ex_contents_map = map (\<lambda>n. (n, PNone)) REQUIRED_CONTENT_NAMES"

definition ex_hash :: crypto where
  "ex_hash = \<lparr>sha256_hex = (\<lambda>_. ''h''), hmac_hex = (\<lambda>_ _. ''h'')\<rparr>"

lemma ex_hash_simp [simp]: "sha256_hex ex_hash x = ''h''"
  by (simp add: ex_hash_def)

definition ex_export_manifest :: export_manifest where
  "ex_export_manifest = \<lparr>em_schema_version = EXPORT_SCHEMA_VERSION, em_format = EXPORT_FORMAT, em_project_id = ''p'',
     em_organization_id = ''o'', em_project_code = ''c'', em_snapshot_id = ''s'', em_snapshot_hash = ''h'',
     em_document_set_revision_id = ''d'', em_release_decision_id = ''r'', em_release_state = ''INTERNAL_RELEASE'',
     em_template_version_id = ''t'', em_audit_cutoff_event_hash = ''h'',
     em_content_entries = projr (build_content_entries ex_hash ex_contents_map)\<rparr>"

definition ex_scheme :: ed25519 where
  "ex_scheme = \<lparr>ed_public = (\<lambda>_. replicate 32 (CHR ''p'')), ed_sign = (\<lambda>_ _. replicate 64 (CHR ''s'')),
     ed_verify = (\<lambda>key sig t. key = replicate 32 (CHR ''p'') \<and> sig = replicate 64 (CHR ''s''))\<rparr>"

definition ex_material :: signing_material where
  "ex_material = material_of ex_hash ex_scheme ''k'' (b64encode (replicate 32 (CHR ''x''))) (replicate 32 (CHR ''x''))"

lemma ex_validated: "validate_manifest_contents ex_hash ex_export_manifest ex_contents_map = Inr ()"
proof -
  have l: "the (map_of ex_contents_map n) = PNone" if "n \<in> fst ` set ex_contents_map" for n
    using that by (auto simp: ex_contents_map_def map_of_map_restrict)
  have "is_ok (build_content_entries ex_hash ex_contents_map)"
    unfolding build_content_entries_def is_ok_mapR by (auto simp: is_ok_bindR content_hash_ok l)
  then obtain es where es: "build_content_entries ex_hash ex_contents_map = Inr es" unfolding is_ok_iff by blast
  have "fst ` set ex_contents_map = set REQUIRED_CONTENT_NAMES" by (auto simp: ex_contents_map_def image_iff)
  with es show ?thesis by (simp add: validate_manifest_contents_def ex_export_manifest_def)
qed

lemma ex_loaded: "load_signing_material ex_hash ex_scheme ''k'' (b64encode (replicate 32 (CHR ''x''))) = Inr ex_material"
  by (simp add: load_signing_material_def ex_material_def decode_sized_encode strip_def py_isspace_def)

lemma ex_built: "build_signed_export_package ex_hash ex_scheme ex_export_manifest ex_contents_map ex_material
  = Inr (projr (build_signed_export_package ex_hash ex_scheme ex_export_manifest ex_contents_map ex_material))"
proof -
  obtain t where "canonical_json (export_manifest_value ex_export_manifest) = Inr t" using export_manifest_json by blast
  then show ?thesis by (simp add: build_signed_export_package_def ex_validated ex_material_def material_of_def decode_sized_encode export_manifest_hash)
qed

theorem export_roundtrip_witness:
  "\<exists>package. build_signed_export_package ex_hash ex_scheme ex_export_manifest ex_contents_map ex_material = Inr package
    \<and> verify_signed_export_package ex_hash ex_scheme package (Some (sm_public_key_b64 ex_material)) (Some ''k'') = Inr ()"
proof -
  have "verify_signed_export_package ex_hash ex_scheme
      (projr (build_signed_export_package ex_hash ex_scheme ex_export_manifest ex_contents_map ex_material))
      (Some (sm_public_key_b64 ex_material)) (Some ''k'') = Inr ()"
    by (rule export_roundtrip [OF _ ex_loaded ex_built]) (simp_all add: signatures_verify_def ex_scheme_def ex_export_manifest_def)
  with ex_built show ?thesis by blast
qed




end
