(* ===== verification/TG_Integration.thy ===== *)
theory TG_Integration
  imports TG_Signatures
begin

text \<open>
  Signed integration messages, \<open>domain/integration.py\<close>: the envelope of an event, the receipt that
  acknowledges it and the hash by which a receiver recognises a retry.  Instants are microseconds since the
  epoch and always aware, so the validators that refuse naive ones never fire.
\<close>

subsection \<open>Messages\<close>

definition INTEGRATION_EVENT_SCHEMA_VERSION :: string where
  "INTEGRATION_EVENT_SCHEMA_VERSION = ''tenderguard.integration-event/v1''"

definition INTEGRATION_RECEIPT_SCHEMA_VERSION :: string where
  "INTEGRATION_RECEIPT_SCHEMA_VERSION = ''tenderguard.integration-receipt/v1''"

datatype IntegrationReceiptStatus = ACCEPTED | DUPLICATE

fun receipt_status_name :: "IntegrationReceiptStatus \<Rightarrow> string" where
  "receipt_status_name ACCEPTED = ''ACCEPTED''"
| "receipt_status_name DUPLICATE = ''DUPLICATE''"

record integration_signature =
  sg_algorithm :: string
  sg_key_id :: string
  sg_value_b64 :: string

record integration_event_body =
  ib_schema_version :: string
  ib_message_id :: string
  ib_delivery_deduplication_key :: string
  ib_topic :: string
  ib_aggregate_id :: string
  ib_organization_id :: string
  ib_occurred_at :: int
  ib_sent_at :: int
  ib_payload_hash :: string
  ib_payload :: contents

record signed_integration_envelope =
  ie_body :: integration_event_body
  ie_signature :: integration_signature

record integration_receipt_body =
  rb_schema_version :: string
  rb_source_message_id :: string
  rb_receiver_message_id :: string
  rb_delivery_deduplication_key :: string
  rb_payload_hash :: string
  rb_receiver_id :: string
  rb_status :: IntegrationReceiptStatus
  rb_received_at :: int

record signed_integration_receipt =
  ir_body :: integration_receipt_body
  ir_signature :: integration_signature

definition topic_pattern :: "string \<Rightarrow> bool" where
  "topic_pattern s \<longleftrightarrow> (let alnum = (\<lambda>c. let n = of_char c :: nat in (97 \<le> n \<and> n \<le> 122) \<or> (48 \<le> n \<and> n \<le> 57)) in
     1 \<le> length s \<and> length s \<le> 200 \<and> alnum (hd s) \<and> list_all (\<lambda>c. alnum c \<or> c \<in> set ''._-'') (tl s))"

definition event_body_check :: "crypto \<Rightarrow> integration_event_body \<Rightarrow> integration_event_body result" where
  "event_body_check C b =
     (if \<not> topic_pattern (ib_topic b) then Inl (ValueError ''Integration topic is invalid'')
      else if ib_schema_version b \<noteq> INTEGRATION_EVENT_SCHEMA_VERSION
      then Inl (ValueError ''Unsupported integration event schema version'')
      else bindR (content_hash C (PDict (ib_payload b))) (\<lambda>h.
        if h \<noteq> ib_payload_hash b then Inl (ValueError ''Integration event payload hash does not match'') else Inr b))"

definition receipt_body_check :: "integration_receipt_body \<Rightarrow> integration_receipt_body result" where
  "receipt_body_check b = (if rb_schema_version b \<noteq> INTEGRATION_RECEIPT_SCHEMA_VERSION
     then Inl (ValueError ''Unsupported integration receipt schema version'') else Inr b)"

definition event_body_value :: "integration_event_body \<Rightarrow> pyval" where
  "event_body_value b = PDict [(''schema_version'', PStr (ib_schema_version b)), (''message_id'', PStr (ib_message_id b)),
     (''delivery_deduplication_key'', PStr (ib_delivery_deduplication_key b)), (''topic'', PStr (ib_topic b)),
     (''aggregate_id'', PStr (ib_aggregate_id b)), (''organization_id'', PStr (ib_organization_id b)),
     (''occurred_at'', PStr (datetime_iso (ib_occurred_at b))), (''sent_at'', PStr (datetime_iso (ib_sent_at b))),
     (''payload_hash'', PStr (ib_payload_hash b)), (''payload'', PDict (ib_payload b))]"

definition receipt_body_value :: "integration_receipt_body \<Rightarrow> pyval" where
  "receipt_body_value b = PDict [(''schema_version'', PStr (rb_schema_version b)),
     (''source_message_id'', PStr (rb_source_message_id b)), (''receiver_message_id'', PStr (rb_receiver_message_id b)),
     (''delivery_deduplication_key'', PStr (rb_delivery_deduplication_key b)), (''payload_hash'', PStr (rb_payload_hash b)),
     (''receiver_id'', PStr (rb_receiver_id b)), (''status'', PStr (receipt_status_name (rb_status b))),
     (''received_at'', PStr (datetime_iso (rb_received_at b)))]"

subsection \<open>Signing and verifying\<close>

definition load_integration_signing_material :: "crypto \<Rightarrow> ed25519 \<Rightarrow> string \<Rightarrow> string \<Rightarrow> signing_material result" where
  "load_integration_signing_material C S key_id private_key_b64 =
     (if strip key_id = [] \<or> strip key_id \<noteq> key_id \<or> 200 < length key_id
      then Inl (ValueError ''Integration signing key ID is invalid'')
      else bindR (decode_sized private_key_b64 32 ''integration private key'') (\<lambda>seed.
        Inr (material_of C S key_id private_key_b64 seed)))"

definition sign_value :: "ed25519 \<Rightarrow> pyval \<Rightarrow> signing_material \<Rightarrow> integration_signature result" where
  "sign_value S v material =
     bindR (decode_sized (sm_private_key_b64 material) 32 ''integration private key'') (\<lambda>seed.
     bindR (canonical_json v) (\<lambda>message.
       Inr \<lparr>sg_algorithm = ''Ed25519'', sg_key_id = sm_key_id material, sg_value_b64 = b64encode (ed_sign S seed message)\<rparr>))"

definition verify_signature :: "ed25519 \<Rightarrow> integration_signature \<Rightarrow> pyval \<Rightarrow> string \<Rightarrow> string \<Rightarrow> unit result" where
  "verify_signature S sg v trusted_public_key_b64 label =
     bindR (decode_sized (sg_value_b64 sg) 64 (label @ '' signature'')) (\<lambda>signature_bytes.
     bindR (decode_sized trusted_public_key_b64 32 ''integration public key'') (\<lambda>key.
     bindR (canonical_json v) (\<lambda>message.
       if ed_verify S key signature_bytes message then Inr ()
       else Inl (ValueError (''Signed '' @ label @ '' verification failed'')))))"

definition build_signed_integration_envelope :: "crypto \<Rightarrow> ed25519 \<Rightarrow> string \<Rightarrow> string \<Rightarrow> string \<Rightarrow> string \<Rightarrow> string \<Rightarrow> int \<Rightarrow> contents
    \<Rightarrow> signing_material \<Rightarrow> int option \<Rightarrow> int \<Rightarrow> signed_integration_envelope result" where
  "build_signed_integration_envelope C S message_id dedup topic aggregate_id organization_id occurred_at payload material sent_at now =
     bindR (content_hash C (PDict payload)) (\<lambda>h.
     bindR (event_body_check C \<lparr>ib_schema_version = INTEGRATION_EVENT_SCHEMA_VERSION, ib_message_id = message_id,
         ib_delivery_deduplication_key = dedup, ib_topic = topic, ib_aggregate_id = aggregate_id,
         ib_organization_id = organization_id, ib_occurred_at = occurred_at,
         ib_sent_at = (case sent_at of None \<Rightarrow> now | Some t \<Rightarrow> t), ib_payload_hash = h, ib_payload = payload\<rparr>) (\<lambda>body.
     bindR (sign_value S (event_body_value body) material) (\<lambda>sg. Inr \<lparr>ie_body = body, ie_signature = sg\<rparr>)))"

record envelope_trust =
  et_key_id :: string
  et_public_key_b64 :: string
  et_organization_id :: string
  et_topics :: "string set"
  et_max_message_age_seconds :: "int option"
  et_max_future_skew_seconds :: "int option"

definition verify_signed_integration_envelope :: "crypto \<Rightarrow> ed25519 \<Rightarrow> envelope_trust \<Rightarrow> int \<Rightarrow> signed_integration_envelope \<Rightarrow> unit result" where
  "verify_signed_integration_envelope C S T checked_at envelope =
     (let b = ie_body envelope; sg = ie_signature envelope in
      if sg_algorithm sg \<noteq> ''Ed25519'' then Inl (ValueError ''Unsupported integration signature algorithm'')
      else if sg_key_id sg \<noteq> et_key_id T then Inl (ValueError ''Integration signing key ID is not trusted'')
      else if ib_organization_id b \<noteq> et_organization_id T then Inl (ValueError ''Integration event belongs to another organization'')
      else if ib_topic b \<notin> et_topics T then Inl (ValueError ''Integration topic is not qualified for this source'')
      else bindR (content_hash C (PDict (ib_payload b))) (\<lambda>h.
        if h \<noteq> ib_payload_hash b then Inl (ValueError ''Integration event payload hash does not match'')
        else bindR (verify_signature S sg (event_body_value b) (et_public_key_b64 T) ''integration event'') (\<lambda>_.
        if (case et_max_message_age_seconds T of None \<Rightarrow> False | Some s \<Rightarrow> ib_sent_at b < checked_at - s * 1000000)
        then Inl (ValueError ''Integration event is older than the accepted delivery window'')
        else if (case et_max_future_skew_seconds T of None \<Rightarrow> False | Some s \<Rightarrow> ib_sent_at b > checked_at + s * 1000000)
        then Inl (ValueError ''Integration event timestamp is too far in the future'')
        else Inr ())))"

definition build_signed_integration_receipt :: "ed25519 \<Rightarrow> string \<Rightarrow> string \<Rightarrow> string \<Rightarrow> string \<Rightarrow> string \<Rightarrow> IntegrationReceiptStatus
    \<Rightarrow> signing_material \<Rightarrow> int \<Rightarrow> signed_integration_receipt result" where
  "build_signed_integration_receipt S source_id receiver_message_id dedup payload_hash receiver_id status material received_at =
     bindR (receipt_body_check \<lparr>rb_schema_version = INTEGRATION_RECEIPT_SCHEMA_VERSION, rb_source_message_id = source_id,
         rb_receiver_message_id = receiver_message_id, rb_delivery_deduplication_key = dedup, rb_payload_hash = payload_hash,
         rb_receiver_id = receiver_id, rb_status = status, rb_received_at = received_at\<rparr>) (\<lambda>body.
     bindR (sign_value S (receipt_body_value body) material) (\<lambda>sg. Inr \<lparr>ir_body = body, ir_signature = sg\<rparr>))"

definition acknowledges :: "integration_receipt_body \<Rightarrow> integration_event_body \<Rightarrow> bool" where
  "acknowledges r b \<longleftrightarrow> rb_source_message_id r = ib_message_id b
     \<and> rb_delivery_deduplication_key r = ib_delivery_deduplication_key b \<and> rb_payload_hash r = ib_payload_hash b"

definition verify_signed_integration_receipt :: "ed25519 \<Rightarrow> signed_integration_receipt \<Rightarrow> signed_integration_envelope \<Rightarrow> string \<Rightarrow> string
    \<Rightarrow> string \<Rightarrow> unit result" where
  "verify_signed_integration_receipt S receipt envelope trusted_key_id trusted_public_key_b64 expected_receiver_id =
     (if sg_algorithm (ir_signature receipt) \<noteq> ''Ed25519'' then Inl (ValueError ''Unsupported integration receipt signature algorithm'')
      else if sg_key_id (ir_signature receipt) \<noteq> trusted_key_id
      then Inl (ValueError ''Integration receipt signing key ID is not trusted'')
      else if rb_receiver_id (ir_body receipt) \<noteq> expected_receiver_id
      then Inl (ValueError ''Integration receipt receiver is not trusted'')
      else if \<not> acknowledges (ir_body receipt) (ie_body envelope)
      then Inl (ValueError ''Integration receipt does not acknowledge the delivered event'')
      else verify_signature S (ir_signature receipt) (receipt_body_value (ir_body receipt)) trusted_public_key_b64 ''integration receipt'')"

definition envelope_core :: "integration_event_body \<Rightarrow> contents" where
  "envelope_core b = [(''schema_version'', PStr (ib_schema_version b)), (''message_id'', PStr (ib_message_id b)),
     (''delivery_deduplication_key'', PStr (ib_delivery_deduplication_key b)), (''topic'', PStr (ib_topic b)),
     (''aggregate_id'', PStr (ib_aggregate_id b)), (''organization_id'', PStr (ib_organization_id b)),
     (''occurred_at'', PStr (datetime_iso (ib_occurred_at b))), (''payload_hash'', PStr (ib_payload_hash b)),
     (''payload'', PDict (ib_payload b))]"

definition integration_envelope_core_hash :: "crypto \<Rightarrow> signed_integration_envelope \<Rightarrow> string result" where
  "integration_envelope_core_hash C envelope = content_hash C (PDict (envelope_core (ie_body envelope)))"

definition validate_integration_public_key :: "string \<Rightarrow> unit result" where
  "validate_integration_public_key k = bindR (decode_sized k 32 ''integration public key'') (\<lambda>_. Inr ())"

subsection \<open>Delivery\<close>

lemma loaded_material:
  assumes "load_integration_signing_material C S key_id private_key_b64 = Inr material"
  obtains seed where "decode_sized private_key_b64 32 ''integration private key'' = Inr seed"
    "material = material_of C S key_id private_key_b64 seed"
  using assms by (auto simp: load_integration_signing_material_def bindR_eq_Inr split: if_splits)

lemma signed_verifies:
  assumes "signatures_verify S" "load_integration_signing_material C S key_id private_key_b64 = Inr material"
    "sign_value S v material = Inr sg"
  shows "verify_signature S sg v (sm_public_key_b64 material) label = Inr ()" "sg_algorithm sg = ''Ed25519''" "sg_key_id sg = key_id"
proof -
  obtain seed where seed: "decode_sized private_key_b64 32 ''integration private key'' = Inr seed"
    "material = material_of C S key_id private_key_b64 seed" using loaded_material [OF assms(2)] .
  then obtain t where t: "canonical_json v = Inr t"
    "sg = \<lparr>sg_algorithm = ''Ed25519'', sg_key_id = key_id, sg_value_b64 = b64encode (ed_sign S seed t)\<rparr>"
    using assms(3) by (auto simp: sign_value_def material_of_def bindR_eq_Inr)
  have "length (ed_public S seed) = 32" "length (ed_sign S seed t) = 64" "ed_verify S (ed_public S seed) (ed_sign S seed t) t"
    using assms(1) by (simp_all add: signatures_verify_def)
  then show "verify_signature S sg v (sm_public_key_b64 material) label = Inr ()" "sg_algorithm sg = ''Ed25519''" "sg_key_id sg = key_id"
    using t by (simp_all add: verify_signature_def seed(2) material_of_def decode_sized_encode)
qed

definition within_window :: "envelope_trust \<Rightarrow> int \<Rightarrow> int \<Rightarrow> bool" where
  "within_window T sent_at checked_at \<longleftrightarrow>
     (case et_max_message_age_seconds T of None \<Rightarrow> True | Some s \<Rightarrow> checked_at - sent_at \<le> s * 1000000)
     \<and> (case et_max_future_skew_seconds T of None \<Rightarrow> True | Some s \<Rightarrow> sent_at - checked_at \<le> s * 1000000)"

text \<open>An event that was built with the sender's key is accepted by a receiver that trusts that key, the
  organization and the topic exactly when it arrives within the receiver's window.\<close>

theorem envelope_accepted:
  assumes "signatures_verify S" "load_integration_signing_material C S (et_key_id T) private_key_b64 = Inr material"
    "et_public_key_b64 T = sm_public_key_b64 material"
    "build_signed_integration_envelope C S message_id dedup topic aggregate_id (et_organization_id T) occurred_at payload material sent_at now
      = Inr envelope" "topic \<in> et_topics T"
  shows "verify_signed_integration_envelope C S T checked_at envelope = Inr ()
    \<longleftrightarrow> within_window T (ib_sent_at (ie_body envelope)) checked_at"
proof -
  obtain h body sg where b: "content_hash C (PDict payload) = Inr h" "envelope = \<lparr>ie_body = body, ie_signature = sg\<rparr>"
    "sign_value S (event_body_value body) material = Inr sg"
    "ib_payload body = payload" "ib_payload_hash body = h" "ib_topic body = topic" "ib_organization_id body = et_organization_id T"
    using assms(4) by (auto simp: build_signed_integration_envelope_def event_body_check_def bindR_eq_Inr split: if_splits)
  note v = signed_verifies [OF assms(1,2) b(3)]
  show ?thesis
    using v(1) [of "''integration event''"] v(2,3) b assms(3,5)
    by (auto simp: verify_signed_integration_envelope_def Let_def within_window_def split: option.splits)
qed

text \<open>The receipt built for an event verifies against it, and against another event only when that one has the
  same message, deduplication key and payload hash.\<close>

theorem receipt_acknowledges:
  assumes "signatures_verify S" "load_integration_signing_material C S key_id private_key_b64 = Inr material"
    "build_signed_integration_receipt S (ib_message_id b) receiver_message_id (ib_delivery_deduplication_key b) (ib_payload_hash b)
      receiver_id status material received_at = Inr receipt"
  shows "verify_signed_integration_receipt S receipt envelope key_id (sm_public_key_b64 material) receiver_id = Inr ()
    \<longleftrightarrow> ib_message_id (ie_body envelope) = ib_message_id b
      \<and> ib_delivery_deduplication_key (ie_body envelope) = ib_delivery_deduplication_key b
      \<and> ib_payload_hash (ie_body envelope) = ib_payload_hash b"
proof -
  obtain body sg where r: "receipt = \<lparr>ir_body = body, ir_signature = sg\<rparr>" "sign_value S (receipt_body_value body) material = Inr sg"
    "rb_source_message_id body = ib_message_id b" "rb_delivery_deduplication_key body = ib_delivery_deduplication_key b"
    "rb_payload_hash body = ib_payload_hash b" "rb_receiver_id body = receiver_id"
    using assms(3) by (auto simp: build_signed_integration_receipt_def receipt_body_check_def bindR_eq_Inr split: if_splits)
  note v = signed_verifies [OF assms(1,2) r(2)]
  show ?thesis
    using v(1) [of "''integration receipt''"] v(2,3) r
    by (auto simp: verify_signed_integration_receipt_def acknowledges_def)
qed

text \<open>The core hash of a retry is that of the first delivery, whatever the instant and the key of the new
  signature, and equal core hashes mean the same event.\<close>

theorem core_hash_exact:
  assumes "integration_envelope_core_hash C d = Inr h" "integration_envelope_core_hash C e = Inr k"
  shows "(ie_body d)\<lparr>ib_sent_at := 0\<rparr> = (ie_body e)\<lparr>ib_sent_at := 0\<rparr> \<Longrightarrow> h = k"
    and "h = k \<Longrightarrow> (ib_message_id (ie_body d) = ib_message_id (ie_body e)
      \<and> ib_delivery_deduplication_key (ie_body d) = ib_delivery_deduplication_key (ie_body e)
      \<and> ib_topic (ie_body d) = ib_topic (ie_body e) \<and> ib_aggregate_id (ie_body d) = ib_aggregate_id (ie_body e)
      \<and> ib_organization_id (ie_body d) = ib_organization_id (ie_body e)
      \<and> canonical_data (PDict (ib_payload (ie_body d))) = canonical_data (PDict (ib_payload (ie_body e))))
     \<or> (\<exists>x y. x \<noteq> y \<and> sha256_hex C x = sha256_hex C y)"
proof -
  assume "(ie_body d)\<lparr>ib_sent_at := 0\<rparr> = (ie_body e)\<lparr>ib_sent_at := 0\<rparr>"
  then have "envelope_core (ie_body d) = envelope_core (ie_body e)"
    by (cases "ie_body d"; cases "ie_body e") (simp add: envelope_core_def)
  with assms show "h = k" by (simp add: integration_envelope_core_hash_def)
next
  assume "h = k"
  with assms have hashes: "content_hash C (PDict (envelope_core (ie_body d))) = Inr h" "content_hash C (PDict (envelope_core (ie_body e))) = Inr h"
    by (simp_all add: integration_envelope_core_hash_def)
  from content_hash_eq [OF this]
  show "(ib_message_id (ie_body d) = ib_message_id (ie_body e)
      \<and> ib_delivery_deduplication_key (ie_body d) = ib_delivery_deduplication_key (ie_body e)
      \<and> ib_topic (ie_body d) = ib_topic (ie_body e) \<and> ib_aggregate_id (ie_body d) = ib_aggregate_id (ie_body e)
      \<and> ib_organization_id (ie_body d) = ib_organization_id (ie_body e)
      \<and> canonical_data (PDict (ib_payload (ie_body d))) = canonical_data (PDict (ib_payload (ie_body e))))
     \<or> (\<exists>x y. x \<noteq> y \<and> sha256_hex C x = sha256_hex C y)"
  proof
    assume eq: "canonical_data (PDict (envelope_core (ie_body d))) = canonical_data (PDict (envelope_core (ie_body e)))"
    have "is_ok (content_hash C (PDict (envelope_core (ie_body d))))" using hashes(1) by simp
    then have "is_ok (canonical_data (PDict (envelope_core (ie_body d))))" by (simp add: content_hash_ok canonical_data_ok)
    then obtain x where "canonical_data (PDict (envelope_core (ie_body d))) = Inr x" unfolding is_ok_iff by blast
    with eq have x: "canonical_data (PDict (envelope_core (ie_body d))) = Inr x" "canonical_data (PDict (envelope_core (ie_body e))) = Inr x"
      by simp_all
    note field = canonical_dict_inj [OF x [unfolded envelope_core_def]]
    have "ib_message_id (ie_body d) = ib_message_id (ie_body e)" using field [of "''message_id''"] by fastforce
    moreover have "ib_delivery_deduplication_key (ie_body d) = ib_delivery_deduplication_key (ie_body e)"
      using field [of "''delivery_deduplication_key''"] by fastforce
    moreover have "ib_topic (ie_body d) = ib_topic (ie_body e)" using field [of "''topic''"] by fastforce
    moreover have "ib_aggregate_id (ie_body d) = ib_aggregate_id (ie_body e)" using field [of "''aggregate_id''"] by fastforce
    moreover have "ib_organization_id (ie_body d) = ib_organization_id (ie_body e)" using field [of "''organization_id''"] by fastforce
    moreover have "canonical_data (PDict (ib_payload (ie_body d))) = canonical_data (PDict (ib_payload (ie_body e)))"
      using field [of "''payload''"] by fastforce
    ultimately show ?thesis by blast
  qed blast
qed

end
