(* ===== verification/TG_Quantities.thy ===== *)
theory TG_Quantities
  imports TG_Json TG_Decimal_Approx
begin

text \<open>
  Quantities: \<open>domain/quantities.py\<close> recalculates a quantity from its formula in the default context of
  28 digits, \<open>domain/normative.py\<close> checks the answer of a normative engine (data of
  \<open>integrations/contracts.py\<close>).  A dict is a list of pairs with distinct keys.
\<close>

subsection \<open>Data\<close>

record quantity_record =
  qr_quantity_id :: string
  qr_boq_line_id :: string
  qr_value :: decimal
  qr_unit :: string
  qr_source_observation_ids :: "string list"
  qr_source_priority :: int
  qr_formula :: "string option"
  qr_formula_inputs :: "(string \<times> decimal) list"
  qr_rounding_mode :: string
  qr_rounding_scale :: nat
  qr_waste_factor :: decimal
  qr_alternative_quantity_ids :: "string list"
  qr_manual_change_id :: "string option"
  qr_status :: VerificationStatus

record quantity_formula =
  qf_formula_id :: string
  qf_formula_version :: string
  qf_operation :: QuantityOperation
  qf_inputs :: "(string \<times> decimal) list"
  qf_output_unit :: string
  qf_display_formula :: string

fun required_inputs :: "QuantityOperation \<Rightarrow> string list" where
  "required_inputs QuantityOperation.SUM = []"
| "required_inputs QuantityOperation.PRODUCT = []"
| "required_inputs QuantityOperation.RECTANGULAR_VOLUME = [''length'', ''width'', ''height'']"
| "required_inputs QuantityOperation.CYLINDER_VOLUME = [''diameter'', ''length'', ''pi'']"

definition required_inputs_exist :: "quantity_formula \<Rightarrow> quantity_formula result" where
  "required_inputs_exist f =
     (let missing = sort (filter (\<lambda>k. k \<notin> fst ` set (qf_inputs f)) (required_inputs (qf_operation f))) in
      if missing \<noteq> [] then Inl (ValueError (''Formula inputs are missing: '' @ py_repr_list missing))
      else if qf_inputs f = [] then Inl (ValueError ''Quantity formula requires at least one input'') else Inr f)"

record quantity_policy =
  qp_policy_version :: string
  qp_absolute_tolerance :: "decimal option"
  qp_relative_tolerance :: "decimal option"
  qp_allow_zero :: bool
  qp_allow_negative :: bool
  qp_historical_min :: "decimal option"
  qp_historical_max :: "decimal option"
  qp_historical_benchmark_version_id :: "string option"

definition historical_bounds_are_versioned :: "quantity_policy \<Rightarrow> quantity_policy result" where
  "historical_bounds_are_versioned p =
     (if (qp_historical_min p \<noteq> None \<or> qp_historical_max p \<noteq> None) \<and> \<not> str_true (qp_historical_benchmark_version_id p)
      then Inl (ValueError ''Historical bounds require a versioned benchmark'')
      else case (qp_historical_min p, qp_historical_max p) of
        (Some lo, Some hi) \<Rightarrow> if dlt hi lo then Inl (ValueError ''Historical minimum exceeds maximum'') else Inr p
      | _ \<Rightarrow> Inr p)"

record quantity_validation =
  qv_quantity_id :: string
  qv_recalculated_value :: "decimal option"
  qv_passed :: bool
  qv_findings :: "validation_finding list"

record quantity_balance =
  qb_balance_id :: string
  qb_parent_quantity_id :: string
  qb_parent_value :: decimal
  qb_child_values :: "(string \<times> decimal) list"
  qb_unit :: string

subsection \<open>Recalculation\<close>

definition input_of :: "quantity_formula \<Rightarrow> string \<Rightarrow> decimal result" where
  "input_of f k = (case map_of (qf_inputs f) k of None \<Rightarrow> Inl (KeyError k) | Some v \<Rightarrow> Inr v)"

definition recalculate_formula :: "quantity_formula \<Rightarrow> decimal result" where
  "recalculate_formula f = (case qf_operation f of
     QuantityOperation.SUM \<Rightarrow> Inr (dsum 28 (map snd (qf_inputs f)))
   | QuantityOperation.PRODUCT \<Rightarrow> Inr (foldl (dmul 28) d_one (map snd (qf_inputs f)))
   | QuantityOperation.RECTANGULAR_VOLUME \<Rightarrow>
       bindR (input_of f ''length'') (\<lambda>l. bindR (input_of f ''width'') (\<lambda>w. bindR (input_of f ''height'') (\<lambda>h.
         Inr (dmul 28 (dmul 28 l w) h))))
   | QuantityOperation.CYLINDER_VOLUME \<Rightarrow>
       bindR (input_of f ''diameter'') (\<lambda>d. bindR (ddiv 28 d (Dec 2 0)) (\<lambda>radius.
       bindR (input_of f ''pi'') (\<lambda>p. bindR (input_of f ''length'') (\<lambda>l.
         Inr (dmul 28 (dmul 28 (dmul 28 p radius) radius) l))))))"

definition within_tolerance :: "decimal \<Rightarrow> decimal \<Rightarrow> quantity_policy \<Rightarrow> bool option" where
  "within_tolerance actual expected p = (case (qp_absolute_tolerance p, qp_relative_tolerance p) of
     (Some absolute, Some relative) \<Rightarrow>
       Some (dle (dabs 28 (dsub 28 actual expected)) (dmax absolute (dmul 28 (dabs 28 expected) relative)))
   | _ \<Rightarrow> None)"

definition recalculated_quantity :: "quantity_record \<Rightarrow> quantity_formula \<Rightarrow> decimal result" where
  "recalculated_quantity q f = bindR (recalculate_formula f) (\<lambda>v.
     quantize 28 ROUND_HALF_UP (qr_rounding_scale q) (dmul 28 v (dadd 28 d_one (qr_waste_factor q))))"

subsection \<open>Validation\<close>

definition policy_findings :: "quantity_record \<Rightarrow> quantity_policy \<Rightarrow> validation_finding list" where
  "policy_findings q p =
     (if qp_absolute_tolerance p = None \<or> qp_relative_tolerance p = None
      then [vfinding FindingCode.QUANTITY_THRESHOLD_UNCONFIGURED Severity.BLOCKER
        ''Quantity tolerances are not configured by methodology'' [qr_quantity_id q]] else [])
     @ (if dlt (qr_value q) d_zero \<and> \<not> qp_allow_negative p
      then [vfinding FindingCode.QUANTITY_SIGN_INVALID Severity.BLOCKER
        ''Negative quantity is not allowed by the approved policy'' [qr_quantity_id q]] else [])
     @ (if deq (qr_value q) d_zero \<and> \<not> qp_allow_zero p
      then [vfinding FindingCode.QUANTITY_SIGN_INVALID Severity.BLOCKER
        ''Zero quantity is not allowed by the approved policy'' [qr_quantity_id q]] else [])"

definition formula_findings :: "quantity_record \<Rightarrow> quantity_policy \<Rightarrow> quantity_formula \<Rightarrow> decimal \<Rightarrow> validation_finding list" where
  "formula_findings q p f recalculated =
     (if qf_output_unit f \<noteq> qr_unit q
      then [vfinding FindingCode.QUANTITY_UNIT_MISMATCH Severity.BLOCKER
        ''Quantity formula output unit differs from the BoQ quantity unit'' [qr_quantity_id q, qf_formula_id f]] else [])
     @ (if within_tolerance (qr_value q) recalculated p = Some False
      then [(vfinding FindingCode.QUANTITY_FORMULA_MISMATCH Severity.BLOCKER
        ''Stored quantity differs from independent formula calculation'' [qr_quantity_id q, qf_formula_id f])
        \<lparr>vf_details := [(''stored'', PDec (qr_value q)), (''recalculated'', PDec recalculated)]\<rparr>] else [])"

definition historical_findings :: "quantity_record \<Rightarrow> quantity_policy \<Rightarrow> validation_finding list" where
  "historical_findings q p =
     (case qp_historical_min p of Some lo \<Rightarrow> if dlt (qr_value q) lo
        then [(vfinding FindingCode.QUANTITY_HISTORICAL_OUTLIER Severity.WARNING
          ''Quantity is below the approved historical range'' [qr_quantity_id q])\<lparr>vf_details := [(''minimum'', PDec lo)]\<rparr>] else []
      | None \<Rightarrow> [])
     @ (case qp_historical_max p of Some hi \<Rightarrow> if dlt hi (qr_value q)
        then [(vfinding FindingCode.QUANTITY_HISTORICAL_OUTLIER Severity.WARNING
          ''Quantity is above the approved historical range'' [qr_quantity_id q])\<lparr>vf_details := [(''maximum'', PDec hi)]\<rparr>] else []
      | None \<Rightarrow> [])"

definition validate_quantity :: "quantity_record \<Rightarrow> quantity_formula option \<Rightarrow> quantity_policy \<Rightarrow> quantity_validation result" where
  "validate_quantity q formula p =
     bindR (case formula of None \<Rightarrow> Inr (None, [])
       | Some f \<Rightarrow> bindR (recalculated_quantity q f) (\<lambda>x. Inr (Some x, formula_findings q p f x))) (\<lambda>(recalculated, fs).
     let findings = policy_findings q p @ fs @ historical_findings q p in
     Inr \<lparr>qv_quantity_id = qr_quantity_id q, qv_recalculated_value = recalculated,
       qv_passed = (\<not> list_ex (\<lambda>i. vf_severity i = Severity.BLOCKER) findings), qv_findings = findings\<rparr>)"

definition validate_balance :: "quantity_balance \<Rightarrow> quantity_policy \<Rightarrow> validation_finding list" where
  "validate_balance b p = (let child_total = dsum 28 (map snd (qb_child_values b)) in
     case within_tolerance (qb_parent_value b) child_total p of
       None \<Rightarrow> [vfinding FindingCode.QUANTITY_THRESHOLD_UNCONFIGURED Severity.BLOCKER
         ''Balance tolerances are not configured by methodology'' [qb_balance_id b]]
     | Some False \<Rightarrow> [(vfinding FindingCode.QUANTITY_BALANCE_MISMATCH Severity.BLOCKER
         ''Parent quantity does not equal the sum of child quantities'' (qb_parent_quantity_id b # map fst (qb_child_values b)))
         \<lparr>vf_details := [(''parent'', PDec (qb_parent_value b)), (''children_total'', PDec child_total),
            (''unit'', PStr (qb_unit b))]\<rparr>]
     | Some True \<Rightarrow> [])"

subsection \<open>Normative engines\<close>

record normative_request =
  nq_request_id :: string
  nq_project_id :: string
  nq_work_or_resource_code :: string
  nq_description :: string
  nq_quantity :: decimal
  nq_unit :: string
  nq_region :: string
  nq_price_period :: int
  nq_normative_basis_version :: string
  nq_calculation_method :: string
  nq_technology_attributes :: "(string \<times> string) list"
  nq_requested_coefficients :: "(string \<times> decimal) list"

record normative_component =
  nc_resource_code :: string
  nc_category :: string
  nc_quantity :: decimal
  nc_unit :: string
  nc_rate :: decimal
  nc_currency :: string
  nc_source_reference :: string

record normative_result =
  ns_adapter_qualification_id :: string
  ns_engine_name :: string
  ns_engine_version :: string
  ns_normative_basis_version :: string
  ns_calculation_method :: string
  ns_region :: string
  ns_price_period :: int
  ns_work_or_resource_code :: string
  ns_unit :: string
  ns_applied_coefficients :: "(string \<times> decimal) list"
  ns_resource_components :: "normative_component list"
  ns_total :: decimal
  ns_currency :: string
  ns_calculation_artifact_hash :: string
  ns_calculated_at :: int

text \<open>The compared fields: name, expected, actual, and whether they differ.\<close>

definition compared_fields :: "normative_request \<Rightarrow> normative_result \<Rightarrow> (string \<times> pyval \<times> pyval \<times> bool) list" where
  "compared_fields q r =
     (let text = (\<lambda>name e a. (name, PStr e, PStr a, e \<noteq> a)) in
      [text ''normative_basis_version'' (nq_normative_basis_version q) (ns_normative_basis_version r),
       text ''calculation_method'' (nq_calculation_method q) (ns_calculation_method r),
       text ''region'' (nq_region q) (ns_region r),
       (''price_period'', PStr (date_iso (nq_price_period q)), PStr (date_iso (ns_price_period r)), nq_price_period q \<noteq> ns_price_period r),
       text ''work_or_resource_code'' (nq_work_or_resource_code q) (ns_work_or_resource_code r),
       text ''unit'' (nq_unit q) (ns_unit r)])"

definition dict_eq :: "(string \<times> decimal) list \<Rightarrow> (string \<times> decimal) list \<Rightarrow> bool" where
  "dict_eq a b \<longleftrightarrow> fst ` set a = fst ` set b
     \<and> list_all (\<lambda>k. deq (the (map_of a k)) (the (map_of b k))) (map fst a)"

definition component_total :: "normative_result \<Rightarrow> decimal" where
  "component_total r = dsum 28 (map (\<lambda>c. dmul 28 (nc_quantity c) (nc_rate c)) (ns_resource_components r))"

definition validate_normative_result :: "normative_request \<Rightarrow> normative_result \<Rightarrow> decimal \<Rightarrow> validation_finding list" where
  "validate_normative_result q r rounding_tolerance =
     List.map_filter (\<lambda>(name, e, a, differ). if differ
       then Some ((vfinding FindingCode.NORMATIVE_ENGINE_UNAVAILABLE Severity.BLOCKER
         (''Normative result mismatch: '' @ name) [nq_request_id q])\<lparr>vf_details := [(''expected'', e), (''actual'', a)]\<rparr>)
       else None) (compared_fields q r)
     @ (if \<not> dict_eq (nq_requested_coefficients q) (ns_applied_coefficients r)
        then [vfinding FindingCode.NORMATIVE_ENGINE_UNAVAILABLE Severity.BLOCKER
          ''Normative engine applied a different coefficient set'' [nq_request_id q]] else [])
     @ (if dlt rounding_tolerance (dabs 28 (dsub 28 (component_total r) (ns_total r)))
        then [(vfinding FindingCode.INDEPENDENT_RECALCULATION_MISMATCH Severity.BLOCKER
          ''Normative resource components do not reproduce the engine total'' [nq_request_id q])
          \<lparr>vf_details := [(''component_total'', PDec (component_total r)), (''engine_total'', PDec (ns_total r))]\<rparr>] else [])
     @ (let duplicates = repeated (map (\<lambda>c. (nc_resource_code c, nc_category c)) (ns_resource_components r)) in
        if duplicates \<noteq> []
        then [vfinding FindingCode.INDEPENDENT_RECALCULATION_MISMATCH Severity.BLOCKER
          ''Normative result contains duplicate resource components'' (map (\<lambda>(code, category). code @ '':'' @ category) duplicates)]
        else [])"

subsection \<open>When a quantity passes\<close>

definition tolerated :: "quantity_policy \<Rightarrow> decimal \<Rightarrow> decimal \<Rightarrow> bool" where
  "tolerated p actual expected \<longleftrightarrow> within_tolerance actual expected p = Some True"

lemma blockers [simp]:
  "list_ex (\<lambda>i. vf_severity i = Severity.BLOCKER) (policy_findings q p) \<longleftrightarrow> policy_findings q p \<noteq> []"
  "list_ex (\<lambda>i. vf_severity i = Severity.BLOCKER) (formula_findings q p f x) \<longleftrightarrow> formula_findings q p f x \<noteq> []"
  "\<not> list_ex (\<lambda>i. vf_severity i = Severity.BLOCKER) (historical_findings q p)"
  by (auto simp: policy_findings_def formula_findings_def historical_findings_def vfinding_def split: option.splits)

lemma policy_findings_Nil: "policy_findings q p = [] \<longleftrightarrow> qp_absolute_tolerance p \<noteq> None \<and> qp_relative_tolerance p \<noteq> None
    \<and> (0 \<le> dval (qr_value q) \<or> qp_allow_negative p) \<and> (dval (qr_value q) \<noteq> 0 \<or> qp_allow_zero p)"
  by (auto simp: policy_findings_def dec_simps d_zero_def dval_Dec)

lemma quantity_passed_iff:
  assumes "validate_quantity q formula p = Inr r"
  shows "qv_passed r \<longleftrightarrow> qp_absolute_tolerance p \<noteq> None \<and> qp_relative_tolerance p \<noteq> None
    \<and> (0 \<le> dval (qr_value q) \<or> qp_allow_negative p) \<and> (dval (qr_value q) \<noteq> 0 \<or> qp_allow_zero p)
    \<and> (\<forall>f. formula = Some f \<longrightarrow> qf_output_unit f = qr_unit q
        \<and> (\<exists>x. recalculated_quantity q f = Inr x \<and> qv_recalculated_value r = Some x \<and> tolerated p (qr_value q) x))"
proof (cases formula)
  case None
  with assms have "qv_passed r \<longleftrightarrow> policy_findings q p = []" by (auto simp: validate_quantity_def Let_def)
  then show ?thesis using None by (simp add: policy_findings_Nil)
next
  case (Some f)
  then obtain x where x: "recalculated_quantity q f = Inr x" "qv_recalculated_value r = Some x"
    "qv_passed r \<longleftrightarrow> policy_findings q p = [] \<and> formula_findings q p f x = []"
    using assms by (auto simp: validate_quantity_def Let_def bindR_eq_Inr)
  have "formula_findings q p f x = [] \<longleftrightarrow> qf_output_unit f = qr_unit q \<and> within_tolerance (qr_value q) x p \<noteq> Some False"
    by (auto simp: formula_findings_def)
  moreover note policy_findings_Nil [of q p]
  moreover have "within_tolerance (qr_value q) x p \<noteq> None" if "qp_absolute_tolerance p \<noteq> None" "qp_relative_tolerance p \<noteq> None"
    using that by (auto simp: within_tolerance_def)
  ultimately show ?thesis using x Some by (auto simp: tolerated_def)
qed

subsection \<open>Accuracy of the recalculation\<close>

definition exact_input :: "quantity_formula \<Rightarrow> string \<Rightarrow> rat" where
  "exact_input f k = dval (the (map_of (qf_inputs f) k))"

definition exact_formula :: "quantity_formula \<Rightarrow> rat" where
  "exact_formula f = (case qf_operation f of
     QuantityOperation.SUM \<Rightarrow> sum_list (map (dval \<circ> snd) (qf_inputs f))
   | QuantityOperation.PRODUCT \<Rightarrow> prod_list (map (dval \<circ> snd) (qf_inputs f))
   | QuantityOperation.RECTANGULAR_VOLUME \<Rightarrow> exact_input f ''length'' * exact_input f ''width'' * exact_input f ''height''
   | QuantityOperation.CYLINDER_VOLUME \<Rightarrow>
       exact_input f ''pi'' * (exact_input f ''diameter'' / 2) * (exact_input f ''diameter'' / 2) * exact_input f ''length'')"

definition measured_inputs :: "quantity_formula \<Rightarrow> bool" where
  "measured_inputs f \<longleftrightarrow> is_ok (required_inputs_exist f) \<and> list_all (\<lambda>kv. 0 \<le> dval (snd kv)) (qf_inputs f)
     \<and> length (qf_inputs f) \<le> 1000000
     \<and> (qf_operation f = QuantityOperation.CYLINDER_VOLUME \<longrightarrow> fits 28 (exact_input f ''diameter'' / 2))"

lemma approx_dsum:
  assumes "list_all (\<lambda>d. 0 \<le> dval d) ds" "approx 28 k x v v" "k + length ds < 10 ^ 27"
  shows "approx 28 (k + length ds) (foldl (dadd 28) x ds) (v + sum_list (map dval ds)) (v + sum_list (map dval ds))"
  using assms
proof (induction ds arbitrary: k x v)
  case (Cons d ds)
  have "approx 28 (k + 1) (dadd 28 x d) (v + dval d) (v + dval d)"
    using Cons.prems by (intro approx_add_exact) simp_all
  with Cons.IH [of "k + 1" "dadd 28 x d" "v + dval d"] Cons.prems show ?case by (simp add: add.assoc)
qed simp

lemma approx_dprod:
  assumes "list_all (\<lambda>d. 0 \<le> dval d) ds" "approx 28 k x v v" "k + length ds < 10 ^ 27"
  shows "approx 28 (k + length ds) (foldl (dmul 28) x ds) (v * prod_list (map dval ds)) (v * prod_list (map dval ds))"
  using assms
proof (induction ds arbitrary: k x v)
  case (Cons d ds)
  have "approx 28 (k + 1) (dmul 28 x d) (v * dval d) (v * dval d)"
    using Cons.prems by (intro approx_mul) simp_all
  with Cons.IH [of "k + 1" "dmul 28 x d" "v * dval d"] Cons.prems show ?case by (simp add: mult.assoc)
qed simp

lemma input_of_required:
  assumes "measured_inputs f" "k \<in> set (required_inputs (qf_operation f))"
  shows "\<exists>d. input_of f k = Inr d \<and> dval d = exact_input f k \<and> 0 \<le> dval d"
proof -
  have "k \<in> fst ` set (qf_inputs f)"
    using assms by (auto simp: measured_inputs_def required_inputs_exist_def Let_def filter_empty_conv split: if_splits)
  then obtain d where d: "map_of (qf_inputs f) k = Some d" by (auto simp: map_of_eq_None_iff dest: weak_map_of_SomeI)
  then have "0 \<le> dval d" using assms(1) by (force simp: measured_inputs_def list_all_iff dest: map_of_SomeD)
  with d show ?thesis by (simp add: input_of_def exact_input_def)
qed

lemma recalculate_approx:
  assumes "measured_inputs f"
  shows "\<exists>x. recalculate_formula f = Inr x \<and> approx 28 (length (qf_inputs f) + 3) x (exact_formula f) (exact_formula f)"
proof -
  have len: "length (qf_inputs f) \<le> 1000000" and nn: "list_all (\<lambda>d. 0 \<le> dval d) (map snd (qf_inputs f))"
    using assms by (simp_all add: measured_inputs_def list_all_iff)
  have weak: "approx 28 (length (qf_inputs f) + 3) x v v" if "approx 28 k x v v" "k \<le> length (qf_inputs f) + 3" for k x v
    using len that by (intro approx_weaken [OF that(1)]) simp_all
  show ?thesis
  proof (cases "qf_operation f")
    case SUM
    have "approx 28 0 d_zero 0 0" by (simp add: approx_def d_zero_def dval_Dec)
    from approx_dsum [OF nn this] len have "approx 28 (length (qf_inputs f)) (dsum 28 (map snd (qf_inputs f))) (exact_formula f) (exact_formula f)"
      by (simp add: dsum_def exact_formula_def SUM)
    then show ?thesis using weak by (auto simp: recalculate_formula_def SUM)
  next
    case PRODUCT
    have "approx 28 0 d_one 1 1" by (simp add: approx_def d_one_def dval_Dec)
    from approx_dprod [OF nn this] len have "approx 28 (length (qf_inputs f)) (foldl (dmul 28) d_one (map snd (qf_inputs f))) (exact_formula f) (exact_formula f)"
      by (simp add: exact_formula_def PRODUCT)
    then show ?thesis using weak by (auto simp: recalculate_formula_def PRODUCT)
  next
    case RECTANGULAR_VOLUME
    obtain l w h where i: "input_of f ''length'' = Inr l" "input_of f ''width'' = Inr w" "input_of f ''height'' = Inr h"
      "dval l = exact_input f ''length''" "dval w = exact_input f ''width''" "dval h = exact_input f ''height''"
      "0 \<le> dval l" "0 \<le> dval w" "0 \<le> dval h"
      using input_of_required [OF assms, of "''length''"] input_of_required [OF assms, of "''width''"]
        input_of_required [OF assms, of "''height''"] RECTANGULAR_VOLUME by auto
    have "approx 28 0 l (dval l) (dval l)" using i by (intro approx_exact) simp_all
    from approx_mul [OF approx_mul [OF this i(8)] i(9)]
    have "approx 28 2 (dmul 28 (dmul 28 l w) h) (dval l * dval w * dval h) (dval l * dval w * dval h)"
      by (simp add: numeral_2_eq_2)
    then show ?thesis using weak i by (auto simp: recalculate_formula_def exact_formula_def RECTANGULAR_VOLUME)
  next
    case CYLINDER_VOLUME
    obtain d p l where i: "input_of f ''diameter'' = Inr d" "input_of f ''pi'' = Inr p" "input_of f ''length'' = Inr l"
      "dval d = exact_input f ''diameter''" "dval p = exact_input f ''pi''" "dval l = exact_input f ''length''"
      "0 \<le> dval d" "0 \<le> dval p" "0 \<le> dval l"
      using input_of_required [OF assms, of "''diameter''"] input_of_required [OF assms, of "''pi''"]
        input_of_required [OF assms, of "''length''"] CYLINDER_VOLUME by auto
    have two: "dval (Dec 2 0) = 2" by (simp add: dval_Dec)
    have fit: "fits 28 (dval d / dval (Dec 2 0))" using assms i(4) CYLINDER_VOLUME by (simp add: measured_inputs_def two)
    obtain r where r: "ddiv 28 d (Dec 2 0) = Inr r" "dval r = dval d / 2"
    proof (cases "coeff d = 0")
      case True
      then have "ddiv 28 d (Dec 2 0) = Inr (Dec 0 (expn d))" by (simp add: ddiv_def)
      moreover have "dval d = 0" using True by (simp add: dval_def)
      ultimately show ?thesis using that by (simp add: dval_Dec)
    next
      case False
      then have "0 < coeff d" using i(7) by (simp add: dval_nonneg_iff [symmetric] order_less_le)
      from ddiv_exact [OF this _ fit] two that show ?thesis by auto
    qed
    have rn: "0 \<le> dval r" using r(2) i(7) by simp
    have "approx 28 0 p (dval p) (dval p)" using i by (intro approx_exact) simp_all
    from approx_mul [OF approx_mul [OF approx_mul [OF this rn] rn] i(9)]
    have "approx 28 3 (dmul 28 (dmul 28 (dmul 28 p r) r) l) (dval p * dval r * dval r * dval l) (dval p * dval r * dval r * dval l)"
      by (simp add: numeral_3_eq_3)
    then show ?thesis using weak i r by (auto simp: recalculate_formula_def exact_formula_def CYLINDER_VOLUME)
  qed
qed

text \<open>The recalculated quantity is the exact one with its waste, up to half a unit of the last place and one
  rounding per input and factor.\<close>

theorem recalculated_quantity_accurate:
  assumes "measured_inputs f" "0 \<le> dval (qr_waste_factor q)" "fits 28 (1 + dval (qr_waste_factor q))"
    "recalculated_quantity q f = Inr x"
  defines "exact \<equiv> exact_formula f * (1 + dval (qr_waste_factor q))"
  shows "\<bar>dval x - exact\<bar> \<le> 1 / (2 * 10 ^ qr_rounding_scale q) + of_nat (length (qf_inputs f) + 4) * exact / 10 ^ 27"
proof -
  obtain v where v: "recalculate_formula f = Inr v" "approx 28 (length (qf_inputs f) + 3) v (exact_formula f) (exact_formula f)"
    using recalculate_approx [OF assms(1)] by blast
  have one: "dval (dadd 28 d_one (qr_waste_factor q)) = 1 + dval (qr_waste_factor q)"
    using assms(3) by (simp add: dval_dadd d_one_def dval_Dec)
  let ?y = "dmul 28 v (dadd 28 d_one (qr_waste_factor q))"
  have "length (qf_inputs f) \<le> 1000000" using assms(1) by (simp add: measured_inputs_def)
  then have "approx 28 (length (qf_inputs f) + 3 + 1) ?y (exact_formula f * dval (dadd 28 d_one (qr_waste_factor q)))
      (exact_formula f * dval (dadd 28 d_one (qr_waste_factor q)))"
    using assms(2) one by (intro approx_mul [OF v(2)]) simp_all
  then have "\<bar>dval ?y - exact\<bar> * 10 ^ 27 \<le> of_nat (length (qf_inputs f) + 4) * exact"
    unfolding one exact_def by (simp add: approx_def add.commute)
  then have y: "\<bar>dval ?y - exact\<bar> \<le> of_nat (length (qf_inputs f) + 4) * exact / 10 ^ 27" by (simp add: pos_le_divide_eq)
  have "dval x = rquantize ROUND_HALF_UP (qr_rounding_scale q) (dval ?y)"
    using assms(4) v(1) quantize_dval by (auto simp: recalculated_quantity_def)
  then have "\<bar>dval x - dval ?y\<bar> \<le> 1 / (2 * 10 ^ qr_rounding_scale q)" using rquantize_nearest [of ROUND_HALF_UP] by simp
  with y show ?thesis by linarith
qed

lemma map_filter_Nil: "List.map_filter f xs = [] \<longleftrightarrow> (\<forall>x \<in> set xs. f x = None)"
  by (induction xs) (auto simp: List.map_filter_def)

text \<open>A normative result is accepted exactly when it answers the request and its components add up.\<close>

lemma normative_accepted_iff:
  "validate_normative_result q r tol = [] \<longleftrightarrow>
     nq_normative_basis_version q = ns_normative_basis_version r \<and> nq_calculation_method q = ns_calculation_method r
     \<and> nq_region q = ns_region r \<and> nq_price_period q = ns_price_period r
     \<and> nq_work_or_resource_code q = ns_work_or_resource_code r \<and> nq_unit q = ns_unit r
     \<and> dict_eq (nq_requested_coefficients q) (ns_applied_coefficients r)
     \<and> dval (dabs 28 (dsub 28 (component_total r) (ns_total r))) \<le> dval tol
     \<and> distinct (map (\<lambda>c. (nc_resource_code c, nc_category c)) (ns_resource_components r))"
  by (auto simp: validate_normative_result_def Let_def map_filter_Nil compared_fields_def repeated_empty_iff dec_simps)

end
