(* ===== verification/TG_Actuals.thy ===== *)
theory TG_Actuals
  imports TG_Models
begin

text \<open>
  Actual costs: \<open>domain/actuals.py\<close>.  A verified actual is compared with its forecast; an independently
  reviewed variance may become a calibration example.  Length bounds of texts are checked where the source
  checks them in a validator of its own.
\<close>

subsection \<open>Policies\<close>

datatype ActualSourceClass = ACCEPTANCE_CERTIFICATE | SUPPLIER_INVOICE | ERP_POSTING | FINANCIAL_LEDGER | TIMESHEET
  | LOGISTICS_DOCUMENT | RISK_REGISTER | AS_BUILT_MEASUREMENT | OTHER_CONTROLLED

datatype ForecastBasis = ATOMIC_QUANTITY | ATOMIC_UNIT_RATE | ATOMIC_AMOUNT | PROJECT_COST_TOTAL

record actual_evidence_value =
  ae_actual_key :: string
  ae_entity_type :: string
  ae_entity_id :: string
  ae_metric :: string
  ae_value :: decimal
  ae_unit :: string
  ae_source_class :: ActualSourceClass
  ae_occurred_on :: int

record actual_metric =
  amt_metric :: string
  amt_entity_type :: string
  amt_evidence_field_name :: string
  amt_forecast_basis :: ForecastBasis
  amt_allowed_units :: "string list"
  amt_allowed_source_classes :: "ActualSourceClass list"

record actuals_policy =
  ap_metric_definitions :: "actual_metric list"
  ap_required_metric_keys :: "string list"
  ap_independently_verified_metric_keys :: "string list"
  ap_record_roles :: "ActorRole list"
  ap_actual_review_role :: ActorRole
  ap_variance_classifier_roles :: "ActorRole list"
  ap_variance_review_role :: ActorRole
  ap_calibration_approval_role :: ActorRole
  ap_project_outcome_field_name :: string
  ap_eligible_project_outcomes :: "string list"
  ap_relative_variance_scale :: nat
  ap_relative_variance_rounding_mode :: string

text \<open>\<open>value == value.strip()\<close>, checked with the given message.\<close>

definition normalized :: "string \<Rightarrow> string \<Rightarrow> unit result" where
  "normalized message v = (if v \<noteq> strip v then Inl (ValueError message) else Inr ())"

definition identifiers_are_normalized :: "actual_evidence_value \<Rightarrow> actual_evidence_value result" where
  "identifiers_are_normalized v = bindR (mapR (normalized ''Actual evidence identifiers must be normalized'')
     [ae_actual_key v, ae_entity_type v, ae_entity_id v, ae_metric v, ae_unit v]) (\<lambda>_. Inr v)"

definition unique_texts :: "nat \<Rightarrow> string list \<Rightarrow> bool" where
  "unique_texts max_length vs \<longleftrightarrow> distinct vs \<and> \<not> list_ex (\<lambda>v. v = [] \<or> v \<noteq> strip v \<or> max_length < length v) vs"

definition units_are_unique_and_normalized :: "string list \<Rightarrow> string list result" where
  "units_are_unique_and_normalized vs = (if \<not> unique_texts 64 vs
     then Inl (ValueError ''Actual metric units must be unique and normalized'') else Inr vs)"

definition atomic_basis :: "ForecastBasis \<Rightarrow> bool" where
  "atomic_basis b \<longleftrightarrow> b \<in> {ATOMIC_QUANTITY, ATOMIC_UNIT_RATE, ATOMIC_AMOUNT}"

definition entity_and_forecast_are_compatible :: "actual_metric \<Rightarrow> actual_metric result" where
  "entity_and_forecast_are_compatible m =
     (if atomic_basis (amt_forecast_basis m) \<and> amt_entity_type m \<noteq> ''COST_INPUT''
      then Inl (ValueError ''Atomic forecast basis requires COST_INPUT entity type'')
      else if amt_forecast_basis m = PROJECT_COST_TOTAL \<and> amt_entity_type m \<noteq> ''PROJECT''
      then Inl (ValueError ''Project total forecast basis requires PROJECT entity type'') else Inr m)"

definition metric_check :: "actual_metric \<Rightarrow> actual_metric result" where
  "metric_check m =
     bindR (mapR (normalized ''Actual metric definition values must be normalized'')
       [amt_metric m, amt_entity_type m, amt_evidence_field_name m]) (\<lambda>_.
     bindR (units_are_unique_and_normalized (amt_allowed_units m)) (\<lambda>_.
     if \<not> distinct (amt_allowed_source_classes m) then Inl (ValueError ''Actual source classes must be unique'')
     else entity_and_forecast_are_compatible m))"

definition metric_keys_are_unique_and_normalized :: "string list \<Rightarrow> string list result" where
  "metric_keys_are_unique_and_normalized vs = (if \<not> unique_texts 100 vs \<or> list_ex (list_ex py_isspace) vs
     then Inl (ValueError ''Actual metric keys must be unique and normalized'') else Inr vs)"

definition roles_are_unique :: "ActorRole list \<Rightarrow> ActorRole list result" where
  "roles_are_unique rs = (if \<not> distinct rs then Inl (ValueError ''Actuals policy roles must be unique'') else Inr rs)"

definition outcomes_are_unique_and_normalized :: "string list \<Rightarrow> string list result" where
  "outcomes_are_unique_and_normalized vs = (if \<not> unique_texts 100 vs
     then Inl (ValueError ''Eligible project outcomes must be unique and normalized'') else Inr vs)"

definition RECORDING_ROLES :: "ActorRole set" where
  "RECORDING_ROLES = {ActorRole.ESTIMATOR, ActorRole.PROCUREMENT, ActorRole.TECHNICAL_EXPERT, ActorRole.REVIEWER, ActorRole.AUDITOR}"

definition REVIEWING_ROLES :: "ActorRole set" where
  "REVIEWING_ROLES = {ActorRole.REVIEWER, ActorRole.AUDITOR, ActorRole.TECHNICAL_EXPERT}"

definition policy_is_closed_and_segregated :: "actuals_policy \<Rightarrow> actuals_policy result" where
  "policy_is_closed_and_segregated p =
     (let metrics = map amt_metric (ap_metric_definitions p); fields = map amt_evidence_field_name (ap_metric_definitions p) in
      if \<not> distinct metrics \<or> \<not> distinct fields then Inl (ValueError ''Actual metrics and evidence fields must be unique'')
      else if \<not> set (ap_required_metric_keys p) \<subseteq> set metrics then Inl (ValueError ''Required actual metrics must be declared'')
      else if \<not> set (ap_independently_verified_metric_keys p) \<subseteq> set metrics
      then Inl (ValueError ''Independent actual metrics must be declared'')
      else if list_ex (\<lambda>r. r \<notin> RECORDING_ROLES) (ap_record_roles p)
      then Inl (ValueError ''Actual record roles contain an unsupported role'')
      else if ap_actual_review_role p \<notin> REVIEWING_ROLES then Inl (ValueError ''Actual review role is unsupported'')
      else if list_ex (\<lambda>r. r \<notin> REVIEWING_ROLES) (ap_variance_classifier_roles p)
      then Inl (ValueError ''Variance classifier role is unsupported'')
      else if ap_variance_review_role p \<notin> REVIEWING_ROLES then Inl (ValueError ''Variance review role is unsupported'')
      else if ap_calibration_approval_role p \<noteq> ActorRole.METHODOLOGY_OWNER
      then Inl (ValueError ''Calibration approval must remain with METHODOLOGY_OWNER'')
      else if ap_relative_variance_rounding_mode p \<notin> {''ROUND_HALF_UP'', ''ROUND_HALF_EVEN''}
      then Inl (ValueError ''Relative variance rounding mode is unsupported'') else Inr p)"

definition policy_check :: "actuals_policy \<Rightarrow> actuals_policy result" where
  "policy_check p =
     bindR (mapR metric_check (ap_metric_definitions p)) (\<lambda>_.
     bindR (metric_keys_are_unique_and_normalized (ap_required_metric_keys p)) (\<lambda>_.
     bindR (metric_keys_are_unique_and_normalized (ap_independently_verified_metric_keys p)) (\<lambda>_.
     bindR (roles_are_unique (ap_record_roles p)) (\<lambda>_.
     bindR (roles_are_unique (ap_variance_classifier_roles p)) (\<lambda>_.
     bindR (normalized ''Project outcome field must be normalized'' (ap_project_outcome_field_name p)) (\<lambda>_.
     bindR (outcomes_are_unique_and_normalized (ap_eligible_project_outcomes p)) (\<lambda>_.
       policy_is_closed_and_segregated p)))))))"

definition metric_of :: "actuals_policy \<Rightarrow> string \<Rightarrow> actual_metric result" where
  "metric_of p name = (case find (\<lambda>m. amt_metric m = name) (ap_metric_definitions p) of
     None \<Rightarrow> Inl (ValueError ''Actual metric is outside the approved actuals policy'') | Some m \<Rightarrow> Inr m)"

subsection \<open>Variances and calibration\<close>

record forecast_fact =
  ff_forecast_id :: string
  ff_project_id :: string
  ff_entity_id :: string
  ff_metric :: string
  ff_value :: decimal
  ff_unit :: string
  ff_snapshot_id :: string
  ff_snapshot_hash :: "string option"
  ff_cost_input_row_id :: "string option"
  ff_forecast_basis :: "ForecastBasis option"

record actual_fact =
  af_actual_id :: string
  af_project_id :: string
  af_entity_id :: string
  af_metric :: string
  af_value :: decimal
  af_unit :: string
  af_occurred_on :: int
  af_source_observation_id :: string
  af_verified :: bool
  af_verified_by :: "string option"
  af_actual_key :: "string option"
  af_source_class :: "ActualSourceClass option"
  af_status :: VerificationStatus

record variance_record =
  va_forecast_id :: string
  va_actual_id :: string
  va_absolute_variance :: decimal
  va_relative_variance :: "decimal option"
  va_reason :: VarianceReason
  va_reason_detail :: string
  va_classified_by :: string
  va_status :: VerificationStatus
  va_reviewed_by :: "string option"

record calibration_example =
  ce_example_id :: string
  ce_project_id :: string
  ce_metric :: string
  ce_features_snapshot_id :: string
  ce_verified_actual_id :: string
  ce_target_value :: decimal
  ce_unit :: string
  ce_variance_reason :: VarianceReason

definition actual_verified :: "actual_fact \<Rightarrow> bool" where
  "actual_verified a \<longleftrightarrow> af_verified a \<and> str_true (af_verified_by a) \<and> af_status a = VerificationStatus.VERIFIED"

definition relative_variance :: "decimal \<Rightarrow> decimal \<Rightarrow> nat option \<Rightarrow> string \<Rightarrow> decimal option result" where
  "relative_variance absolute forecast scale mode_name =
     (if deq forecast d_zero then Inr None
      else bindR (ddiv 28 absolute forecast) (\<lambda>relative. case scale of
        None \<Rightarrow> Inr (Some relative)
      | Some s \<Rightarrow> if mode_name = ''ROUND_HALF_UP'' then bindR (quantize 28 ROUND_HALF_UP s relative) (\<lambda>r. Inr (Some r))
          else if mode_name = ''ROUND_HALF_EVEN'' then bindR (quantize 28 ROUND_HALF_EVEN s relative) (\<lambda>r. Inr (Some r))
          else Inl (ValueError ''Relative variance rounding mode is unsupported'')))"

definition compare_forecast_to_actual :: "forecast_fact \<Rightarrow> actual_fact \<Rightarrow> VarianceReason \<Rightarrow> string \<Rightarrow> string \<Rightarrow> nat option \<Rightarrow> string
    \<Rightarrow> variance_record result" where
  "compare_forecast_to_actual f a reason detail classified_by scale mode_name =
     (if \<not> actual_verified a then Inl (ValueError (FindingCode_value FindingCode.ACTUAL_NOT_VERIFIED))
      else if ff_project_id f \<noteq> af_project_id a \<or> ff_entity_id f \<noteq> af_entity_id a \<or> ff_metric f \<noteq> af_metric a
      then Inl (ValueError ''Forecast and actual facts describe different entities/metrics'')
      else if ff_unit f \<noteq> af_unit a then Inl (ValueError ''Forecast and actual units differ'')
      else if strip detail = [] then Inl (ValueError ''Variance classification requires a reason detail'')
      else let absolute = dsub 28 (af_value a) (ff_value f) in
        bindR (relative_variance absolute (ff_value f) scale mode_name) (\<lambda>relative.
          Inr \<lparr>va_forecast_id = ff_forecast_id f, va_actual_id = af_actual_id a, va_absolute_variance = absolute,
            va_relative_variance = relative, va_reason = reason, va_reason_detail = strip detail,
            va_classified_by = classified_by, va_status = VerificationStatus.IN_REVIEW, va_reviewed_by = None\<rparr>))"

definition build_calibration_example :: "forecast_fact \<Rightarrow> actual_fact \<Rightarrow> variance_record \<Rightarrow> calibration_example result" where
  "build_calibration_example f a v =
     (if \<not> actual_verified a then Inl (ValueError ''Only verified actual facts may become calibration labels'')
      else if va_status v \<noteq> VerificationStatus.VERIFIED \<or> \<not> str_true (va_reviewed_by v) \<or> va_reviewed_by v = Some (va_classified_by v)
      then Inl (ValueError ''Only independently approved variances may become calibration labels'')
      else if va_actual_id v \<noteq> af_actual_id a \<or> va_forecast_id v \<noteq> ff_forecast_id f
      then Inl (ValueError ''Variance does not link the supplied forecast and actual'')
      else Inr \<lparr>ce_example_id = ''calibration:'' @ ff_forecast_id f @ '':'' @ af_actual_id a, ce_project_id = af_project_id a,
        ce_metric = af_metric a, ce_features_snapshot_id = ff_snapshot_id f, ce_verified_actual_id = af_actual_id a,
        ce_target_value = af_value a, ce_unit = af_unit a, ce_variance_reason = va_reason v\<rparr>)"

subsection \<open>From a forecast to a calibration example\<close>

text \<open>The review of a variance: somebody decides on it.\<close>

definition reviewed :: "string \<Rightarrow> VerificationStatus \<Rightarrow> variance_record \<Rightarrow> variance_record" where
  "reviewed by status v = v\<lparr>va_status := status, va_reviewed_by := Some by\<rparr>"

lemma relative_variance_ok:
  assumes "relative_variance absolute forecast scale mode_name = Inr r"
  shows "r = None \<longleftrightarrow> dval forecast = 0"
  using assms by (auto simp: relative_variance_def bindR_eq_Inr dec_simps d_zero_def dval_Dec split: if_splits option.splits)

text \<open>A classified variance becomes a calibration example exactly when a second person confirms it; the
  example then carries the verified value of the actual and the features of the forecast's snapshot.\<close>

theorem calibration_needs_second_person:
  assumes "compare_forecast_to_actual f a reason detail classified_by scale mode_name = Inr v"
  shows "is_ok (build_calibration_example f a (reviewed by status v))
      \<longleftrightarrow> status = VerificationStatus.VERIFIED \<and> by \<noteq> [] \<and> by \<noteq> classified_by"
    and "build_calibration_example f a (reviewed by status v) = Inr e \<Longrightarrow>
      ce_target_value e = af_value a \<and> ce_unit e = ff_unit f \<and> ce_project_id e = ff_project_id f \<and> ce_metric e = ff_metric f
      \<and> ce_features_snapshot_id e = ff_snapshot_id f \<and> ce_variance_reason e = reason \<and> actual_verified a"
proof -
  have v: "actual_verified a" "ff_project_id f = af_project_id a" "ff_metric f = af_metric a" "ff_unit f = af_unit a"
    "va_forecast_id v = ff_forecast_id f" "va_actual_id v = af_actual_id a" "va_classified_by v = classified_by" "va_reason v = reason"
    using assms by (auto simp: compare_forecast_to_actual_def Let_def bindR_eq_Inr split: if_splits)
  show "is_ok (build_calibration_example f a (reviewed by status v))
      \<longleftrightarrow> status = VerificationStatus.VERIFIED \<and> by \<noteq> [] \<and> by \<noteq> classified_by"
    using v by (auto simp: build_calibration_example_def reviewed_def)
  show "build_calibration_example f a (reviewed by status v) = Inr e \<Longrightarrow>
      ce_target_value e = af_value a \<and> ce_unit e = ff_unit f \<and> ce_project_id e = ff_project_id f \<and> ce_metric e = ff_metric f
      \<and> ce_features_snapshot_id e = ff_snapshot_id f \<and> ce_variance_reason e = reason \<and> actual_verified a"
    using v by (auto simp: build_calibration_example_def reviewed_def split: if_splits)
qed

text \<open>A policy that passes its checks segregates duties: calibration stays with the methodology owner, and every
  required metric is one of the declared ones.\<close>

theorem checked_policy:
  assumes "policy_check p = Inr p'"
  shows "p' = p" "ap_calibration_approval_role p = ActorRole.METHODOLOGY_OWNER"
    "ap_calibration_approval_role p \<notin> set (ap_record_roles p) \<union> set (ap_variance_classifier_roles p)"
    "name \<in> set (ap_required_metric_keys p) \<Longrightarrow> is_ok (metric_of p name)"
    "metric_of p name = Inr m \<Longrightarrow> atomic_basis (amt_forecast_basis m) \<longleftrightarrow> amt_entity_type m = ''COST_INPUT''"
proof -
  have c: "policy_is_closed_and_segregated p = Inr p'" "\<exists>ms. mapR metric_check (ap_metric_definitions p) = Inr ms"
    using assms by (auto simp: policy_check_def bindR_eq_Inr)
  then show p: "p' = p" "ap_calibration_approval_role p = ActorRole.METHODOLOGY_OWNER"
    by (auto simp: policy_is_closed_and_segregated_def Let_def split: if_splits)
  then show "ap_calibration_approval_role p \<notin> set (ap_record_roles p) \<union> set (ap_variance_classifier_roles p)"
    using c(1) by (auto simp: policy_is_closed_and_segregated_def Let_def list_ex_iff RECORDING_ROLES_def REVIEWING_ROLES_def split: if_splits)
  show "is_ok (metric_of p name)" if "name \<in> set (ap_required_metric_keys p)"
  proof -
    have "name \<in> amt_metric ` set (ap_metric_definitions p)"
      using c(1) that by (auto simp: policy_is_closed_and_segregated_def Let_def split: if_splits)
    then have "find (\<lambda>m. amt_metric m = name) (ap_metric_definitions p) \<noteq> None" by (auto simp: find_None_iff)
    then show ?thesis by (auto simp: metric_of_def)
  qed
  show "atomic_basis (amt_forecast_basis m) \<longleftrightarrow> amt_entity_type m = ''COST_INPUT''" if "metric_of p name = Inr m"
  proof -
    have "m \<in> set (ap_metric_definitions p)" using that by (auto simp: metric_of_def dest: find_SomeD split: option.splits)
    then obtain m' where "metric_check m = Inr m'" using c(2) mapR_ok by metis
    then have "entity_and_forecast_are_compatible m = Inr m'" by (auto simp: metric_check_def bindR_eq_Inr split: if_splits)
    then show ?thesis
      by (cases "amt_forecast_basis m") (auto simp: entity_and_forecast_are_compatible_def atomic_basis_def split: if_splits)
  qed
qed

end
