(* ===== verification/TG_Dates.thy ===== *)
theory TG_Dates
  imports TG_Json
begin

text \<open>
  Reading back the instants that \<open>isoformat\<close> writes: the ordinal of a date, the inverse of
  \<open>ord2ymd\<close>, and \<open>datetime.fromisoformat\<close> on the spelling \<open>isoformat\<close> uses, with \<open>Z\<close> or
  \<open>+00:00\<close>.  Other spellings (basic formats, other offsets) are refused here.
\<close>

subsection \<open>Ordinals\<close>

definition days_before_year :: "int \<Rightarrow> int" where
  "days_before_year y = (let p = y - 1 in p * 365 + p div 4 - p div 100 + p div 400)"

definition days_before_month :: "int \<Rightarrow> int \<Rightarrow> int" where
  "days_before_month y m = sum_list (take (nat (m - 1)) (month_lengths y))"

definition ymd2ord :: "int \<Rightarrow> int \<Rightarrow> int \<Rightarrow> int" where
  "ymd2ord y m d = days_before_year y + days_before_month y m + d"

definition valid_date :: "int \<Rightarrow> int \<Rightarrow> int \<Rightarrow> bool" where
  "valid_date y m d \<longleftrightarrow> 1 \<le> y \<and> y \<le> 9999 \<and> 1 \<le> m \<and> m \<le> 12 \<and> 1 \<le> d \<and> d \<le> month_lengths y ! nat (m - 1)"

lemma month_and_day_sum:
  assumes "month_and_day m n ls = (m', d)" "0 \<le> n" "n < sum_list ls" "list_all (\<lambda>l. 0 < l) ls"
  shows "m \<le> m' \<and> m' < m + int (length ls) \<and> 1 \<le> d \<and> d \<le> ls ! nat (m' - m) \<and> sum_list (take (nat (m' - m)) ls) + d = n + 1"
  using assms
proof (induction m n ls rule: month_and_day.induct)
  case (1 m n l ls)
  show ?case
  proof (cases "n < l")
    case True
    then show ?thesis using 1(2-) by simp
  next
    case False
    then have "m + 1 \<le> m' \<and> m' < m + 1 + int (length ls) \<and> 1 \<le> d \<and> d \<le> ls ! nat (m' - (m + 1))
      \<and> sum_list (take (nat (m' - (m + 1))) ls) + d = n - l + 1" using 1 by simp
    moreover from this have "nat (m' - m) = Suc (nat (m' - (m + 1)))" by linarith
    ultimately show ?thesis by simp
  qed
qed simp

lemma month_lengths_facts: "sum_list (month_lengths y) = (if is_leap y then 366 else 365)"
  "list_all (\<lambda>l. 0 < l) (month_lengths y)" "length (month_lengths y) = 12"
  "list_all (\<lambda>l. l \<le> 31) (month_lengths y)"
  by (auto simp: month_lengths_def)

lemma december: "days_before_month y 12 + 31 = (if is_leap y then 366 else 365)"
  by (simp add: days_before_month_def month_lengths_def)

lemma year_parts:
  fixes a b c d :: int
  assumes "0 \<le> b" "b \<le> 3" "0 \<le> c" "c \<le> 24" "0 \<le> d" "d \<le> 3"
  shows "days_before_year (400 * a + 100 * b + 4 * c + d + 1) = 146097 * a + 36524 * b + 1461 * c + 365 * d"
proof -
  have "(400 * a + 100 * b + 4 * c + d) div 4 = 100 * a + 25 * b + c"
    "(400 * a + 100 * b + 4 * c + d) div 100 = 4 * a + b" "(400 * a + 100 * b + 4 * c + d) div 400 = a"
    using assms by (simp_all add: div_pos_pos_trivial int_div_pos_eq)
  then show ?thesis by (simp add: days_before_year_def Let_def)
qed

lemma ymd2ord_ord2ymd:
  assumes "ord2ymd n = (y, m, d)" "1 \<le> n" "n \<le> 3652059"
  shows "ymd2ord y m d = n \<and> valid_date y m d"
proof -
  define a r1 where "a = (n - 1) div 146097" and "r1 = (n - 1) mod 146097"
  define b r2 where "b = r1 div 36524" and "r2 = r1 mod 36524"
  define c r3 where "c = r2 div 1461" and "r3 = r2 mod 1461"
  define e r4 where "e = r3 div 365" and "r4 = r3 mod 365"
  have n: "n - 1 = 146097 * a + r1" "r1 = 36524 * b + r2" "r2 = 1461 * c + r3" "r3 = 365 * e + r4"
    by (simp_all add: a_def r1_def b_def r2_def c_def r3_def e_def r4_def)
  have r: "0 \<le> r1" "r1 < 146097" "0 \<le> r2" "r2 < 36524" "0 \<le> r3" "r3 < 1461" "0 \<le> r4" "r4 < 365"
    by (simp_all add: r1_def r2_def r3_def r4_def)
  have a: "0 \<le> a" "a \<le> 24" using n(1) r(1,2) assms(2,3) by linarith+
  have b: "0 \<le> b" "b \<le> 4" using n(2) r by linarith+
  have c: "0 \<le> c" "c \<le> 24" using n(3) r by linarith+
  have e: "0 \<le> e" "e \<le> 4" using n(4) r by linarith+
  have o: "ord2ymd n = (if e = 4 \<or> b = 4 then (a * 400 + b * 100 + c * 4 + e + 1 - 1, 12, 31)
     else (case month_and_day 1 r4 (month_lengths (a * 400 + b * 100 + c * 4 + e + 1)) of
       (m, d) \<Rightarrow> (a * 400 + b * 100 + c * 4 + e + 1, m, d)))"
    by (simp add: ord2ymd_def Let_def a_def r1_def b_def r2_def c_def r3_def e_def r4_def)
  show ?thesis
  proof (cases "e = 4 \<or> b = 4")
    case True
    have y: "y = 400 * a + 100 * b + 4 * c + e" "m = 12" "d = 31" using o True assms(1) by auto
    show ?thesis
    proof (cases "b = 4")
      case b4: True
      then have z: "r2 = 0" "c = 0" "e = 0" "r4 = 0" using n r c e by linarith+
      have "y = 400 * (a + 1)" using y b4 z by simp
      then have "is_leap y" by (simp add: is_leap_def)
      moreover have "days_before_year y = 146097 * a + 36524 * 3 + 1461 * 24 + 365 * 3"
        using year_parts [of 3 24 3 a] y b4 z by (simp add: algebra_simps)
      ultimately have "ymd2ord y m d = n" using n z b4 december [of y] y by (simp add: ymd2ord_def)
      moreover have "y \<le> 9999" using n(1,2) z b4 y assms(3) by linarith
      ultimately show ?thesis using y a b4 z by (simp add: valid_date_def month_lengths_def)
    next
      case False
      then have e4: "e = 4" "b \<le> 3" using True b by auto
      then have r4: "r4 = 0" using n(4) r by linarith
      then have c23: "c \<le> 23" using n(3,4) e4 r by linarith
      have "y = 100 * (4 * a + b) + 4 * (c + 1)" "y = 4 * (100 * a + 25 * b + c + 1)"
        using y e4 by (simp_all add: algebra_simps)
      then have "y mod 100 = (4 * (c + 1)) mod 100" "y mod 4 = 0" by (metis mod_mult_self4, metis mod_mult_self1_is_0)
      moreover have "(4 * (c + 1)) mod 100 = 4 * (c + 1)" using c c23 by simp
      ultimately have "is_leap y" using c c23 by (simp add: is_leap_def)
      moreover have "days_before_year y = 146097 * a + 36524 * b + 1461 * c + 365 * 3"
        using year_parts [of b c 3 a] y e4 b c by (simp add: algebra_simps)
      ultimately have "ymd2ord y m d = n" using n r4 e4 december [of y] y by (simp add: ymd2ord_def)
      moreover have "y \<le> 9999" using y a b c23 e4 by linarith
      ultimately show ?thesis using y a b c e4 by (simp add: valid_date_def month_lengths_def)
    qed
  next
    case False
    then have le: "e \<le> 3" "b \<le> 3" using e b by auto
    have y: "y = 400 * a + 100 * b + 4 * c + e + 1" "month_and_day 1 r4 (month_lengths y) = (m, d)"
      using o False assms(1) by (auto split: prod.splits simp: algebra_simps)
    have "r4 < sum_list (month_lengths y)" using r by (simp add: month_lengths_facts)
    from month_and_day_sum [OF y(2) r(7) this month_lengths_facts(2)]
    have md: "1 \<le> m" "m \<le> 12" "1 \<le> d" "d \<le> month_lengths y ! nat (m - 1)" "days_before_month y m + d = r4 + 1"
      by (auto simp: month_lengths_facts days_before_month_def)
    have "ymd2ord y m d = n" using n md(5) year_parts [OF b(1) le(2) c e(1) le(1), of a] y(1) by (simp add: ymd2ord_def)
    moreover have "y \<le> 9999" using y(1) n a le c e r assms(3) by linarith
    ultimately show ?thesis using md y(1) a b c e by (simp add: valid_date_def)
  qed
qed

text \<open>\<open>isoformat\<close> writes no year beyond 9999.\<close>

definition in_range :: "int \<Rightarrow> bool" where
  "in_range t \<longleftrightarrow> 1 \<le> 719163 + t div 86400000000 \<and> 719163 + t div 86400000000 \<le> 3652059"

subsection \<open>Parsing\<close>

text \<open>A field of exactly \<open>k\<close> digits and the rest of the text.\<close>

definition take_digits :: "nat \<Rightarrow> string \<Rightarrow> (int \<times> string) option" where
  "take_digits k s = (if k \<le> length s \<and> list_all is_digit (take k s)
     then Some (int (digits_value (take k s)), drop k s) else None)"

definition expect :: "char \<Rightarrow> string \<Rightarrow> string option" where
  "expect c s = (case s of [] \<Rightarrow> None | x # xs \<Rightarrow> if x = c then Some xs else None)"

definition parse_fraction :: "string \<Rightarrow> (int \<times> string) option" where
  "parse_fraction s = (case expect (CHR ''.'') s of None \<Rightarrow> Some (0, s) | Some rest \<Rightarrow> take_digits 6 rest)"

definition parse_date :: "string \<Rightarrow> (int \<times> string) option" where
  "parse_date s = Option.bind (take_digits 4 s) (\<lambda>(y, s). Option.bind (expect (CHR ''-'') s) (\<lambda>s.
     Option.bind (take_digits 2 s) (\<lambda>(m, s). Option.bind (expect (CHR ''-'') s) (\<lambda>s.
     Option.bind (take_digits 2 s) (\<lambda>(d, s). if valid_date y m d then Some (ymd2ord y m d, s) else None)))))"

definition parse_time :: "string \<Rightarrow> (int \<times> string) option" where
  "parse_time s = Option.bind (take_digits 2 s) (\<lambda>(h, s). Option.bind (expect (CHR '':'') s) (\<lambda>s.
     Option.bind (take_digits 2 s) (\<lambda>(mi, s). Option.bind (expect (CHR '':'') s) (\<lambda>s.
     Option.bind (take_digits 2 s) (\<lambda>(sec, s). Option.bind (parse_fraction s) (\<lambda>(us, s).
       if h < 24 \<and> mi < 60 \<and> sec < 60 then Some (((h * 60 + mi) * 60 + sec) * 1000000 + us, s) else None))))))"

text \<open>\<open>datetime.fromisoformat(value.replace("Z", "+00:00"))\<close>.\<close>

definition parse_instant :: "string \<Rightarrow> int option" where
  "parse_instant s = Option.bind (parse_date s) (\<lambda>(ordinal, s). Option.bind (expect (CHR ''T'') s) (\<lambda>s.
     Option.bind (parse_time s) (\<lambda>(us, zone).
       if zone = ''Z'' \<or> zone = ''+00:00'' then Some ((ordinal - 719163) * 86400000000 + us) else None)))"

definition parse_date_only :: "string \<Rightarrow> int option" where
  "parse_date_only s = Option.bind (parse_date s) (\<lambda>(ordinal, rest). if rest = [] then Some ordinal else None)"

text \<open>\<open>value.isoformat()\<close> of an instant in UTC.\<close>

definition isoformat :: "int \<Rightarrow> string" where
  "isoformat t = butlast (datetime_iso t) @ ''+00:00''"

lemma digits_value_zeros: "digits_value (replicate k (CHR ''0'') @ s) = digits_value s"
  by (induction k) (simp_all add: digits_value_def)

lemma take_digits_pad:
  assumes "0 \<le> n" "length (pad_left k (int_str n)) = k"
  shows "take_digits k (pad_left k (int_str n) @ s) = Some (n, s)"
proof -
  have "is_digit (CHR ''0'')" by (simp add: is_digit_def)
  then have d: "list_all is_digit (pad_left k (int_str n))" "digits_value (pad_left k (int_str n)) = nat n"
    using assms(1) nat_str_facts [of "nat n"] by (auto simp: pad_left_def int_str_def digits_value_zeros list_all_iff)
  then show ?thesis using assms by (simp add: take_digits_def)
qed

lemma length_nat_str: "n < 10 ^ k \<Longrightarrow> 0 < k \<Longrightarrow> length (nat_str n) \<le> k"
proof (induction k arbitrary: n)
  case (Suc k)
  show ?case
  proof (cases "n < 10")
    case True
    then show ?thesis by (simp add: nat_str.simps [of n])
  next
    case False
    then have "k \<noteq> 0" using Suc.prems(1) by (cases k) simp_all
    moreover have "n div 10 < 10 ^ k" using Suc.prems(1) by (simp add: less_mult_imp_div_less mult.commute)
    ultimately show ?thesis using Suc.IH [of "n div 10"] False by (simp add: nat_str.simps [of n])
  qed
qed simp

lemma length_pad: "0 \<le> n \<Longrightarrow> n < 10 ^ k \<Longrightarrow> 0 < k \<Longrightarrow> length (pad_left k (int_str n)) = k"
proof -
  assume n: "0 \<le> n" "n < 10 ^ k" "0 < k"
  then have "nat n < 10 ^ k" by (metis nat_less_eq_zless nat_power_eq nat_numeral zero_le_numeral)
  then have "length (nat_str (nat n)) \<le> k" using n(3) by (rule length_nat_str)
  then show ?thesis using n(1) by (simp add: pad_left_def int_str_def)
qed

lemma take_digits_two: "0 \<le> n \<Longrightarrow> n < 100 \<Longrightarrow> take_digits 2 (two_digits n @ s) = Some (n, s)"
  unfolding two_digits_def by (intro take_digits_pad length_pad) simp_all

lemma expect_simps [simp]: "expect c (c # s) = Some s" "x \<noteq> c \<Longrightarrow> expect c (x # s) = None" "expect c [] = None"
  by (simp_all add: expect_def)

lemma parse_date_iso:
  assumes "1 \<le> n" "n \<le> 3652059"
  shows "parse_date (date_iso n @ s) = Some (n, s)"
proof -
  obtain y m d where o: "ord2ymd n = (y, m, d)" by (cases "ord2ymd n")
  have v: "ymd2ord y m d = n" "valid_date y m d" using ymd2ord_ord2ymd [OF o assms] by simp_all
  have "nat (m - 1) < length (month_lengths y)" using v(2) by (auto simp: valid_date_def month_lengths_facts)
  then have "month_lengths y ! nat (m - 1) \<le> 31" using month_lengths_facts(4) [of y] by (simp add: list_all_length)
  then have b: "0 \<le> y" "y < 10 ^ 4" "0 \<le> m" "m < 100" "0 \<le> d" "d < 100" using v(2) by (auto simp: valid_date_def)
  note four = take_digits_pad [OF b(1) length_pad [OF b(1,2)]]
  have "take_digits 4 (pad_left 4 (int_str y) @ r) = Some (y, r)" for r using four by simp
  then show ?thesis using b v by (simp add: parse_date_def date_iso_def o take_digits_two)
qed

lemma seconds_of_day:
  fixes sec :: int
  shows "(sec div 3600 * 60 + sec div 60 mod 60) * 60 + sec mod 60 = sec"
proof -
  have "sec div 3600 = sec div 60 div 60" by (simp add: zdiv_zmult2_eq [symmetric])
  then have "sec div 3600 * 60 + sec div 60 mod 60 = sec div 60" by (simp only: div_mult_mod_eq)
  then show ?thesis by (simp only: div_mult_mod_eq)
qed

lemma parse_time_iso:
  fixes sec us :: int
  assumes "zone = ''Z'' \<or> zone = ''+00:00''" "0 \<le> sec" "sec < 86400" "0 \<le> us" "us < 1000000"
  shows "parse_time (two_digits (sec div 3600) @ '':'' @ two_digits (sec div 60 mod 60) @ '':'' @ two_digits (sec mod 60)
      @ (if us = 0 then [] else ''.'' @ pad_left 6 (int_str us)) @ zone) = Some (sec * 1000000 + us, zone)"
proof -
  have h: "0 \<le> sec div 3600" "sec div 3600 < 24" using assms(2,3) by (auto intro: div_less_iff_less_mult [THEN iffD2])
  have f: "parse_fraction ((if us = 0 then [] else ''.'' @ pad_left 6 (int_str us)) @ zone) = Some (us, zone)"
  proof (cases "us = 0")
    case True
    then show ?thesis using assms(1) by (auto simp: parse_fraction_def)
  next
    case False
    have "take_digits 6 (pad_left 6 (int_str us) @ zone) = Some (us, zone)"
      using assms(4,5) by (intro take_digits_pad length_pad) simp_all
    with False show ?thesis by (simp add: parse_fraction_def)
  qed
  have t: "take_digits 2 (two_digits (sec div 3600) @ s) = Some (sec div 3600, s)"
    "take_digits 2 (two_digits (sec div 60 mod 60) @ s) = Some (sec div 60 mod 60, s)"
    "take_digits 2 (two_digits (sec mod 60) @ s) = Some (sec mod 60, s)" for s
    using h by (intro take_digits_two; simp)+
  have b: "sec div 60 mod 60 < 60" "sec mod 60 < 60" by simp_all
  show ?thesis
    unfolding parse_time_def t append_Cons append_Nil expect_simps f bind.bind_lunit prod.case
    using h(2) b f seconds_of_day [of sec] by (simp only: append_Cons append_Nil t bind.bind_lunit prod.case expect_simps f simp_thms if_True)
qed

theorem instant_reads_back:
  assumes "in_range t"
  shows "parse_instant (datetime_iso t) = Some t" "parse_instant (isoformat t) = Some t"
proof -
  define k where "k = t div 1000000 div 86400"
  define sec where "sec = t div 1000000 mod 86400"
  define us where "us = t mod 1000000"
  have r: "1 \<le> 719163 + k" "719163 + k \<le> 3652059"
    using assms by (simp_all add: in_range_def k_def zdiv_zmult2_eq [symmetric])
  have b: "0 \<le> sec" "sec < 86400" "0 \<le> us" "us < 1000000" by (simp_all add: sec_def us_def)
  have "k * 86400 + sec = t div 1000000" "t div 1000000 * 1000000 + us = t"
    unfolding k_def sec_def us_def by (rule div_mult_mod_eq)+
  then have t: "k * 86400000000 + (sec * 1000000 + us) = t" by linarith
  define body where "body = date_iso (719163 + k) @ ''T'' @ two_digits (sec div 3600) @ '':''
     @ two_digits (sec div 60 mod 60) @ '':'' @ two_digits (sec mod 60) @ (if us = 0 then [] else ''.'' @ pad_left 6 (int_str us))"
  have "datetime_iso t = body @ ''Z''"
    by (simp only: datetime_iso_def Let_def body_def k_def sec_def us_def append_assoc)
  moreover from this have "isoformat t = body @ ''+00:00''" by (simp add: isoformat_def butlast_append)
  moreover have "parse_instant (body @ zone) = Some t" if "zone = ''Z'' \<or> zone = ''+00:00''" for zone
    using parse_time_iso [OF that b] that t
    by (auto simp: parse_instant_def body_def parse_date_iso [OF r])
  ultimately show "parse_instant (datetime_iso t) = Some t" "parse_instant (isoformat t) = Some t" by simp_all
qed

end
