(* ===== verification/TG_Gate_Evidence.thy ===== *)
theory TG_Gate_Evidence
  imports TG_Integration
begin

text \<open>
  Qualification evidence: profiles, submissions and statements of \<open>domain/production_qualification.py\<close> and
  the result envelope and recovery records of \<open>domain/operational_qualification.py\<close>.  Reading JSON into a
  record and the patterns, bounds and literals of single fields are pydantic's; the validators written in
  the source are modelled, in the order of their declaration.  Instants are aware by type.
\<close>

subsection \<open>Shared checks\<close>

definition reject_floats :: "string \<Rightarrow> pyval \<Rightarrow> pyval result" where
  "reject_floats message v = (if contains_float v then Inl (ValueError message) else Inr v)"

definition PRODUCTION_FLOAT_MESSAGE :: string where
  "PRODUCTION_FLOAT_MESSAGE = ''Floating-point values are forbidden in production evidence''"

definition QUALIFICATION_FLOAT_MESSAGE :: string where
  "QUALIFICATION_FLOAT_MESSAGE = ''Floating-point values are forbidden in qualification evidence''"

definition is_upper :: "char \<Rightarrow> bool" where
  "is_upper c \<longleftrightarrow> (let n = of_char c :: nat in 65 \<le> n \<and> n \<le> 90)"

definition normalized_identifier :: "string \<Rightarrow> nat \<Rightarrow> string \<Rightarrow> string result" where
  "normalized_identifier label maximum v =
     (if v = [] \<or> v \<noteq> strip v \<or> maximum < length v \<or> \<not> is_upper (hd v)
         \<or> list_ex (\<lambda>c. \<not> is_upper c \<and> \<not> is_digit c \<and> c \<noteq> CHR ''_'') v
      then Inl (ValueError (label @ '' must be a normalized uppercase identifier'')) else Inr v)"

definition decode_public_key :: "string \<Rightarrow> string result" where
  "decode_public_key v = (case b64decode v of
     None \<Rightarrow> Inl (ValueError ''Evidence attester public key is not valid base64'')
   | Some d \<Rightarrow> if length d \<noteq> 32 then Inl (ValueError ''Evidence attester public key must decode to 32 bytes'') else Inr d)"

definition decode_signature :: "string \<Rightarrow> string result" where
  "decode_signature v = (case b64decode v of
     None \<Rightarrow> Inl (ValueError ''Evidence attestation signature is not valid base64'')
   | Some d \<Rightarrow> if length d \<noteq> 64 then Inl (ValueError ''Evidence attestation signature must decode to 64 bytes'') else Inr d)"

subsection \<open>Profiles\<close>

definition PRODUCTION_EVIDENCE_GATES :: "string list" where
  "PRODUCTION_EVIDENCE_GATES = [''rules_and_catalog_calibration'', ''damaged_conflicting_document_resilience'',
     ''load_test'', ''security_review'', ''backup_restore'', ''methodology_approval'']"

datatype EvidenceMode = INTERNAL_QUALIFICATION_RESULT | EXTERNAL_ATTESTED_PACKAGE

fun EvidenceMode_value :: "EvidenceMode \<Rightarrow> string" where
  "EvidenceMode_value INTERNAL_QUALIFICATION_RESULT = ''INTERNAL_QUALIFICATION_RESULT''"
| "EvidenceMode_value EXTERNAL_ATTESTED_PACKAGE = ''EXTERNAL_ATTESTED_PACKAGE''"

definition internal_gate_result_type :: "string \<Rightarrow> string option" where
  "internal_gate_result_type = map_of [(''load_test'', ''LOAD''), (''backup_restore'', ''RECOVERY'')]"

definition HUMAN_APPROVER_ROLES :: "ActorRole list" where
  "HUMAN_APPROVER_ROLES = [ActorRole.AUDITOR, ActorRole.METHODOLOGY_OWNER, ActorRole.ADMIN]"

record gate_profile =
  gp_gate_name :: string
  gp_expected_application_build_reference :: string
  gp_allowed_environments :: "string list"
  gp_maximum_evidence_age_days :: int
  gp_evidence_mode :: EvidenceMode
  gp_required_artifact_categories :: "string list"
  gp_allowed_artifact_categories :: "string list"
  gp_maximum_artifact_count :: int
  gp_maximum_artifact_bytes :: int
  gp_maximum_total_artifact_bytes :: int
  gp_required_claim_keys :: "string list"
  gp_approval_roles :: "ActorRole list"
  gp_source_profile_version_id :: "string option"
  gp_source_profile_content_hash :: "string option"
  gp_expected_qualification_type :: "string option"
  gp_trusted_attester_id :: "string option"
  gp_trusted_attester_key_id :: "string option"
  gp_trusted_attester_public_key_b64 :: "string option"

definition normalized_environments :: "string list \<Rightarrow> string list result" where
  "normalized_environments vs =
     (if \<not> distinct vs \<or> list_ex (\<lambda>v. v = [] \<or> v \<noteq> strip v \<or> 100 < length v) vs
      then Inl (ValueError ''Evidence environments must be unique normalized strings'') else Inr vs)"

definition normalized_identifiers :: "string list \<Rightarrow> string list result" where
  "normalized_identifiers vs = (if \<not> distinct vs then Inl (ValueError ''Evidence profile identifiers must be unique'')
     else mapR (normalized_identifier ''Evidence profile value'' 100) vs)"

definition normalized_optional_text :: "string option \<Rightarrow> string option result" where
  "normalized_optional_text v = (case v of None \<Rightarrow> Inr None
     | Some t \<Rightarrow> if t = [] \<or> t \<noteq> strip t then Inl (ValueError ''Evidence profile optional text must be normalized'') else Inr v)"

definition profile_is_coherent :: "gate_profile \<Rightarrow> gate_profile result" where
  "profile_is_coherent p =
     (let internal = internal_gate_result_type (gp_gate_name p);
          source = [gp_source_profile_version_id p, gp_source_profile_content_hash p, gp_expected_qualification_type p];
          attester = [gp_trusted_attester_id p, gp_trusted_attester_key_id p, gp_trusted_attester_public_key_b64 p] in
      if \<not> set (gp_required_artifact_categories p) \<subseteq> set (gp_allowed_artifact_categories p)
      then Inl (ValueError ''Required artifact categories must be allowed'')
      else if gp_maximum_total_artifact_bytes p < gp_maximum_artifact_bytes p
      then Inl (ValueError ''Total artifact byte limit cannot be smaller than the per-artifact limit'')
      else if \<not> set (gp_approval_roles p) \<subseteq> set HUMAN_APPROVER_ROLES
      then Inl (ValueError ''Production evidence approval is restricted to independent control roles'')
      else case gp_evidence_mode p of
        INTERNAL_QUALIFICATION_RESULT \<Rightarrow>
          if internal = None then Inl (ValueError ''This production gate has no internal qualification runner'')
          else if \<not> list_all str_true source \<or> list_ex str_true attester
          then Inl (ValueError ''Internal evidence requires an exact source profile and no external key'')
          else if gp_expected_qualification_type p \<noteq> internal
          then Inl (ValueError ''Internal evidence type does not match the production gate'')
          else if ''QUALIFICATION_RESULT'' \<notin> set (gp_required_artifact_categories p)
          then Inl (ValueError ''Internal evidence must retain its qualification result artifact'') else Inr p
      | EXTERNAL_ATTESTED_PACKAGE \<Rightarrow>
          if internal \<noteq> None then Inl (ValueError ''Load and recovery gates require their internal qualification results'')
          else if list_ex str_true source \<or> \<not> list_all str_true attester
          then Inl (ValueError ''External evidence requires a complete trusted attester and no source profile'')
          else bindR (decode_public_key (the (gp_trusted_attester_public_key_b64 p))) (\<lambda>_. Inr p))"

definition profile_check :: "gate_profile \<Rightarrow> gate_profile result" where
  "profile_check p =
     bindR (normalized_environments (gp_allowed_environments p)) (\<lambda>_.
     bindR (mapR normalized_identifiers [gp_required_artifact_categories p, gp_allowed_artifact_categories p, gp_required_claim_keys p]) (\<lambda>_.
     bindR (mapR normalized_optional_text [gp_source_profile_version_id p, gp_trusted_attester_id p, gp_trusted_attester_key_id p]) (\<lambda>_.
       profile_is_coherent p)))"

text \<open>\<open>ProductionGateEvidenceProfile.model_validate\<close>, with pydantic's reading of the fields as an argument.\<close>

definition validate_gate_profile :: "(contents \<Rightarrow> gate_profile result) \<Rightarrow> contents \<Rightarrow> gate_profile result" where
  "validate_gate_profile read_profile payload =
     bindR (reject_floats PRODUCTION_FLOAT_MESSAGE (PDict payload)) (\<lambda>_. bindR (read_profile payload) profile_check)"

subsection \<open>Technical results\<close>

record qualification_finding =
  qn_code :: string
  qn_passed :: bool
  qn_message :: string
  qn_details :: contents

record qualification_result =
  qt_qualification_type :: string
  qt_status :: string
  qt_profile_version_id :: string
  qt_profile_content_hash :: string
  qt_started_at :: int
  qt_completed_at :: int
  qt_findings :: "qualification_finding list"
  qt_evidence :: contents
  qt_result_hash :: string

definition finding_value :: "qualification_finding \<Rightarrow> pyval" where
  "finding_value f = PDict [(''code'', PStr (qn_code f)), (''passed'', PBool (qn_passed f)), (''message'', PStr (qn_message f)),
     (''details'', PDict (qn_details f))]"

definition QUALIFICATION_RESULT_SCHEMA_VERSION :: string where
  "QUALIFICATION_RESULT_SCHEMA_VERSION = ''tenderguard.qualification-result/v1''"

text \<open>\<open>model_dump(exclude={"result_hash"})\<close>.\<close>

definition result_body :: "qualification_result \<Rightarrow> contents" where
  "result_body r = [(''schema_version'', PStr QUALIFICATION_RESULT_SCHEMA_VERSION),
     (''qualification_type'', PStr (qt_qualification_type r)), (''status'', PStr (qt_status r)),
     (''profile_version_id'', PStr (qt_profile_version_id r)), (''profile_content_hash'', PStr (qt_profile_content_hash r)),
     (''started_at'', PStr (datetime_iso (qt_started_at r))), (''completed_at'', PStr (datetime_iso (qt_completed_at r))),
     (''findings'', PList (map finding_value (qt_findings r))), (''evidence'', PDict (qt_evidence r))]"

definition result_hash_verifies :: "crypto \<Rightarrow> qualification_result \<Rightarrow> qualification_result result" where
  "result_hash_verifies C r =
     bindR (reject_floats QUALIFICATION_FLOAT_MESSAGE (PDict (result_body r))) (\<lambda>_.
     bindR (content_hash C (PDict (result_body r))) (\<lambda>h.
       if qt_result_hash r \<noteq> h then Inl (ValueError ''Qualification result hash does not verify'') else Inr r))"

definition build_result_envelope :: "crypto \<Rightarrow> string \<Rightarrow> string \<Rightarrow> string \<Rightarrow> string \<Rightarrow> int \<Rightarrow> int \<Rightarrow> qualification_finding list
    \<Rightarrow> contents \<Rightarrow> qualification_result result" where
  "build_result_envelope C qualification_type status version_id hash started_at completed_at findings evidence =
     (let r = \<lparr>qt_qualification_type = qualification_type, qt_status = status, qt_profile_version_id = version_id,
        qt_profile_content_hash = hash, qt_started_at = started_at, qt_completed_at = completed_at, qt_findings = findings,
        qt_evidence = evidence, qt_result_hash = []\<rparr> in
      bindR (content_hash C (PDict (result_body r))) (\<lambda>h. result_hash_verifies C (r\<lparr>qt_result_hash := h\<rparr>)))"

subsection \<open>Recovery\<close>

record recovery_profile =
  rv_source_environment :: string
  rv_restore_environment :: string
  rv_expected_application_build_reference :: string
  rv_maximum_rpo_seconds :: int
  rv_maximum_rto_seconds :: int
  rv_require_worm :: bool
  rv_require_external_audit_anchor :: bool
  rv_require_oidc_configuration :: bool
  rv_require_export_signing_configuration :: bool
  rv_require_integration_signing_configuration :: bool
  rv_required_adapter_qualification_ids :: "string list"
  rv_required_golden_snapshot_ids :: "string list"

definition trimmed :: "string \<Rightarrow> string \<Rightarrow> unit result" where
  "trimmed message v = (if v \<noteq> strip v then Inl (ValueError message) else Inr ())"

definition unique_required_ids :: "string list \<Rightarrow> string list result" where
  "unique_required_ids vs = (if \<not> distinct vs then Inl (ValueError ''Required qualification IDs must be unique'')
     else if list_ex (\<lambda>v. strip v = [] \<or> v \<noteq> strip v) vs
     then Inl (ValueError ''Required qualification IDs must be normalized strings'') else Inr vs)"

definition restore_is_isolated :: "recovery_profile \<Rightarrow> recovery_profile result" where
  "restore_is_isolated p =
     (if rv_source_environment p = rv_restore_environment p
      then Inl (ValueError ''Recovery verification must target an isolated environment'')
      else if casefold (rv_source_environment p) = ''production'' \<and> \<not> (rv_require_worm p \<and> rv_require_external_audit_anchor p
          \<and> rv_require_oidc_configuration p \<and> rv_require_export_signing_configuration p
          \<and> rv_require_integration_signing_configuration p)
      then Inl (ValueError ''Production recovery profile cannot waive required security controls'') else Inr p)"

definition recovery_profile_check :: "recovery_profile \<Rightarrow> recovery_profile result" where
  "recovery_profile_check p =
     bindR (mapR (trimmed ''Environment names must not contain surrounding whitespace'')
       [rv_source_environment p, rv_restore_environment p, rv_expected_application_build_reference p]) (\<lambda>_.
     bindR (mapR unique_required_ids [rv_required_adapter_qualification_ids p, rv_required_golden_snapshot_ids p]) (\<lambda>_.
       restore_is_isolated p))"

record recovery_exercise =
  rx_exercise_id :: string
  rx_profile_version_id :: string
  rx_profile_content_hash :: string
  rx_source_environment :: string
  rx_restore_environment :: string
  rx_incident_at :: int
  rx_restored_database_point_at :: int
  rx_restoration_started_at :: int
  rx_database_backup_reference :: string
  rx_object_store_backup_reference :: string
  rx_identity_binding_evidence_reference :: string
  rx_connector_binding_evidence_reference :: string
  rx_secrets_manager_evidence_reference :: string
  rx_executed_by :: string
  rx_change_reference :: string

definition timestamps_are_consistent :: "recovery_exercise \<Rightarrow> recovery_exercise result" where
  "timestamps_are_consistent x =
     (if rx_restored_database_point_at x > rx_incident_at x
      then Inl (ValueError ''Restored database point cannot be later than the incident'')
      else if rx_restoration_started_at x < rx_incident_at x
      then Inl (ValueError ''Restoration cannot start before the declared incident'')
      else if rx_source_environment x = rx_restore_environment x
      then Inl (ValueError ''Recovery exercise must use an isolated restore environment'') else Inr x)"

definition recovery_exercise_check :: "recovery_exercise \<Rightarrow> recovery_exercise result" where
  "recovery_exercise_check x =
     bindR (mapR (trimmed ''Recovery exercise text must not contain surrounding whitespace'')
       [rx_exercise_id x, rx_source_environment x, rx_restore_environment x, rx_database_backup_reference x,
        rx_object_store_backup_reference x, rx_identity_binding_evidence_reference x, rx_connector_binding_evidence_reference x,
        rx_secrets_manager_evidence_reference x, rx_executed_by x, rx_change_reference x]) (\<lambda>_. timestamps_are_consistent x)"

record load_slo =
  ls_minimum_success_ratio :: decimal
  ls_maximum_p95_ms :: decimal
  ls_maximum_p99_ms :: decimal
  ls_minimum_requests_per_second :: decimal
  ls_minimum_completed_requests :: int

definition percentiles_are_ordered :: "load_slo \<Rightarrow> load_slo result" where
  "percentiles_are_ordered s = (if dlt (ls_maximum_p99_ms s) (ls_maximum_p95_ms s)
     then Inl (ValueError ''Maximum p99 latency must not be below maximum p95 latency'') else Inr s)"

subsection \<open>Submissions and statements\<close>

record evidence_artifact =
  ea_category :: string
  ea_object_hash :: string
  ea_size_bytes :: int
  ea_media_type :: string
  ea_source_reference :: string

definition artifact_check :: "evidence_artifact \<Rightarrow> evidence_artifact result" where
  "artifact_check a =
     bindR (normalized_identifier ''Artifact category'' 100 (ea_category a)) (\<lambda>_.
     bindR (mapR (trimmed ''Artifact metadata must not contain surrounding whitespace'') [ea_media_type a, ea_source_reference a]) (\<lambda>_.
       Inr a))"

text \<open>A claim is a string, an integer or a Boolean.\<close>

definition claim_check :: "string \<times> pyval \<Rightarrow> unit result" where
  "claim_check kv =
     bindR (normalized_identifier ''Evidence claim key'' 100 (fst kv)) (\<lambda>_. case snd kv of
       PStr t \<Rightarrow> if t = [] \<or> t \<noteq> strip t \<or> 4000 < length t
         then Inl (ValueError ''Evidence string claims must be normalized and bounded'') else Inr ()
     | PInt n \<Rightarrow> if 10 ^ 18 < \<bar>n\<bar> then Inl (ValueError ''Evidence integer claim exceeds the supported range'') else Inr ()
     | _ \<Rightarrow> Inr ())"

record evidence_submission =
  su_profile_version_id :: string
  su_profile_content_hash :: string
  su_environment :: string
  su_executed_by :: string
  su_started_at :: int
  su_completed_at :: int
  su_artifacts :: "evidence_artifact list"
  su_claims :: contents
  su_technical_result :: "qualification_result option"
  su_signed_statement_hash :: "string option"
  su_attester_id :: "string option"
  su_attester_key_id :: "string option"
  su_attestation_signature_b64 :: "string option"

definition submission_is_coherent :: "evidence_submission \<Rightarrow> evidence_submission result" where
  "submission_is_coherent s =
     (let attestation = [su_signed_statement_hash s, su_attester_id s, su_attester_key_id s, su_attestation_signature_b64 s] in
      if su_started_at s > su_completed_at s then Inl (ValueError ''Evidence completion cannot precede its start'')
      else if \<not> distinct (map (\<lambda>a. (ea_category a, ea_object_hash a)) (su_artifacts s))
      then Inl (ValueError ''Evidence artifacts must have unique category/hash identities'')
      else if list_ex str_true attestation \<and> \<not> list_all str_true attestation
      then Inl (ValueError ''External evidence attestation is incomplete'')
      else case su_attestation_signature_b64 s of None \<Rightarrow> Inr s | Some sg \<Rightarrow> bindR (decode_signature sg) (\<lambda>_. Inr s))"

definition submission_check :: "crypto \<Rightarrow> evidence_submission \<Rightarrow> evidence_submission result" where
  "submission_check C s =
     bindR (mapR (trimmed ''Evidence submission text must not contain surrounding whitespace'')
       [su_environment s, su_executed_by s]) (\<lambda>_.
     bindR (mapR artifact_check (su_artifacts s)) (\<lambda>_.
     bindR (mapR claim_check (su_claims s)) (\<lambda>_.
     bindR (case su_technical_result s of None \<Rightarrow> Inr None | Some r \<Rightarrow> bindR (result_hash_verifies C r) (\<lambda>r. Inr (Some r))) (\<lambda>_.
       submission_is_coherent s))))"

record evidence_statement =
  pe_organization_id :: string
  pe_gate_name :: string
  pe_profile_version_id :: string
  pe_profile_content_hash :: string
  pe_application_build_reference :: string
  pe_environment :: string
  pe_executed_by :: string
  pe_started_at :: int
  pe_completed_at :: int
  pe_artifacts :: "evidence_artifact list"
  pe_claims :: contents
  pe_technical_result_hash :: "string option"

definition artifact_value :: "evidence_artifact \<Rightarrow> pyval" where
  "artifact_value a = PDict [(''category'', PStr (ea_category a)), (''object_hash'', PStr (ea_object_hash a)),
     (''size_bytes'', PInt (ea_size_bytes a)), (''media_type'', PStr (ea_media_type a)),
     (''source_reference'', PStr (ea_source_reference a))]"

definition PRODUCTION_GATE_EVIDENCE_STATEMENT_SCHEMA :: string where
  "PRODUCTION_GATE_EVIDENCE_STATEMENT_SCHEMA = ''tenderguard.production-gate-evidence/v1''"

definition statement_value :: "evidence_statement \<Rightarrow> pyval" where
  "statement_value s = PDict [(''schema_version'', PStr PRODUCTION_GATE_EVIDENCE_STATEMENT_SCHEMA),
     (''organization_id'', PStr (pe_organization_id s)), (''gate_name'', PStr (pe_gate_name s)),
     (''profile_version_id'', PStr (pe_profile_version_id s)), (''profile_content_hash'', PStr (pe_profile_content_hash s)),
     (''application_build_reference'', PStr (pe_application_build_reference s)), (''environment'', PStr (pe_environment s)),
     (''executed_by'', PStr (pe_executed_by s)), (''started_at'', PStr (datetime_iso (pe_started_at s))),
     (''completed_at'', PStr (datetime_iso (pe_completed_at s))), (''artifacts'', PList (map artifact_value (pe_artifacts s))),
     (''claims'', PDict (pe_claims s)), (''technical_result_hash'', opt_value PStr (pe_technical_result_hash s))]"

definition statement_hash :: "crypto \<Rightarrow> evidence_statement \<Rightarrow> string result" where
  "statement_hash C s = content_hash C (statement_value s)"

definition verify_production_evidence_signature :: "ed25519 \<Rightarrow> evidence_statement \<Rightarrow> string \<Rightarrow> string \<Rightarrow> unit result" where
  "verify_production_evidence_signature S s signature_b64 trusted_public_key_b64 =
     bindR (decode_public_key trusted_public_key_b64) (\<lambda>key.
     bindR (decode_signature signature_b64) (\<lambda>signature.
     bindR (canonical_json (statement_value s)) (\<lambda>message.
       if ed_verify S key signature message then Inr ()
       else Inl (ValueError ''Production evidence attestation signature verification failed''))))"

subsection \<open>What a checked profile guarantees\<close>

text \<open>The gate decides where its evidence comes from: load and recovery gates take the result of their own runner
  and trust no key, every other gate takes a package signed with the one trusted key, which decodes to 32 bytes.\<close>

lemma gate_determines_mode:
  assumes "profile_check p = Inr q"
  shows "q = p" "gp_evidence_mode p = INTERNAL_QUALIFICATION_RESULT \<longleftrightarrow> gp_gate_name p \<in> {''load_test'', ''backup_restore''}"
    "gp_evidence_mode p = INTERNAL_QUALIFICATION_RESULT \<Longrightarrow>
       gp_expected_qualification_type p = internal_gate_result_type (gp_gate_name p) \<and> str_true (gp_source_profile_version_id p)
       \<and> \<not> str_true (gp_trusted_attester_public_key_b64 p)"
    "gp_evidence_mode p = EXTERNAL_ATTESTED_PACKAGE \<Longrightarrow>
       \<exists>k key. gp_trusted_attester_public_key_b64 p = Some k \<and> decode_public_key k = Inr key \<and> \<not> str_true (gp_source_profile_version_id p)"
    "set (gp_approval_roles p) \<subseteq> {ActorRole.AUDITOR, ActorRole.METHODOLOGY_OWNER, ActorRole.ADMIN}"
proof -
  have c: "profile_is_coherent p = Inr q" using assms by (auto simp: profile_check_def bindR_eq_Inr)
  then show "q = p" "set (gp_approval_roles p) \<subseteq> {ActorRole.AUDITOR, ActorRole.METHODOLOGY_OWNER, ActorRole.ADMIN}"
    by (auto simp: profile_is_coherent_def Let_def HUMAN_APPROVER_ROLES_def bindR_eq_Inr split: if_splits EvidenceMode.splits)
  show "gp_evidence_mode p = INTERNAL_QUALIFICATION_RESULT \<longleftrightarrow> gp_gate_name p \<in> {''load_test'', ''backup_restore''}"
    using c by (auto simp: profile_is_coherent_def Let_def internal_gate_result_type_def split: if_splits EvidenceMode.splits)
  show "gp_evidence_mode p = INTERNAL_QUALIFICATION_RESULT \<Longrightarrow>
       gp_expected_qualification_type p = internal_gate_result_type (gp_gate_name p) \<and> str_true (gp_source_profile_version_id p)
       \<and> \<not> str_true (gp_trusted_attester_public_key_b64 p)"
    using c by (auto simp: profile_is_coherent_def Let_def split: if_splits)
  show "gp_evidence_mode p = EXTERNAL_ATTESTED_PACKAGE \<Longrightarrow>
       \<exists>k key. gp_trusted_attester_public_key_b64 p = Some k \<and> decode_public_key k = Inr key \<and> \<not> str_true (gp_source_profile_version_id p)"
    using c by (cases "gp_trusted_attester_public_key_b64 p") (auto simp: profile_is_coherent_def Let_def bindR_eq_Inr str_true_def split: if_splits)
qed

lemma statement_hash_eq:
  assumes "statement_hash C s = Inr h" "statement_hash C t = Inr h"
  shows "canonical_data (statement_value s) = canonical_data (statement_value t) \<or> (\<exists>x y. x \<noteq> y \<and> sha256_hex C x = sha256_hex C y)"
  using assms content_hash_eq unfolding statement_hash_def by metis

text \<open>The attester's signature on a statement verifies.\<close>

lemma attestation_verifies:
  assumes "signatures_verify S" "canonical_json (statement_value s) = Inr message"
  shows "verify_production_evidence_signature S s (b64encode (ed_sign S seed message)) (b64encode (ed_public S seed)) = Inr ()"
  using assms by (simp add: verify_production_evidence_signature_def decode_public_key_def decode_signature_def b64_roundtrip signatures_verify_def)

lemma built_envelope_verifies:
  assumes "build_result_envelope C ty st v h b e fs ev = Inr r"
  shows "result_hash_verifies C r = Inr r"
  using assms by (auto simp: build_result_envelope_def result_hash_verifies_def result_body_def Let_def bindR_eq_Inr split: if_splits)

end
