(* ===== verification/TG_Versions.thy ===== *)
theory TG_Versions
  imports TG_Audit TG_Membership TG_Dates TG_Gate_Evidence
begin

text \<open>
  Controlled versions: \<open>application/governance.py\<close> creates, approves and binds them and activates adapter
  qualifications, \<open>application/controlled_version_integrity.py\<close> reproduces the approval of a version and
  the binding of a project from the audit table.  Every event goes to the audit table of \<open>TG_Audit\<close>; the
  projects and memberships are those of \<open>TG_Project_Store\<close>.
\<close>

subsection \<open>Rows\<close>

record controlled_version_row =
  vr_id :: string
  vr_kind :: string
  vr_version_label :: string
  vr_content_hash :: string
  vr_status :: string
  vr_payload :: contents
  vr_approved_by :: "string option"
  vr_approved_at :: "int option"

record version_binding =
  vb_project_id :: string
  vb_controlled_version_id :: string
  vb_purpose :: string
  vb_bound_by :: string
  vb_bound_at :: int

record adapter_qualification_row =
  qw_id :: string
  qw_adapter_name :: string
  qw_adapter_version :: string
  qw_status :: string
  qw_valid_until :: "int option"
  qw_test_evidence_hash :: string
  qw_payload :: contents
  qw_approved_by :: "string option"
  qw_approved_at :: int

record governance_store =
  gs_projects :: store
  gs_versions :: "controlled_version_row list"
  gs_bindings :: "version_binding list"
  gs_adapters :: "adapter_qualification_row list"
  gs_audit :: audit_table

text \<open>Equality of dicts whose second has string values only.\<close>

definition same_dict :: "contents \<Rightarrow> contents \<Rightarrow> bool" where
  "same_dict xs ys \<longleftrightarrow> fst ` set xs = fst ` set ys \<and> list_all (\<lambda>k. map_of xs k = map_of ys k) (map fst ys)"

subsection \<open>Integrity of a version\<close>

definition controlled_version_owner_roles :: "string \<Rightarrow> ActorRole list" where
  "controlled_version_owner_roles kind =
     (if kind \<in> {''catalog'', ''nomenclature_catalog'', ''nomenclature_equivalence_rules'', ''equivalence_rules''}
      then [ActorRole.CATALOG_OWNER] else [ActorRole.METHODOLOGY_OWNER])"

definition by_owner :: "string \<Rightarrow> audit_event \<Rightarrow> bool" where
  "by_owner kind e \<longleftrightarrow> list_ex (\<lambda>r. r \<in> ActorRole_value ` set (controlled_version_owner_roles kind)) (av_actor_roles e)"

definition version_value :: "string \<Rightarrow> string \<Rightarrow> contents \<Rightarrow> pyval" where
  "version_value kind version_label payload =
     PDict [(''kind'', PStr kind), (''version_label'', PStr version_label), (''payload'', PDict payload)]"

text \<open>The organisation, creator and creation time of a payload, when they have the required types.\<close>

definition text_item :: "contents \<Rightarrow> string \<Rightarrow> string option" where
  "text_item kvs k = (case map_of kvs k of Some (PStr s) \<Rightarrow> Some s | _ \<Rightarrow> None)"

definition governance_of :: "contents \<Rightarrow> (string \<times> string \<times> string) option" where
  "governance_of payload = (case map_of payload ''_governance'' of
     Some (PDict g) \<Rightarrow> (case (text_item g ''organization_id'', text_item g ''created_by'', text_item g ''created_at'') of
         (Some org, Some creator, Some created) \<Rightarrow> if org = [] \<or> creator = [] then None else Some (org, creator, created)
       | _ \<Rightarrow> None)
   | _ \<Rightarrow> None)"

definition parse_governance_timestamp :: "string \<Rightarrow> int result" where
  "parse_governance_timestamp v = (case parse_instant v of
     None \<Rightarrow> Inl (ControlledVersionIntegrityError ''Controlled version creation timestamp is invalid'') | Some t \<Rightarrow> Inr t)"

definition stored_events :: "string \<Rightarrow> string \<Rightarrow> audit_event list \<Rightarrow> audit_event list result" where
  "stored_events ty i rows = mapR audit_event_check (chain_of ty i rows)"

definition created_payload :: "controlled_version_row \<Rightarrow> contents" where
  "created_payload row = [(''kind'', PStr (vr_kind row)), (''version_label'', PStr (vr_version_label row)),
     (''content_hash'', PStr (vr_content_hash row))]"

definition approved_payload :: "controlled_version_row \<Rightarrow> contents" where
  "approved_payload row = [(''content_hash'', PStr (vr_content_hash row)), (''kind'', PStr (vr_kind row))]"

definition created_valid :: "controlled_version_row \<Rightarrow> string \<Rightarrow> int \<Rightarrow> audit_event list \<Rightarrow> bool" where
  "created_valid row created_by created_at created \<longleftrightarrow> length created = 1 \<and> av_actor_id (hd created) = created_by
     \<and> by_owner (vr_kind row) (hd created) \<and> created_at \<le> av_occurred_at (hd created)
     \<and> same_dict (av_payload (hd created)) (created_payload row)"

definition approved_valid :: "controlled_version_row \<Rightarrow> string \<Rightarrow> audit_event list \<Rightarrow> audit_event list \<Rightarrow> audit_event list \<Rightarrow> bool" where
  "approved_valid row created_by events created approved \<longleftrightarrow> length events = 2 \<and> length approved = 1
     \<and> str_true (vr_approved_by row) \<and> vr_approved_at row \<noteq> None \<and> vr_approved_by row \<noteq> Some created_by
     \<and> vr_approved_by row = Some (av_actor_id (hd approved)) \<and> by_owner (vr_kind row) (hd approved)
     \<and> the (vr_approved_at row) \<le> av_occurred_at (hd approved) \<and> av_occurred_at (hd created) \<le> the (vr_approved_at row)
     \<and> same_dict (av_payload (hd approved)) (approved_payload row)"

record version_expectation =
  xp_organization_id :: "string option"
  xp_kind :: "string option"
  xp_content_hash :: "string option"
  xp_status :: string

definition any_approved :: version_expectation where
  "any_approved = \<lparr>xp_organization_id = None, xp_kind = None, xp_content_hash = None, xp_status = ''APPROVED''\<rparr>"

definition require_controlled_version_integrity :: "crypto \<Rightarrow> (string \<Rightarrow> string option) \<Rightarrow> audit_event list
    \<Rightarrow> controlled_version_row \<Rightarrow> version_expectation \<Rightarrow> unit result" where
  "require_controlled_version_integrity C K rows row xp =
     bindR (content_hash C (version_value (vr_kind row) (vr_version_label row) (vr_payload row))) (\<lambda>expected_row_hash.
     case governance_of (vr_payload row) of
       None \<Rightarrow> Inl (ControlledVersionIntegrityError ''Controlled version identity, content hash, organization, or status does not verify'')
     | Some (org, created_by, created_at_text) \<Rightarrow>
       if (xp_organization_id xp \<noteq> None \<and> xp_organization_id xp \<noteq> Some org)
          \<or> (xp_kind xp \<noteq> None \<and> xp_kind xp \<noteq> Some (vr_kind row))
          \<or> (xp_content_hash xp \<noteq> None \<and> xp_content_hash xp \<noteq> Some (vr_content_hash row))
          \<or> vr_content_hash row \<noteq> expected_row_hash \<or> vr_status row \<noteq> xp_status xp
       then Inl (ControlledVersionIntegrityError ''Controlled version identity, content hash, organization, or status does not verify'')
       else bindR (parse_governance_timestamp created_at_text) (\<lambda>created_at.
         bindR (stored_events ''controlled_version'' (vr_id row) rows) (\<lambda>events.
         let created = filter (\<lambda>e. av_event_type e = ''controlled_version_created'') events;
             approved = filter (\<lambda>e. av_event_type e = ''controlled_version_approved'') events in
         bindR (verify_chain C K events) (\<lambda>verified.
         if events = [] \<or> \<not> verified \<or> \<not> created_valid row created_by created_at created
         then Inl (ControlledVersionIntegrityError ''Controlled version creation audit chain does not verify'')
         else if xp_status xp = ''DRAFT''
         then (if length events \<noteq> 1 \<or> approved \<noteq> [] \<or> vr_approved_by row \<noteq> None \<or> vr_approved_at row \<noteq> None
           then Inl (ControlledVersionIntegrityError ''Draft controlled version has an invalid lifecycle'') else Inr ())
         else if \<not> approved_valid row created_by events created approved
         then Inl (ControlledVersionIntegrityError ''Controlled version approval or four-eyes audit chain does not verify'')
         else Inr ()))))"

definition bound_payload :: "controlled_version_row \<Rightarrow> string \<Rightarrow> contents" where
  "bound_payload row purpose = [(''version_id'', PStr (vr_id row)), (''kind'', PStr (vr_kind row)),
     (''purpose'', PStr purpose), (''content_hash'', PStr (vr_content_hash row))]"

definition binds_purpose :: "string \<Rightarrow> audit_event \<Rightarrow> bool" where
  "binds_purpose purpose e \<longleftrightarrow> av_event_type e = ''controlled_version_bound''
     \<and> map_of (av_payload e) ''purpose'' = Some (PStr purpose)"

definition binding_valid :: "controlled_version_row \<Rightarrow> version_binding \<Rightarrow> string \<Rightarrow> audit_event list \<Rightarrow> bool" where
  "binding_valid row b purpose events \<longleftrightarrow> events \<noteq> [] \<and> (let latest = last events in
     av_actor_id latest = vb_bound_by b \<and> by_owner (vr_kind row) latest \<and> vb_bound_at b \<le> av_occurred_at latest
     \<and> same_dict (av_payload latest) (bound_payload row purpose))"

definition require_bound_controlled_version :: "crypto \<Rightarrow> (string \<Rightarrow> string option) \<Rightarrow> governance_store
    \<Rightarrow> string \<Rightarrow> string \<Rightarrow> string \<Rightarrow> string \<Rightarrow> string option \<Rightarrow> controlled_version_row result" where
  "require_bound_controlled_version C K gs project_id organization_id purpose kind expected_version_id =
     (case concat (map (\<lambda>b. filter (\<lambda>v. vr_id v = vb_controlled_version_id b) (gs_versions gs))
             (filter (\<lambda>b. vb_project_id b = project_id \<and> vb_purpose b = purpose) (gs_bindings gs))) of
        [row] \<Rightarrow>
          (case find (\<lambda>b. vb_project_id b = project_id \<and> vb_controlled_version_id b = vr_id row \<and> vb_purpose b = purpose) (gs_bindings gs) of
             None \<Rightarrow> Inl (ControlledVersionIntegrityError ''Controlled version binding identity, purpose, or requested version does not verify'')
           | Some b \<Rightarrow>
             if vr_kind row \<noteq> kind \<or> vb_bound_by b = [] \<or> (expected_version_id \<noteq> None \<and> expected_version_id \<noteq> Some (vr_id row))
             then Inl (ControlledVersionIntegrityError ''Controlled version binding identity, purpose, or requested version does not verify'')
             else bindR (require_controlled_version_integrity C K (tb_events (gs_audit gs)) row
                 (any_approved\<lparr>xp_organization_id := Some organization_id, xp_kind := Some kind\<rparr>)) (\<lambda>_.
               bindR (stored_events ''project'' project_id (tb_events (gs_audit gs))) (\<lambda>project_events.
               bindR (verify_chain C K project_events) (\<lambda>verified.
               if project_events = [] \<or> \<not> verified \<or> \<not> binding_valid row b purpose (filter (binds_purpose purpose) project_events)
               then Inl (ControlledVersionIntegrityError ''Controlled version binding audit chain does not verify'')
               else Inr row))))
      | _ \<Rightarrow> Inl (ControlledVersionIntegrityError (''Project must bind exactly one controlled version for purpose '' @ purpose)))"

subsection \<open>Operations\<close>

record governance_settings = audit_settings +
  application_build_reference :: "string option"

text \<open>SHA-256 and HMAC; pydantic's reading of an evidence profile; and the check of a production qualification
  against the campaign and package tables (\<open>_production_qualification_evidence_valid\<close>).\<close>

record governance_env =
  ge_crypto :: crypto
  ge_read_profile :: "contents \<Rightarrow> gate_profile result"
  ge_qualification_valid :: "contents \<Rightarrow> string \<Rightarrow> bool"

definition governed_dict :: "contents \<Rightarrow> contents" where
  "governed_dict payload = filter (\<lambda>kv. fst kv \<noteq> ''_governance'') payload"

definition build_is_bound :: "governance_env \<Rightarrow> governance_settings \<Rightarrow> contents \<Rightarrow> string \<Rightarrow> unit result" where
  "build_is_bound E s payload message =
     bindR (validate_gate_profile (ge_read_profile E) payload) (\<lambda>profile.
       if application_build_reference s \<noteq> Some (gp_expected_application_build_reference profile)
       then Inl (ValueError message) else Inr ())"

text \<open>\<open>_production_qualification_evidence_complete\<close>.\<close>

definition BUSINESS_GATES :: "string list" where
  "BUSINESS_GATES = [''historical_projects'', ''blind_estimator_comparison'', ''parallel_operation'', ''variance_resolution'']"

definition dict_item :: "contents \<Rightarrow> string \<Rightarrow> contents option" where
  "dict_item kvs k = (case map_of kvs k of Some (PDict d) \<Rightarrow> Some d | _ \<Rightarrow> None)"

definition nonblank_items :: "contents \<Rightarrow> string list \<Rightarrow> bool" where
  "nonblank_items kvs ks \<longleftrightarrow> list_all (\<lambda>k. case text_item kvs k of None \<Rightarrow> False | Some t \<Rightarrow> strip t \<noteq> []) ks"

definition gate_passed :: "contents \<Rightarrow> bool" where
  "gate_passed gate \<longleftrightarrow> text_item gate ''status'' = Some ''PASSED''
     \<and> (case text_item gate ''evidence_hash'' of None \<Rightarrow> False | Some h \<Rightarrow> is_sha256 h)
     \<and> nonblank_items gate [''owner_id'', ''approved_by'', ''approved_at'', ''environment'']"

definition gate_from_campaign :: "string \<Rightarrow> string \<Rightarrow> contents \<Rightarrow> bool" where
  "gate_from_campaign campaign_id package_hash gate \<longleftrightarrow> text_item gate ''evidence_hash'' = Some package_hash
     \<and> text_item gate ''source_reference'' = Some (''business_qualification_campaign:'' @ campaign_id)"

definition gate_from_package :: "contents \<Rightarrow> bool" where
  "gate_from_package gate \<longleftrightarrow> (case text_item gate ''evidence_package_id'' of None \<Rightarrow> False
     | Some p \<Rightarrow> p \<noteq> [] \<and> length p \<le> 64
        \<and> text_item gate ''source_reference'' = Some (''production_gate_evidence_package:'' @ p))"

definition production_qualification_evidence_complete :: "contents \<Rightarrow> bool" where
  "production_qualification_evidence_complete payload \<longleftrightarrow>
     (case (dict_item payload ''gates'', dict_item payload ''business_qualification'') of
        (Some gates, Some business) \<Rightarrow> map_of payload ''all_gates_complete'' = Some (PBool True)
          \<and> (case (text_item business ''campaign_id'', text_item business ''package_hash'') of
               (Some campaign_id, Some package_hash) \<Rightarrow> campaign_id \<noteq> [] \<and> length campaign_id \<le> 64 \<and> is_sha256 package_hash
                 \<and> nonblank_items business [''approved_by'', ''approved_at'', ''environment'']
                 \<and> list_all (\<lambda>g. case dict_item gates g of None \<Rightarrow> False | Some gate \<Rightarrow> gate_passed gate) (BUSINESS_GATES @ PRODUCTION_EVIDENCE_GATES)
                 \<and> list_all (\<lambda>g. gate_from_campaign campaign_id package_hash (the (dict_item gates g))) BUSINESS_GATES
                 \<and> list_all (\<lambda>g. gate_from_package (the (dict_item gates g))) PRODUCTION_EVIDENCE_GATES
             | _ \<Rightarrow> False)
      | _ \<Rightarrow> False)"

definition domain_version :: "controlled_version_row \<Rightarrow> controlled_version result" where
  "domain_version row = approval_is_complete \<lparr>cv_kind = vr_kind row, cv_version_id = vr_id row,
     cv_content_hash = vr_content_hash row,
     cv_status = (if vr_status row = ''APPROVED'' then VersionStatus.APPROVED else VersionStatus.DRAFT),
     cv_approved_by = vr_approved_by row, cv_approved_at = vr_approved_at row\<rparr>"

definition record_governance_event :: "governance_env \<Rightarrow> governance_settings \<Rightarrow> actor \<Rightarrow> string \<Rightarrow> string \<Rightarrow> string \<Rightarrow> string
    \<Rightarrow> string \<Rightarrow> contents \<Rightarrow> stamps \<Rightarrow> governance_store \<Rightarrow> governance_store result" where
  "record_governance_event E s a agg_type agg_id event_type request_id reason payload sp gs =
     bindR (record_audit (ge_crypto E) (audit_settings.truncate s) a
       (event_draft a agg_type agg_id event_type request_id reason payload (sp_event_uuid sp) (sp_event_now sp))
       (sp_outbox_uuid sp) (sp_outbox_now sp) (gs_audit gs)) (\<lambda>(e, t). Inr (gs\<lparr>gs_audit := t\<rparr>))"

definition governed_payload :: "actor \<Rightarrow> int \<Rightarrow> contents \<Rightarrow> contents" where
  "governed_payload a now payload = AList.update ''_governance''
     (PDict [(''organization_id'', PStr (actor_organization_id a)), (''created_by'', PStr (actor_id a)),
        (''created_at'', PStr (isoformat now))]) payload"

definition insert_version :: "controlled_version_row \<Rightarrow> governance_store \<Rightarrow> governance_store result" where
  "insert_version row gs =
     (if list_ex (\<lambda>v. vr_id v = vr_id row \<or> (vr_kind v = vr_kind row \<and> vr_version_label v = vr_version_label row)) (gs_versions gs)
      then Inl (IntegrityError ''controlled_versions'') else Inr (gs\<lparr>gs_versions := gs_versions gs @ [row]\<rparr>))"

definition create_version :: "governance_env \<Rightarrow> governance_settings \<Rightarrow> actor \<Rightarrow> string \<Rightarrow> string \<Rightarrow> contents \<Rightarrow> string \<Rightarrow> string
    \<Rightarrow> stamps \<Rightarrow> governance_store \<Rightarrow> (controlled_version \<times> governance_store) result" where
  "create_version E s a kind version_label payload request_id reason sp gs =
     bindR (require_any a (controlled_version_owner_roles kind)) (\<lambda>_.
     bindR (if kind = ''production_gate_evidence_profile''
       then build_is_bound E s payload ''Production gate evidence profile must bind the running immutable build'' else Inr ()) (\<lambda>_.
     if kind = ''production_qualification'' \<and> \<not> production_qualification_evidence_complete payload
     then Inl (ValueError ''Production qualification payload lacks complete governed evidence'')
     else let governed = governed_payload a (sp_now sp) payload in
       bindR (content_hash (ge_crypto E) (version_value kind version_label governed)) (\<lambda>digest.
       let row = \<lparr>vr_id = ''version-'' @ sp_uuid sp, vr_kind = kind, vr_version_label = version_label, vr_content_hash = digest,
             vr_status = ''DRAFT'', vr_payload = governed, vr_approved_by = None, vr_approved_at = None\<rparr> in
       bindR (insert_version row gs) (\<lambda>gs.
       bindR (record_governance_event E s a ''controlled_version'' (vr_id row) ''controlled_version_created'' request_id reason
         (created_payload row) sp gs) (\<lambda>gs.
       bindR (domain_version row) (\<lambda>v. Inr (v, gs)))))))"

definition put_version :: "controlled_version_row \<Rightarrow> governance_store \<Rightarrow> governance_store" where
  "put_version row gs = gs\<lparr>gs_versions := map (\<lambda>v. if vr_id v = vr_id row then row else v) (gs_versions gs)\<rparr>"

definition find_version :: "governance_store \<Rightarrow> string \<Rightarrow> controlled_version_row result" where
  "find_version gs version_id = (case find (\<lambda>v. vr_id v = version_id) (gs_versions gs) of
     None \<Rightarrow> Inl (LookupError version_id) | Some row \<Rightarrow> Inr row)"

definition approval_checks :: "governance_env \<Rightarrow> governance_settings \<Rightarrow> actor \<Rightarrow> controlled_version_row \<Rightarrow> unit result" where
  "approval_checks E s a row =
     (if map_option (\<lambda>(org, creator, created). creator) (governance_of (vr_payload row)) = Some (actor_id a)
      then Inl (ValueError ''Controlled version requires four-eyes approval'')
      else bindR (if vr_kind row = ''production_gate_evidence_profile''
        then build_is_bound E s (governed_dict (vr_payload row)) ''Production gate evidence profile build binding is no longer current''
        else Inr ()) (\<lambda>_.
      if vr_kind row = ''production_qualification''
         \<and> \<not> (production_qualification_evidence_complete (vr_payload row)
              \<and> ge_qualification_valid E (vr_payload row) (actor_organization_id a))
      then Inl (ValueError (''Production qualification evidence does not verify against '' @ ''immutable qualification records''))
      else Inr ()))"

definition approve_version :: "governance_env \<Rightarrow> governance_settings \<Rightarrow> actor \<Rightarrow> string \<Rightarrow> string \<Rightarrow> string
    \<Rightarrow> stamps \<Rightarrow> governance_store \<Rightarrow> (controlled_version \<times> governance_store) result" where
  "approve_version E s a version_id request_id reason sp gs =
     bindR (find_version gs version_id) (\<lambda>row.
     bindR (require_any a (controlled_version_owner_roles (vr_kind row))) (\<lambda>_.
     bindR (require_controlled_version_integrity (ge_crypto E) (audit_verification_keyring (audit_settings.truncate s))
       (tb_events (gs_audit gs)) row
       (any_approved\<lparr>xp_organization_id := Some (actor_organization_id a), xp_status := ''DRAFT''\<rparr>)) (\<lambda>_.
     bindR (approval_checks E s a row) (\<lambda>_.
     let row = row\<lparr>vr_status := ''APPROVED'', vr_approved_by := Some (actor_id a), vr_approved_at := Some (sp_now sp)\<rparr> in
     bindR (record_governance_event E s a ''controlled_version'' (vr_id row) ''controlled_version_approved'' request_id reason
       (approved_payload row) sp (put_version row gs)) (\<lambda>gs.
     bindR (domain_version row) (\<lambda>v. Inr (v, gs)))))))"

definition bind_version :: "actor \<Rightarrow> project \<Rightarrow> controlled_version_row \<Rightarrow> string \<Rightarrow> int \<Rightarrow> version_binding list \<Rightarrow> version_binding list result" where
  "bind_version a p version purpose now bindings =
     (let kept = filter (\<lambda>b. \<not> (vb_project_id b = pr_id p \<and> vb_purpose b = purpose)) bindings in
      if list_ex (\<lambda>b. vb_project_id b = pr_id p \<and> vb_controlled_version_id b = vr_id version) kept
      then Inl (IntegrityError ''project_controlled_versions'')
      else Inr (kept @ [\<lparr>vb_project_id = pr_id p, vb_controlled_version_id = vr_id version, vb_purpose = purpose,
        vb_bound_by = actor_id a, vb_bound_at = now\<rparr>]))"

definition kind_bound_elsewhere :: "governance_store \<Rightarrow> string \<Rightarrow> string \<Rightarrow> string \<Rightarrow> bool" where
  "kind_bound_elsewhere gs project_id kind purpose \<longleftrightarrow> list_ex (\<lambda>b. vb_project_id b = project_id \<and> vb_purpose b \<noteq> purpose
     \<and> list_ex (\<lambda>v. vr_id v = vb_controlled_version_id b \<and> vr_kind v = kind) (gs_versions gs)) (gs_bindings gs)"

definition bind_to_project :: "governance_env \<Rightarrow> governance_settings \<Rightarrow> settings \<Rightarrow> actor \<Rightarrow> string \<Rightarrow> string \<Rightarrow> string \<Rightarrow> string
    \<Rightarrow> string \<Rightarrow> int \<Rightarrow> int \<Rightarrow> stamps \<Rightarrow> governance_store \<Rightarrow> governance_store result" where
  "bind_to_project E s cfg a project_id version_id purpose request_id reason today updated_at sp gs =
     bindR (find_version gs version_id) (\<lambda>version.
     bindR (require_any a (controlled_version_owner_roles (vr_kind version))) (\<lambda>_.
     bindR (require_controlled_version_integrity (ge_crypto E) (audit_verification_keyring (audit_settings.truncate s))
       (tb_events (gs_audit gs)) version (any_approved\<lparr>xp_organization_id := Some (actor_organization_id a)\<rparr>)) (\<lambda>_.
     bindR (get_project cfg today (gs_projects gs) a project_id (controlled_version_owner_roles (vr_kind version)) False None) (\<lambda>p.
     if kind_bound_elsewhere gs (pr_id p) (vr_kind version) purpose
     then Inl (ValueError ''A project cannot bind the same governed version kind to multiple purposes'')
     else bindR (bind_version a p version purpose (sp_now sp) (gs_bindings gs)) (\<lambda>bindings.
       record_governance_event E s a ''project'' (pr_id p) ''controlled_version_bound'' request_id reason (bound_payload version purpose) sp
         (gs\<lparr>gs_bindings := bindings,
             gs_projects := put_project (p\<lparr>pr_row_version := pr_row_version p + 1, pr_updated_at := updated_at\<rparr>) (gs_projects gs)\<rparr>))))))"

subsection \<open>Adapter qualifications\<close>

definition is_lower_or_digit :: "char \<Rightarrow> bool" where
  "is_lower_or_digit c \<longleftrightarrow> is_digit c \<or> (let n = of_char c :: nat in 97 \<le> n \<and> n \<le> 122)"

definition connector_topic :: "pyval \<Rightarrow> bool" where
  "connector_topic v = (case v of PStr t \<Rightarrow> t \<noteq> [] \<and> t = strip t \<and> length t \<le> 200 \<and> is_lower_or_digit (hd t)
       \<and> list_all (\<lambda>c. is_lower_or_digit c \<or> c \<in> set ''._-'') t | _ \<Rightarrow> False)"

definition invalid_field :: "string \<Rightarrow> error" where
  "invalid_field field = ValueError (''Adapter qualification '' @ field @ '' is invalid'')"

definition connector_topics :: "contents \<Rightarrow> string \<Rightarrow> pyval list result" where
  "connector_topics payload field = (case map_of payload field of
     Some (PList raw) \<Rightarrow> if raw = [] \<or> \<not> list_all connector_topic raw \<or> \<not> distinct raw then Inl (invalid_field field) else Inr raw
   | _ \<Rightarrow> Inl (invalid_field field))"

definition connector_string :: "contents \<Rightarrow> nat \<Rightarrow> string \<Rightarrow> (string \<times> pyval) result" where
  "connector_string payload max_length field = (case text_item payload field of
     None \<Rightarrow> Inl (invalid_field field)
   | Some raw \<Rightarrow> if raw = [] \<or> raw \<noteq> strip raw \<or> max_length < length raw then Inl (invalid_field field) else Inr (field, PStr raw))"

definition validated_connector_payload :: "contents \<Rightarrow> pyval list \<Rightarrow> contents result" where
  "validated_connector_payload payload supported_methods =
     (let outbound = PStr ''INTEGRATION_OUTBOUND_DELIVERY'' \<in> set supported_methods;
          inbound = PStr ''INTEGRATION_INBOUND_SOURCE'' \<in> set supported_methods;
          handler = PStr ''INTEGRATION_INBOX_HANDLER'' \<in> set supported_methods in
      bindR (if outbound
        then bindR (connector_topics payload ''outbound_topics'') (\<lambda>topics.
             bindR (mapR (connector_string payload 200) [''receipt_signing_key_id'', ''receipt_public_key_b64'', ''receiver_id'']) (\<lambda>fields.
             bindR (validate_integration_public_key (the (text_item payload ''receipt_public_key_b64''))) (\<lambda>_.
               Inr ((''outbound_topics'', PList topics) # fields))))
        else Inr []) (\<lambda>out.
      bindR (if inbound \<or> handler
        then bindR (connector_topics payload ''inbound_topics'') (\<lambda>topics. Inr [(''inbound_topics'', PList topics)]) else Inr []) (\<lambda>topics.
      bindR (if inbound
        then bindR (mapR (connector_string payload 200) [''inbound_signing_key_id'', ''inbound_signing_public_key_b64'']) (\<lambda>fields.
             bindR (validate_integration_public_key (the (text_item payload ''inbound_signing_public_key_b64''))) (\<lambda>_. Inr fields))
        else Inr []) (\<lambda>fields. Inr (out @ topics @ fields)))))"

definition falsy :: "pyval \<Rightarrow> bool" where
  "falsy v = (case v of PNone \<Rightarrow> True | PBool b \<Rightarrow> \<not> b | PInt n \<Rightarrow> n = 0 | PDec d \<Rightarrow> deq d d_zero | PFloat r \<Rightarrow> r = 0
     | PStr t \<Rightarrow> t = [] | PList xs \<Rightarrow> xs = [] | PSet xs \<Rightarrow> xs = [] | PDict kvs \<Rightarrow> kvs = [])"

definition read_valid_until :: "pyval option \<Rightarrow> int option result" where
  "read_valid_until raw = (case raw of None \<Rightarrow> Inr None
     | Some v \<Rightarrow> if falsy v then Inr None else (case v of
         PStr t \<Rightarrow> (case parse_date_only t of None \<Rightarrow> Inl (ValueError (''Invalid isoformat string: '' @ py_repr t)) | Some d \<Rightarrow> Inr (Some d))
       | _ \<Rightarrow> Inl (TypeError ''fromisoformat: argument must be str'')))"

definition date_of :: "int \<Rightarrow> int" where
  "date_of t = 719163 + t div 86400000000"

definition ADAPTER_REQUIRED :: "string list" where
  "ADAPTER_REQUIRED = [''adapter_name'', ''adapter_version'', ''test_evidence_hash'', ''independence_domain'', ''service_actor_id'']"

definition item_or_empty :: "contents \<Rightarrow> string \<Rightarrow> pyval" where
  "item_or_empty payload k = (case map_of payload k of None \<Rightarrow> PList [] | Some v \<Rightarrow> v)"

definition qualification_row :: "actor \<Rightarrow> controlled_version_row \<Rightarrow> pyval list \<Rightarrow> contents \<Rightarrow> int option \<Rightarrow> int \<Rightarrow> adapter_qualification_row" where
  "qualification_row a version supported_methods connector_payload valid_until now =
     (let payload = vr_payload version; text = (\<lambda>k. the (text_item payload k)) in
      \<lparr>qw_id = vr_id version, qw_adapter_name = text ''adapter_name'', qw_adapter_version = text ''adapter_version'',
       qw_status = ''APPROVED'', qw_valid_until = valid_until, qw_test_evidence_hash = text ''test_evidence_hash'',
       qw_payload = [(''controlled_version_id'', PStr (vr_id version)), (''controlled_version_hash'', PStr (vr_content_hash version)),
         (''supported_methods'', PList supported_methods),
         (''supported_price_evidence_classes'', item_or_empty payload ''supported_price_evidence_classes''),
         (''supported_price_source_types'', item_or_empty payload ''supported_price_source_types''),
         (''supported_price_source_origins'', item_or_empty payload ''supported_price_source_origins''),
         (''independence_domain'', PStr (text ''independence_domain'')), (''organization_id'', PStr (actor_organization_id a)),
         (''service_actor_id'', PStr (text ''service_actor_id''))] @ connector_payload,
       qw_approved_by = vr_approved_by version,
       qw_approved_at = (case vr_approved_at version of None \<Rightarrow> now | Some t \<Rightarrow> t)\<rparr>)"

definition adapter_payload_check :: "contents \<Rightarrow> pyval list result" where
  "adapter_payload_check payload =
     (if \<not> list_all (\<lambda>k. str_true (text_item payload k)) ADAPTER_REQUIRED
      then Inl (ValueError ''Adapter qualification payload is incomplete'')
      else let service = the (text_item payload ''service_actor_id'') in
        if service \<noteq> strip service \<or> 128 < length service then Inl (ValueError ''Adapter qualification service actor ID is invalid'')
        else if \<not> is_sha256 (the (text_item payload ''test_evidence_hash''))
        then Inl (ValueError ''Adapter qualification evidence hash must be lowercase SHA-256'')
        else (case map_of payload ''supported_methods'' of
          Some (PList methods) \<Rightarrow> if methods = [] then Inl (ValueError ''Adapter qualification must declare supported methods'') else Inr methods
        | _ \<Rightarrow> Inl (ValueError ''Adapter qualification must declare supported methods'')))"

definition insert_adapter :: "adapter_qualification_row \<Rightarrow> governance_store \<Rightarrow> governance_store result" where
  "insert_adapter q gs =
     (if list_ex (\<lambda>r. qw_id r = qw_id q \<or> (qw_adapter_name r = qw_adapter_name q \<and> qw_adapter_version r = qw_adapter_version q)) (gs_adapters gs)
      then Inl (IntegrityError ''adapter_qualifications'') else Inr (gs\<lparr>gs_adapters := gs_adapters gs @ [q]\<rparr>))"

definition activate_adapter_qualification :: "governance_env \<Rightarrow> governance_settings \<Rightarrow> actor \<Rightarrow> string \<Rightarrow> string \<Rightarrow> string
    \<Rightarrow> stamps \<Rightarrow> governance_store \<Rightarrow> (adapter_qualification_row \<times> governance_store) result" where
  "activate_adapter_qualification E s a version_id request_id reason sp gs =
     bindR (require_any a [ActorRole.METHODOLOGY_OWNER]) (\<lambda>_.
     bindR (find_version gs version_id) (\<lambda>version.
     if vr_kind version \<noteq> ''adapter_qualification'' then Inl (ValueError ''Controlled version is not an adapter qualification'')
     else bindR (require_controlled_version_integrity (ge_crypto E) (audit_verification_keyring (audit_settings.truncate s))
       (tb_events (gs_audit gs)) version
       (any_approved\<lparr>xp_organization_id := Some (actor_organization_id a), xp_kind := Some ''adapter_qualification''\<rparr>)) (\<lambda>_.
     bindR (adapter_payload_check (vr_payload version)) (\<lambda>methods.
     bindR (validated_connector_payload (vr_payload version) methods) (\<lambda>connector_payload.
     bindR (read_valid_until (map_of (vr_payload version) ''valid_until'')) (\<lambda>valid_until.
     if (case valid_until of None \<Rightarrow> False | Some d \<Rightarrow> d < date_of (sp_now sp))
     then Inl (ValueError ''Expired adapter qualification cannot be activated'')
     else (case find (\<lambda>q. qw_id q = vr_id version) (gs_adapters gs) of
         Some existing \<Rightarrow> Inr (existing, gs)
       | None \<Rightarrow>
         let q = qualification_row a version methods connector_payload valid_until (sp_now sp) in
         bindR (insert_adapter q gs) (\<lambda>gs.
         bindR (record_governance_event E s a ''adapter_qualification'' (qw_id q) ''adapter_qualification_activated'' request_id reason
           [(''adapter_name'', PStr (qw_adapter_name q)), (''adapter_version'', PStr (qw_adapter_version q)),
            (''service_actor_id'', PStr (the (text_item (vr_payload version) ''service_actor_id''))),
            (''test_evidence_hash'', PStr (qw_test_evidence_hash q)),
            (''valid_until'', opt_value (\<lambda>d. PStr (date_iso d)) (qw_valid_until q))] sp gs) (\<lambda>gs.
           Inr (q, gs))))))))))"

subsection \<open>What an append leaves in the table\<close>

lemma record_audit_row:
  assumes "record_audit C s a d uuid now t = Inr (e, t')"
  obtains row where "tb_events t' = tb_events t @ [row]" "av_event_type row = av_event_type d" "av_actor_id row = av_actor_id d"
    "av_actor_roles row = av_actor_roles d" "av_reason row = av_reason d" "av_occurred_at row = av_occurred_at d"
    "av_aggregate_type row = av_aggregate_type d" "av_aggregate_id row = av_aggregate_id d"
    "canonical_data (PDict (av_payload d)) = Inr (PDict (av_payload row))"
proof -
  from assms obtain p data where e: "append_event C p d (audit_signing_key s) (audit_signing_key_id s) = Inr e"
    and data: "canonical_data (PDict (av_payload e)) = Inr data"
    and rows: "tb_events t' = tb_events t @ [e\<lparr>av_payload := as_dict data\<rparr>]"
    by (auto simp: record_audit_def insert_event_def bindR_eq_Inr split: if_splits)
  from e obtain h sg where "e = audit_body.extend (event_body p d (audit_signing_key_id s)) \<lparr>av_event_hash = h, av_signature = sg\<rparr>"
    by (auto simp: append_event_def Let_def bindR_eq_Inr dest!: audit_event_check_eq split: if_splits)
  then have f: "av_event_type e = av_event_type d" "av_actor_id e = av_actor_id d" "av_actor_roles e = av_actor_roles d"
    "av_reason e = av_reason d" "av_occurred_at e = av_occurred_at d" "av_aggregate_type e = av_aggregate_type d"
    "av_aggregate_id e = av_aggregate_id d" "av_payload e = av_payload d"
    by (simp_all add: audit_body.defs event_body_def audit_draft.defs)
  obtain zs where "data = PDict zs" using canonical_dict_shape [OF data] by blast
  then show ?thesis using that [of "e\<lparr>av_payload := as_dict data\<rparr>"] rows f data by (simp add: as_dict_def)
qed

lemma strings_canonical:
  assumes "list_all (is_PStr \<circ> snd) xs" "canonical_data (PDict xs) = Inr (PDict zs)"
  shows "zs = sort_key fst xs"
proof -
  have "mapR (\<lambda>kv. bindR (canonical_data (snd kv)) (\<lambda>v. Inr (fst kv, v))) (sort_key fst xs) = Inr zs"
    using assms(2) by (auto simp: canonical_data_def bindR_eq_Inr)
  moreover have "mapR (\<lambda>kv. bindR (canonical_data (snd kv)) (\<lambda>v. Inr (fst kv, v))) (sort_key fst xs) = Inr (sort_key fst xs)"
    using assms(1) by (intro mapR_fixed) (auto simp: list_all_iff is_PStr_def)
  ultimately show ?thesis by simp
qed

lemma same_dict_sorted: "distinct (map fst xs) \<Longrightarrow> same_dict (sort_key fst xs) xs"
  by (simp add: same_dict_def map_of_sort_key list_all_iff)

lemma recorded_dict:
  "list_all (is_PStr \<circ> snd) xs \<Longrightarrow> distinct (map fst xs) \<Longrightarrow> canonical_data (PDict xs) = Inr (PDict zs) \<Longrightarrow> same_dict zs xs"
  using strings_canonical same_dict_sorted by blast

lemma recorded_by_owner:
  assumes "require_any a (controlled_version_owner_roles kind) = Inr ()" "av_actor_roles e = sorted_list_of_fset (ActorRole_value |`| actor_roles a)"
  shows "by_owner kind e"
proof -
  obtain r where "r |\<in>| actor_roles a" "r \<in> set (controlled_version_owner_roles kind)"
    using assms(1) by (auto simp: require_any_def fset_of_list_elem split: if_splits)
  then show ?thesis using assms(2) by (auto simp: by_owner_def list_ex_iff)
qed

subsection \<open>What a passed check establishes\<close>

definition created_event :: "controlled_version_row \<Rightarrow> string \<Rightarrow> int \<Rightarrow> audit_event \<Rightarrow> bool" where
  "created_event row creator created_at e \<longleftrightarrow> av_event_type e = ''controlled_version_created'' \<and> av_actor_id e = creator
     \<and> by_owner (vr_kind row) e \<and> created_at \<le> av_occurred_at e \<and> same_dict (av_payload e) (created_payload row)"

definition approved_event :: "controlled_version_row \<Rightarrow> string \<Rightarrow> audit_event \<Rightarrow> audit_event \<Rightarrow> bool" where
  "approved_event row creator e f \<longleftrightarrow> av_event_type f = ''controlled_version_approved'' \<and> by_owner (vr_kind row) f
     \<and> av_actor_id f \<noteq> [] \<and> av_actor_id f \<noteq> creator \<and> vr_approved_by row = Some (av_actor_id f)
     \<and> (\<exists>t. vr_approved_at row = Some t \<and> av_occurred_at e \<le> t \<and> t \<le> av_occurred_at f)
     \<and> same_dict (av_payload f) (approved_payload row)"

definition history_verifies :: "controlled_version_row \<Rightarrow> string \<Rightarrow> int \<Rightarrow> audit_event list \<Rightarrow> bool" where
  "history_verifies row creator created_at events \<longleftrightarrow>
     (if vr_status row = ''DRAFT''
      then vr_approved_by row = None \<and> vr_approved_at row = None \<and> (\<exists>e. events = [e] \<and> created_event row creator created_at e)
      else \<exists>e f. (events = [e, f] \<or> events = [f, e]) \<and> created_event row creator created_at e \<and> approved_event row creator e f)"

definition version_verified :: "crypto \<Rightarrow> audit_event list \<Rightarrow> controlled_version_row \<Rightarrow> version_expectation \<Rightarrow> bool" where
  "version_verified C events row xp \<longleftrightarrow>
     content_hash C (version_value (vr_kind row) (vr_version_label row) (vr_payload row)) = Inr (vr_content_hash row)
     \<and> vr_status row = xp_status xp \<and> xp_kind xp \<in> {None, Some (vr_kind row)} \<and> xp_content_hash xp \<in> {None, Some (vr_content_hash row)}
     \<and> (\<exists>org creator created created_at. governance_of (vr_payload row) = Some (org, creator, created)
          \<and> xp_organization_id xp \<in> {None, Some org} \<and> parse_instant created = Some created_at
          \<and> history_verifies row creator created_at events)"

lemma stored_events_inv: "audit_inv C K t \<Longrightarrow> stored_events ty i (tb_events t) = Inr (same_aggregate ty i (tb_events t))"
proof -
  assume inv: "audit_inv C K t"
  then have "chain_of ty i (tb_events t) = same_aggregate ty i (tb_events t)"
    by (intro chain_of_verified [of C K]) (simp add: audit_inv_def)
  moreover have "mapR audit_event_check (same_aggregate ty i (tb_events t)) = Inr (same_aggregate ty i (tb_events t))"
    using inv by (intro mapR_fixed) (auto simp: audit_inv_def list_all_iff same_aggregate_def)
  ultimately show ?thesis by (simp add: stored_events_def)
qed

lemma if_Inl_eq: "(if b then Inl e else r) = Inr x \<longleftrightarrow> \<not> b \<and> r = Inr x"
  by simp

lemma length_one: "length xs = Suc 0 \<longleftrightarrow> (\<exists>x. xs = [x])"
  by (cases xs) auto

lemma draft_lifecycle:
  "length events = 1 \<and> filter (\<lambda>e. av_event_type e = ''controlled_version_approved'') events = []
     \<and> created_valid row creator at0 (filter (\<lambda>e. av_event_type e = ''controlled_version_created'') events)
   \<longleftrightarrow> (\<exists>e. events = [e] \<and> created_event row creator at0 e)"
  by (auto simp: length_one created_valid_def created_event_def split: if_splits)

lemma approved_lifecycle:
  "created_valid row creator at0 (filter (\<lambda>e. av_event_type e = ''controlled_version_created'') events)
     \<and> approved_valid row creator events (filter (\<lambda>e. av_event_type e = ''controlled_version_created'') events)
        (filter (\<lambda>e. av_event_type e = ''controlled_version_approved'') events)
   \<longleftrightarrow> (\<exists>e f. (events = [e, f] \<or> events = [f, e]) \<and> created_event row creator at0 e \<and> approved_event row creator e f)"
    (is "?l \<longleftrightarrow> ?r")
proof
  assume l: ?l
  then obtain a b where ab: "events = [a, b]" by (auto simp: approved_valid_def numeral_2_eq_2 length_Suc_conv)
  with l have "av_event_type a = ''controlled_version_created'' \<and> av_event_type b = ''controlled_version_approved''
    \<or> av_event_type a = ''controlled_version_approved'' \<and> av_event_type b = ''controlled_version_created''"
    by (auto simp: created_valid_def approved_valid_def split: if_splits)
  then show ?r
  proof
    assume "av_event_type a = ''controlled_version_created'' \<and> av_event_type b = ''controlled_version_approved''"
    with l ab have "created_event row creator at0 a" "approved_event row creator a b"
      by (auto simp: created_valid_def approved_valid_def created_event_def approved_event_def)
    with ab show ?r by blast
  next
    assume "av_event_type a = ''controlled_version_approved'' \<and> av_event_type b = ''controlled_version_created''"
    with l ab have "created_event row creator at0 b" "approved_event row creator b a"
      by (auto simp: created_valid_def approved_valid_def created_event_def approved_event_def)
    with ab show ?r by blast
  qed
next
  assume ?r
  then show ?l by (auto simp: created_valid_def approved_valid_def created_event_def approved_event_def)
qed

lemma require_integrity_iff:
  assumes "audit_inv C K t" "xp_status xp = ''DRAFT'' \<or> xp_status xp = ''APPROVED''"
  shows "require_controlled_version_integrity C K (tb_events t) row xp = Inr ()
    \<longleftrightarrow> version_verified C (same_aggregate ''controlled_version'' (vr_id row) (tb_events t)) row xp"
proof -
  let ?es = "same_aggregate ''controlled_version'' (vr_id row) (tb_events t)"
  have v: "verify_chain C K ?es = Inr True" using assms(1) by (simp add: audit_inv_def)
  note s = stored_events_inv [OF assms(1), of "''controlled_version''" "vr_id row"]
  define created where "created = filter (\<lambda>e. av_event_type e = ''controlled_version_created'') ?es"
  define approved where "approved = filter (\<lambda>e. av_event_type e = ''controlled_version_approved'') ?es"
  have draft: "length ?es = 1 \<and> approved = [] \<and> created_valid row creator at0 created
      \<longleftrightarrow> (\<exists>e. ?es = [e] \<and> created_event row creator at0 e)" for creator at0
    unfolding created_def approved_def by (rule draft_lifecycle)
  have full: "created_valid row creator at0 created \<and> approved_valid row creator ?es created approved
      \<longleftrightarrow> (\<exists>e f. (?es = [e, f] \<or> ?es = [f, e]) \<and> created_event row creator at0 e \<and> approved_event row creator e f)" for creator at0
    unfolding created_def approved_def by (rule approved_lifecycle)
  have unfolded: "require_controlled_version_integrity C K (tb_events t) row xp = Inr () \<longleftrightarrow>
     content_hash C (version_value (vr_kind row) (vr_version_label row) (vr_payload row)) = Inr (vr_content_hash row)
     \<and> vr_status row = xp_status xp \<and> xp_kind xp \<in> {None, Some (vr_kind row)} \<and> xp_content_hash xp \<in> {None, Some (vr_content_hash row)}
     \<and> (\<exists>org creator created_at at0. governance_of (vr_payload row) = Some (org, creator, created_at)
          \<and> xp_organization_id xp \<in> {None, Some org} \<and> parse_instant created_at = Some at0
          \<and> ?es \<noteq> [] \<and> created_valid row creator at0 created
          \<and> (if xp_status xp = ''DRAFT'' then length ?es = 1 \<and> approved = [] \<and> vr_approved_by row = None \<and> vr_approved_at row = None
              else approved_valid row creator ?es created approved))" (is "?lhs1 \<longleftrightarrow> ?rhs1")
  proof (cases "governance_of (vr_payload row)")
    case (Some g)
    obtain org creator created_at where g: "g = (org, creator, created_at)" by (cases g)
    show "?lhs1 \<longleftrightarrow> ?rhs1"
      unfolding require_controlled_version_integrity_def s bindR_Inr Let_def created_def [symmetric] approved_def [symmetric] v
      by (cases "parse_instant created_at"; simp add: Some g parse_governance_timestamp_def bindR_eq_Inr if_Inl_eq)
        (intro conjI impI iffI; elim conjE; assumption)
  qed (simp add: require_controlled_version_integrity_def bindR_eq_Inr)
  have nonempty: "length ?es = 1 \<Longrightarrow> ?es \<noteq> []" "approved_valid row creator ?es created approved \<Longrightarrow> ?es \<noteq> []" for creator
    by (auto simp: approved_valid_def)
  have lifecycle: "(?es \<noteq> [] \<and> created_valid row creator at0 created
      \<and> (if xp_status xp = ''DRAFT'' then length ?es = 1 \<and> approved = [] \<and> vr_approved_by row = None \<and> vr_approved_at row = None
          else approved_valid row creator ?es created approved))
    \<longleftrightarrow> history_verifies row creator at0 ?es" if "vr_status row = xp_status xp" for creator at0
  proof (cases "xp_status xp = ''DRAFT''")
    case True
    then show ?thesis unfolding history_verifies_def that using draft [of creator at0] nonempty(1) by auto
  next
    case False
    then show ?thesis unfolding history_verifies_def that using full [of creator at0] nonempty(2) by auto
  qed
  show ?thesis unfolding unfolded version_verified_def using lifecycle by (simp only: conj_assoc [symmetric] cong: conj_cong)
qed

subsection \<open>Every stored version verifies\<close>

abbreviation version_events :: "string \<Rightarrow> governance_store \<Rightarrow> audit_event list" where
  "version_events i gs \<equiv> same_aggregate ''controlled_version'' i (tb_events (gs_audit gs))"

abbreviation binding_events :: "version_binding \<Rightarrow> governance_store \<Rightarrow> audit_event list" where
  "binding_events b gs \<equiv> filter (binds_purpose (vb_purpose b)) (same_aggregate ''project'' (vb_project_id b) (tb_events (gs_audit gs)))"

definition bound_version :: "governance_store \<Rightarrow> version_binding \<Rightarrow> controlled_version_row \<Rightarrow> bool" where
  "bound_version gs b row \<longleftrightarrow> row \<in> set (gs_versions gs) \<and> vr_id row = vb_controlled_version_id b \<and> vr_status row = ''APPROVED''
     \<and> vb_bound_by b \<noteq> [] \<and> binding_valid row b (vb_purpose b) (binding_events b gs)"

definition governance_inv :: "crypto \<Rightarrow> (string \<Rightarrow> string option) \<Rightarrow> int \<Rightarrow> governance_store \<Rightarrow> bool" where
  "governance_inv C K T gs \<longleftrightarrow> audit_inv C K (gs_audit gs) \<and> distinct (map vr_id (gs_versions gs))
     \<and> (\<forall>row \<in> set (gs_versions gs). vr_status row \<in> {''DRAFT'', ''APPROVED''}
          \<and> version_verified C (version_events (vr_id row) gs) row (any_approved\<lparr>xp_status := vr_status row\<rparr>))
     \<and> (\<forall>e \<in> set (tb_events (gs_audit gs)). av_aggregate_type e = ''controlled_version'' \<longrightarrow>
          av_aggregate_id e \<in> vr_id ` set (gs_versions gs) \<and> av_occurred_at e \<le> T)
     \<and> distinct (map (\<lambda>b. (vb_project_id b, vb_purpose b)) (gs_bindings gs))
     \<and> (\<forall>b \<in> set (gs_bindings gs). \<exists>row. bound_version gs b row)"

text \<open>Events other services record: not about a controlled version, and no binding of a project.\<close>

definition unrelated :: "audit_draft \<Rightarrow> bool" where
  "unrelated d \<longleftrightarrow> av_aggregate_type d \<noteq> ''controlled_version''
     \<and> (av_aggregate_type d = ''project'' \<longrightarrow> av_event_type d \<noteq> ''controlled_version_bound'')"

definition clocked :: "(string \<Rightarrow> string option) \<Rightarrow> int \<Rightarrow> governance_settings \<Rightarrow> actor \<Rightarrow> stamps \<Rightarrow> bool" where
  "clocked K T s a sp \<longleftrightarrow> audit_verification_keyring (audit_settings.truncate s) = K \<and> T \<le> sp_now sp \<and> sp_now sp \<le> sp_event_now sp
     \<and> in_range (sp_now sp) \<and> actor_id a \<noteq> [] \<and> actor_organization_id a \<noteq> []"

text \<open>Stores reached by the operations, with clocks that do not run backwards, the events of other services and
  any change of the projects.\<close>

inductive governance_reachable :: "governance_env \<Rightarrow> (string \<Rightarrow> string option) \<Rightarrow> int \<Rightarrow> governance_store \<Rightarrow> bool" for E K where
  empty: "governance_reachable E K T \<lparr>gs_projects = st, gs_versions = [], gs_bindings = [], gs_adapters = [],
     gs_audit = \<lparr>tb_events = [], tb_outbox = []\<rparr>\<rparr>"
| create: "governance_reachable E K T gs \<Longrightarrow> clocked K T s a sp
    \<Longrightarrow> create_version E s a kind label payload request_id reason sp gs = Inr (v, gs') \<Longrightarrow> governance_reachable E K (sp_event_now sp) gs'"
| approve: "governance_reachable E K T gs \<Longrightarrow> clocked K T s a sp
    \<Longrightarrow> approve_version E s a version_id request_id reason sp gs = Inr (v, gs') \<Longrightarrow> governance_reachable E K (sp_event_now sp) gs'"
| bind: "governance_reachable E K T gs \<Longrightarrow> clocked K T s a sp
    \<Longrightarrow> bind_to_project E s cfg a project_id version_id purpose request_id reason today updated_at sp gs = Inr gs'
    \<Longrightarrow> governance_reachable E K (sp_event_now sp) gs'"
| activate: "governance_reachable E K T gs \<Longrightarrow> clocked K T s a sp
    \<Longrightarrow> activate_adapter_qualification E s a version_id request_id reason sp gs = Inr (q, gs') \<Longrightarrow> governance_reachable E K (sp_event_now sp) gs'"
| event: "governance_reachable E K T gs \<Longrightarrow> audit_verification_keyring s' = K \<Longrightarrow> unrelated d
    \<Longrightarrow> record_audit (ge_crypto E) s' a d uuid now (gs_audit gs) = Inr (e, t') \<Longrightarrow> governance_reachable E K T (gs\<lparr>gs_audit := t'\<rparr>)"
| projects: "governance_reachable E K T gs \<Longrightarrow> governance_reachable E K T (gs\<lparr>gs_projects := st\<rparr>)"

lemma keyring_has_key: "audit_verification_keyring s (audit_signing_key_id s) = Some (audit_signing_key s)"
  by (simp add: audit_verification_keyring_def)

lemma record_governance_event_Inr:
  assumes "record_governance_event E s a ty i et rid reason payload sp gs = Inr gs'" "audit_inv (ge_crypto E) K (gs_audit gs)"
    "audit_verification_keyring (audit_settings.truncate s) = K"
  obtains t' e where "gs' = gs\<lparr>gs_audit := t'\<rparr>" "audit_inv (ge_crypto E) K t'" "tb_events t' = tb_events (gs_audit gs) @ [e]"
    "av_event_type e = et" "av_actor_id e = actor_id a" "av_actor_roles e = sorted_list_of_fset (ActorRole_value |`| actor_roles a)"
    "av_occurred_at e = sp_event_now sp" "av_aggregate_type e = ty" "av_aggregate_id e = i"
    "canonical_data (PDict payload) = Inr (PDict (av_payload e))" "av_reason e = reason"
proof -
  let ?d = "event_draft a ty i et rid reason payload (sp_event_uuid sp) (sp_event_now sp)"
  obtain e0 t' where r: "record_audit (ge_crypto E) (audit_settings.truncate s) a ?d (sp_outbox_uuid sp) (sp_outbox_now sp) (gs_audit gs) = Inr (e0, t')"
    "gs' = gs\<lparr>gs_audit := t'\<rparr>" using assms(1) by (auto simp: record_governance_event_def bindR_eq_Inr)
  have inv: "audit_inv (ge_crypto E) K t'"
    using audit_inv_step [OF assms(2) r(1)] keyring_has_key [of "audit_settings.truncate s"] assms(3) by simp
  show thesis
  proof (rule record_audit_row [OF r(1)])
    fix e
    assume "tb_events t' = tb_events (gs_audit gs) @ [e]" "av_event_type e = av_event_type ?d" "av_actor_id e = av_actor_id ?d"
      "av_actor_roles e = av_actor_roles ?d" "av_reason e = av_reason ?d" "av_occurred_at e = av_occurred_at ?d"
      "av_aggregate_type e = av_aggregate_type ?d" "av_aggregate_id e = av_aggregate_id ?d"
      "canonical_data (PDict (av_payload ?d)) = Inr (PDict (av_payload e))"
    with r(2) inv show thesis by (intro that [of t' e]) (simp_all add: event_draft_def)
  qed
qed

lemma same_aggregate_snoc:
  "same_aggregate ty i (rows @ [e]) = same_aggregate ty i rows @ (if av_aggregate_type e = ty \<and> av_aggregate_id e = i then [e] else [])"
  by (simp add: same_aggregate_def)

text \<open>An appended event that concerns neither versions nor bindings.\<close>

lemma governance_inv_append:
  assumes inv: "governance_inv C K T gs" and t: "audit_inv C K t'" "tb_events t' = tb_events (gs_audit gs) @ [e]" and "T \<le> T'"
    and e: "av_aggregate_type e \<noteq> ''controlled_version''"
      "av_aggregate_type e = ''project'' \<Longrightarrow> av_event_type e \<noteq> ''controlled_version_bound''"
  shows "governance_inv C K T' (gs\<lparr>gs_audit := t', gs_projects := st, gs_adapters := qs\<rparr>)"
proof -
  let ?gs = "gs\<lparr>gs_audit := t', gs_projects := st, gs_adapters := qs\<rparr>"
  have v: "version_events i ?gs = version_events i gs" for i using t(2) e(1) by (simp add: same_aggregate_snoc)
  have "binding_events b ?gs = binding_events b gs" for b using t(2) e(2) by (auto simp: same_aggregate_snoc binds_purpose_def)
  then have "bound_version ?gs b row = bound_version gs b row" for b row by (simp add: bound_version_def)
  with v t e(1) inv \<open>T \<le> T'\<close> show ?thesis by (auto simp: governance_inv_def)
qed

lemma version_event_stored:
  "governance_inv C K T gs \<Longrightarrow> e \<in> set (tb_events (gs_audit gs)) \<Longrightarrow> av_aggregate_type e = ''controlled_version''
    \<Longrightarrow> av_aggregate_id e \<in> vr_id ` set (gs_versions gs) \<and> av_occurred_at e \<le> T"
  by (simp add: governance_inv_def)

lemma governance_inv_mono: "governance_inv C K T gs \<Longrightarrow> T \<le> T' \<Longrightarrow> governance_inv C K T' gs"
  by (fastforce simp: governance_inv_def)

lemma governance_of_created:
  "actor_id a \<noteq> [] \<Longrightarrow> actor_organization_id a \<noteq> []
    \<Longrightarrow> governance_of (governed_payload a now payload) = Some (actor_organization_id a, actor_id a, isoformat now)"
  by (simp add: governance_of_def governed_payload_def AList.update_conv text_item_def)

lemma governance_inv_create:
  assumes inv: "governance_inv (ge_crypto E) K T gs" and c: "clocked K T s a sp"
    and r: "create_version E s a kind label payload request_id reason sp gs = Inr (v, gs')"
  shows "governance_inv (ge_crypto E) K (sp_event_now sp) gs'"
proof -
  let ?C = "ge_crypto E"
  define governed where "governed = governed_payload a (sp_now sp) payload"
  obtain h gs1 where owner: "require_any a (controlled_version_owner_roles kind) = Inr ()"
    and h: "content_hash ?C (version_value kind label governed) = Inr h"
    and ins: "insert_version \<lparr>vr_id = ''version-'' @ sp_uuid sp, vr_kind = kind, vr_version_label = label, vr_content_hash = h,
             vr_status = ''DRAFT'', vr_payload = governed, vr_approved_by = None, vr_approved_at = None\<rparr> gs = Inr gs1"
    and rec: "record_governance_event E s a ''controlled_version'' (''version-'' @ sp_uuid sp) ''controlled_version_created'' request_id reason
         [(''kind'', PStr kind), (''version_label'', PStr label), (''content_hash'', PStr h)] sp gs1 = Inr gs'"
    using r by (auto simp: create_version_def bindR_eq_Inr Let_def created_payload_def governed_def split: if_splits)
  define row where "row = \<lparr>vr_id = ''version-'' @ sp_uuid sp, vr_kind = kind, vr_version_label = label, vr_content_hash = h,
             vr_status = ''DRAFT'', vr_payload = governed, vr_approved_by = None, vr_approved_at = None\<rparr>"
  have gs1: "gs1 = gs\<lparr>gs_versions := gs_versions gs @ [row]\<rparr>" and fresh: "vr_id row \<notin> vr_id ` set (gs_versions gs)"
    using ins by (auto simp: insert_version_def list_ex_iff row_def split: if_splits)
  have k: "audit_verification_keyring (audit_settings.truncate s) = K" and times: "T \<le> sp_now sp" "sp_now sp \<le> sp_event_now sp"
    "in_range (sp_now sp)" "actor_id a \<noteq> []" "actor_organization_id a \<noteq> []" using c by (auto simp: clocked_def)
  have "audit_inv ?C K (gs_audit gs1)" using inv by (simp add: governance_inv_def gs1)
  from record_governance_event_Inr [OF rec this k] obtain t' e where e: "gs' = gs1\<lparr>gs_audit := t'\<rparr>" "audit_inv ?C K t'"
    "tb_events t' = tb_events (gs_audit gs1) @ [e]" "av_event_type e = ''controlled_version_created''" "av_actor_id e = actor_id a"
    "av_actor_roles e = sorted_list_of_fset (ActorRole_value |`| actor_roles a)"
    "av_occurred_at e = sp_event_now sp" "av_aggregate_type e = ''controlled_version''" "av_aggregate_id e = ''version-'' @ sp_uuid sp"
    "canonical_data (PDict [(''kind'', PStr kind), (''version_label'', PStr label), (''content_hash'', PStr h)]) = Inr (PDict (av_payload e))"
    by metis
  have "same_dict (av_payload e) (created_payload row)"
    using recorded_dict [OF _ _ e(10)] by (simp add: created_payload_def row_def)
  then have created: "created_event row (actor_id a) (sp_now sp) e"
    using e(4-7) times recorded_by_owner [OF owner e(6)] by (simp add: created_event_def row_def)
  have none: "version_events (vr_id row) gs = []"
    using version_event_stored [OF inv] fresh unfolding same_aggregate_def filter_empty_conv by metis
  then have "version_events (vr_id row) gs' = [e]" using e by (simp add: gs1 same_aggregate_snoc row_def)
  moreover have "governance_of (vr_payload row) = Some (actor_organization_id a, actor_id a, isoformat (sp_now sp))"
    using times by (simp add: row_def governed_def governance_of_created)
  ultimately have new: "version_verified ?C (version_events (vr_id row) gs') row (any_approved\<lparr>xp_status := ''DRAFT''\<rparr>)"
    using created h instant_reads_back(2) [OF times(3)]
    by (auto simp: version_verified_def any_approved_def history_verifies_def) (simp_all add: row_def)
  have old: "version_events (vr_id x) gs' = version_events (vr_id x) gs" if "x \<in> set (gs_versions gs)" for x
    using that e fresh by (auto simp: gs1 same_aggregate_snoc row_def image_iff)
  have "binding_events b gs' = binding_events b gs" for b using e by (simp add: gs1 same_aggregate_snoc)
  then have "bound_version gs b x \<Longrightarrow> bound_version gs' b x" for b x using e(1) by (simp add: bound_version_def gs1)
  then have "\<forall>b \<in> set (gs_bindings gs'). \<exists>x. bound_version gs' b x" using inv e(1) by (fastforce simp: governance_inv_def gs1)
  moreover have "\<forall>x \<in> set (gs_versions gs'). vr_status x \<in> {''DRAFT'', ''APPROVED''}
      \<and> version_verified ?C (version_events (vr_id x) gs') x (any_approved\<lparr>xp_status := vr_status x\<rparr>)"
    using inv new old e(1) by (auto simp: governance_inv_def gs1) (simp_all add: row_def)
  moreover have "\<forall>x \<in> set (tb_events (gs_audit gs')). av_aggregate_type x = ''controlled_version'' \<longrightarrow>
          av_aggregate_id x \<in> vr_id ` set (gs_versions gs') \<and> av_occurred_at x \<le> sp_event_now sp"
    using inv e times(1,2) by (fastforce simp: governance_inv_def gs1 row_def)
  moreover have "distinct (map vr_id (gs_versions gs'))" using inv e(1) fresh by (simp add: governance_inv_def gs1)
  ultimately show ?thesis using inv e(1,2) by (simp add: governance_inv_def gs1)
qed

lemma find_version_Inr: "find_version gs i = Inr row \<Longrightarrow> row \<in> set (gs_versions gs) \<and> vr_id row = i"
  by (auto simp: find_version_def dest: find_SomeD split: option.splits)

lemma version_rows_unique:
  "governance_inv C K T gs \<Longrightarrow> x \<in> set (gs_versions gs) \<Longrightarrow> y \<in> set (gs_versions gs) \<Longrightarrow> vr_id x = vr_id y \<Longrightarrow> x = y"
  by (auto simp: governance_inv_def distinct_map inj_on_def)

lemma governance_inv_approve:
  assumes inv: "governance_inv (ge_crypto E) K T gs" and c: "clocked K T s a sp"
    and r: "approve_version E s a version_id request_id reason sp gs = Inr (v, gs')"
  shows "governance_inv (ge_crypto E) K (sp_event_now sp) gs'"
proof -
  let ?C = "ge_crypto E"
  have k: "audit_verification_keyring (audit_settings.truncate s) = K" and times: "T \<le> sp_now sp" "sp_now sp \<le> sp_event_now sp"
    "actor_id a \<noteq> []" using c by (auto simp: clocked_def)
  have ai: "audit_inv ?C K (gs_audit gs)" using inv by (simp add: governance_inv_def)
  obtain row0 where row0: "row0 \<in> set (gs_versions gs)" "vr_id row0 = version_id"
    and owner: "require_any a (controlled_version_owner_roles (vr_kind row0)) = Inr ()"
    and draft: "require_controlled_version_integrity ?C K (tb_events (gs_audit gs)) row0
       (any_approved\<lparr>xp_organization_id := Some (actor_organization_id a), xp_status := ''DRAFT''\<rparr>) = Inr ()"
    and checks: "approval_checks E s a row0 = Inr ()"
    and rec: "record_governance_event E s a ''controlled_version'' (vr_id row0) ''controlled_version_approved'' request_id reason
       (approved_payload row0) sp (put_version (row0\<lparr>vr_status := ''APPROVED'', vr_approved_by := Some (actor_id a),
         vr_approved_at := Some (sp_now sp)\<rparr>) gs) = Inr gs'"
    using r k by (auto simp: approve_version_def bindR_eq_Inr Let_def approved_payload_def dest!: find_version_Inr)
  define row where "row = row0\<lparr>vr_status := ''APPROVED'', vr_approved_by := Some (actor_id a), vr_approved_at := Some (sp_now sp)\<rparr>"
  define gs1 where "gs1 = put_version row gs"
  have row: "vr_id row = vr_id row0" "vr_kind row = vr_kind row0" "vr_version_label row = vr_version_label row0"
    "vr_content_hash row = vr_content_hash row0" "vr_payload row = vr_payload row0" "vr_status row = ''APPROVED''"
    "vr_approved_by row = Some (actor_id a)" "vr_approved_at row = Some (sp_now sp)" by (simp_all add: row_def)
  obtain org creator created at0 where g: "governance_of (vr_payload row0) = Some (org, creator, created)" "parse_instant created = Some at0"
    and hist: "history_verifies row0 creator at0 (version_events (vr_id row0) gs)"
    and h: "content_hash ?C (version_value (vr_kind row0) (vr_version_label row0) (vr_payload row0)) = Inr (vr_content_hash row0)"
    and st: "vr_status row0 = ''DRAFT''"
    using draft unfolding require_integrity_iff [OF ai, of "any_approved\<lparr>xp_organization_id := Some (actor_organization_id a), xp_status := ''DRAFT''\<rparr>", simplified]
    by (auto simp: version_verified_def)
  then obtain e0 where e0: "version_events (vr_id row0) gs = [e0]" "created_event row0 creator at0 e0" by (auto simp: history_verifies_def)
  have "e0 \<in> set (version_events (vr_id row0) gs)" by (simp add: e0(1))
  then have "av_occurred_at e0 \<le> T" using version_event_stored [OF inv] by (auto simp: same_aggregate_def)
  then have before: "av_occurred_at e0 \<le> sp_now sp" using times(1) by simp
  have second: "creator \<noteq> actor_id a" using checks g(1) by (auto simp: approval_checks_def)
  have "audit_inv ?C K (gs_audit gs1)" using ai by (simp add: gs1_def put_version_def)
  from record_governance_event_Inr [OF rec [folded row_def, folded gs1_def] this k] obtain t' e where e: "gs' = gs1\<lparr>gs_audit := t'\<rparr>" "audit_inv ?C K t'"
    "tb_events t' = tb_events (gs_audit gs1) @ [e]" "av_event_type e = ''controlled_version_approved''" "av_actor_id e = actor_id a"
    "av_actor_roles e = sorted_list_of_fset (ActorRole_value |`| actor_roles a)"
    "av_occurred_at e = sp_event_now sp" "av_aggregate_type e = ''controlled_version''" "av_aggregate_id e = vr_id row0"
    "canonical_data (PDict (approved_payload row0)) = Inr (PDict (av_payload e))"
    by metis
  have gs1: "gs_audit gs1 = gs_audit gs" "gs_bindings gs1 = gs_bindings gs" "map vr_id (gs_versions gs1) = map vr_id (gs_versions gs)"
    by (simp_all add: gs1_def put_version_def comp_def row(1) cong: map_cong)
  have members: "x \<in> set (gs_versions gs1) \<longleftrightarrow> x = row \<or> (x \<in> set (gs_versions gs) \<and> vr_id x \<noteq> vr_id row0)" for x
    using row0(1) by (auto simp: gs1_def put_version_def row(1))
  have "same_dict (av_payload e) (approved_payload row)"
    using recorded_dict [OF _ _ e(10)] by (simp add: approved_payload_def row)
  then have "approved_event row creator e0 e"
    using e(4-7) times second before recorded_by_owner [OF owner e(6)] by (simp add: approved_event_def row)
  moreover have "created_event row creator at0 e0" using e0(2) by (simp add: created_event_def created_payload_def row)
  moreover have "version_events (vr_id row) gs' = [e0, e]" using e e0(1) by (simp add: gs1 same_aggregate_snoc row)
  ultimately have "history_verifies row creator at0 (version_events (vr_id row) gs')" unfolding history_verifies_def by (auto simp: row)
  then have new: "version_verified ?C (version_events (vr_id row) gs') row (any_approved\<lparr>xp_status := ''APPROVED''\<rparr>)"
    unfolding version_verified_def using g h by (simp add: any_approved_def row)
  have old: "version_events (vr_id x) gs' = version_events (vr_id x) gs" if "vr_id x \<noteq> vr_id row0" for x
    using that e by (auto simp: gs1 same_aggregate_snoc)
  have "binding_events b gs' = binding_events b gs" for b using e by (simp add: gs1 same_aggregate_snoc)
  moreover have "x \<in> set (gs_versions gs) \<Longrightarrow> vr_status x = ''APPROVED'' \<Longrightarrow> x \<in> set (gs_versions gs1)" for x
    using version_rows_unique [OF inv _ row0(1), of x] st by (auto simp: members)
  ultimately have "bound_version gs b x \<Longrightarrow> bound_version gs' b x" for b x using e(1) by (simp add: bound_version_def)
  then have "\<forall>b \<in> set (gs_bindings gs'). \<exists>x. bound_version gs' b x" using inv e(1) by (fastforce simp: governance_inv_def gs1)
  moreover have "\<forall>x \<in> set (gs_versions gs'). vr_status x \<in> {''DRAFT'', ''APPROVED''}
      \<and> version_verified ?C (version_events (vr_id x) gs') x (any_approved\<lparr>xp_status := vr_status x\<rparr>)"
  proof
    fix x
    assume "x \<in> set (gs_versions gs')"
    then consider "x = row" | "x \<in> set (gs_versions gs)" "vr_id x \<noteq> vr_id row0" using members e(1) by auto
    then show "vr_status x \<in> {''DRAFT'', ''APPROVED''} \<and> version_verified ?C (version_events (vr_id x) gs') x (any_approved\<lparr>xp_status := vr_status x\<rparr>)"
    proof cases
      case 1
      then show ?thesis using new row(6) by simp
    next
      case 2
      then show ?thesis using inv old [OF 2(2)] by (simp add: governance_inv_def)
    qed
  qed
  moreover have ids: "vr_id ` set (gs_versions gs') = vr_id ` set (gs_versions gs)" using gs1(3) e(1)
    by (metis (no_types, lifting) governance_store.select_convs(2) governance_store.surjective governance_store.update_convs(5) set_map)
  moreover have "\<forall>x \<in> set (tb_events (gs_audit gs')). av_aggregate_type x = ''controlled_version'' \<longrightarrow>
          av_aggregate_id x \<in> vr_id ` set (gs_versions gs') \<and> av_occurred_at x \<le> sp_event_now sp"
    unfolding ids using version_event_stored [OF inv] e row0 times(1,2) by (force simp: gs1)
  ultimately show ?thesis using inv e(1,2) gs1 by (simp add: governance_inv_def)
qed

lemma governance_inv_bind:
  assumes inv: "governance_inv (ge_crypto E) K T gs" and c: "clocked K T s a sp"
    and r: "bind_to_project E s cfg a project_id version_id purpose request_id reason today updated_at sp gs = Inr gs'"
  shows "governance_inv (ge_crypto E) K (sp_event_now sp) gs'"
proof -
  let ?C = "ge_crypto E"
  have k: "audit_verification_keyring (audit_settings.truncate s) = K" and times: "T \<le> sp_now sp" "sp_now sp \<le> sp_event_now sp"
    "actor_id a \<noteq> []" using c by (auto simp: clocked_def)
  have ai: "audit_inv ?C K (gs_audit gs)" using inv by (simp add: governance_inv_def)
  obtain row p bindings where row: "row \<in> set (gs_versions gs)"
    and owner: "require_any a (controlled_version_owner_roles (vr_kind row)) = Inr ()"
    and ok: "require_controlled_version_integrity ?C K (tb_events (gs_audit gs)) row
       (any_approved\<lparr>xp_organization_id := Some (actor_organization_id a)\<rparr>) = Inr ()"
    and b: "bind_version a p row purpose (sp_now sp) (gs_bindings gs) = Inr bindings"
    and rec: "record_governance_event E s a ''project'' (pr_id p) ''controlled_version_bound'' request_id reason (bound_payload row purpose) sp
         (gs\<lparr>gs_bindings := bindings,
             gs_projects := put_project (p\<lparr>pr_row_version := pr_row_version p + 1, pr_updated_at := updated_at\<rparr>) (gs_projects gs)\<rparr>) = Inr gs'"
    using r k by (auto simp: bind_to_project_def bindR_eq_Inr dest!: find_version_Inr split: if_splits)
  define new where "new = \<lparr>vb_project_id = pr_id p, vb_controlled_version_id = vr_id row, vb_purpose = purpose,
        vb_bound_by = actor_id a, vb_bound_at = sp_now sp\<rparr>"
  define gs1 where "gs1 = gs\<lparr>gs_bindings := bindings,
             gs_projects := put_project (p\<lparr>pr_row_version := pr_row_version p + 1, pr_updated_at := updated_at\<rparr>) (gs_projects gs)\<rparr>"
  have bindings: "bindings = filter (\<lambda>b. \<not> (vb_project_id b = pr_id p \<and> vb_purpose b = purpose)) (gs_bindings gs) @ [new]"
    using b by (auto simp: bind_version_def Let_def new_def split: if_splits)
  have gs1: "gs_audit gs1 = gs_audit gs" "gs_versions gs1 = gs_versions gs" "gs_bindings gs1 = bindings" by (simp_all add: gs1_def)
  have st: "vr_status row = ''APPROVED''"
    using ok require_integrity_iff [OF ai, of "any_approved\<lparr>xp_organization_id := Some (actor_organization_id a)\<rparr>" row]
    by (auto simp: version_verified_def any_approved_def)
  from record_governance_event_Inr [OF rec [folded gs1_def] _ k] ai obtain t' e where e: "gs' = gs1\<lparr>gs_audit := t'\<rparr>" "audit_inv ?C K t'"
    "tb_events t' = tb_events (gs_audit gs) @ [e]" "av_event_type e = ''controlled_version_bound''" "av_actor_id e = actor_id a"
    "av_actor_roles e = sorted_list_of_fset (ActorRole_value |`| actor_roles a)"
    "av_occurred_at e = sp_event_now sp" "av_aggregate_type e = ''project''" "av_aggregate_id e = pr_id p"
    "canonical_data (PDict (bound_payload row purpose)) = Inr (PDict (av_payload e))"
    unfolding gs1(1) by metis
  have payload: "same_dict (av_payload e) (bound_payload row purpose)"
    using recorded_dict [OF _ _ e(10)] by (simp add: bound_payload_def)
  then have purpose: "map_of (av_payload e) ''purpose'' = Some (PStr purpose)" by (simp add: same_dict_def bound_payload_def)
  then have "binding_events new gs' = binding_events new gs @ [e]" using e by (simp add: same_aggregate_snoc new_def binds_purpose_def)
  then have valid: "bound_version gs' new row"
    using row st times e(1,5,7) gs1 payload recorded_by_owner [OF owner e(6)]
    by (simp add: bound_version_def binding_valid_def Let_def new_def)
  have v: "version_events i gs' = version_events i gs" for i using e by (simp add: same_aggregate_snoc)
  have "binding_events b gs' = binding_events b gs" if "\<not> (vb_project_id b = pr_id p \<and> vb_purpose b = purpose)" for b
    using that e purpose by (auto simp: same_aggregate_snoc binds_purpose_def)
  then have kept: "bound_version gs b x \<Longrightarrow> bound_version gs' b x" if "\<not> (vb_project_id b = pr_id p \<and> vb_purpose b = purpose)" for b x
    using that e(1) gs1(2) by (simp add: bound_version_def)
  have "\<forall>b \<in> set (gs_bindings gs'). \<exists>x. bound_version gs' b x"
  proof
    fix b
    assume "b \<in> set (gs_bindings gs')"
    then consider "b = new" | "b \<in> set (gs_bindings gs)" "\<not> (vb_project_id b = pr_id p \<and> vb_purpose b = purpose)"
      using e(1) gs1(3) bindings by auto
    then show "\<exists>x. bound_version gs' b x"
    proof cases
      case 2
      moreover obtain x where "bound_version gs b x" using inv 2(1) by (auto simp: governance_inv_def)
      ultimately show ?thesis using kept by blast
    qed (use valid in blast)
  qed
  moreover have "distinct (map (\<lambda>b. (vb_project_id b, vb_purpose b)) (gs_bindings gs'))"
  proof -
    have "distinct (map (\<lambda>b. (vb_project_id b, vb_purpose b)) (gs_bindings gs))" using inv by (simp add: governance_inv_def)
    then have "distinct (map (\<lambda>b. (vb_project_id b, vb_purpose b)) (filter P (gs_bindings gs)))" for P by (rule distinct_map_filter)
    then show ?thesis using e(1) gs1(3) bindings by (auto simp: new_def)
  qed
  ultimately show ?thesis using inv e times gs1 v by (auto simp: governance_inv_def)
qed

lemma governance_inv_activate:
  assumes inv: "governance_inv (ge_crypto E) K T gs" and c: "clocked K T s a sp"
    and r: "activate_adapter_qualification E s a version_id request_id reason sp gs = Inr (q, gs')"
  shows "governance_inv (ge_crypto E) K (sp_event_now sp) gs'"
proof -
  have k: "audit_verification_keyring (audit_settings.truncate s) = K" and T: "T \<le> sp_event_now sp" using c by (auto simp: clocked_def)
  have "gs' = gs \<or> (\<exists>gs1 i payload. gs_audit gs1 = gs_audit gs \<and> gs1 = gs\<lparr>gs_adapters := gs_adapters gs1\<rparr>
      \<and> record_governance_event E s a ''adapter_qualification'' i ''adapter_qualification_activated'' request_id reason payload sp gs1 = Inr gs')"
    using r by (auto simp: activate_adapter_qualification_def bindR_eq_Inr Let_def insert_adapter_def split: if_splits option.splits)
  then show ?thesis
  proof (elim disjE exE conjE)
    assume "gs' = gs"
    then show ?thesis using governance_inv_mono [OF inv T] by simp
  next
    fix gs1 i payload
    assume gs1: "gs_audit gs1 = gs_audit gs" "gs1 = gs\<lparr>gs_adapters := gs_adapters gs1\<rparr>"
      and rec: "record_governance_event E s a ''adapter_qualification'' i ''adapter_qualification_activated'' request_id reason payload sp gs1 = Inr gs'"
    have "audit_inv (ge_crypto E) K (gs_audit gs1)" using inv gs1(1) by (simp add: governance_inv_def)
    from record_governance_event_Inr [OF rec this k] obtain t' e where e: "gs' = gs1\<lparr>gs_audit := t'\<rparr>" "audit_inv (ge_crypto E) K t'"
      "tb_events t' = tb_events (gs_audit gs1) @ [e]" "av_aggregate_type e = ''adapter_qualification''" by metis
    have "gs' = gs\<lparr>gs_audit := t', gs_projects := gs_projects gs, gs_adapters := gs_adapters gs1\<rparr>"
      using e(1) gs1(2) by (metis (no_types, lifting) governance_store.surjective governance_store.update_convs(1,4,5))
    then show ?thesis using governance_inv_append [OF inv e(2) _ T, where e = e and st = "gs_projects gs" and qs = "gs_adapters gs1"] e(3,4) gs1(1) by simp
  qed
qed

lemma governance_reachable_inv: "governance_reachable E K T gs \<Longrightarrow> governance_inv (ge_crypto E) K T gs"
proof (induction rule: governance_reachable.induct)
  case (empty T st)
  then show ?case by (simp add: governance_inv_def audit_inv_def same_aggregate_def verify_chain_def)
next
  case (create T gs s a sp kind label payload request_id reason v gs')
  then show ?case by (blast intro: governance_inv_create)
next
  case (approve T gs s a sp version_id request_id reason v gs')
  then show ?case by (blast intro: governance_inv_approve)
next
  case (bind T gs s a sp cfg project_id version_id purpose request_id reason today updated_at gs')
  then show ?case by (blast intro: governance_inv_bind)
next
  case (activate T gs s a sp version_id request_id reason q gs')
  then show ?case by (blast intro: governance_inv_activate)
next
  case (event T gs s' d a uuid now e t')
  have ai: "audit_inv (ge_crypto E) K (gs_audit gs)" using event.IH by (simp add: governance_inv_def)
  have t': "audit_inv (ge_crypto E) K t'"
    using audit_inv_step [OF ai event.hyps(4)] keyring_has_key [of s'] event.hyps(2) by simp
  show ?case
  proof (rule record_audit_row [OF event.hyps(4)])
    fix row
    assume row: "tb_events t' = tb_events (gs_audit gs) @ [row]" "av_event_type row = av_event_type d"
      "av_aggregate_type row = av_aggregate_type d"
    have "gs\<lparr>gs_audit := t'\<rparr> = gs\<lparr>gs_audit := t', gs_projects := gs_projects gs, gs_adapters := gs_adapters gs\<rparr>" by simp
    then show ?thesis
      using governance_inv_append [OF event.IH t' row(1) order_refl, where st = "gs_projects gs" and qs = "gs_adapters gs"] row(2,3) event.hyps(3)
      by (simp add: unrelated_def)
  qed
next
  case (projects T gs st)
  then show ?case by (simp add: governance_inv_def bound_version_def)
qed

lemma filter_single:
  "distinct xs \<Longrightarrow> x \<in> set xs \<Longrightarrow> (\<And>y. y \<in> set xs \<Longrightarrow> P y \<longleftrightarrow> y = x) \<Longrightarrow> filter P xs = [x]"
proof (induction xs)
  case (Cons a xs)
  then show ?case by (cases "x = a") (auto simp: filter_empty_conv)
qed simp

lemma bound_resolves:
  assumes inv: "governance_inv C K T gs" and b: "b \<in> set (gs_bindings gs)"
  obtains row org creator created where "row \<in> set (gs_versions gs)" "vr_id row = vb_controlled_version_id b"
    "governance_of (vr_payload row) = Some (org, creator, created)"
    "require_bound_controlled_version C K gs (vb_project_id b) org (vb_purpose b) (vr_kind row) (Some (vb_controlled_version_id b)) = Inr row"
proof -
  obtain row where row: "row \<in> set (gs_versions gs)" "vr_id row = vb_controlled_version_id b" "vr_status row = ''APPROVED''"
    "vb_bound_by b \<noteq> []" "binding_valid row b (vb_purpose b) (binding_events b gs)"
    using inv b by (auto simp: governance_inv_def bound_version_def)
  have ai: "audit_inv C K (gs_audit gs)" using inv by (simp add: governance_inv_def)
  have vv: "version_verified C (version_events (vr_id row) gs) row (any_approved\<lparr>xp_status := vr_status row\<rparr>)"
    using inv row(1) by (simp add: governance_inv_def)
  then obtain org creator created where g: "governance_of (vr_payload row) = Some (org, creator, created)"
    by (auto simp: version_verified_def)
  have ok: "require_controlled_version_integrity C K (tb_events (gs_audit gs)) row
      (any_approved\<lparr>xp_organization_id := Some org, xp_kind := Some (vr_kind row)\<rparr>) = Inr ()"
    using vv g row(3) require_integrity_iff [OF ai, of "any_approved\<lparr>xp_organization_id := Some org, xp_kind := Some (vr_kind row)\<rparr>" row]
    by (auto simp: version_verified_def any_approved_def)
  have only: "filter (\<lambda>x. vb_project_id x = vb_project_id b \<and> vb_purpose x = vb_purpose b) (gs_bindings gs) = [b]"
  proof -
    have "inj_on (\<lambda>b. (vb_project_id b, vb_purpose b)) (set (gs_bindings gs))" "distinct (gs_bindings gs)"
      using inv by (auto simp: governance_inv_def distinct_map)
    then show ?thesis using b by (intro filter_single) (auto simp: inj_on_def)
  qed
  have named: "vr_id y = vb_controlled_version_id b \<longleftrightarrow> y = row" if "y \<in> set (gs_versions gs)" for y
    using version_rows_unique [OF inv that row(1)] row(2) by metis
  have "distinct (gs_versions gs)" using inv by (simp add: governance_inv_def distinct_map)
  then have versions: "filter (\<lambda>v. vr_id v = vb_controlled_version_id b) (gs_versions gs) = [row]"
    using row(1) named by (rule filter_single)
  have "find (\<lambda>x. vb_project_id x = vb_project_id b \<and> vb_controlled_version_id x = vr_id row \<and> vb_purpose x = vb_purpose b) (gs_bindings gs) = Some b"
    (is "find ?P _ = _")
  proof (cases "find ?P (gs_bindings gs)")
    case None
    then show ?thesis using b row(2) by (auto simp: find_None_iff)
  next
    case (Some y)
    then have "y \<in> set (filter (\<lambda>x. vb_project_id x = vb_project_id b \<and> vb_purpose x = vb_purpose b) (gs_bindings gs))"
      by (auto dest: find_SomeD)
    then show ?thesis unfolding only using Some by simp
  qed
  moreover have v: "verify_chain C K (same_aggregate ''project'' (vb_project_id b) (tb_events (gs_audit gs))) = Inr True"
    using ai by (simp add: audit_inv_def)
  moreover have "same_aggregate ''project'' (vb_project_id b) (tb_events (gs_audit gs)) \<noteq> []"
    using row(5) by (auto simp: binding_valid_def)
  ultimately have "require_bound_controlled_version C K gs (vb_project_id b) org (vb_purpose b) (vr_kind row) (Some (vb_controlled_version_id b)) = Inr row"
    using row ok by (simp add: require_bound_controlled_version_def only versions stored_events_inv [OF ai] del: filter_filter)
  with row(1,2) g show ?thesis by (rule that)
qed

text \<open>C39. However versions are created, approved and bound by whatever actors, between the events of other services
  and with keys of one keyring and clocks that do not run backwards: every stored version verifies under its status,
  an approved one was approved by somebody other than its creator, and every binding of a project resolves to the
  version it names.\<close>

theorem governed_versions_verify:
  assumes "governance_reachable E K T gs"
  shows "(\<forall>row \<in> set (gs_versions gs).
        require_controlled_version_integrity (ge_crypto E) K (tb_events (gs_audit gs)) row (any_approved\<lparr>xp_status := vr_status row\<rparr>) = Inr ()
        \<and> (\<exists>org creator created. governance_of (vr_payload row) = Some (org, creator, created)
             \<and> vr_status row \<in> {''DRAFT'', ''APPROVED''} \<and> vr_approved_by row \<noteq> Some creator
             \<and> (vr_status row = ''APPROVED'' \<longleftrightarrow> vr_approved_by row \<noteq> None)))
    \<and> (\<forall>b \<in> set (gs_bindings gs). \<exists>row \<in> set (gs_versions gs). \<exists>org. vr_id row = vb_controlled_version_id b
        \<and> require_bound_controlled_version (ge_crypto E) K gs (vb_project_id b) org (vb_purpose b) (vr_kind row)
            (Some (vb_controlled_version_id b)) = Inr row)"
proof (intro conjI ballI)
  have inv: "governance_inv (ge_crypto E) K T gs" using assms by (rule governance_reachable_inv)
  then have ai: "audit_inv (ge_crypto E) K (gs_audit gs)" by (simp add: governance_inv_def)
  fix row
  assume row: "row \<in> set (gs_versions gs)"
  then have v: "vr_status row \<in> {''DRAFT'', ''APPROVED''}"
    "version_verified (ge_crypto E) (version_events (vr_id row) gs) row (any_approved\<lparr>xp_status := vr_status row\<rparr>)"
    using inv by (simp_all add: governance_inv_def)
  then show "require_controlled_version_integrity (ge_crypto E) K (tb_events (gs_audit gs)) row (any_approved\<lparr>xp_status := vr_status row\<rparr>) = Inr ()"
    using require_integrity_iff [OF ai, of "any_approved\<lparr>xp_status := vr_status row\<rparr>" row] by simp
  show "\<exists>org creator created. governance_of (vr_payload row) = Some (org, creator, created)
      \<and> vr_status row \<in> {''DRAFT'', ''APPROVED''} \<and> vr_approved_by row \<noteq> Some creator
      \<and> (vr_status row = ''APPROVED'' \<longleftrightarrow> vr_approved_by row \<noteq> None)"
    using v by (auto simp: version_verified_def history_verifies_def approved_event_def split: if_splits)
next
  fix b
  assume "b \<in> set (gs_bindings gs)"
  from bound_resolves [OF governance_reachable_inv [OF assms] this]
  show "\<exists>row \<in> set (gs_versions gs). \<exists>org. vr_id row = vb_controlled_version_id b
        \<and> require_bound_controlled_version (ge_crypto E) K gs (vb_project_id b) org (vb_purpose b) (vr_kind row)
            (Some (vb_controlled_version_id b)) = Inr row" by metis
qed

subsection \<open>The approval fixes the content\<close>




subsection \<open>Examples\<close>

definition ex_owner :: actor where
  "ex_owner = \<lparr>actor_id = ''ann'', actor_organization_id = ''org'', actor_roles = {|ActorRole.METHODOLOGY_OWNER|}\<rparr>"

definition ex_governance_settings :: governance_settings where
  "ex_governance_settings = audit_settings.extend ex_audit_settings \<lparr>application_build_reference = None\<rparr>"

definition ex_governance_env :: governance_env where
  "ex_governance_env = \<lparr>ge_crypto = ex_crypto, ge_read_profile = (\<lambda>_. Inl (ValueError [])), ge_qualification_valid = (\<lambda>_ _. False)\<rparr>"

definition ex_no_versions :: governance_store where
  "ex_no_versions = \<lparr>gs_projects = empty_store [], gs_versions = [], gs_bindings = [], gs_adapters = [],
     gs_audit = \<lparr>tb_events = [], tb_outbox = []\<rparr>\<rparr>"

definition ex_version_stamps :: stamps where
  "ex_version_stamps = \<lparr>sp_uuid = ''v'', sp_event_uuid = ''e'', sp_outbox_uuid = ''o'', sp_now = 0, sp_event_now = 1, sp_outbox_now = 1\<rparr>"

definition ex_created_version :: "(controlled_version \<times> governance_store) result" where
  "ex_created_version = create_version ex_governance_env ex_governance_settings ex_owner ''calculation_rules'' ''v1'' [(''rate'', PInt 3)]
     ''r1'' ''first rules'' ex_version_stamps ex_no_versions"

lemma ex_governance_truncate [simp]: "audit_settings.truncate ex_governance_settings = ex_audit_settings"
  by (simp add: ex_governance_settings_def audit_settings.defs ex_audit_settings_def)

lemma ex_created_version_ok: "\<exists>v gs. ex_created_version = Inr (v, gs) \<and> map vr_id (gs_versions gs) = [''version-v'']"
proof -
  let ?K = "audit_verification_keyring ex_audit_settings" and ?t = "\<lparr>tb_events = [], tb_outbox = []\<rparr>"
  define governed where "governed = governed_payload ex_owner 0 [(''rate'', PInt 3)]"
  have "\<not> contains_float (version_value ''calculation_rules'' ''v1'' governed)"
    by (simp add: version_value_def governed_def governed_payload_def)
  then obtain h where h: "content_hash ex_crypto (version_value ''calculation_rules'' ''v1'' governed) = Inr h"
    using content_hash_ok [of ex_crypto] unfolding is_ok_iff by blast
  define d where "d = event_draft ex_owner ''controlled_version'' ''version-v'' ''controlled_version_created'' ''r1'' ''first rules''
     [(''kind'', PStr ''calculation_rules''), (''version_label'', PStr ''v1''), (''content_hash'', PStr h)] ''e'' 1"
  have "audit_inv ex_crypto ?K ?t" by (rule audit_reachable_inv [OF audit_reachable.empty])
  then have "is_ok (record_audit ex_crypto ex_audit_settings ex_owner d ''o'' 1 ?t)"
    using record_audit_cases [of ex_crypto ?K ?t ex_audit_settings ex_owner d "''o''" 1] ex_hex_digests ex_key_id
    by (simp add: d_def event_draft_def already_recorded_def Let_def)
  then obtain e t where t: "record_audit ex_crypto ex_audit_settings ex_owner d ''o'' 1 ?t = Inr (e, t)"
    unfolding is_ok_iff by (metis surj_pair)
  have owner: "require_any ex_owner [ActorRole.METHODOLOGY_OWNER] = Inr ()" by code_simp
  show ?thesis
    using h t owner
    by (simp add: ex_created_version_def create_version_def controlled_version_owner_roles_def ex_governance_env_def ex_version_stamps_def
        governed_def [symmetric] insert_version_def ex_no_versions_def record_governance_event_def created_payload_def d_def [symmetric]
        domain_version_def approval_is_complete_def Let_def)
qed

theorem governed_versions_verify_witness:
  "\<exists>v gs row. ex_created_version = Inr (v, gs) \<and> gs_versions gs = [row] \<and> vr_approved_by row = None
     \<and> require_controlled_version_integrity ex_crypto (audit_verification_keyring ex_audit_settings) (tb_events (gs_audit gs)) row
         (any_approved\<lparr>xp_status := ''DRAFT''\<rparr>) = Inr ()"
proof -
  obtain v gs where r: "ex_created_version = Inr (v, gs)" "map vr_id (gs_versions gs) = [''version-v'']"
    using ex_created_version_ok by metis
  then obtain row where row: "gs_versions gs = [row]" by (cases "gs_versions gs") auto
  have "in_range 0" by (simp add: in_range_def)
  then have c: "clocked (audit_verification_keyring ex_audit_settings) 0 ex_governance_settings ex_owner ex_version_stamps"
    by (simp add: clocked_def ex_version_stamps_def ex_owner_def)
  have "governance_reachable ex_governance_env (audit_verification_keyring ex_audit_settings) 0 ex_no_versions"
    unfolding ex_no_versions_def by (rule governance_reachable.empty)
  from governed_versions_verify [OF governance_reachable.create [OF this c r(1) [unfolded ex_created_version_def]]]
  have "require_controlled_version_integrity ex_crypto (audit_verification_keyring ex_audit_settings) (tb_events (gs_audit gs)) row
         (any_approved\<lparr>xp_status := vr_status row\<rparr>) = Inr ()"
    by (simp add: row ex_governance_env_def)
  moreover have "vr_status row = ''DRAFT'' \<and> vr_approved_by row = None"
    using r(1) row by (auto simp: ex_created_version_def create_version_def insert_version_def ex_no_versions_def bindR_eq_Inr Let_def
        record_governance_event_def split: if_splits)
  ultimately show ?thesis using r(1) row by auto
qed








end
