(* ===== verification/Spec2Isabelle.thy ===== *)
theory Spec2Isabelle
  imports TG_Audit_Integrity TG_Documents TG_Requirements TG_Pricing TG_Commercial TG_Workflow TG_Risk TG_Approvals TG_Scenarios TG_Dispatch TG_Idempotency TG_Integration TG_Quantities TG_Actuals TG_Versions
begin

text \<open>Verification library.\<close>

end
